(* ===== verification/Prelude.thy ===== *)
theory Prelude
  imports Main "HOL-Library.AList" "HOL-Library.Word" "HOL-Library.Multiset"
begin

text \<open>
  Shared ground of the development: Go error values, Go maps, the linear searches and
  filters the program repeats for every kind of object, and the rule collections the
  component proofs use.

  Go's slices are lists (a nil slice and an empty one are the same list: the program
  never tells them apart).  Go's maps are association lists whose order is the order in
  which one \<open>range\<close> over the map happens to visit it; a statement about every list with
  distinct keys is a statement about every iteration order.
\<close>

section \<open>Rule collections\<close>

named_theorems go_defs \<open>definitions of small helpers that proofs unfold freely\<close>
named_theorems hoare_rules \<open>introduction rules of the effect logic\<close>

section \<open>Integers\<close>

type_synonym int32 = "32 word"

section \<open>Error values\<close>

text \<open>
  \<open>Errorf fmt args\<close> is \<open>fmt.Errorf\<close> without \<open>%w\<close>; \<open>Wrapf fmt args e\<close> is \<open>fmt.Errorf\<close> with
  one \<open>%w\<close> verb wrapping \<open>e\<close>; \<open>StatusError reason\<close> is a Kubernetes API status error;
  \<open>NotFoundError\<close> is govmomi's error of that name; \<open>ContextDone\<close> is the error of an expired
  or cancelled context; \<open>ForeignError\<close> is any other error of a library.  The rendered text
  is not computed: the format string and its arguments identify it.
\<close>

datatype goerror =
    Errorf string "goarg list"
  | Wrapf string "goarg list" goerror
  | StatusError string
  | NotFoundError
  | ContextDone
  | ForeignError string
and goarg =
    AStr string
  | AStrs "string list"
  | AInt int
  | ABool bool
  | AErr goerror

text \<open>\<open>apierrors.IsNotFound\<close> looks through wrapped errors for the status reason.\<close>

fun IsNotFound :: "goerror \<Rightarrow> bool" where
  "IsNotFound (StatusError reason) = (reason = ''NotFound'')"
| "IsNotFound (Wrapf f args e) = IsNotFound e"
| "IsNotFound _ = False"

type_synonym 'a res = "goerror + 'a"

definition is_ok :: "'a res \<Rightarrow> bool" where
  [go_defs]: "is_ok r = (case r of Inl _ \<Rightarrow> False | Inr _ \<Rightarrow> True)"

lemma is_ok_simps [simp]: "\<not> is_ok (Inl e)" "is_ok (Inr a)"
  by (simp_all add: is_ok_def)

section \<open>Go maps\<close>

type_synonym 'v gomap = "(string \<times> 'v) list"

abbreviation gm_lookup :: "'v gomap \<Rightarrow> string \<rightharpoonup> 'v" where
  "gm_lookup \<equiv> map_of"

text \<open>Reading a missing key of a \<open>map[string]string\<close> gives the zero value.\<close>

definition gm_get :: "string gomap \<Rightarrow> string \<Rightarrow> string" where
  "gm_get m k = (case map_of m k of None \<Rightarrow> '''' | Some v \<Rightarrow> v)"

abbreviation gm_put :: "string \<Rightarrow> 'v \<Rightarrow> 'v gomap \<Rightarrow> 'v gomap" where
  "gm_put \<equiv> AList.update"

definition gm_ok :: "'v gomap \<Rightarrow> bool" where
  "gm_ok m = distinct (map fst m)"

text \<open>The copy loop \<open>for k, v := range data { out[k] = copy(v) }\<close>.\<close>

definition gm_copy :: "'v gomap \<Rightarrow> 'v gomap" where
  "gm_copy data = fold (\<lambda>(k, v) out. gm_put k v out) data []"

lemma gm_ok_Nil [simp]: "gm_ok []"
  by (simp add: gm_ok_def)

lemma gm_ok_put [simp]: "gm_ok m \<Longrightarrow> gm_ok (gm_put k v m)"
  by (simp add: gm_ok_def distinct_update)

lemma gm_lookup_put: "gm_lookup (gm_put k v m) = (gm_lookup m)(k \<mapsto> v)"
  by (simp add: update_conv')

lemma gm_put_fresh: "k \<notin> fst ` set m \<Longrightarrow> gm_put k v m = m @ [(k, v)]"
  by (induction m) auto

lemma gm_copy_acc:
  assumes "distinct (map fst (acc @ data))"
  shows "fold (\<lambda>(k, v) out. gm_put k v out) data acc = acc @ data"
  using assms
proof (induction data arbitrary: acc)
  case Nil
  then show ?case by simp
next
  case (Cons p data)
  obtain k v where p: "p = (k, v)" by force
  with Cons.prems have "k \<notin> fst ` set acc" by force
  then have "gm_put k v acc = acc @ [(k, v)]" by (rule gm_put_fresh)
  then show ?case using Cons.IH [of "acc @ [(k, v)]"] Cons.prems p by simp
qed

lemma gm_copy_id: "gm_ok data \<Longrightarrow> gm_copy data = data"
  using gm_copy_acc [of "[]" data] by (simp add: gm_copy_def gm_ok_def)

lemma gm_get_put: "gm_get (gm_put k v m) k' = (if k' = k then v else gm_get m k')"
  by (simp add: gm_get_def gm_lookup_put)

lemma gm_keys_put: "fst ` set (gm_put k v m) = insert k (fst ` set m)"
  by (simp add: dom_update)

subsection \<open>The map interface\<close>

text \<open>
  What the clients of a Go map rely on: reading back a write, other keys left alone, and
  well-formedness kept.  The association lists above provide it.
\<close>

locale go_map =
  fixes lookup :: "'m \<Rightarrow> string \<Rightarrow> 'v option"
    and put :: "string \<Rightarrow> 'v \<Rightarrow> 'm \<Rightarrow> 'm"
    and ok :: "'m \<Rightarrow> bool"
  assumes lookup_put: "lookup (put k v m) = (lookup m)(k \<mapsto> v)"
    and ok_put: "ok m \<Longrightarrow> ok (put k v m)"
begin

lemma read_back: "lookup (put k v m) k = Some v"
  by (simp add: lookup_put)

lemma other_key: "k' \<noteq> k \<Longrightarrow> lookup (put k v m) k' = lookup m k'"
  by (simp add: lookup_put)

lemma put_twice: "lookup (put k v' (put k v m)) = lookup (put k v' m)"
  by (simp add: lookup_put)

lemma put_commute:
  "k \<noteq> k' \<Longrightarrow> lookup (put k v (put k' v' m)) = lookup (put k' v' (put k v m))"
  by (simp add: lookup_put fun_upd_twist)

lemma keys_grow: "dom (lookup (put k v m)) = insert k (dom (lookup m))"
  by (simp add: lookup_put)

end

interpretation gm: go_map "gm_lookup :: 'v gomap \<Rightarrow> string \<Rightarrow> 'v option" gm_put gm_ok
  by unfold_locales (simp_all add: gm_lookup_put)

section \<open>Keyed lists: search and removal\<close>

text \<open>
  The program finds and removes entries of API lists by a predicate on the entry.  The
  loops are the two functions below; every instance is an interpretation of one contract.
\<close>

fun find_first :: "('a \<Rightarrow> bool) \<Rightarrow> 'a list \<Rightarrow> 'a option" where
  "find_first p [] = None"
| "find_first p (x # xs) = (if p x then Some x else find_first p xs)"

fun drop_matching :: "('a \<Rightarrow> bool) \<Rightarrow> 'a list \<Rightarrow> 'a list" where
  "drop_matching p [] = []"
| "drop_matching p (x # xs) = (if p x then drop_matching p xs else x # drop_matching p xs)"

lemma find_first_eq_find: "find_first p xs = List.find p xs"
  by (induction xs) auto

lemma drop_matching_eq_filter: "drop_matching p xs = filter (\<lambda>x. \<not> p x) xs"
  by (induction xs) auto

lemma find_first_Some_iff:
  "find_first p xs = Some x \<longleftrightarrow>
     (\<exists>ys zs. xs = ys @ x # zs \<and> p x \<and> (\<forall>y \<in> set ys. \<not> p y))"
proof (induction xs)
  case Nil
  then show ?case by simp
next
  case (Cons a xs)
  show ?case
  proof (cases "p a")
    case True
    then show ?thesis
      by (force simp: Cons_eq_append_conv)
  next
    case False
    have "(\<exists>ys zs. a # xs = ys @ x # zs \<and> p x \<and> (\<forall>y\<in>set ys. \<not> p y)) \<longleftrightarrow>
      (\<exists>ys zs. xs = ys @ x # zs \<and> p x \<and> (\<forall>y\<in>set ys. \<not> p y))"
    proof
      assume "\<exists>ys zs. a # xs = ys @ x # zs \<and> p x \<and> (\<forall>y\<in>set ys. \<not> p y)"
      then obtain ys zs where *: "a # xs = ys @ x # zs" "p x" "\<forall>y\<in>set ys. \<not> p y" by blast
      with False obtain ys' where "ys = a # ys'" by (cases ys) auto
      with * show "\<exists>ys zs. xs = ys @ x # zs \<and> p x \<and> (\<forall>y\<in>set ys. \<not> p y)" by auto
    next
      assume "\<exists>ys zs. xs = ys @ x # zs \<and> p x \<and> (\<forall>y\<in>set ys. \<not> p y)"
      then obtain ys zs where "xs = ys @ x # zs" "p x" "\<forall>y\<in>set ys. \<not> p y" by blast
      with False have "a # xs = (a # ys) @ x # zs \<and> p x \<and> (\<forall>y\<in>set (a # ys). \<not> p y)" by simp
      then show "\<exists>ys zs. a # xs = ys @ x # zs \<and> p x \<and> (\<forall>y\<in>set ys. \<not> p y)" by blast
    qed
    with Cons False show ?thesis by simp
  qed
qed

lemma find_first_SomeD: "find_first p xs = Some x \<Longrightarrow> x \<in> set xs \<and> p x"
  by (auto simp: find_first_Some_iff)

lemma find_first_append:
  "find_first p (xs @ ys) = (case find_first p xs of None \<Rightarrow> find_first p ys | Some x \<Rightarrow> Some x)"
  by (induction xs) auto

lemma find_first_None_iff: "find_first p xs = None \<longleftrightarrow> (\<forall>x \<in> set xs. \<not> p x)"
  by (induction xs) auto

locale keyed_list =
  fixes matches :: "'a \<Rightarrow> bool"
    and search :: "'a list \<Rightarrow> 'a option"
    and remove :: "'a list \<Rightarrow> 'a list"
  assumes search_first: "search xs = find_first matches xs"
    and remove_all: "remove xs = drop_matching matches xs"
begin

lemma search_Some: "search xs = Some x \<Longrightarrow> x \<in> set xs \<and> matches x"
  by (auto simp: search_first find_first_Some_iff)

lemma search_None: "search xs = None \<longleftrightarrow> (\<forall>x \<in> set xs. \<not> matches x)"
  by (simp add: search_first find_first_None_iff)

lemma remove_filter: "remove xs = filter (\<lambda>x. \<not> matches x) xs"
  by (simp add: remove_all drop_matching_eq_filter)

lemma search_remove: "search (remove xs) = None"
  by (simp add: search_None remove_filter)

lemma remove_idem: "remove (remove xs) = remove xs"
  by (simp add: remove_filter)

lemma remove_absent: "search xs = None \<longleftrightarrow> remove xs = xs"
  by (simp add: search_None remove_filter filter_id_conv)

lemma remove_append: "remove (xs @ ys) = remove xs @ remove ys"
  by (simp add: remove_filter)

lemma remove_undo_add: "search xs = None \<Longrightarrow> matches x \<Longrightarrow> remove (xs @ [x]) = xs"
  by (simp add: remove_filter search_None)

end

end
