(* ===== verification/GoStrings.thy ===== *)
theory GoStrings
  imports Prelude
begin

text \<open>
  The part of Go's package \<open>strings\<close> the program calls, on strings as lists of bytes.

  White space is Unicode's \<open>White_Space\<close> set in its UTF-8 encoding, which is what
  \<open>strings.TrimSpace\<close> and \<open>strings.Fields\<close> remove; \<open>ToLower\<close> maps the ASCII letters and
  leaves every other byte alone (the program lower-cases host names and URLs only).
  Searches that Go answers with an index or -1 answer with an option here.
\<close>

section \<open>Prefixes, suffixes, searching\<close>

definition HasPrefix :: "string \<Rightarrow> string \<Rightarrow> bool" where
  "HasPrefix s p \<longleftrightarrow> take (length p) s = p"

definition HasSuffix :: "string \<Rightarrow> string \<Rightarrow> bool" where
  "HasSuffix s p \<longleftrightarrow> HasPrefix (rev s) (rev p)"

definition TrimPrefix :: "string \<Rightarrow> string \<Rightarrow> string" where
  "TrimPrefix s p = (if HasPrefix s p then drop (length p) s else s)"

definition TrimSuffix :: "string \<Rightarrow> string \<Rightarrow> string" where
  "TrimSuffix s p = (if HasSuffix s p then take (length s - length p) s else s)"

fun Index :: "string \<Rightarrow> string \<Rightarrow> nat option" where
  "Index [] sub = (if sub = [] then Some 0 else None)"
| "Index (c # s) sub = (if HasPrefix (c # s) sub then Some 0 else map_option Suc (Index s sub))"

definition Contains :: "string \<Rightarrow> string \<Rightarrow> bool" where
  "Contains s sub \<longleftrightarrow> Index s sub \<noteq> None"

lemma HasPrefix_iff: "HasPrefix s p \<longleftrightarrow> (\<exists>t. s = p @ t)"
  unfolding HasPrefix_def by (metis append_eq_conv_conj append_take_drop_id)

lemma HasPrefix_append [simp]: "HasPrefix (p @ t) p"
  by (simp add: HasPrefix_def)

lemma HasPrefix_Nil [simp]: "HasPrefix s []"
  by (simp add: HasPrefix_def)

lemma HasSuffix_iff: "HasSuffix s p \<longleftrightarrow> (\<exists>t. s = t @ p)"
  unfolding HasSuffix_def HasPrefix_iff by (metis rev_append rev_rev_ident)

lemma TrimPrefix_append [simp]: "TrimPrefix (p @ t) p = t"
  by (simp add: TrimPrefix_def)

lemma TrimSuffix_append [simp]: "TrimSuffix (t @ p) p = t"
  by (auto simp: TrimSuffix_def HasSuffix_iff)

lemma Index_Some:
  "Index s sub = Some i \<Longrightarrow> s = take i s @ sub @ drop (i + length sub) s"
proof (induction s sub arbitrary: i rule: Index.induct)
  case (1 sub)
  then show ?case by (auto split: if_splits)
next
  case (2 c s sub)
  show ?case
  proof (cases "HasPrefix (c # s) sub")
    case True
    with 2 show ?thesis by (auto simp: HasPrefix_iff)
  next
    case False
    with 2 obtain j where "Index s sub = Some j" "i = Suc j" by auto
    with 2 False show ?thesis by auto
  qed
qed

lemma Index_prefix: "HasPrefix s sub \<Longrightarrow> Index s sub = Some 0"
  by (cases s) (auto simp: HasPrefix_def)

lemma Index_char_append: "c \<notin> set s \<Longrightarrow> Index (s @ c # t) [c] = Some (length s)"
  by (induction s) (auto simp: HasPrefix_def)

lemma Index_char_None: "Index s [c] = None \<longleftrightarrow> c \<notin> set s"
  by (induction s) (auto simp: HasPrefix_def)

lemma Index_char_before: "Index s [c] = Some i \<Longrightarrow> c \<notin> set (take i s)"
  by (induction s arbitrary: i) (auto simp: HasPrefix_def split: if_splits)

lemma Contains_append: "Contains (a @ sub @ b) sub"
proof (induction a)
  case Nil
  then show ?case by (simp add: Contains_def Index_prefix)
next
  case (Cons c a)
  then show ?case by (auto simp: Contains_def)
qed

lemma Contains_iff: "Contains s sub \<longleftrightarrow> (\<exists>a b. s = a @ sub @ b)"
  using Contains_append by (auto simp: Contains_def dest!: Index_Some)

section \<open>Splitting and joining\<close>

text \<open>\<open>strings.Split\<close> and \<open>strings.SplitN(s, sep, 2)\<close> with a one-byte separator.\<close>

fun Split :: "string \<Rightarrow> char \<Rightarrow> string list" where
  "Split [] c = [[]]"
| "Split (x # s) c =
     (if x = c then [] # Split s c
      else case Split s c of [] \<Rightarrow> [[x]] | p # ps \<Rightarrow> (x # p) # ps)"

definition SplitN2 :: "string \<Rightarrow> char \<Rightarrow> string list" where
  "SplitN2 s c = (case Index s [c] of None \<Rightarrow> [s] | Some i \<Rightarrow> [take i s, drop (Suc i) s])"

fun Join :: "string list \<Rightarrow> string \<Rightarrow> string" where
  "Join [] sep = []"
| "Join [a] sep = a"
| "Join (a # b # as) sep = a @ sep @ Join (b # as) sep"

definition ReplaceAll :: "string \<Rightarrow> char \<Rightarrow> char \<Rightarrow> string" where
  "ReplaceAll s old new = map (\<lambda>x. if x = old then new else x) s"

lemma Split_nonempty [simp]: "Split s c \<noteq> []"
  by (induction s) (auto split: list.splits)

lemma Split_no_sep: "p \<in> set (Split s c) \<Longrightarrow> c \<notin> set p"
  by (induction s arbitrary: p) (auto split: list.splits if_splits)

lemma Split_plain: "c \<notin> set s \<Longrightarrow> Split s c = [s]"
  by (induction s) auto

lemma Split_sep: "c \<notin> set a \<Longrightarrow> Split (a @ c # s) c = a # Split s c"
  by (induction a) auto

lemma Join_Cons: "as \<noteq> [] \<Longrightarrow> Join (a # as) sep = a @ sep @ Join as sep"
  by (cases as) auto

lemma Join_Split: "Join (Split s c) [c] = s"
proof (induction s)
  case (Cons x s)
  obtain p ps where ps: "Split s c = p # ps" by (cases "Split s c") auto
  with Cons show ?case by (cases ps) auto
qed simp

lemma Split_Join: "ps \<noteq> [] \<Longrightarrow> \<forall>p \<in> set ps. c \<notin> set p \<Longrightarrow> Split (Join ps [c]) c = ps"
proof (induction ps)
  case (Cons p ps)
  then show ?case by (cases ps) (auto simp: Split_sep Split_plain)
qed simp

lemma Split_append: "Split (s @ c # t) c = Split s c @ Split t c"
  by (induction s) (auto split: list.splits)

lemma Join_snoc: "as \<noteq> [] \<Longrightarrow> Join (as @ [b]) sep = Join as sep @ sep @ b"
  by (induction as rule: induct_list012) auto

lemma sep_inj:
  "a @ c # b = a' @ c # b' \<Longrightarrow> c \<notin> set a \<Longrightarrow> c \<notin> set a' \<Longrightarrow> a = a' \<and> b = b'"
proof (induction a arbitrary: a')
  case Nil
  then show ?case by (cases a') auto
next
  case (Cons x a)
  then show ?case by (cases a') auto
qed

section \<open>White space and trimming\<close>

definition ws_seqs :: "string list" where
  "ws_seqs =
     [[CHR 0x20], [CHR 0x09], [CHR 0x0A], [CHR 0x0B], [CHR 0x0C], [CHR 0x0D],
      [CHR 0xC2, CHR 0x85], [CHR 0xC2, CHR 0xA0], [CHR 0xE1, CHR 0x9A, CHR 0x80],
      [CHR 0xE2, CHR 0x80, CHR 0x80], [CHR 0xE2, CHR 0x80, CHR 0x81],
      [CHR 0xE2, CHR 0x80, CHR 0x82], [CHR 0xE2, CHR 0x80, CHR 0x83],
      [CHR 0xE2, CHR 0x80, CHR 0x84], [CHR 0xE2, CHR 0x80, CHR 0x85],
      [CHR 0xE2, CHR 0x80, CHR 0x86], [CHR 0xE2, CHR 0x80, CHR 0x87],
      [CHR 0xE2, CHR 0x80, CHR 0x88], [CHR 0xE2, CHR 0x80, CHR 0x89],
      [CHR 0xE2, CHR 0x80, CHR 0x8A], [CHR 0xE2, CHR 0x80, CHR 0xA8],
      [CHR 0xE2, CHR 0x80, CHR 0xA9], [CHR 0xE2, CHR 0x80, CHR 0xAF],
      [CHR 0xE2, CHR 0x81, CHR 0x9F], [CHR 0xE3, CHR 0x80, CHR 0x80]]"

definition ws_prefix :: "string list \<Rightarrow> string \<Rightarrow> string option" where
  "ws_prefix seqs s = find_first (\<lambda>w. w \<noteq> [] \<and> HasPrefix s w) seqs"

lemma ws_prefix_Some: "ws_prefix seqs s = Some w \<Longrightarrow> w \<noteq> [] \<and> w \<in> set seqs \<and> (\<exists>t. s = w @ t)"
  by (auto simp: ws_prefix_def find_first_Some_iff HasPrefix_iff)

lemma ws_prefix_None:
  "ws_prefix seqs s = None \<longleftrightarrow> (\<forall>w \<in> set seqs. w \<noteq> [] \<longrightarrow> \<not> HasPrefix s w)"
  by (auto simp: ws_prefix_def find_first_None_iff)

function strip_with :: "string list \<Rightarrow> string \<Rightarrow> string" where
  "strip_with seqs s =
     (case ws_prefix seqs s of None \<Rightarrow> s | Some w \<Rightarrow> strip_with seqs (drop (length w) s))"
  by pat_completeness auto
termination
  by (relation "measure (\<lambda>(seqs, s). length s)") (auto dest!: ws_prefix_Some)

declare strip_with.simps [simp del]

definition TrimSpace :: "string \<Rightarrow> string" where
  "TrimSpace s = rev (strip_with (map rev ws_seqs) (rev (strip_with ws_seqs s)))"

definition TrimChar :: "string \<Rightarrow> char \<Rightarrow> string" where
  "TrimChar s c = rev (dropWhile (\<lambda>x. x = c) (rev (dropWhile (\<lambda>x. x = c) s)))"

lemma strip_with_none: "ws_prefix seqs (strip_with seqs s) = None"
proof (induction seqs s rule: strip_with.induct)
  case (1 seqs s)
  then show ?case
    by (cases "ws_prefix seqs s") (simp_all add: strip_with.simps [of seqs s])
qed

lemma strip_with_suffix: "\<exists>t. s = t @ strip_with seqs s"
proof (induction seqs s rule: strip_with.induct)
  case (1 seqs s)
  show ?case
  proof (cases "ws_prefix seqs s")
    case None
    then show ?thesis by (simp add: strip_with.simps [of seqs s])
  next
    case (Some w)
    then obtain t where t: "s = w @ t" using ws_prefix_Some by blast
    with 1 [OF Some] obtain u where "t = u @ strip_with seqs t" by auto
    with t have "s = (w @ u) @ strip_with seqs t" by simp
    moreover have "strip_with seqs s = strip_with seqs t"
      using Some t by (subst strip_with.simps) simp
    ultimately show ?thesis by metis
  qed
qed

lemma strip_with_fixed: "ws_prefix seqs s = None \<Longrightarrow> strip_with seqs s = s"
  by (simp add: strip_with.simps)

lemma ws_prefix_None_append: "ws_prefix seqs (s @ t) = None \<Longrightarrow> ws_prefix seqs s = None"
  by (auto simp: ws_prefix_None HasPrefix_iff)

lemma TrimSpace_no_left: "ws_prefix ws_seqs (TrimSpace s) = None"
proof -
  let ?u = "strip_with ws_seqs s"
  obtain t where "rev ?u = t @ strip_with (map rev ws_seqs) (rev ?u)"
    using strip_with_suffix by blast
  then have "?u = TrimSpace s @ rev t"
    unfolding TrimSpace_def by (metis rev_append rev_rev_ident)
  then show ?thesis
    using strip_with_none [of ws_seqs s] ws_prefix_None_append by metis
qed

lemma TrimSpace_no_right: "ws_prefix (map rev ws_seqs) (rev (TrimSpace s)) = None"
  by (simp add: TrimSpace_def strip_with_none)

lemma TrimSpace_idem [simp]: "TrimSpace (TrimSpace s) = TrimSpace s"
  using TrimSpace_no_left [of s] TrimSpace_no_right [of s]
  by (simp add: TrimSpace_def [of "TrimSpace s"] strip_with_fixed)

lemma strip_with_Nil [simp]: "strip_with seqs [] = []"
  by (rule strip_with_fixed) (auto simp: ws_prefix_None HasPrefix_def)

lemma TrimSpace_Nil [simp]: "TrimSpace [] = []"
  by (simp add: TrimSpace_def)

definition ascii_lower :: "char \<Rightarrow> char" where
  "ascii_lower c =
     (let n = (of_char c :: nat) in if 65 \<le> n \<and> n \<le> 90 then char_of (n + 32) else c)"

definition ToLower :: "string \<Rightarrow> string" where
  "ToLower s = map ascii_lower s"

lemma ascii_lower_idem [simp]: "ascii_lower (ascii_lower c) = ascii_lower c"
  by (auto simp: ascii_lower_def Let_def)

lemma ToLower_idem [simp]: "ToLower (ToLower s) = ToLower s"
  by (simp add: ToLower_def)

section \<open>Fields\<close>

text \<open>\<open>strings.Fields\<close>: the maximal runs without white space.\<close>

function Fields_acc :: "string \<Rightarrow> string \<Rightarrow> string list" where
  "Fields_acc cur s =
     (case s of
        [] \<Rightarrow> (if cur = [] then [] else [rev cur])
      | c # s' \<Rightarrow>
         (case ws_prefix ws_seqs s of
            Some w \<Rightarrow> (if cur = [] then [] else [rev cur]) @ Fields_acc [] (drop (length w) s)
          | None \<Rightarrow> Fields_acc (c # cur) s'))"
  by pat_completeness auto
termination
  by (relation "measure (\<lambda>(cur, s). length s)") (auto dest!: ws_prefix_Some)

declare Fields_acc.simps [simp del]

definition Fields :: "string \<Rightarrow> string list" where
  "Fields s = Fields_acc [] s"

text \<open>Bytes that neither are white space nor start a multi-byte white space.\<close>

definition plain_char :: "char \<Rightarrow> bool" where
  "plain_char c \<longleftrightarrow> c \<notin> set (map hd ws_seqs)"

definition plain :: "string \<Rightarrow> bool" where
  "plain s \<longleftrightarrow> (\<forall>c \<in> set s. plain_char c)"

lemma plain_simps [simp]: "plain []" "plain (c # s) \<longleftrightarrow> plain_char c \<and> plain s"
    "plain (s @ t) \<longleftrightarrow> plain s \<and> plain t"
  by (auto simp: plain_def)

lemma ws_prefix_plain: "plain_char c \<Longrightarrow> ws_prefix ws_seqs (c # s) = None"
proof -
  assume c: "plain_char c"
  { fix w assume "w \<in> set ws_seqs" "w \<noteq> []"
    with c have "hd w \<noteq> c" by (auto simp: plain_char_def)
    with \<open>w \<noteq> []\<close> have "\<not> HasPrefix (c # s) w"
      by (cases w) (auto simp: HasPrefix_iff) }
  then show ?thesis by (auto simp: ws_prefix_None)
qed

lemma Fields_acc_plain:
  "plain s \<Longrightarrow> Fields_acc cur (s @ t) = Fields_acc (rev s @ cur) t"
proof (induction s arbitrary: cur)
  case (Cons c s)
  then have "ws_prefix ws_seqs (c # (s @ t)) = None" by (simp add: ws_prefix_plain)
  with Cons show ?case by (simp add: Fields_acc.simps [of cur "c # s @ t"])
qed simp

lemma Fields_single: "plain s \<Longrightarrow> s \<noteq> [] \<Longrightarrow> Fields s = [s]"
  using Fields_acc_plain [of s "[]" "[]"] by (simp add: Fields_def Fields_acc.simps [of _ "[]"])

lemma ws_prefix_space: "ws_prefix ws_seqs (CHR 0x20 # s) = Some [CHR 0x20]"
  by (simp add: ws_prefix_def ws_seqs_def HasPrefix_def)

lemma Fields_two:
  assumes "plain a" "a \<noteq> []" "plain b" "b \<noteq> []"
  shows "Fields (a @ CHR 0x20 # b) = [a, b]"
proof -
  have "Fields (a @ CHR 0x20 # b) = Fields_acc (rev a) (CHR 0x20 # b)"
    using Fields_acc_plain [OF assms(1), of "[]" "CHR 0x20 # b"] by (simp add: Fields_def)
  also have "\<dots> = a # Fields_acc [] b"
    using assms(2) by (simp add: Fields_acc.simps [of "rev a"] ws_prefix_space)
  finally show ?thesis
    using Fields_single [OF assms(3,4)] by (simp add: Fields_def)
qed

lemma TrimSpace_plain_edges:
  assumes "plain_char (hd s)" "s \<noteq> []" "ws_prefix (map rev ws_seqs) (rev s) = None"
  shows "TrimSpace s = s"
proof -
  from assms(1,2) have "ws_prefix ws_seqs s = None"
    using ws_prefix_plain [of "hd s" "tl s"] by simp
  with assms(3) show ?thesis by (simp add: TrimSpace_def strip_with_fixed)
qed

end
