(* ===== verification/ClusterTypes.thy ===== *)
theory ClusterTypes
  imports GoStrings
begin

text \<open>
  The data the program reads and writes: the fields of the OpenShift and Kubernetes API
  objects it touches, its own lab configuration and backup records, and the constants of
  \<open>pkg/framework/constants.go\<close>.

  The API objects have many more fields than the program looks at; it copies them along.
  Each record therefore ends in one opaque field (\<open>..._other\<close>, \<open>..._meta\<close>) for the rest of
  the object, which is empty when the program builds the object from a composite literal.
  \<open>DeepCopy\<close> is the identity on these immutable values.
\<close>

section \<open>Infrastructure\<close>

record vcenter_spec =
  vc_server :: string
  vc_port :: int32
  vc_datacenters :: "string list"

record topology_spec =
  tp_computeCluster :: string
  tp_datacenter :: string
  tp_datastore :: string
  tp_networks :: "string list"
  tp_resourcePool :: string
  tp_other :: string

record failure_domain =
  fd_name :: string
  fd_region :: string
  fd_zone :: string
  fd_server :: string
  fd_topology :: topology_spec
  fd_other :: string

record vsphere_platform =
  vs_vcenters :: "vcenter_spec list"
  vs_failureDomains :: "failure_domain list"
  vs_other :: string

record infra_spec =
  is_type :: string
  is_vsphere :: "vsphere_platform option"
  is_other :: string

record infra_status =
  ist_platformType :: "string option"
  ist_other :: string

record infrastructure =
  infra_meta :: string
  infra_spec :: infra_spec
  infra_status :: infra_status

section \<open>Config maps, secrets, the backup\<close>

record config_map =
  cm_namespace :: string
  cm_name :: string
  cm_data :: "string gomap option"
  cm_binaryData :: "string gomap"
  cm_annotations :: "string gomap"
  cm_resourceVersion :: string
  cm_other :: string

record secret =
  sec_namespace :: string
  sec_name :: string
  sec_data :: "string gomap"
  sec_other :: string

text \<open>\<open>ClusterState\<close> of \<open>pkg/lab/state.go\<close>; the maps are keyed by \<open>namespace/name\<close>.\<close>

record cluster_state =
  cs_infrastructure :: "infrastructure option"
  cs_configMaps :: "config_map gomap"
  cs_secrets :: "secret gomap"

text \<open>The bytes of the state file: a JSON document of a backup, or anything else.\<close>

datatype state_doc = StateDoc cluster_state | OtherDoc string

text \<open>The payload of a merge patch: the document \<open>{"spec": spec}\<close>, or raw bytes.\<close>

datatype patch = SpecPatch infra_spec | RawPatch string

section \<open>Operators, machines, nodes, pods\<close>

record condition =
  cond_type :: string
  cond_status :: string
  cond_message :: string
  cond_transition :: int

record conditioned =
  cd_name :: string
  cd_conditions :: "condition list"

record gate_details =
  gd_version :: string
  gd_enabled :: "string list"
  gd_disabled :: "string list"

record machine =
  m_name :: string
  m_labels :: "string gomap"
  m_deletionTimestamp :: "int option"
  m_creationTimestamp :: int
  m_phase :: "string option"
  m_nodeRef :: "string option"
  m_resourceVersion :: string
  m_providerSpec :: "string option"

text \<open>
  The vSphere provider spec of a machine, and a MachineSet.  The provider spec is embedded in
  a MachineSet as raw JSON, which is absent (\<open>None\<close>) when the pointer is nil.
\<close>

record vsphere_workspace =
  ws_server :: string
  ws_datacenter :: string
  ws_datastore :: string
  ws_resourcePool :: string
  ws_folder :: string
  ws_other :: string

record network_device =
  nd_networkName :: string
  nd_other :: string

record provider_spec =
  ps_workspace :: "vsphere_workspace option"
  ps_template :: string
  ps_devices :: "network_device list"
  ps_other :: string

record machine_set =
  ms_name :: string
  ms_namespace :: string
  ms_labels :: "string gomap"
  ms_replicas :: "int32 option"
  ms_matchLabels :: "string gomap"
  ms_templateLabels :: "string gomap"
  ms_providerSpec :: "string option"
  ms_resourceVersion :: string
  ms_other :: string

text \<open>
  A control plane machine set: the machine template and the failure domains are behind two
  pointers; only the names of the vSphere failure domains are read.
\<close>

record cpms =
  cpms_machineTemplate :: "string list option option"

record node =
  n_name :: string
  n_labels :: "string gomap"
  n_deletionTimestamp :: "int option"
  n_creationTimestamp :: int
  n_conditions :: "condition list"

record pod =
  pod_name :: string
  pod_phase :: string
  pod_restarts :: "int32 list"

section \<open>Lab configuration\<close>

text \<open>The structs of \<open>pkg/labconfig/config.go\<close>.\<close>

record VCenterConfig =
  Server :: string
  Port :: int32
  Datacenters :: "string list"
  Username :: string
  Password :: string
  PasswordFile :: string

record TopologyConfig =
  ComputeCluster :: string
  Datacenter :: string
  Datastore :: string
  Networks :: "string list"
  ResourcePool :: string
  Template :: string

record FailureDomainConfig =
  Name :: string
  Region :: string
  Zone :: string
  Topology :: TopologyConfig

record OrphanTestConfig =
  OrphanDatastore :: string

record LabConfig =
  StateDir :: string
  SecondVCenter :: VCenterConfig
  FailureDomain :: "FailureDomainConfig option"
  OrphanTest :: "OrphanTestConfig option"

section \<open>Cloud provider configuration and credential files\<close>

text \<open>
  The structs of \<open>pkg/vsphere/cloud_config.go\<close> and \<open>pkg/lab/credentials.go\<close>.  A dynamic value
  (\<open>interface{}\<close>) is a string or any other value, the latter with the text that \<open>fmt.Sprint\<close>
  prints for it.
\<close>

datatype any = AnyString string | AnyValue string

fun Sprint :: "any \<Rightarrow> string" where
  "Sprint (AnyString s) = s"
| "Sprint (AnyValue t) = t"

record CloudVCenter =
  cv_Server :: string
  cv_Port :: int32
  cv_Datacenters :: "string list"
  cv_Insecure :: bool

record NodesConfig =
  ExternalNetworkSubnetCidr :: string
  InternalNetworkSubnetCidr :: string

record CloudConfig =
  Global :: "any gomap option"
  Labels :: "string gomap"
  VCenter :: "CloudVCenter gomap option"
  Nodes :: "NodesConfig option"
  Extra :: "any gomap"

record vsphereCredential =
  cred_URL :: string
  cred_Username :: string
  cred_Password :: string

section \<open>Constants\<close>

definition InfrastructureName :: string where
  [go_defs]: "InfrastructureName = ''cluster''"
definition FeatureGateName :: string where
  [go_defs]: "FeatureGateName = ''cluster''"
definition VSphereMultiVCenterDay2Gate :: string where
  [go_defs]: "VSphereMultiVCenterDay2Gate = ''VSphereMultiVCenterDay2''"
definition ManagedConfigNamespace :: string where
  [go_defs]: "ManagedConfigNamespace = ''openshift-config-managed''"
definition ManagedConfigName :: string where
  [go_defs]: "ManagedConfigName = ''kube-cloud-config''"
definition SourceConfigNamespace :: string where
  [go_defs]: "SourceConfigNamespace = ''openshift-config''"
definition SourceConfigName :: string where
  [go_defs]: "SourceConfigName = ''cloud-provider-config''"
definition CloudCredentialsSecret :: string where
  [go_defs]: "CloudCredentialsSecret = ''cloud-credentials''"
definition VSphereCredsNamespace :: string where
  [go_defs]: "VSphereCredsNamespace = ''kube-system''"
definition VSphereCredsSecret :: string where
  [go_defs]: "VSphereCredsSecret = ''vsphere-creds''"
definition VSphereMachineCredsSecret :: string where
  [go_defs]: "VSphereMachineCredsSecret = ''vsphere-cloud-credentials''"
definition MachineAPINamespace :: string where
  [go_defs]: "MachineAPINamespace = ''openshift-machine-api''"
definition CloudConfigDataKey :: string where
  [go_defs]: "CloudConfigDataKey = ''cloud.conf''"
definition SourceCloudConfigDataKey :: string where
  [go_defs]: "SourceCloudConfigDataKey = ''config''"
definition MachineRegionLabel :: string where
  [go_defs]: "MachineRegionLabel = ''machine.openshift.io/region''"
definition MachineZoneLabel :: string where
  [go_defs]: "MachineZoneLabel = ''machine.openshift.io/zone''"
definition CSIDriverNamespace :: string where
  [go_defs]: "CSIDriverNamespace = ''openshift-cluster-csi-drivers''"
definition CSIDriverControllerLabel :: string where
  [go_defs]: "CSIDriverControllerLabel = ''app=vmware-vsphere-csi-driver-controller''"
definition CSIDriverNodeLabel :: string where
  [go_defs]: "CSIDriverNodeLabel = ''app=vmware-vsphere-csi-driver-node''"
definition ClusterCSIDriverName :: string where
  [go_defs]: "ClusterCSIDriverName = ''csi.vsphere.vmware.com''"

text \<open>Durations are nanoseconds.\<close>

definition Second :: int where
  [go_defs]: "Second = 1000000000"
definition Minute :: int where
  [go_defs]: "Minute = 60 * Second"
definition DefaultPolling :: int where
  [go_defs]: "DefaultPolling = 10 * Second"
definition DefaultTimeout :: int where
  [go_defs]: "DefaultTimeout = 5 * Minute"
definition LongTimeout :: int where
  [go_defs]: "LongTimeout = 15 * Minute"

definition vSpherePlatformType :: string where
  [go_defs]: "vSpherePlatformType = ''VSphere''"

end
