(* ===== verification/World.thy ===== *)
theory World
  imports ClusterTypes
begin

text \<open>
  The world outside the program, and computations in it.

  Everything that is not under \<open>src/\<close> (the API server behind the client-go clients, the
  file system, the YAML and JSON codecs on library types, the polling helper of
  apimachinery) is a field of the record \<open>env\<close>, a parameter of every definition that uses
  it.  Nothing is assumed of these functions here; what a theorem needs of them is a
  hypothesis of that theorem.  The state of the outside world is the type variable \<open>'w\<close>.

  A computation gets the state and returns a result or an error together with the new
  state.  The state carries, beside the world, the list of the calls made so far, a ghost
  that the program cannot read (reading the clock is not recorded): properties such as "a dry run persists nothing" are
  statements about that list.
\<close>

section \<open>Calls\<close>

datatype effect =
    EGet string string string
  | EList string string
  | EUpdateInfrastructure infrastructure
  | EPatchInfrastructure patch bool
  | EUpdateConfigMap config_map
  | EUpdateSecret secret
  | EUpdateMachineSet machine_set
  | ECreateMachineSet machine_set
  | EDelete string string
  | EStat string bool
  | EReadFile string
  | EMkdirAll string
  | EWriteState string state_doc bool

text \<open>The calls that change an object of the cluster; a dry-run patch changes nothing.\<close>

fun persists :: "effect \<Rightarrow> bool" where
  "persists (EUpdateInfrastructure _) = True"
| "persists (EPatchInfrastructure _ dry) = (\<not> dry)"
| "persists (EUpdateConfigMap _) = True"
| "persists (EUpdateSecret _) = True"
| "persists (EUpdateMachineSet _) = True"
| "persists (ECreateMachineSet _) = True"
| "persists (EDelete _ _) = True"
| "persists _ = False"

fun writes_disk :: "effect \<Rightarrow> bool" where
  "writes_disk (EMkdirAll _) = True"
| "writes_disk (EWriteState _ _ _) = True"
| "writes_disk _ = False"

definition read_only :: "effect \<Rightarrow> bool" where
  "read_only e \<longleftrightarrow> \<not> persists e \<and> \<not> writes_disk e"

lemma read_only_simps [simp]:
  "read_only (EGet a b c)" "read_only (EList a b)" "read_only (EStat p x)"
  "read_only (EReadFile p)" "read_only (EPatchInfrastructure pt dry) \<longleftrightarrow> dry"
  "\<not> read_only (EUpdateInfrastructure i)" "\<not> read_only (EUpdateConfigMap cm)"
  "\<not> read_only (EUpdateSecret sc)" "\<not> read_only (EUpdateMachineSet ms)"
  "\<not> read_only (ECreateMachineSet ms)" "\<not> read_only (EDelete k n)" "\<not> read_only (EMkdirAll p)"
  "\<not> read_only (EWriteState p d ok)"
  by (simp_all add: read_only_def)

record 'w st =
  world :: 'w
  trace :: "effect list"

type_synonym ('w, 'a) comp = "'w st \<Rightarrow> 'a res \<times> 'w st"

type_synonym 's condition_fn = "'s \<Rightarrow> bool res \<times> 's"
type_synonym 's poller = "int \<Rightarrow> int \<Rightarrow> 's condition_fn \<Rightarrow> 's \<Rightarrow> goerror option \<times> 's"

text \<open>
  \<open>poll interval timeout cond\<close> is \<open>wait.PollUntilContextTimeout\<close> with \<open>immediate\<close> set, as
  every caller has it.  The condition closes over one error variable (\<open>lastErr\<close>), so the
  poller's state is that variable and the program's state.
\<close>

record 'w env =
  get_infra :: "string \<Rightarrow> 'w \<Rightarrow> infrastructure res \<times> 'w"
  update_infra :: "infrastructure \<Rightarrow> 'w \<Rightarrow> infrastructure res \<times> 'w"
  patch_infra :: "string \<Rightarrow> patch \<Rightarrow> bool \<Rightarrow> 'w \<Rightarrow> infrastructure res \<times> 'w"
  get_cluster_operator :: "string \<Rightarrow> 'w \<Rightarrow> conditioned res \<times> 'w"
  get_feature_gate :: "string \<Rightarrow> 'w \<Rightarrow> gate_details list res \<times> 'w"
  get_config_map :: "string \<Rightarrow> string \<Rightarrow> 'w \<Rightarrow> config_map res \<times> 'w"
  update_config_map :: "config_map \<Rightarrow> 'w \<Rightarrow> config_map res \<times> 'w"
  get_secret :: "string \<Rightarrow> string \<Rightarrow> 'w \<Rightarrow> secret res \<times> 'w"
  update_secret :: "secret \<Rightarrow> 'w \<Rightarrow> secret res \<times> 'w"
  get_csi_driver :: "string \<Rightarrow> 'w \<Rightarrow> conditioned res \<times> 'w"
  list_pods :: "string \<Rightarrow> string \<Rightarrow> 'w \<Rightarrow> pod list res \<times> 'w"
  list_machines :: "string \<Rightarrow> 'w \<Rightarrow> machine list res \<times> 'w"
  list_nodes :: "'w \<Rightarrow> node list res \<times> 'w"
  stat_path :: "string \<Rightarrow> 'w \<Rightarrow> bool \<times> 'w"
  mkdir_all :: "string \<Rightarrow> 'w \<Rightarrow> unit res \<times> 'w"
  write_state :: "string \<Rightarrow> state_doc \<Rightarrow> 'w \<Rightarrow> unit res \<times> 'w"
  read_state :: "string \<Rightarrow> 'w \<Rightarrow> state_doc res \<times> 'w"
  read_text :: "string \<Rightarrow> 'w \<Rightarrow> string res \<times> 'w"
  json_marshal_spec :: "infra_spec \<Rightarrow> patch res"
  json_marshal_state :: "cluster_state \<Rightarrow> state_doc res"
  json_unmarshal_state :: "state_doc \<Rightarrow> cluster_state res"
  yaml_unmarshal_lab :: "string \<Rightarrow> LabConfig res"
  yaml_unmarshal_cloud :: "string \<Rightarrow> CloudConfig res"
  yaml_marshal_cloud :: "CloudConfig \<Rightarrow> string res"
  yaml_unmarshal_creds :: "string \<Rightarrow> vsphereCredential list res"
  yaml_marshal_creds :: "vsphereCredential list \<Rightarrow> string res"
  poll :: "(goerror option \<times> 'w st) poller"
  clock :: "'w \<Rightarrow> int \<times> 'w"

section \<open>Computations\<close>

definition ret :: "'a \<Rightarrow> 's \<Rightarrow> 'a res \<times> 's" where
  "ret a s = (Inr a, s)"

definition throw :: "goerror \<Rightarrow> 's \<Rightarrow> 'a res \<times> 's" where
  "throw e s = (Inl e, s)"

text \<open>\<open>x, err := m(); if err != nil { return err }; f(x)\<close>\<close>

definition bindM :: "('s \<Rightarrow> 'a res \<times> 's) \<Rightarrow> ('a \<Rightarrow> 's \<Rightarrow> 'b res \<times> 's) \<Rightarrow> 's \<Rightarrow> 'b res \<times> 's" where
  "bindM m f s = (case m s of (Inl e, s') \<Rightarrow> (Inl e, s') | (Inr a, s') \<Rightarrow> f a s')"

text \<open>\<open>if err != nil { return fmt.Errorf("...: %w", err) }\<close>\<close>

definition wrapM :: "string \<Rightarrow> goarg list \<Rightarrow> ('s \<Rightarrow> 'a res \<times> 's) \<Rightarrow> 's \<Rightarrow> 'a res \<times> 's" where
  "wrapM fmt args m s = (case m s of (Inl e, s') \<Rightarrow> (Inl (Wrapf fmt args e), s') | (Inr a, s') \<Rightarrow> (Inr a, s'))"

text \<open>A call whose error the program inspects instead of returning it.\<close>

definition tryM :: "('s \<Rightarrow> 'a res \<times> 's) \<Rightarrow> 's \<Rightarrow> 'a res res \<times> 's" where
  "tryM m s = (case m s of (r, s') \<Rightarrow> (Inr r, s'))"

definition liftR :: "'a res \<Rightarrow> 's \<Rightarrow> 'a res \<times> 's" where
  "liftR r s = (r, s)"

text \<open>A loop over a slice that returns at the first error.\<close>

fun forM :: "'a list \<Rightarrow> ('a \<Rightarrow> 's \<Rightarrow> unit res \<times> 's) \<Rightarrow> 's \<Rightarrow> unit res \<times> 's" where
  "forM [] f = ret ()"
| "forM (x # xs) f = bindM (f x) (\<lambda>_. forM xs f)"

text \<open>One call of the environment, recorded in the trace.\<close>

definition callE :: "('r \<Rightarrow> effect) \<Rightarrow> ('w \<Rightarrow> 'r \<times> 'w) \<Rightarrow> 'w st \<Rightarrow> 'r \<times> 'w st" where
  "callE eff f s =
     (case f (world s) of (r, w') \<Rightarrow> (r, s\<lparr>world := w', trace := trace s @ [eff r]\<rparr>))"

abbreviation call :: "effect \<Rightarrow> ('w \<Rightarrow> 'a res \<times> 'w) \<Rightarrow> ('w, 'a) comp" where
  "call e f \<equiv> callE (\<lambda>_. e) f"

text \<open>
  \<open>time.Now()\<close>, in nanoseconds; 0 is the zero time.  The difference of two times is a
  \<open>Duration\<close>, which saturates at the bounds of a 64-bit integer.
\<close>

definition Now :: "'w env \<Rightarrow> 'w st \<Rightarrow> int \<times> 'w st" where
  "Now env s = (case clock env (world s) of (t, w') \<Rightarrow> (t, s\<lparr>world := w'\<rparr>))"

definition Sub :: "int \<Rightarrow> int \<Rightarrow> int" where
  "Sub t u = max (- (2 ^ 63)) (min (2 ^ 63 - 1) (t - u))"

lemma bindM_ret [simp]: "bindM (ret a) f = f a"
  by (simp add: bindM_def ret_def fun_eq_iff)

lemma bindM_throw [simp]: "bindM (throw e) f = throw e"
  by (simp add: bindM_def throw_def fun_eq_iff)

lemma bindM_assoc: "bindM (bindM m f) g = bindM m (\<lambda>a. bindM (f a) g)"
  by (rule ext) (simp add: bindM_def split: prod.splits sum.splits)

lemma bindM_Inr: "bindM m f s = (Inr b, s'') \<longleftrightarrow>
    (\<exists>a s'. m s = (Inr a, s') \<and> f a s' = (Inr b, s''))"
  by (auto simp: bindM_def split: prod.splits sum.splits)

lemma bindM_ok: "m s = (Inr a, s') \<Longrightarrow> bindM m f s = f a s'"
  by (simp add: bindM_def)

lemma bindM_err: "m s = (Inl e, s') \<Longrightarrow> bindM m f s = (Inl e, s')"
  by (simp add: bindM_def)

lemma wrapM_Inr: "wrapM fmt args m s = (Inr a, s') \<longleftrightarrow> m s = (Inr a, s')"
  by (auto simp: wrapM_def split: prod.splits sum.splits)

lemma tryM_eq: "tryM m s = (Inr r, s') \<longleftrightarrow> m s = (r, s')"
  by (auto simp: tryM_def split: prod.splits)

lemma tryM_never_fails: "tryM m s \<noteq> (Inl e, s')"
  by (simp add: tryM_def split: prod.splits)

lemma ret_Inr: "ret a s = (r, s') \<longleftrightarrow> r = Inr a \<and> s' = s"
  by (auto simp: ret_def)

lemma throw_Inr: "throw e s = (r, s') \<longleftrightarrow> r = Inl e \<and> s' = s"
  by (auto simp: throw_def)

lemma liftR_eq: "liftR x s = (r, s') \<longleftrightarrow> x = r \<and> s' = s"
  by (auto simp: liftR_def)

lemmas comp_Inr = bindM_Inr wrapM_Inr tryM_eq ret_Inr throw_Inr liftR_eq

section \<open>What a computation may do: a logic of state relations\<close>

text \<open>
  \<open>within R m\<close>: every run of \<open>m\<close> moves the state along \<open>R\<close>, whether it fails or not.  For a
  reflexive and transitive \<open>R\<close> this is compositional.  Two relations are used: the trace
  grows by calls of one kind only, and a view of the world is unchanged.
\<close>

definition within :: "('s \<Rightarrow> 's \<Rightarrow> bool) \<Rightarrow> ('s \<Rightarrow> 'r \<times> 's) \<Rightarrow> bool" where
  "within R m \<longleftrightarrow> (\<forall>s. R s (snd (m s)))"

locale state_rel =
  fixes R :: "'s \<Rightarrow> 's \<Rightarrow> bool"
  assumes refl: "R s s"
    and trans: "R s t \<Longrightarrow> R t u \<Longrightarrow> R s u"
begin

lemma within_ret: "within R (ret a)"
  by (simp add: within_def ret_def refl)

lemma within_throw: "within R (throw e)"
  by (simp add: within_def throw_def refl)

lemma within_liftR: "within R (liftR r)"
  by (simp add: within_def liftR_def refl)

lemma within_bind:
  assumes "within R m" "\<And>a. within R (f a)"
  shows "within R (bindM m f)"
  unfolding within_def
proof
  fix s
  obtain r s' where ms: "m s = (r, s')" by force
  have "R s s'" using assms(1) ms unfolding within_def by (metis snd_conv)
  show "R s (snd (bindM m f s))"
  proof (cases r)
    case (Inl e)
    with ms \<open>R s s'\<close> show ?thesis by (simp add: bindM_def)
  next
    case (Inr a)
    then have "R s' (snd (f a s'))" using assms(2) by (simp add: within_def)
    with Inr ms \<open>R s s'\<close> show ?thesis by (simp add: bindM_def trans)
  qed
qed

lemma within_wrap: "within R m \<Longrightarrow> within R (wrapM fmt args m)"
  unfolding within_def wrapM_def by (auto split: prod.splits sum.splits) (metis snd_conv)+

lemma within_try: "within R m \<Longrightarrow> within R (tryM m)"
  unfolding within_def tryM_def by (auto split: prod.splits) (metis snd_conv)

text \<open>A step that returns a plain value, not a result, followed by one that uses it.\<close>

lemma within_seq:
  assumes "within R m" "\<And>a. within R (f a)"
  shows "within R (\<lambda>s. case m s of (a, s') \<Rightarrow> f a s')"
  unfolding within_def
proof
  fix s
  obtain a s' where ms: "m s = (a, s')" by force
  have "R s s'" using assms(1) ms unfolding within_def by (metis snd_conv)
  moreover have "R s' (snd (f a s'))" using assms(2) by (simp add: within_def)
  ultimately show "R s (snd (case m s of (a, s') \<Rightarrow> f a s'))" using ms trans by simp
qed

text \<open>Binding a call whose result is known to satisfy \<open>Q\<close>.\<close>

lemma within_bind_result:
  assumes m: "within R m" and res: "\<And>s a s'. m s = (Inr a, s') \<Longrightarrow> Q a"
    and f: "\<And>a. Q a \<Longrightarrow> within R (f a)"
  shows "within R (bindM m f)"
  unfolding within_def
proof
  fix s
  obtain r s' where ms: "m s = (r, s')" by force
  have 1: "R s s'" using m ms unfolding within_def by (metis snd_conv)
  show "R s (snd (bindM m f s))"
  proof (cases r)
    case (Inl e)
    with ms 1 show ?thesis by (simp add: bindM_def)
  next
    case (Inr a)
    with ms res f have "within R (f a)" by blast
    then have "R s' (snd (f a s'))" by (simp add: within_def)
    with 1 Inr ms show ?thesis by (simp add: bindM_def trans)
  qed
qed

lemma within_forM: "(\<And>x. x \<in> set xs \<Longrightarrow> within R (f x)) \<Longrightarrow> within R (forM xs f)"
  by (induction xs) (simp_all add: within_ret within_bind)

end

text \<open>The trace grows by calls satisfying \<open>P\<close>.\<close>

definition emitted :: "(effect \<Rightarrow> bool) \<Rightarrow> 'w st \<Rightarrow> 'w st \<Rightarrow> bool" where
  "emitted P s t \<longleftrightarrow> (\<exists>tr. trace t = trace s @ tr \<and> list_all P tr)"

interpretation em: state_rel "emitted P :: 'w st \<Rightarrow> 'w st \<Rightarrow> bool" for P
proof unfold_locales
  fix s t u :: "'w st"
  show "emitted P s s" by (simp add: emitted_def)
  assume "emitted P s t" "emitted P t u"
  then show "emitted P s u" by (fastforce simp: emitted_def)
qed

text \<open>A view \<open>V\<close> of the world is unchanged.\<close>

definition unchanged :: "('w \<Rightarrow> 'v) \<Rightarrow> 'w st \<Rightarrow> 'w st \<Rightarrow> bool" where
  "unchanged V s t \<longleftrightarrow> V (world t) = V (world s)"

interpretation un: state_rel "unchanged V :: 'w st \<Rightarrow> 'w st \<Rightarrow> bool" for V
  by unfold_locales (simp_all add: unchanged_def)

lemma emitted_mono: "emitted P s t \<Longrightarrow> (\<And>e. P e \<Longrightarrow> Q e) \<Longrightarrow> emitted Q s t"
  unfolding emitted_def by (metis list_all_iff)

lemma within_emitted_mono:
  "within (emitted P) m \<Longrightarrow> (\<And>e. P e \<Longrightarrow> Q e) \<Longrightarrow> within (emitted Q) m"
  unfolding within_def using emitted_mono by blast

lemma within_emitted_call: "(\<And>r. P (eff r)) \<Longrightarrow> within (emitted P) (callE eff f)"
  by (auto simp: within_def callE_def emitted_def split: prod.splits)

lemma within_unchanged_call:
  "(\<And>w. V (snd (f w)) = V w) \<Longrightarrow> within (unchanged V) (callE eff f)"
  by (auto simp: within_def callE_def unchanged_def split: prod.splits) (metis snd_conv)

lemmas emits_rules = em.within_ret em.within_throw em.within_liftR em.within_bind em.within_wrap
  em.within_try em.within_forM within_emitted_call

lemmas same_rules = un.within_ret un.within_throw un.within_liftR un.within_bind un.within_wrap
  un.within_try un.within_forM within_unchanged_call

section \<open>Order of calls\<close>

text \<open>
  \<open>guarded B P tr\<close>: in the call list \<open>tr\<close>, every call satisfying \<open>P\<close> comes after one
  satisfying \<open>B\<close>.
\<close>

fun guarded :: "(effect \<Rightarrow> bool) \<Rightarrow> (effect \<Rightarrow> bool) \<Rightarrow> effect list \<Rightarrow> bool" where
  "guarded B P [] = True"
| "guarded B P (e # es) = (if B e then True else \<not> P e \<and> guarded B P es)"

lemma guarded_before:
  "guarded B P (pre @ e # post) \<Longrightarrow> P e \<Longrightarrow> (\<And>e. \<not> (B e \<and> P e)) \<Longrightarrow> \<exists>b \<in> set pre. B b"
  by (induction pre) (auto split: if_splits)

lemma not_guarded:
  "\<not> guarded B P tr \<Longrightarrow> \<exists>pre e post. tr = pre @ e # post \<and> P e \<and> (\<forall>b \<in> set pre. \<not> B b)"
proof (induction tr)
  case Nil
  then show ?case by simp
next
  case (Cons a tr)
  then have a: "\<not> B a" and d: "P a \<or> \<not> guarded B P tr" by (auto split: if_splits)
  show ?case
  proof (cases "P a")
    case True
    then have "a # tr = [] @ a # tr \<and> P a \<and> (\<forall>b \<in> set []. \<not> B b)" by simp
    then show ?thesis by blast
  next
    case False
    with d Cons.IH obtain pre e post where "tr = pre @ e # post" "P e" "\<forall>b \<in> set pre. \<not> B b"
      by blast
    with a have "a # tr = (a # pre) @ e # post \<and> P e \<and> (\<forall>b \<in> set (a # pre). \<not> B b)" by simp
    then show ?thesis by blast
  qed
qed

lemma guarded_iff:
  assumes "\<And>e. \<not> (B e \<and> P e)"
  shows "guarded B P tr \<longleftrightarrow>
     (\<forall>pre e post. tr = pre @ e # post \<longrightarrow> P e \<longrightarrow> (\<exists>b \<in> set pre. B b))"
  using guarded_before [where B = B and P = P] not_guarded [of B P tr] assms by metis

lemma guarded_quiet: "list_all (\<lambda>e. \<not> P e) tr \<Longrightarrow> guarded B P tr"
  by (induction tr) auto

lemma guarded_append_quiet:
  "list_all (\<lambda>e. \<not> P e) tr \<Longrightarrow> guarded B P tr' \<Longrightarrow> guarded B P (tr @ tr')"
  by (induction tr) auto

lemma guarded_append_backed:
  "list_all (\<lambda>e. \<not> P e) tr \<Longrightarrow> list_ex B tr \<Longrightarrow> guarded B P (tr @ tr')"
  by (induction tr) auto

definition runs_guarded :: "(effect \<Rightarrow> bool) \<Rightarrow> (effect \<Rightarrow> bool) \<Rightarrow> ('w st \<Rightarrow> 'r \<times> 'w st) \<Rightarrow> bool" where
  "runs_guarded B P m \<longleftrightarrow> (\<forall>s. \<exists>tr. trace (snd (m s)) = trace s @ tr \<and> guarded B P tr)"

lemma runs_guarded_quiet: "within (emitted (\<lambda>e. \<not> P e)) m \<Longrightarrow> runs_guarded B P m"
  unfolding runs_guarded_def within_def emitted_def using guarded_quiet by blast

lemma runs_guarded_bind_quiet:
  assumes m: "within (emitted (\<lambda>e. \<not> P e)) m" and f: "\<And>a. runs_guarded B P (f a)"
  shows "runs_guarded B P (bindM m f)"
  unfolding runs_guarded_def
proof
  fix s
  obtain r s' where ms: "m s = (r, s')" by force
  obtain tr where tr: "trace s' = trace s @ tr" "list_all (\<lambda>e. \<not> P e) tr"
    using m ms unfolding within_def emitted_def by (metis snd_conv)
  show "\<exists>tr. trace (snd (bindM m f s)) = trace s @ tr \<and> guarded B P tr"
  proof (cases r)
    case (Inl e)
    with ms tr show ?thesis by (auto simp: bindM_def guarded_quiet)
  next
    case (Inr a)
    obtain tr' where "trace (snd (f a s')) = trace s' @ tr'" "guarded B P tr'"
      using f unfolding runs_guarded_def by blast
    with Inr ms tr show ?thesis by (auto simp: bindM_def guarded_append_quiet)
  qed
qed

text \<open>After a prefix that makes no \<open>P\<close> call and, if it succeeds, has made a \<open>B\<close> call, anything goes.\<close>

lemma runs_guarded_bind_backed:
  assumes m: "within (emitted (\<lambda>e. \<not> P e)) m"
    and backed: "\<And>s a s'. m s = (Inr a, s') \<Longrightarrow> \<exists>tr. trace s' = trace s @ tr \<and> list_ex B tr"
    and f: "\<And>a. within (emitted (\<lambda>_. True)) (f a)"
  shows "runs_guarded B P (bindM m f)"
  unfolding runs_guarded_def
proof
  fix s
  obtain r s' where ms: "m s = (r, s')" by force
  obtain tr where tr: "trace s' = trace s @ tr" "list_all (\<lambda>e. \<not> P e) tr"
    using m ms unfolding within_def emitted_def by (metis snd_conv)
  show "\<exists>tr. trace (snd (bindM m f s)) = trace s @ tr \<and> guarded B P tr"
  proof (cases r)
    case (Inl e)
    with ms tr show ?thesis by (auto simp: bindM_def guarded_quiet)
  next
    case (Inr a)
    with backed ms tr have "list_ex B tr" by fastforce
    obtain tr' where "trace (snd (f a s')) = trace s' @ tr'"
      using f unfolding within_def emitted_def by blast
    with Inr ms tr \<open>list_ex B tr\<close> show ?thesis
      by (auto simp: bindM_def intro!: exI [of _ "tr @ tr'"] guarded_append_backed)
  qed
qed

end
