(* ===== verification/Polling.thy ===== *)
theory Polling
  imports World
begin

text \<open>
  Waiting.  The program waits with \<open>wait.PollUntilContextTimeout\<close>, a library function and
  so a field of \<open>env\<close>.  Its documented behaviour with \<open>immediate\<close> set is \<open>poller_ok\<close>: it
  evaluates the condition at least once and again after every false result, returns as soon
  as the condition is true or fails, and gives up with the context's error after some number
  of attempts, which depends on time and load and so is existentially quantified.

  Most waits of \<open>pkg/framework\<close> share one shape, \<open>poll_last\<close>: a probe that never fails but
  stores its latest complaint in \<open>lastErr\<close>, which is appended to the error of a timeout.
  The locale \<open>readiness\<close> is the contract of such a wait.
\<close>

section \<open>The polling loop\<close>

fun poll_upto :: "nat \<Rightarrow> 's condition_fn \<Rightarrow> 's \<Rightarrow> goerror option \<times> 's" where
  "poll_upto 0 c s =
     (case c s of (Inl e, s') \<Rightarrow> (Some e, s') | (Inr b, s') \<Rightarrow> (if b then None else Some ContextDone, s'))"
| "poll_upto (Suc n) c s =
     (case c s of (Inl e, s') \<Rightarrow> (Some e, s') | (Inr b, s') \<Rightarrow> if b then (None, s') else poll_upto n c s')"

definition poller_ok :: "'s poller \<Rightarrow> bool" where
  "poller_ok p \<longleftrightarrow> (\<forall>i t c s. \<exists>n. p i t c s = poll_upto n c s)"

text \<open>A poller that makes at least \<open>n\<close> further attempts before it gives up.\<close>

definition poller_patient :: "nat \<Rightarrow> 's poller \<Rightarrow> bool" where
  "poller_patient k p \<longleftrightarrow> (\<forall>i t c s. \<exists>n \<ge> k. p i t c s = poll_upto n c s)"

lemma poller_patient_ok: "poller_patient k p \<Longrightarrow> poller_ok p"
  unfolding poller_patient_def poller_ok_def by blast

lemma poll_upto_patient: "poller_patient k (\<lambda>i t. poll_upto k)"
  by (auto simp: poller_patient_def)

text \<open>A poll that succeeds ends with an evaluation of the condition that was true.\<close>

lemma poll_upto_success:
  "poll_upto n c s = (None, s') \<Longrightarrow> \<exists>t. c t = (Inr True, s')"
  by (induction n arbitrary: s) (auto split: prod.splits sum.splits if_splits)

lemma poll_upto_error:
  "poll_upto n c s = (Some e, s') \<Longrightarrow> e = ContextDone \<and> (\<exists>t. c t = (Inr False, s')) \<or> (\<exists>t. c t = (Inl e, s'))"
  by (induction n arbitrary: s) (auto split: prod.splits sum.splits if_splits)

lemma poll_upto_within:
  assumes refl: "\<And>s. R s s" and trans: "\<And>s t u. R s t \<Longrightarrow> R t u \<Longrightarrow> R s u"
    and cnd: "\<And>s. R s (snd (c s))"
  shows "R s (snd (poll_upto n c s))"
proof (induction n arbitrary: s)
  case 0
  show ?case using cnd [of s] by (auto split: prod.splits sum.splits)
next
  case (Suc n)
  obtain r s' where cs: "c s = (r, s')" by force
  with cnd [of s] have "R s s'" by simp
  moreover have "R s' (snd (poll_upto n c s'))" by (rule Suc)
  ultimately show ?case using cs trans by (auto split: sum.splits)
qed

text \<open>The successful evaluation happens on the way from the first state to the last.\<close>

lemma poll_upto_success_along:
  assumes refl: "\<And>s. R s s" and trans: "\<And>s t u. R s t \<Longrightarrow> R t u \<Longrightarrow> R s u"
    and cnd: "\<And>s. R s (snd (c s))"
  shows "poll_upto n c s = (None, s') \<Longrightarrow> \<exists>t. R s t \<and> c t = (Inr True, s')"
proof (induction n arbitrary: s)
  case 0
  then show ?case using refl by (auto split: prod.splits sum.splits if_splits)
next
  case (Suc n)
  obtain r s1 where cs: "c s = (r, s1)" by force
  with cnd [of s] have 1: "R s s1" by simp
  show ?case
  proof (cases "r = Inr True")
    case True
    with Suc.prems cs refl show ?thesis by auto
  next
    case False
    with Suc.prems cs have "poll_upto n c s1 = (None, s')" by (auto split: sum.splits if_splits)
    then obtain t where "R s1 t" "c t = (Inr True, s')" using Suc.IH by blast
    with 1 trans show ?thesis by blast
  qed
qed

section \<open>The shape with a last error\<close>

type_synonym 's probe = "'s \<Rightarrow> (goerror option \<times> bool) \<times> 's"

definition probe_cond :: "'s probe \<Rightarrow> (goerror option \<times> 's) condition_fn" where
  "probe_cond pr = (\<lambda>(_, s). case pr s of ((lastErr, b), s') \<Rightarrow> (Inr b, (lastErr, s')))"

definition poll_last ::
  "'w env \<Rightarrow> string \<Rightarrow> int \<Rightarrow> 'w st probe \<Rightarrow> ('w, unit) comp" where
  "poll_last env fmt timeout pr s =
     (case poll env DefaultPolling timeout (probe_cond pr) (None, s) of
        (None, _, s') \<Rightarrow> (Inr (), s')
      | (Some pollErr, Some lastErr, s') \<Rightarrow> (Inl (Wrapf fmt [AErr lastErr] pollErr), s')
      | (Some pollErr, None, s') \<Rightarrow> (Inl pollErr, s'))"

text \<open>The shape without one: the condition may fail, and its failure ends the wait.\<close>

definition plain_cond :: "'s condition_fn \<Rightarrow> (goerror option \<times> 's) condition_fn" where
  "plain_cond c = (\<lambda>(le, s). case c s of (r, s') \<Rightarrow> (r, (le, s')))"

definition poll_plain ::
  "'w env \<Rightarrow> int \<Rightarrow> int \<Rightarrow> 'w st condition_fn \<Rightarrow> ('w, unit) comp" where
  "poll_plain env interval timeout c s =
     (case poll env interval timeout (plain_cond c) (None, s) of
        (None, _, s') \<Rightarrow> (Inr (), s')
      | (Some e, _, s') \<Rightarrow> (Inl e, s'))"

lemma plain_cond_eq: "plain_cond c (le, s) = (fst (c s), (le, snd (c s)))"
  by (simp add: plain_cond_def split: prod.splits)

lemma probe_cond_eq: "probe_cond pr (le, s) = (Inr (snd (fst (pr s))), (fst (fst (pr s)), snd (pr s)))"
  by (simp add: probe_cond_def split: prod.splits)

lemma poll_last_success:
  assumes ok: "poller_ok (poll env)" and run: "poll_last env fmt timeout pr s = (Inr u, s')"
  shows "\<exists>t. snd (fst (pr t)) \<and> s' = snd (pr t)"
proof -
  obtain n where n: "poll env DefaultPolling timeout (probe_cond pr) (None, s) =
      poll_upto n (probe_cond pr) (None, s)"
    using ok unfolding poller_ok_def by blast
  with run obtain le where "poll_upto n (probe_cond pr) (None, s) = (None, le, s')"
    by (auto simp: poll_last_def split: prod.splits option.splits)
  from poll_upto_success [OF this] obtain t where "probe_cond pr t = (Inr True, le, s')" ..
  then show ?thesis by (cases t) (auto simp: probe_cond_eq)
qed

lemma poll_last_success_along:
  assumes ok: "poller_ok (poll env)"
    and refl: "\<And>s. R s s" and trans: "\<And>s t u. R s t \<Longrightarrow> R t u \<Longrightarrow> R s u"
    and pr: "within R pr"
    and run: "poll_last env fmt timeout pr s = (Inr u, s')"
  shows "\<exists>t. R s t \<and> snd (fst (pr t)) \<and> s' = snd (pr t)"
proof -
  obtain n where n: "poll env DefaultPolling timeout (probe_cond pr) (None, s) =
      poll_upto n (probe_cond pr) (None, s)"
    using ok unfolding poller_ok_def by blast
  with run obtain le where p: "poll_upto n (probe_cond pr) (None, s) = (None, le, s')"
    by (auto simp: poll_last_def split: prod.splits option.splits)
  have "\<exists>t. R (snd (None :: goerror option, s)) (snd t) \<and> probe_cond pr t = (Inr True, le, s')"
  proof (rule poll_upto_success_along [where R = "\<lambda>x y. R (snd x) (snd y)", OF _ _ _ p])
    show "R (snd x) (snd (snd (probe_cond pr x)))" for x
      using pr by (cases x) (simp add: probe_cond_eq within_def)
  qed (use refl trans in blast)+
  then obtain le0 t where "R s t" "probe_cond pr (le0, t) = (Inr True, le, s')" by auto
  then show ?thesis by (auto simp: probe_cond_eq)
qed

text \<open>The only error of such a wait is the context's, with the last complaint if there is one.\<close>

lemma poll_last_error:
  assumes ok: "poller_ok (poll env)" and run: "poll_last env fmt timeout pr s = (Inl e, s')"
  shows "\<exists>t. \<not> snd (fst (pr t)) \<and> s' = snd (pr t) \<and>
    e = (case fst (fst (pr t)) of None \<Rightarrow> ContextDone | Some le \<Rightarrow> Wrapf fmt [AErr le] ContextDone)"
proof -
  obtain n where n: "poll env DefaultPolling timeout (probe_cond pr) (None, s) =
      poll_upto n (probe_cond pr) (None, s)"
    using ok unfolding poller_ok_def by blast
  with run obtain pe le where p: "poll_upto n (probe_cond pr) (None, s) = (Some pe, le, s')"
    and e: "e = (case le of None \<Rightarrow> pe | Some le \<Rightarrow> Wrapf fmt [AErr le] pe)"
    by (auto simp: poll_last_def split: prod.splits option.splits)
  have "\<not> (\<exists>t. probe_cond pr t = (Inl pe, le, s'))" by (auto simp: probe_cond_eq)
  with poll_upto_error [OF p] obtain t where "pe = ContextDone" "probe_cond pr t = (Inr False, le, s')"
    by auto
  with e show ?thesis by (cases t) (auto simp: probe_cond_eq)
qed

lemma poll_last_within:
  assumes ok: "poller_ok (poll env)"
    and refl: "\<And>s. R s s" and trans: "\<And>s t u. R s t \<Longrightarrow> R t u \<Longrightarrow> R s u"
    and pr: "within R pr"
  shows "within R (poll_last env fmt timeout pr)"
  unfolding within_def
proof
  fix s
  obtain n where n: "poll env DefaultPolling timeout (probe_cond pr) (None, s) =
      poll_upto n (probe_cond pr) (None, s)"
    using ok unfolding poller_ok_def by blast
  have "R (snd (None :: goerror option, s)) (snd (snd (poll_upto n (probe_cond pr) (None, s))))"
  proof (rule poll_upto_within [where R = "\<lambda>x y. R (snd x) (snd y)"])
    show "R (snd x) (snd (snd (probe_cond pr x)))" for x
      using pr by (cases x) (simp add: probe_cond_eq within_def)
  qed (use refl trans in blast)+
  with n show "R s (snd (poll_last env fmt timeout pr s))"
    by (auto simp: poll_last_def split: prod.splits option.splits)
qed

lemma poll_plain_success:
  assumes ok: "poller_ok (poll env)" and run: "poll_plain env i timeout c s = (Inr u, s')"
  shows "\<exists>t. c t = (Inr True, s')"
proof -
  obtain n where n: "poll env i timeout (plain_cond c) (None, s) = poll_upto n (plain_cond c) (None, s)"
    using ok unfolding poller_ok_def by blast
  with run obtain le where "poll_upto n (plain_cond c) (None, s) = (None, le, s')"
    by (auto simp: poll_plain_def split: prod.splits option.splits)
  from poll_upto_success [OF this] obtain t where "plain_cond c t = (Inr True, le, s')" ..
  then show ?thesis by (auto simp: plain_cond_def split: prod.splits)
qed

lemma poll_plain_error:
  assumes ok: "poller_ok (poll env)" and run: "poll_plain env i timeout c s = (Inl e, s')"
  shows "e = ContextDone \<or> (\<exists>t. c t = (Inl e, s'))"
proof -
  obtain n where n: "poll env i timeout (plain_cond c) (None, s) = poll_upto n (plain_cond c) (None, s)"
    using ok unfolding poller_ok_def by blast
  with run obtain le where "poll_upto n (plain_cond c) (None, s) = (Some e, le, s')"
    by (auto simp: poll_plain_def split: prod.splits option.splits)
  from poll_upto_error [OF this] show ?thesis
  proof
    assume "\<exists>t. plain_cond c t = (Inl e, le, s')"
    then obtain le0 t where "plain_cond c (le0, t) = (Inl e, le, s')" by auto
    then have "c t = (Inl e, s')" by (simp add: plain_cond_eq prod_eq_iff)
    then show ?thesis by blast
  qed simp
qed

lemma poll_plain_within:
  assumes ok: "poller_ok (poll env)"
    and refl: "\<And>s. R s s" and trans: "\<And>s t u. R s t \<Longrightarrow> R t u \<Longrightarrow> R s u"
    and cnd: "within R c"
  shows "within R (poll_plain env i timeout c)"
  unfolding within_def
proof
  fix s
  obtain n where n: "poll env i timeout (plain_cond c) (None, s) = poll_upto n (plain_cond c) (None, s)"
    using ok unfolding poller_ok_def by blast
  have "R (snd (None :: goerror option, s)) (snd (snd (poll_upto n (plain_cond c) (None, s))))"
  proof (rule poll_upto_within [where R = "\<lambda>x y. R (snd x) (snd y)"])
    show "R (snd x) (snd (snd ((plain_cond c) x)))" for x
      using cnd by (cases x) (simp add: within_def plain_cond_eq)
  qed (use refl trans in blast)+
  with n show "R s (snd (poll_plain env i timeout c s))"
    by (auto simp: poll_plain_def split: prod.splits option.splits)
qed

section \<open>The contract of a readiness wait\<close>

text \<open>
  \<open>wait\<close> is a wait of the program, \<open>pr\<close> its probe and \<open>ready\<close> what the probe looks for, a
  predicate on the state in which the probe starts.  A successful wait has seen a ready
  state; a failing one ran out of time on a state that was not ready; and a wait that is
  patient enough succeeds as soon as one of its probes starts in a ready state.
\<close>

fun probe_states :: "'s probe \<Rightarrow> nat \<Rightarrow> 's \<Rightarrow> 's list" where
  "probe_states pr 0 s = [s]"
| "probe_states pr (Suc n) s = s # probe_states pr n (snd (pr s))"

locale readiness =
  fixes wait :: "'w env \<Rightarrow> 'p \<Rightarrow> int \<Rightarrow> ('w, unit) comp"
    and fmt :: string
    and pr :: "'w env \<Rightarrow> 'p \<Rightarrow> 'w st probe"
    and ready :: "'w env \<Rightarrow> 'p \<Rightarrow> 'w st \<Rightarrow> bool"
  assumes wait_polls: "wait env p timeout = poll_last env fmt timeout (pr env p)"
    and probe_ready: "snd (fst (pr env p s)) \<longleftrightarrow> ready env p s"
begin

lemma wait_sound:
  "poller_ok (poll env) \<Longrightarrow> wait env p timeout s = (Inr u, s') \<Longrightarrow>
     \<exists>t. ready env p t \<and> s' = snd (pr env p t)"
  using poll_last_success [of env fmt timeout "pr env p" s u s'] by (simp add: wait_polls probe_ready)

lemma wait_sound_along:
  "poller_ok (poll env) \<Longrightarrow> (\<And>s. R s s) \<Longrightarrow> (\<And>s t u. R s t \<Longrightarrow> R t u \<Longrightarrow> R s u) \<Longrightarrow>
     within R (pr env p) \<Longrightarrow> wait env p timeout s = (Inr u, s') \<Longrightarrow>
     \<exists>t. R s t \<and> ready env p t \<and> R t s'"
  using poll_last_success_along [of env R "pr env p" fmt timeout s u s']
  by (auto simp: wait_polls probe_ready within_def)

lemma wait_fails_unready:
  "poller_ok (poll env) \<Longrightarrow> wait env p timeout s = (Inl e, s') \<Longrightarrow>
     \<exists>t. \<not> ready env p t \<and> s' = snd (pr env p t)"
  using poll_last_error [of env fmt timeout "pr env p" s e s'] by (auto simp: wait_polls probe_ready)

lemma upto_live:
  "\<exists>t \<in> set (probe_states (pr env p) k s). ready env p t \<Longrightarrow> k \<le> n \<Longrightarrow>
     \<exists>x. poll_upto n (probe_cond (pr env p)) (le, s) = (None, x)"
proof (induction k arbitrary: n s le)
  case 0
  then show ?case by (cases n) (simp_all add: probe_cond_eq probe_ready)
next
  case (Suc k)
  then obtain n' where n: "n = Suc n'" "k \<le> n'" by (cases n) auto
  show ?case
  proof (cases "ready env p s")
    case True
    with n show ?thesis by (simp add: probe_cond_eq probe_ready)
  next
    case False
    with Suc n show ?thesis by (simp add: probe_cond_eq probe_ready)
  qed
qed

lemma wait_live:
  assumes patient: "poller_patient k (poll env)"
    and seen: "\<exists>t \<in> set (probe_states (pr env p) k s). ready env p t"
  shows "\<exists>s'. wait env p timeout s = (Inr (), s')"
proof -
  obtain n where "n \<ge> k" and n: "poll env DefaultPolling timeout (probe_cond (pr env p)) (None, s) =
      poll_upto n (probe_cond (pr env p)) (None, s)"
    using patient unfolding poller_patient_def by blast
  then obtain le s' where "poll_upto n (probe_cond (pr env p)) (None, s) = (None, le, s')"
    using upto_live [OF seen, of n None] by force
  with n show ?thesis by (simp add: wait_polls poll_last_def)
qed

lemma wait_within:
  "poller_ok (poll env) \<Longrightarrow> (\<And>s. R s s) \<Longrightarrow> (\<And>s t u. R s t \<Longrightarrow> R t u \<Longrightarrow> R s u) \<Longrightarrow>
     within R (pr env p) \<Longrightarrow> within R (wait env p timeout)"
  unfolding wait_polls by (rule poll_last_within)

end

end
