(* ===== verification/FrameworkObjects.thy ===== *)
theory FrameworkObjects
  imports World Polling "HOL-Library.Char_ord" "HOL-Library.List_Lexorder"
begin

text \<open>
  The object helpers of \<open>pkg/framework\<close>: \<open>infrastructure.go\<close>, \<open>featuregate.go\<close>,
  \<open>configmap.go\<close>, \<open>secrets.go\<close> and \<open>pods.go\<close>.  A pointer that the code tests for nil is an
  option.  Byte strings are ordered as \<open>sort.Strings\<close> orders them.
\<close>

section \<open>infrastructure.go\<close>

definition GetInfrastructure :: "'w env \<Rightarrow> ('w, infrastructure) comp" where
  "GetInfrastructure env =
     wrapM ''get infrastructure: %w'' []
       (call (EGet ''infrastructures'' '''' InfrastructureName) (get_infra env InfrastructureName))"

definition BackupInfrastructure :: "'w env \<Rightarrow> ('w, infrastructure) comp" where
  "BackupInfrastructure env = bindM (GetInfrastructure env) (\<lambda>infra. ret infra)"

definition RestoreInfrastructure :: "'w env \<Rightarrow> infrastructure option \<Rightarrow> ('w, unit) comp" where
  "RestoreInfrastructure env backup =
     (case backup of
        None \<Rightarrow> throw (Errorf ''backup infrastructure is nil'' [])
      | Some backup \<Rightarrow>
          bindM (GetInfrastructure env) (\<lambda>current.
            let restored = current\<lparr>infra_spec := infra_spec backup, infra_status := infra_status backup\<rparr>
            in bindM (wrapM ''restore infrastructure: %w'' []
                       (call (EUpdateInfrastructure restored) (update_infra env restored)))
                 (\<lambda>_. ret ())))"

definition PatchInfrastructure :: "'w env \<Rightarrow> patch \<Rightarrow> bool \<Rightarrow> ('w, infrastructure) comp" where
  "PatchInfrastructure env patch dryRun =
     call (EPatchInfrastructure patch dryRun) (patch_infra env InfrastructureName patch dryRun)"

definition ReplaceInfrastructureSpec :: "'w env \<Rightarrow> infra_spec \<Rightarrow> bool \<Rightarrow> ('w, infrastructure) comp" where
  "ReplaceInfrastructureSpec env spec dryRun =
     bindM (wrapM ''marshal infrastructure spec patch: %w'' [] (liftR (json_marshal_spec env spec)))
       (\<lambda>patch. PatchInfrastructure env patch dryRun)"

definition IsVSphereCluster :: "infrastructure option \<Rightarrow> bool" where
  "IsVSphereCluster infra =
     (case infra of
        None \<Rightarrow> False
      | Some infra \<Rightarrow>
          (case ist_platformType (infra_status infra) of
             Some ty \<Rightarrow> ty = vSpherePlatformType
           | None \<Rightarrow> is_type (infra_spec infra) = vSpherePlatformType))"

definition GetVCenters :: "infrastructure option \<Rightarrow> vcenter_spec list" where
  "GetVCenters infra =
     (case infra of
        None \<Rightarrow> []
      | Some infra \<Rightarrow> (case is_vsphere (infra_spec infra) of None \<Rightarrow> [] | Some p \<Rightarrow> vs_vcenters p))"

definition GetFailureDomains :: "infrastructure option \<Rightarrow> failure_domain list" where
  "GetFailureDomains infra =
     (case infra of
        None \<Rightarrow> []
      | Some infra \<Rightarrow>
          (case is_vsphere (infra_spec infra) of None \<Rightarrow> [] | Some p \<Rightarrow> vs_failureDomains p))"

section \<open>featuregate.go\<close>

text \<open>The pair is \<open>(enabled, found)\<close>.\<close>

definition gateEnabledInDetails :: "string \<Rightarrow> gate_details \<Rightarrow> bool \<times> bool" where
  "gateEnabledInDetails gateName details =
     (if find_first (\<lambda>gate. gate = gateName) (gd_enabled details) \<noteq> None then (True, True)
      else if find_first (\<lambda>gate. gate = gateName) (gd_disabled details) \<noteq> None then (False, True)
      else (False, False))"

fun gate_enabled :: "string \<Rightarrow> gate_details list \<Rightarrow> bool" where
  "gate_enabled gateName [] = False"
| "gate_enabled gateName (details # ds) =
     (case gateEnabledInDetails gateName details of
        (enabled, found) \<Rightarrow> if found then enabled else gate_enabled gateName ds)"

definition IsFeatureGateEnabled :: "'w env \<Rightarrow> string \<Rightarrow> ('w, bool) comp" where
  "IsFeatureGateEnabled env gateName =
     bindM (wrapM ''get featuregate: %w'' []
              (call (EGet ''featuregates'' '''' FeatureGateName) (get_feature_gate env FeatureGateName)))
       (\<lambda>gates. ret (gate_enabled gateName gates))"

fun gate_attributes :: "string \<Rightarrow> gate_details list \<Rightarrow> bool \<times> string \<times> bool" where
  "gate_attributes gateName [] = (False, '''', False)"
| "gate_attributes gateName (details # ds) =
     (case gateEnabledInDetails gateName details of
        (ok, present) \<Rightarrow> if present then (ok, gd_version details, True) else gate_attributes gateName ds)"

definition GetFeatureGateAttributes :: "'w env \<Rightarrow> string \<Rightarrow> ('w, bool \<times> string \<times> bool) comp" where
  "GetFeatureGateAttributes env gateName =
     bindM (wrapM ''get featuregate: %w'' []
              (call (EGet ''featuregates'' '''' FeatureGateName) (get_feature_gate env FeatureGateName)))
       (\<lambda>gates. ret (gate_attributes gateName gates))"

definition WaitForFeatureGate :: "'w env \<Rightarrow> string \<Rightarrow> bool \<Rightarrow> int \<Rightarrow> ('w, unit) comp" where
  "WaitForFeatureGate env gateName enabled timeout =
     poll_plain env DefaultPolling timeout
       (bindM (IsFeatureGateEnabled env gateName) (\<lambda>current. ret (current = enabled)))"

section \<open>configmap.go\<close>

record ConfigMapSnapshot =
  snap_Namespace :: string
  snap_Name :: string
  snap_Data :: "string gomap"
  snap_Annotations :: "string gomap"
  snap_ResourceVersion :: string

record Diff =
  df_Path :: string
  df_Expected :: string
  df_Actual :: string

text \<open>Ranging over a nil map is ranging over an empty one, and so is reading it.\<close>

definition cm_entries :: "config_map \<Rightarrow> string gomap" where
  [go_defs]: "cm_entries cm = (case cm_data cm of None \<Rightarrow> [] | Some d \<Rightarrow> d)"

definition GetConfigMap :: "'w env \<Rightarrow> string \<Rightarrow> string \<Rightarrow> ('w, config_map) comp" where
  "GetConfigMap env namespace name =
     wrapM ''get configmap %s/%s: %w'' [AStr namespace, AStr name]
       (call (EGet ''configmaps'' namespace name) (get_config_map env namespace name))"

definition snapshot_of :: "config_map \<Rightarrow> ConfigMapSnapshot" where
  "snapshot_of cm =
     \<lparr>snap_Namespace = cm_namespace cm, snap_Name = cm_name cm, snap_Data = gm_copy (cm_entries cm),
      snap_Annotations = gm_copy (cm_annotations cm), snap_ResourceVersion = cm_resourceVersion cm\<rparr>"

definition SnapshotConfigMap :: "'w env \<Rightarrow> string \<Rightarrow> string \<Rightarrow> ('w, ConfigMapSnapshot) comp" where
  "SnapshotConfigMap env namespace name =
     bindM (GetConfigMap env namespace name) (\<lambda>cm. ret (snapshot_of cm))"

definition RestoreConfigMapFromSnapshot :: "'w env \<Rightarrow> ConfigMapSnapshot option \<Rightarrow> ('w, unit) comp" where
  "RestoreConfigMapFromSnapshot env snapshot =
     (case snapshot of
        None \<Rightarrow> throw (Errorf ''configmap snapshot is nil'' [])
      | Some snapshot \<Rightarrow>
          bindM (GetConfigMap env (snap_Namespace snapshot) (snap_Name snapshot)) (\<lambda>cm.
            let cm = cm\<lparr>cm_data := Some (snap_Data snapshot), cm_annotations := snap_Annotations snapshot\<rparr>
            in bindM (wrapM ''restore configmap %s/%s: %w''
                       [AStr (snap_Namespace snapshot), AStr (snap_Name snapshot)]
                       (call (EUpdateConfigMap cm) (update_config_map env cm)))
                 (\<lambda>_. ret ())))"

definition CompareConfigMapData ::
  "ConfigMapSnapshot option \<Rightarrow> ConfigMapSnapshot option \<Rightarrow> string \<Rightarrow> Diff list" where
  "CompareConfigMapData a b key =
     (case (a, b) of
        (Some a, Some b) \<Rightarrow>
          let aVal = gm_get (snap_Data a) key; bVal = gm_get (snap_Data b) key in
          if aVal = bVal then [] else [\<lparr>df_Path = key, df_Expected = aVal, df_Actual = bVal\<rparr>]
      | _ \<Rightarrow> [\<lparr>df_Path = key, df_Expected = ''<snapshot>'', df_Actual = ''<missing snapshot>''\<rparr>])"

definition owner_candidates :: "string list" where
  [go_defs]: "owner_candidates =
     [''config.openshift.io/infrastructure'', ''openshift.io/cluster-monitoring'',
      ''cluster.cloudconfig.operator/owning-component'']"

fun first_annotation :: "string gomap \<Rightarrow> string list \<Rightarrow> string option" where
  "first_annotation m [] = None"
| "first_annotation m (key # keys) =
     (case gm_lookup m key of
        Some v \<Rightarrow> if v \<noteq> '''' then Some v else first_annotation m keys
      | None \<Rightarrow> first_annotation m keys)"

definition GetConfigMapOwner :: "config_map option \<Rightarrow> string" where
  "GetConfigMapOwner cm =
     (case cm of
        None \<Rightarrow> ''''
      | Some cm \<Rightarrow>
          (case first_annotation (cm_annotations cm) owner_candidates of
             Some v \<Rightarrow> v
           | None \<Rightarrow>
               (case find_first (\<lambda>(key, value). Contains key ''operator'' \<or> Contains key ''owner'')
                       (cm_annotations cm) of
                  Some (key, value) \<Rightarrow> key @ ''='' @ value
                | None \<Rightarrow> '''')))"

text \<open>
  The closure of \<open>WaitForConfigMapStable\<close> keeps the last version and the time since which it
  has been seen; the poller is \<open>wait.PollUntilContextTimeout\<close> at that state.
\<close>

definition stable_cond ::
  "'w env \<Rightarrow> string \<Rightarrow> string \<Rightarrow> int \<Rightarrow> ((string \<times> int) \<times> 'w st) condition_fn" where
  "stable_cond env namespace name window = (\<lambda>((lastVersion, stableSince), s).
     case GetConfigMap env namespace name s of
       (Inl err, s') \<Rightarrow> (Inl err, ((lastVersion, stableSince), s'))
     | (Inr cm, s') \<Rightarrow>
         (case Now env s' of (now, s'') \<Rightarrow>
            if cm_resourceVersion cm \<noteq> lastVersion
            then (Inr False, ((cm_resourceVersion cm, now), s''))
            else (Inr (window \<le> Sub now stableSince), ((lastVersion, stableSince), s''))))"

definition WaitForConfigMapStable ::
  "'w env \<Rightarrow> ((string \<times> int) \<times> 'w st) poller \<Rightarrow> string \<Rightarrow> string \<Rightarrow> int \<Rightarrow> ('w, unit) comp" where
  "WaitForConfigMapStable env poller namespace name window s =
     (case Now env s of (now, s1) \<Rightarrow>
        (case poller (2 * Second) (window + 30 * Second) (stable_cond env namespace name window)
                (('''', now), s1) of
           (None, _, s') \<Rightarrow> (Inr (), s')
         | (Some e, _, s') \<Rightarrow> (Inl e, s')))"

definition SortedConfigMapKeys :: "config_map option \<Rightarrow> string list" where
  "SortedConfigMapKeys cm = (case cm of None \<Rightarrow> [] | Some cm \<Rightarrow> sort (map fst (cm_entries cm)))"

section \<open>secrets.go and pods.go\<close>

definition GetSecret :: "'w env \<Rightarrow> string \<Rightarrow> string \<Rightarrow> ('w, secret) comp" where
  "GetSecret env namespace name =
     wrapM ''get secret %s/%s: %w'' [AStr namespace, AStr name]
       (call (EGet ''secrets'' namespace name) (get_secret env namespace name))"

definition SecretDataKeys :: "secret \<Rightarrow> string list" where
  "SecretDataKeys s = sort (map fst (sec_data s))"

definition SecretHasKeyPrefix :: "secret \<Rightarrow> string \<Rightarrow> bool" where
  "SecretHasKeyPrefix s prefix =
     list_ex (\<lambda>(k, _). length prefix \<le> length k \<and> take (length prefix) k = prefix) (sec_data s)"

definition ListPodsByLabel :: "'w env \<Rightarrow> string \<Rightarrow> string \<Rightarrow> ('w, pod list) comp" where
  "ListPodsByLabel env namespace labelSelector =
     wrapM ''list pods in %s (selector=%s): %w'' [AStr namespace, AStr labelSelector]
       (call (EList ''pods'' labelSelector) (list_pods env namespace labelSelector))"

text \<open>The sum of 32-bit counters wraps around.\<close>

definition PodRestartCount :: "pod \<Rightarrow> int32" where
  "PodRestartCount p = fold (\<lambda>c total. total + c) (pod_restarts p) 0"

text \<open>The type assertion looks at the error itself, not at what it wraps.  \<open>status_message\<close> is the message of a
  status error, \<open>error_text\<close> the text of any other.\<close>

definition InfrastructurePatchError :: "(string \<Rightarrow> string) \<Rightarrow> (goerror \<Rightarrow> string) \<Rightarrow> goerror option \<Rightarrow> string" where
  "InfrastructurePatchError status_message error_text err =
     (case err of
        None \<Rightarrow> ''''
      | Some err \<Rightarrow> (case err of StatusError reason \<Rightarrow> status_message reason | _ \<Rightarrow> error_text err))"

section \<open>Lemmas: what each helper does\<close>

lemma reads_objects:
  "within (emitted read_only) (GetInfrastructure env)"
  "within (emitted read_only) (GetConfigMap env ns n)"
  "within (emitted read_only) (GetSecret env ns n)"
  "within (emitted read_only) (IsFeatureGateEnabled env g)"
  "within (emitted read_only) (ListPodsByLabel env ns n)"
  by (auto simp: GetInfrastructure_def GetConfigMap_def GetSecret_def IsFeatureGateEnabled_def
      ListPodsByLabel_def intro!: emits_rules)

lemma dry_patch_reads: "within (emitted read_only) (ReplaceInfrastructureSpec env spec True)"
  by (auto simp: ReplaceInfrastructureSpec_def PatchInfrastructure_def intro!: emits_rules)

lemma GetVCenters_Some: "is_vsphere (infra_spec i) = Some p \<Longrightarrow> GetVCenters (Some i) = vs_vcenters p"
  by (simp add: GetVCenters_def)

lemma gateEnabledInDetails_cases:
  "gateEnabledInDetails g d =
     (g \<in> set (gd_enabled d), g \<in> set (gd_enabled d) \<or> g \<in> set (gd_disabled d))"
proof -
  have "(\<exists>y. find_first (\<lambda>gate. gate = g) xs = Some y) \<longleftrightarrow> g \<in> set xs" for xs
    using find_first_None_iff [of "\<lambda>gate. gate = g" xs] by auto
  then show ?thesis by (simp add: gateEnabledInDetails_def)
qed

text \<open>The first details entry that mentions the gate decides; an unmentioned gate is off.\<close>

definition mentions :: "string \<Rightarrow> gate_details \<Rightarrow> bool" where
  "mentions g d \<longleftrightarrow> g \<in> set (gd_enabled d) \<or> g \<in> set (gd_disabled d)"

lemma gate_enabled_find:
  "gate_enabled g ds =
     (case find_first (mentions g) ds of None \<Rightarrow> False | Some d \<Rightarrow> g \<in> set (gd_enabled d))"
  by (induction ds) (auto simp: gateEnabledInDetails_cases mentions_def)

lemma gate_enabled_first:
  "gate_enabled g ds \<longleftrightarrow>
     (\<exists>pre d post. ds = pre @ d # post \<and> g \<in> set (gd_enabled d) \<and> (\<forall>x \<in> set pre. \<not> mentions g x))"
proof -
  have "gate_enabled g ds \<longleftrightarrow> (\<exists>d. find_first (mentions g) ds = Some d \<and> g \<in> set (gd_enabled d))"
    by (auto simp: gate_enabled_find split: option.splits)
  moreover have "g \<in> set (gd_enabled d) \<Longrightarrow> mentions g d" for d by (simp add: mentions_def)
  ultimately show ?thesis unfolding find_first_Some_iff by blast
qed

lemma gate_attributes_enabled: "fst (gate_attributes g ds) = gate_enabled g ds"
  by (induction ds) (auto split: prod.splits)

lemma gate_attributes_found:
  "snd (snd (gate_attributes g ds)) \<longleftrightarrow>
     (\<exists>d \<in> set ds. g \<in> set (gd_enabled d) \<or> g \<in> set (gd_disabled d))"
  by (induction ds) (auto simp: gateEnabledInDetails_cases)

lemma SecretHasKeyPrefix_iff:
  "SecretHasKeyPrefix s p \<longleftrightarrow> (\<exists>kv \<in> set (sec_data s). HasPrefix (fst kv) p)"
proof -
  have "length p \<le> length k \<and> take (length p) k = p \<longleftrightarrow> HasPrefix k p" for k :: string
    unfolding HasPrefix_def by (metis length_take min.cobounded2 min_def nat_le_linear)
  then show ?thesis by (simp add: SecretHasKeyPrefix_def list_ex_iff case_prod_beta)
qed

lemma first_annotation_Some:
  "first_annotation m keys = Some v \<Longrightarrow> v \<noteq> '''' \<and> (\<exists>k \<in> set keys. gm_lookup m k = Some v)"
  by (induction keys) (auto split: option.splits if_splits)

lemma PodRestartCount_sum: "PodRestartCount p = sum_list (pod_restarts p)"
proof -
  have "fold (\<lambda>c total. total + c) xs a = a + sum_list xs" for xs and a :: int32
    by (induction xs arbitrary: a) (simp_all add: add.assoc)
  then show ?thesis by (simp add: PodRestartCount_def)
qed

end
