(* ===== verification/VSphereConfig.thy ===== *)
theory VSphereConfig
  imports FrameworkObjects
begin

text \<open>
  \<open>pkg/vsphere/types.go\<close> and \<open>pkg/vsphere/cloud_config.go\<close>: lists of failure domains and
  vCenters, and the checks of a cloud provider configuration against the Infrastructure spec.
\<close>

section \<open>types.go\<close>

definition CloneInfrastructureSpec :: "infra_spec \<Rightarrow> infra_spec" where
  [go_defs]: "CloneInfrastructureSpec spec = spec"

definition CloneVCenter :: "vcenter_spec \<Rightarrow> vcenter_spec" where
  [go_defs]: "CloneVCenter v = v"

definition CloneFailureDomain :: "failure_domain \<Rightarrow> failure_domain" where
  [go_defs]: "CloneFailureDomain fd = fd"

definition VCenterServers :: "vcenter_spec list \<Rightarrow> string list" where
  "VCenterServers vcenters = map vc_server vcenters"

definition FailureDomainKey :: "string \<Rightarrow> string \<Rightarrow> string" where
  "FailureDomainKey region zone = region @ ''/'' @ zone"

definition FindFailureDomainByRegionZone ::
  "failure_domain list \<Rightarrow> string \<Rightarrow> string \<Rightarrow> failure_domain option" where
  "FindFailureDomainByRegionZone fds region zone =
     find_first (\<lambda>fd. fd_region fd = region \<and> fd_zone fd = zone) fds"

definition FindFailureDomainByName :: "failure_domain list \<Rightarrow> string \<Rightarrow> failure_domain option" where
  "FindFailureDomainByName fds name = find_first (\<lambda>fd. fd_name fd = name) fds"

definition RemoveFailureDomainByRegionZone ::
  "failure_domain list \<Rightarrow> string \<Rightarrow> string \<Rightarrow> failure_domain list" where
  "RemoveFailureDomainByRegionZone fds region zone =
     drop_matching (\<lambda>fd. fd_region fd = region \<and> fd_zone fd = zone) fds"

definition RemoveVCenterByServer :: "vcenter_spec list \<Rightarrow> string \<Rightarrow> vcenter_spec list" where
  "RemoveVCenterByServer vcenters server = drop_matching (\<lambda>vc. vc_server vc = server) vcenters"

interpretation fds: keyed_list "\<lambda>fd. fd_region fd = region \<and> fd_zone fd = zone"
    "\<lambda>fds. FindFailureDomainByRegionZone fds region zone"
    "\<lambda>fds. RemoveFailureDomainByRegionZone fds region zone" for region zone
  by unfold_locales
    (simp_all add: FindFailureDomainByRegionZone_def RemoveFailureDomainByRegionZone_def)

interpretation vcs: keyed_list "\<lambda>vc. vc_server vc = server"
    "find_first (\<lambda>vc. vc_server vc = server)" "\<lambda>vcs. RemoveVCenterByServer vcs server" for server
  by unfold_locales (simp_all add: RemoveVCenterByServer_def)

lemma VCenterServers_remove:
  "VCenterServers (RemoveVCenterByServer vcs server) = filter (\<lambda>s. s \<noteq> server) (VCenterServers vcs)"
  by (simp add: VCenterServers_def vcs.remove_filter filter_map comp_def)

text \<open>Two tuples have the same key only if a slash moved between region and zone.\<close>

lemma FailureDomainKey_inj:
  assumes "CHR ''/'' \<notin> set region" "CHR ''/'' \<notin> set region'"
    and "FailureDomainKey region zone = FailureDomainKey region' zone'"
  shows "region = region' \<and> zone = zone'"
  using assms by (auto simp: FailureDomainKey_def dest: sep_inj)

section \<open>cloud_config.go\<close>

definition ParseCloudConfigYAML :: "'w env \<Rightarrow> string \<Rightarrow> CloudConfig res" where
  "ParseCloudConfigYAML env data =
     (if TrimSpace data = '''' then Inl (Errorf ''cloud config is empty'' [])
      else case yaml_unmarshal_cloud env data of
             Inl err \<Rightarrow> Inl (Wrapf ''parse cloud config yaml: %w'' [] err)
           | Inr cfg \<Rightarrow> Inr cfg)"

definition vcenter_entries :: "CloudConfig \<Rightarrow> CloudVCenter gomap" where
  [go_defs]: "vcenter_entries cfg = (case VCenter cfg of None \<Rightarrow> [] | Some m \<Rightarrow> m)"

definition entry_server :: "string \<times> CloudVCenter \<Rightarrow> string" where
  "entry_server kv = (case kv of (name, vc) \<Rightarrow> if cv_Server vc \<noteq> '''' then cv_Server vc else name)"

definition VCenterServersFromConfig :: "CloudConfig option \<Rightarrow> string list" where
  "VCenterServersFromConfig cfg =
     (case cfg of None \<Rightarrow> [] | Some cfg \<Rightarrow> map entry_server (vcenter_entries cfg))"

definition AssertInfrastructureVCentersPresent ::
  "infrastructure option \<Rightarrow> CloudConfig option \<Rightarrow> goerror option" where
  "AssertInfrastructureVCentersPresent infra cfg =
     (case Option.bind infra (\<lambda>i. is_vsphere (infra_spec i)) of
        None \<Rightarrow> Some (Errorf ''infrastructure has no vsphere platform spec'' [])
      | Some vsphere \<Rightarrow>
          (case cfg of
             None \<Rightarrow> Some (Errorf ''cloud config is nil'' [])
           | Some c \<Rightarrow>
               (let configSet = set (VCenterServersFromConfig cfg) in
                case find_first (\<lambda>vc. vc_server vc \<notin> configSet \<and>
                                      gm_lookup (vcenter_entries c) (vc_server vc) = None)
                       (vs_vcenters vsphere) of
                  Some vc \<Rightarrow> Some (Errorf ''vCenter %q missing from cloud config'' [AStr (vc_server vc)])
                | None \<Rightarrow> None)))"

definition AssertNoStaleVCenters ::
  "infrastructure option \<Rightarrow> CloudConfig option \<Rightarrow> goerror option" where
  "AssertNoStaleVCenters infra cfg =
     (case Option.bind infra (\<lambda>i. is_vsphere (infra_spec i)) of
        None \<Rightarrow> Some (Errorf ''infrastructure has no vsphere platform spec'' [])
      | Some vsphere \<Rightarrow>
          (case cfg of
             None \<Rightarrow> Some (Errorf ''cloud config is nil'' [])
           | Some c \<Rightarrow>
               (let allowed = set (map vc_server (vs_vcenters vsphere)) in
                case find_first (\<lambda>kv. entry_server kv \<notin> allowed) (vcenter_entries c) of
                  Some kv \<Rightarrow> Some (Errorf ''stale vCenter %q present in cloud config'' [AStr (entry_server kv)])
                | None \<Rightarrow> None)))"

definition GlobalInsecureOnly :: "CloudConfig option \<Rightarrow> bool" where
  "GlobalInsecureOnly cfg =
     (case cfg of
        None \<Rightarrow> True
      | Some cfg \<Rightarrow> find_first (\<lambda>(_, vc). cv_Insecure vc) (vcenter_entries cfg) = None)"

section \<open>What the checks establish\<close>

text \<open>The names a configuration answers to: its keys and its server names.\<close>

definition config_names :: "CloudConfig \<Rightarrow> string set" where
  "config_names c = fst ` set (vcenter_entries c) \<union> entry_server ` set (vcenter_entries c)"

lemma present_iff:
  "AssertInfrastructureVCentersPresent infra cfg = None \<longleftrightarrow>
     (\<exists>i p c. infra = Some i \<and> is_vsphere (infra_spec i) = Some p \<and> cfg = Some c \<and>
        set (VCenterServers (vs_vcenters p)) \<subseteq> config_names c)"
  by (auto simp: AssertInfrastructureVCentersPresent_def VCenterServersFromConfig_def VCenterServers_def
      config_names_def find_first_None_iff map_of_eq_None_iff Let_def bind_eq_Some_conv
      split: option.splits dest!: find_first_SomeD)
    blast+

lemma no_stale_iff:
  "AssertNoStaleVCenters infra cfg = None \<longleftrightarrow>
     (\<exists>i p c. infra = Some i \<and> is_vsphere (infra_spec i) = Some p \<and> cfg = Some c \<and>
        set (VCenterServersFromConfig cfg) \<subseteq> set (VCenterServers (vs_vcenters p)))"
  by (auto simp: AssertNoStaleVCenters_def VCenterServersFromConfig_def VCenterServers_def
      find_first_None_iff Let_def bind_eq_Some_conv
      split: option.splits dest!: find_first_SomeD)

lemma present_error:
  "AssertInfrastructureVCentersPresent (Some i) (Some c) = Some (Errorf ''vCenter %q missing from cloud config'' [AStr x])
     \<Longrightarrow> x \<in> set (VCenterServers (GetVCenters (Some i))) \<and> x \<notin> config_names c"
  by (auto simp: AssertInfrastructureVCentersPresent_def VCenterServersFromConfig_def VCenterServers_def
      config_names_def GetVCenters_def map_of_eq_None_iff Let_def bind_eq_Some_conv
      split: option.splits dest!: find_first_SomeD)

lemma GlobalInsecureOnly_iff:
  "GlobalInsecureOnly (Some c) \<longleftrightarrow> (\<forall>kv \<in> set (vcenter_entries c). \<not> cv_Insecure (snd kv))"
  by (auto simp: GlobalInsecureOnly_def find_first_None_iff)

section \<open>Properties\<close>

lemma find_drop_other:
  "(\<And>x. q x \<Longrightarrow> \<not> p x) \<Longrightarrow> find_first q (drop_matching p xs) = find_first q xs"
  by (induction xs) auto

text \<open>After removing a region and zone, no failure domain of that region and zone is found, every
  other region and zone is found exactly as before, and removing again changes nothing.\<close>

theorem failure_domain_removal:
  assumes "(region', zone') \<noteq> (region, zone)"
  shows "FindFailureDomainByRegionZone (RemoveFailureDomainByRegionZone fds region zone) region zone = None \<and>
    FindFailureDomainByRegionZone (RemoveFailureDomainByRegionZone fds region zone) region' zone' =
      FindFailureDomainByRegionZone fds region' zone' \<and>
    RemoveFailureDomainByRegionZone (RemoveFailureDomainByRegionZone fds region zone) region zone =
      RemoveFailureDomainByRegionZone fds region zone"
proof -
  have "FindFailureDomainByRegionZone (RemoveFailureDomainByRegionZone fds region zone) region' zone' =
      FindFailureDomainByRegionZone fds region' zone'"
    unfolding FindFailureDomainByRegionZone_def RemoveFailureDomainByRegionZone_def
    using assms by (intro find_drop_other) auto
  then show ?thesis using fds.search_remove fds.remove_idem by simp
qed

theorem failure_domain_removal_witness:
  "FindFailureDomainByRegionZone (RemoveFailureDomainByRegionZone [] ''r1'' ''z1'') ''r1'' ''z1'' = None"
  using failure_domain_removal [of "''r1''" "''z2''" "''r1''" "''z1''" "[]"] by simp

text \<open>If both checks of a cloud configuration pass, then every vCenter of the Infrastructure is
  named in the configuration, and every entry of the configuration stands for a vCenter of
  the Infrastructure: none is missing and none is left over.\<close>

theorem present_and_not_stale:
  assumes "AssertInfrastructureVCentersPresent (Some i) (Some c) = None"
    and "AssertNoStaleVCenters (Some i) (Some c) = None"
  shows "set (VCenterServers (GetVCenters (Some i))) \<subseteq> config_names c \<and>
    set (VCenterServersFromConfig (Some c)) \<subseteq> set (VCenterServers (GetVCenters (Some i)))"
  using assms by (auto simp: present_iff no_stale_iff GetVCenters_def)

definition sample_infra :: infrastructure where
  "sample_infra = \<lparr>infra_meta = '''', infra_spec = \<lparr>is_type = ''VSphere'', is_vsphere = Some
     \<lparr>vs_vcenters = [\<lparr>vc_server = ''vc1'', vc_port = 443, vc_datacenters = [''dc1'']\<rparr>],
      vs_failureDomains = [], vs_other = ''''\<rparr>, is_other = ''''\<rparr>,
     infra_status = \<lparr>ist_platformType = None, ist_other = ''''\<rparr>\<rparr>"

definition sample_cloud :: CloudConfig where
  "sample_cloud = \<lparr>Global = None, Labels = [], VCenter = Some
     [(''vc1'', \<lparr>cv_Server = '''', cv_Port = 443, cv_Datacenters = [''dc1''], cv_Insecure = False\<rparr>)],
     Nodes = None, Extra = []\<rparr>"

theorem present_and_not_stale_witness:
  "set (VCenterServersFromConfig (Some sample_cloud)) \<subseteq> set (VCenterServers (GetVCenters (Some sample_infra)))"
proof -
  have "AssertInfrastructureVCentersPresent (Some sample_infra) (Some sample_cloud) = None"
    by (simp add: present_iff sample_infra_def sample_cloud_def VCenterServers_def config_names_def
        vcenter_entries_def entry_server_def)
  moreover have "AssertNoStaleVCenters (Some sample_infra) (Some sample_cloud) = None"
    by (simp add: no_stale_iff sample_infra_def sample_cloud_def VCenterServers_def
        VCenterServersFromConfig_def vcenter_entries_def entry_server_def)
  ultimately show ?thesis using present_and_not_stale [of sample_infra sample_cloud] by blast
qed

end
