(* ===== verification/LabConfigs.thy ===== *)
theory LabConfigs
  imports World
begin

text \<open>
  \<open>pkg/labconfig/config.go\<close>: reading and validating the description of the vCenter to add.

  \<open>Validate\<close> writes through its receiver (it trims the server name and fills in the port),
  so the model returns the error, if any, together with the updated struct: a failing
  validation may have trimmed the server name already.
\<close>

section \<open>Passwords\<close>

definition PasswordValue :: "'w env \<Rightarrow> VCenterConfig \<Rightarrow> ('w, string) comp" where
  "PasswordValue env v =
     (if Password v \<noteq> '''' then ret (Password v)
      else if PasswordFile v = '''' then ret ''''
      else bindM (wrapM ''read passwordFile: %w'' []
                    (call (EReadFile (PasswordFile v)) (read_text env (PasswordFile v))))
             (\<lambda>data. ret (TrimSpace data)))"

section \<open>Validation\<close>

definition VCenterConfig_Validate ::
  "'w env \<Rightarrow> VCenterConfig \<Rightarrow> 'w st \<Rightarrow> (goerror option \<times> VCenterConfig) \<times> 'w st" where
  "VCenterConfig_Validate env v s =
     (let v = v\<lparr>Server := TrimSpace (Server v)\<rparr> in
      if Server v = '''' then ((Some (Errorf ''server is required'' []), v), s)
      else if Datacenters v = [] then ((Some (Errorf ''at least one datacenter is required'' []), v), s)
      else if TrimSpace (Username v) = '''' then ((Some (Errorf ''username is required'' []), v), s)
      else case PasswordValue env v s of
             (Inl err, s') \<Rightarrow> ((Some err, v), s')
           | (Inr password, s') \<Rightarrow>
               if password = '''' then ((Some (Errorf ''password or passwordFile is required'' []), v), s')
               else ((None, if Port v = 0 then v\<lparr>Port := 443\<rparr> else v), s'))"

definition FailureDomainConfig_Validate :: "FailureDomainConfig \<Rightarrow> string \<Rightarrow> goerror option" where
  "FailureDomainConfig_Validate f vcenterServer =
     (if TrimSpace (Name f) = '''' then Some (Errorf ''name is required'' [])
      else if TrimSpace (Region f) = '''' then Some (Errorf ''region is required'' [])
      else if TrimSpace (Zone f) = '''' then Some (Errorf ''zone is required'' [])
      else if TrimSpace (Datacenter (Topology f)) = ''''
        then Some (Errorf ''topology.datacenter is required'' [])
      else if TrimSpace (ComputeCluster (Topology f)) = ''''
        then Some (Errorf ''topology.computeCluster is required'' [])
      else if TrimSpace (Datastore (Topology f)) = ''''
        then Some (Errorf ''topology.datastore is required'' [])
      else if Networks (Topology f) = []
        then Some (Errorf ''topology.networks requires at least one entry'' [])
      else if TrimSpace (ResourcePool (Topology f)) = ''''
        then Some (Errorf ''topology.resourcePool is required'' [])
      else None)"

text \<open>The receiver is a pointer that \<open>Apply\<close> checks for nil itself; \<open>Load\<close> passes a fresh struct.\<close>

definition LabConfig_Validate ::
  "'w env \<Rightarrow> LabConfig \<Rightarrow> 'w st \<Rightarrow> (goerror option \<times> LabConfig) \<times> 'w st" where
  "LabConfig_Validate env c s =
     (case VCenterConfig_Validate env (SecondVCenter c) s of
        ((err, vc), s') \<Rightarrow>
          let c = c\<lparr>SecondVCenter := vc\<rparr> in
          case err of
            Some e \<Rightarrow> ((Some (Wrapf ''secondVCenter: %w'' [] e), c), s')
          | None \<Rightarrow>
              (case FailureDomain c of
                 None \<Rightarrow> ((None, c), s')
               | Some fd \<Rightarrow>
                   (case FailureDomainConfig_Validate fd (Server (SecondVCenter c)) of
                      Some e \<Rightarrow> ((Some (Wrapf ''failureDomain: %w'' [] e), c), s')
                    | None \<Rightarrow> ((None, c), s'))))"

section \<open>Loading\<close>

definition DefaultConfigPath :: string where
  [go_defs]: "DefaultConfigPath = ''config/lab.yaml''"
definition DefaultStateDir :: string where
  [go_defs]: "DefaultStateDir = ''.lab-state''"

definition Load :: "'w env \<Rightarrow> string \<Rightarrow> ('w, LabConfig) comp" where
  "Load env path =
     bindM (wrapM ''read config %q: %w'' [AStr path] (call (EReadFile path) (read_text env path)))
       (\<lambda>data. bindM (wrapM ''parse config %q: %w'' [AStr path] (liftR (yaml_unmarshal_lab env data)))
         (\<lambda>cfg s. case LabConfig_Validate env cfg s of
            ((Some err, _), s') \<Rightarrow> (Inl err, s')
          | ((None, cfg), s') \<Rightarrow>
              (Inr (if StateDir cfg = '''' then cfg\<lparr>StateDir := DefaultStateDir\<rparr> else cfg), s')))"

text \<open>\<open>getenv\<close> is \<open>os.Getenv\<close>: the value of the variable, empty when it is not set.\<close>

definition config_path :: "(string \<Rightarrow> string) \<Rightarrow> string" where
  "config_path getenv =
     (let path = getenv ''E2E_LAB_CONFIG'';
          path = (if path = '''' then getenv ''CONFIG'' else path)
      in if path = '''' then DefaultConfigPath else path)"

definition LoadFromEnv ::
  "'w env \<Rightarrow> (string \<Rightarrow> string) \<Rightarrow> 'w st \<Rightarrow> (LabConfig res \<times> string) \<times> 'w st" where
  "LoadFromEnv env getenv s =
     (let path = config_path getenv in
      case callE (EStat path) (stat_path env path) s of
        (exists, s') \<Rightarrow>
          if \<not> exists then
            ((Inl (Errorf ''lab config not found at %q (copy config/lab.yaml.example to config/lab.yaml)''
                     [AStr path]), path), s')
          else (case Load env path s' of (r, s'') \<Rightarrow> ((r, path), s'')))"

section \<open>What validation accepts\<close>

text \<open>The fields a valid configuration has, apart from the password.\<close>

definition vcenter_fields_ok :: "VCenterConfig \<Rightarrow> bool" where
  "vcenter_fields_ok v \<longleftrightarrow>
     TrimSpace (Server v) \<noteq> '''' \<and> Datacenters v \<noteq> [] \<and> TrimSpace (Username v) \<noteq> ''''"

definition failure_domain_ok :: "FailureDomainConfig \<Rightarrow> bool" where
  "failure_domain_ok f \<longleftrightarrow>
     (\<forall>x \<in> {Name f, Region f, Zone f, Datacenter (Topology f), ComputeCluster (Topology f),
             Datastore (Topology f), ResourcePool (Topology f)}. TrimSpace x \<noteq> '''') \<and>
     Networks (Topology f) \<noteq> []"

text \<open>What validation writes into the struct.\<close>

definition normalised :: "VCenterConfig \<Rightarrow> VCenterConfig" where
  "normalised v =
     v\<lparr>Server := TrimSpace (Server v), Port := (if Port v = 0 then 443 else Port v)\<rparr>"

lemma FailureDomainConfig_Validate_iff:
  "FailureDomainConfig_Validate f srv = None \<longleftrightarrow> failure_domain_ok f"
  by (simp add: FailureDomainConfig_Validate_def failure_domain_ok_def)

lemma FailureDomainConfig_Validate_Some:
  "FailureDomainConfig_Validate f srv = Some e \<Longrightarrow> \<not> failure_domain_ok f"
  using FailureDomainConfig_Validate_iff [of f srv] by simp

lemma PasswordValue_server [simp]:
  "PasswordValue env (v\<lparr>Server := x\<rparr>) = PasswordValue env v"
  "PasswordValue env (v\<lparr>Port := p\<rparr>) = PasswordValue env v"
  by (simp_all add: PasswordValue_def)

lemma VCenterConfig_Validate_ok:
  "VCenterConfig_Validate env v s = ((None, v'), s') \<longleftrightarrow>
     vcenter_fields_ok v \<and> v' = normalised v \<and>
     (\<exists>pw. pw \<noteq> '''' \<and> PasswordValue env v s = (Inr pw, s'))"
  by (auto simp: VCenterConfig_Validate_def vcenter_fields_ok_def normalised_def Let_def
      split: prod.splits sum.splits if_splits)

lemma LabConfig_Validate_ok:
  "LabConfig_Validate env c s = ((None, c'), s') \<longleftrightarrow>
     vcenter_fields_ok (SecondVCenter c) \<and> c' = c\<lparr>SecondVCenter := normalised (SecondVCenter c)\<rparr> \<and>
     (\<exists>pw. pw \<noteq> '''' \<and> PasswordValue env (SecondVCenter c) s = (Inr pw, s')) \<and>
     (\<forall>fd. FailureDomain c = Some fd \<longrightarrow> failure_domain_ok fd)"
proof -
  obtain err vc s1 where v: "VCenterConfig_Validate env (SecondVCenter c) s = ((err, vc), s1)"
    by (metis surj_pair)
  show ?thesis
  proof (cases err)
    case None
    with v VCenterConfig_Validate_ok [of env "SecondVCenter c" s vc s1] show ?thesis
      by (auto simp: LabConfig_Validate_def FailureDomainConfig_Validate_iff Let_def
          split: option.splits dest: FailureDomainConfig_Validate_Some)
  next
    case (Some e)
    with v have "\<not> (\<exists>vc' s'. VCenterConfig_Validate env (SecondVCenter c) s = ((None, vc'), s'))"
      by simp
    then have "\<not> (vcenter_fields_ok (SecondVCenter c) \<and>
        (\<exists>pw s'. pw \<noteq> '''' \<and> PasswordValue env (SecondVCenter c) s = (Inr pw, s')))"
      by (auto simp: VCenterConfig_Validate_ok)
    with v Some show ?thesis by (auto simp: LabConfig_Validate_def Let_def)
  qed
qed

lemma normalised_idem [simp]: "normalised (normalised v) = normalised v"
  by (simp add: normalised_def)

lemma normalised_fields [simp]:
  "Datacenters (normalised v) = Datacenters v" "Username (normalised v) = Username v"
  "Server (normalised v) = TrimSpace (Server v)" "Port (normalised v) \<noteq> 0"
  "vcenter_fields_ok (normalised v) \<longleftrightarrow> vcenter_fields_ok v"
  "PasswordValue env (normalised v) = PasswordValue env v"
  by (auto simp: normalised_def vcenter_fields_ok_def PasswordValue_def)

section \<open>Validation and loading only read\<close>

lemma PasswordValue_reads: "within (emitted read_only) (PasswordValue env v)"
  by (auto simp: PasswordValue_def intro!: emits_rules)

lemma PasswordValue_same:
  "(\<And>p w. V (snd (read_text env p w)) = V w) \<Longrightarrow> within (unchanged V) (PasswordValue env v)"
  by (auto simp: PasswordValue_def intro!: same_rules)

lemma VCenterConfig_Validate_state:
  "(\<And>s. R s s) \<Longrightarrow> within R (PasswordValue env v) \<Longrightarrow> R s (snd (VCenterConfig_Validate env v s))"
  unfolding within_def VCenterConfig_Validate_def Let_def
  by (auto split: prod.splits sum.splits dest: spec [of _ s])

lemma LabConfig_Validate_state:
  "(\<And>s. R s s) \<Longrightarrow> within R (PasswordValue env (SecondVCenter c)) \<Longrightarrow>
     within R (LabConfig_Validate env c)"
  using VCenterConfig_Validate_state [of R env "SecondVCenter c"]
  unfolding within_def LabConfig_Validate_def Let_def
  by (auto split: prod.splits option.splits) (metis snd_conv)+

lemma Load_reads: "within (emitted read_only) (Load env path)"
proof -
  have "within (emitted read_only) (\<lambda>s. case LabConfig_Validate env cfg s of
            ((Some err, _), s') \<Rightarrow> (Inl err, s')
          | ((None, cfg), s') \<Rightarrow>
              (Inr (if StateDir cfg = '''' then cfg\<lparr>StateDir := DefaultStateDir\<rparr> else cfg), s'))"
    for cfg
    using LabConfig_Validate_state [OF em.refl PasswordValue_reads, of env cfg]
    unfolding within_def by (auto split: prod.splits option.splits) (metis snd_conv)+
  then show ?thesis
    by (auto simp: Load_def intro!: emits_rules)
qed

section \<open>Properties\<close>

text \<open>The shape of a loaded configuration.\<close>

definition config_wf :: "LabConfig \<Rightarrow> bool" where
  "config_wf c \<longleftrightarrow>
     StateDir c \<noteq> '''' \<and> Server (SecondVCenter c) \<noteq> '''' \<and>
     TrimSpace (Server (SecondVCenter c)) = Server (SecondVCenter c) \<and> Port (SecondVCenter c) \<noteq> 0 \<and>
     Datacenters (SecondVCenter c) \<noteq> [] \<and> TrimSpace (Username (SecondVCenter c)) \<noteq> '''' \<and>
     (case FailureDomain c of None \<Rightarrow> True | Some f \<Rightarrow> failure_domain_ok f)"

lemma Load_Inr:
  assumes "Load env path s = (Inr cfg, s')"
  shows "\<exists>cfg0 cfg1 s1. LabConfig_Validate env cfg0 s1 = ((None, cfg1), s') \<and> StateDir cfg \<noteq> [] \<and>
    SecondVCenter cfg = SecondVCenter cfg1 \<and> FailureDomain cfg = FailureDomain cfg1"
proof -
  obtain cfg0 s1 where r: "(case LabConfig_Validate env cfg0 s1 of
            ((Some err, _), s') \<Rightarrow> (Inl err, s')
          | ((None, cfg), s') \<Rightarrow>
              (Inr (if StateDir cfg = [] then cfg\<lparr>StateDir := DefaultStateDir\<rparr> else cfg), s')) = (Inr cfg, s')"
    using assms by (auto simp: Load_def comp_Inr)
  obtain err cfg1 s2 where v: "LabConfig_Validate env cfg0 s1 = ((err, cfg1), s2)" by (metis surj_pair)
  with r have "err = None" "s2 = s'"
      "cfg = (if StateDir cfg1 = [] then cfg1\<lparr>StateDir := DefaultStateDir\<rparr> else cfg1)"
    by (auto split: option.splits)
  then have "StateDir cfg \<noteq> []" "SecondVCenter cfg = SecondVCenter cfg1" "FailureDomain cfg = FailureDomain cfg1"
    by (simp_all add: DefaultStateDir_def)
  with v \<open>err = None\<close> \<open>s2 = s'\<close> show ?thesis by blast
qed

lemma normalised_fixed:
  "TrimSpace (Server v) = Server v \<Longrightarrow> Port v \<noteq> 0 \<Longrightarrow> normalised v = v"
  by (simp add: normalised_def)

lemma Load_wf: "Load env path s = (Inr cfg, s') \<Longrightarrow> config_wf cfg"
  by (auto simp: LabConfig_Validate_ok config_wf_def vcenter_fields_ok_def split: option.splits
      dest!: Load_Inr)

lemma config_wf_validates:
  assumes "config_wf c" "Password (SecondVCenter c) \<noteq> ''''"
  shows "LabConfig_Validate env c t = ((None, c), t)"
proof -
  have "PasswordValue env (SecondVCenter c) t = (Inr (Password (SecondVCenter c)), t)"
    using assms(2) by (simp add: PasswordValue_def ret_def)
  moreover have "normalised (SecondVCenter c) = SecondVCenter c"
    using assms(1) by (intro normalised_fixed) (auto simp: config_wf_def)
  ultimately show ?thesis
    using assms by (simp add: LabConfig_Validate_ok config_wf_def vcenter_fields_ok_def split: option.splits)
qed

text \<open>A configuration that \<open>Load\<close> returns is well formed (a state directory, a trimmed nonempty
  server, a nonzero port, a datacenter, a user, and a complete failure domain if there is
  one), and \<open>Apply\<close>'s own validation of it changes nothing when the password is inline.\<close>

theorem load_returns_valid_config:
  assumes "Load env path s = (Inr cfg, s')" "Password (SecondVCenter cfg) \<noteq> ''''"
  shows "config_wf cfg \<and> LabConfig_Validate env cfg t = ((None, cfg), t)"
  using Load_wf [OF assms(1)] config_wf_validates [OF _ assms(2)] by blast

text \<open>Validation accepts a configuration exactly if the server, the user, the datacenters, the
  password and, where there is a failure domain, all of its required fields are present; it
  then trims the server and fills in port 443, and changes nothing else.\<close>

theorem validate_accepts_iff:
  "LabConfig_Validate env c s = ((None, c'), s') \<longleftrightarrow>
     vcenter_fields_ok (SecondVCenter c) \<and>
     (\<exists>pw. pw \<noteq> '''' \<and> PasswordValue env (SecondVCenter c) s = (Inr pw, s')) \<and>
     (case FailureDomain c of None \<Rightarrow> True | Some fd \<Rightarrow> failure_domain_ok fd) \<and>
     c' = c\<lparr>SecondVCenter := (SecondVCenter c)\<lparr>Server := TrimSpace (Server (SecondVCenter c)),
       Port := (if Port (SecondVCenter c) = 0 then 443 else Port (SecondVCenter c))\<rparr>\<rparr>"
  by (auto simp: LabConfig_Validate_ok normalised_def split: option.splits)

end
