(* ===== verification/Credentials.thy ===== *)
theory Credentials
  imports VSphereConfig LabConfigs
begin

text \<open>
  \<open>pkg/lab/credentials.go\<close> and \<open>pkg/lab/credential_secrets.go\<close>: merging the new vCenter into the
  cloud provider configuration and into the two credential secret formats, and the loops
  that back up and update the credential secrets.

  The three merges share one contract, the locale \<open>credential_store\<close>: an update or insertion
  of the entry of one vCenter that leaves every other entry alone.
\<close>

section \<open>The contract of a merge\<close>

locale credential_store =
  fixes view :: "'m \<Rightarrow> string \<Rightarrow> 'c option"
    and key :: "VCenterConfig \<Rightarrow> string"
    and cred :: "VCenterConfig \<Rightarrow> string \<Rightarrow> 'c"
    and upsert :: "VCenterConfig \<Rightarrow> string \<Rightarrow> 'm \<Rightarrow> 'm"
  assumes view_upsert: "view (upsert vc pw m) = (view m)(key vc \<mapsto> cred vc pw)"
    and upsert_again: "upsert vc pw (upsert vc pw m) = upsert vc pw m"
begin

lemma upsert_present: "view (upsert vc pw m) (key vc) = Some (cred vc pw)"
  by (simp add: view_upsert)

lemma upsert_others: "k \<noteq> key vc \<Longrightarrow> view (upsert vc pw m) k = view m k"
  by (simp add: view_upsert)

lemma upsert_last_wins:
  "key vc = key vc' \<Longrightarrow> view (upsert vc' pw' (upsert vc pw m)) = view (upsert vc' pw' m)"
  by (simp add: view_upsert)

lemma upsert_commute:
  "key vc \<noteq> key vc' \<Longrightarrow>
     view (upsert vc pw (upsert vc' pw' m)) = view (upsert vc' pw' (upsert vc pw m))"
  by (simp add: view_upsert fun_upd_twist)

lemma upsert_keys: "dom (view (upsert vc pw m)) = insert (key vc) (dom (view m))"
  by (simp add: view_upsert)

end

section \<open>The cloud provider configuration\<close>

definition secret_ref_keys :: "string list" where
  [go_defs]: "secret_ref_keys = [''secretName'', ''secret-name'', ''secretNamespace'', ''secret-namespace'']"

definition cloudConfigUsesSecretRef :: "any gomap option \<Rightarrow> bool" where
  "cloudConfigUsesSecretRef global =
     (case global of
        None \<Rightarrow> False
      | Some global \<Rightarrow>
          list_ex (\<lambda>key. case gm_lookup global key of Some v \<Rightarrow> Sprint v \<noteq> '''' | None \<Rightarrow> False)
            secret_ref_keys)"

text \<open>The configuration rebuilt from the Infrastructure when the existing one does not parse.\<close>

definition fallback_config :: "infrastructure option \<Rightarrow> CloudConfig" where
  "fallback_config infra =
     \<lparr>Global = Some [], Labels = [],
      VCenter = Some (fold (\<lambda>existingVC m.
          gm_put (vc_server existingVC)
            \<lparr>cv_Server = vc_server existingVC, cv_Port = vc_port existingVC,
             cv_Datacenters = vc_datacenters existingVC, cv_Insecure = False\<rparr> m)
        (GetVCenters infra) []),
      Nodes = None, Extra = []\<rparr>"

definition cloud_entry :: "VCenterConfig \<Rightarrow> CloudVCenter" where
  "cloud_entry vc =
     \<lparr>cv_Server = Server vc, cv_Port = Port vc, cv_Datacenters = Datacenters vc, cv_Insecure = False\<rparr>"

definition put_vcenter :: "VCenterConfig \<Rightarrow> string \<Rightarrow> CloudConfig \<Rightarrow> CloudConfig" where
  "put_vcenter vc password cfg =
     (let global = (case Global cfg of None \<Rightarrow> [] | Some g \<Rightarrow> g);
          vcenter = (case VCenter cfg of None \<Rightarrow> [] | Some m \<Rightarrow> m);
          global = (if \<not> cloudConfigUsesSecretRef (Some global)
                    then gm_put ''password'' (AnyString password)
                           (gm_put ''user'' (AnyString (Username vc)) global)
                    else global)
      in cfg\<lparr>Global := Some global, VCenter := Some (gm_put (Server vc) (cloud_entry vc) vcenter)\<rparr>)"

definition mergeCloudProviderConfig ::
  "'w env \<Rightarrow> string \<Rightarrow> infrastructure option \<Rightarrow> VCenterConfig \<Rightarrow> ('w, string) comp" where
  "mergeCloudProviderConfig env existing infra vc =
     bindM (PasswordValue env vc) (\<lambda>password.
       let cfg = (case ParseCloudConfigYAML env existing of
                    Inl _ \<Rightarrow> fallback_config infra
                  | Inr cfg \<Rightarrow> cfg)
       in wrapM ''marshal cloud config: %w'' [] (liftR (yaml_marshal_cloud env (put_vcenter vc password cfg))))"

section \<open>The per-vCenter secret\<close>

definition put_credentials :: "VCenterConfig \<Rightarrow> string \<Rightarrow> string gomap \<Rightarrow> string gomap" where
  "put_credentials vc password data =
     gm_put (Server vc @ ''.password'') password
       (gm_put (Server vc @ ''.username'') (Username vc) data)"

definition mergeVSphereCredsSecret ::
  "'w env \<Rightarrow> string gomap \<Rightarrow> VCenterConfig \<Rightarrow> ('w, string gomap) comp" where
  "mergeVSphereCredsSecret env data vc =
     bindM (PasswordValue env vc) (\<lambda>password. ret (put_credentials vc password (gm_copy data)))"

section \<open>The secret with a list of credentials\<close>

definition normalizeURL :: "string \<Rightarrow> string" where
  "normalizeURL url = TrimSuffix (TrimSpace (ToLower url)) ''/''"

definition creds_candidates :: "string list" where
  [go_defs]: "creds_candidates = [''vsphere-creds.yaml'', ''credentials.yaml'', ''creds.yaml'']"

definition pickCredsKey :: "string gomap \<Rightarrow> string" where
  "pickCredsKey data =
     (case find_first (\<lambda>candidate. gm_lookup data candidate \<noteq> None) creds_candidates of
        Some candidate \<Rightarrow> candidate
      | None \<Rightarrow>
          (case find_first (\<lambda>k. HasSuffix k ''.yaml'' \<or> HasSuffix k ''.yml'') (map fst data) of
             Some k \<Rightarrow> k
           | None \<Rightarrow> ''vsphere-creds.yaml''))"

text \<open>The loop overwrites every matching credential and reports whether there was one.\<close>

fun replace_creds ::
  "VCenterConfig \<Rightarrow> string \<Rightarrow> vsphereCredential list \<Rightarrow> vsphereCredential list \<times> bool" where
  "replace_creds vc password [] = ([], False)"
| "replace_creds vc password (c # cs) =
     (case replace_creds vc password cs of
        (cs', replaced) \<Rightarrow>
          if normalizeURL (cred_URL c) = normalizeURL (Server vc)
          then (c\<lparr>cred_Username := Username vc, cred_Password := password\<rparr> # cs', True)
          else (c # cs', replaced))"

definition upsert_creds ::
  "VCenterConfig \<Rightarrow> string \<Rightarrow> vsphereCredential list \<Rightarrow> vsphereCredential list" where
  "upsert_creds vc password creds =
     (case replace_creds vc password creds of
        (creds, replaced) \<Rightarrow>
          if replaced then creds
          else creds @ [\<lparr>cred_URL = Server vc, cred_Username = Username vc, cred_Password = password\<rparr>])"

definition mergeCloudCredentialsSecret ::
  "'w env \<Rightarrow> string gomap \<Rightarrow> VCenterConfig \<Rightarrow> ('w, string gomap) comp" where
  "mergeCloudCredentialsSecret env data vc =
     bindM (PasswordValue env vc) (\<lambda>password.
       let out = gm_copy data; key = pickCredsKey out in
       bindM (if gm_get out key \<noteq> ''''
              then wrapM ''parse secret key %q: %w'' [AStr key]
                     (liftR (yaml_unmarshal_creds env (gm_get out key)))
              else ret [])
         (\<lambda>creds. bindM (wrapM ''marshal vsphere creds: %w'' []
                            (liftR (yaml_marshal_creds env (upsert_creds vc password creds))))
           (\<lambda>encoded. ret (gm_put key encoded out))))"

section \<open>The credential secrets of the cluster\<close>

datatype credentialSecretFormat = credentialFormatPerVCenter | credentialFormatYAML

record credentialSecretTarget =
  tg_Namespace :: string
  tg_Name :: string
  tg_Format :: credentialSecretFormat

definition vsphereCredentialSecretTargets :: "credentialSecretTarget list" where
  "vsphereCredentialSecretTargets =
     [\<lparr>tg_Namespace = VSphereCredsNamespace, tg_Name = VSphereCredsSecret,
       tg_Format = credentialFormatPerVCenter\<rparr>,
      \<lparr>tg_Namespace = SourceConfigNamespace, tg_Name = CloudCredentialsSecret,
       tg_Format = credentialFormatYAML\<rparr>]"

definition vsphereCredentialBackupTargets :: "credentialSecretTarget list" where
  "vsphereCredentialBackupTargets =
     [\<lparr>tg_Namespace = VSphereCredsNamespace, tg_Name = VSphereCredsSecret,
       tg_Format = credentialFormatPerVCenter\<rparr>,
      \<lparr>tg_Namespace = SourceConfigNamespace, tg_Name = CloudCredentialsSecret,
       tg_Format = credentialFormatYAML\<rparr>,
      \<lparr>tg_Namespace = MachineAPINamespace, tg_Name = VSphereMachineCredsSecret,
       tg_Format = credentialFormatPerVCenter\<rparr>]"

definition objectKey :: "string \<Rightarrow> string \<Rightarrow> string" where
  "objectKey namespace name = namespace @ ''/'' @ name"

definition get_target :: "'w env \<Rightarrow> credentialSecretTarget \<Rightarrow> ('w, secret) comp" where
  [go_defs]: "get_target env t =
     call (EGet ''secrets'' (tg_Namespace t) (tg_Name t)) (get_secret env (tg_Namespace t) (tg_Name t))"

fun backup_targets ::
  "'w env \<Rightarrow> credentialSecretTarget list \<Rightarrow> secret gomap \<Rightarrow> ('w, secret gomap) comp" where
  "backup_targets env [] secrets = ret secrets"
| "backup_targets env (t # ts) secrets =
     bindM (tryM (get_target env t)) (\<lambda>r.
       case r of
         Inl err \<Rightarrow>
           if IsNotFound err then backup_targets env ts secrets
           else throw (Wrapf ''get %s/%s: %w'' [AStr (tg_Namespace t), AStr (tg_Name t)] err)
       | Inr secret \<Rightarrow>
           backup_targets env ts (gm_put (objectKey (tg_Namespace t) (tg_Name t)) secret secrets))"

definition backupCredentialSecrets :: "'w env \<Rightarrow> ('w, secret gomap) comp" where
  "backupCredentialSecrets env = backup_targets env vsphereCredentialBackupTargets []"

definition mergeCredentialSecretData ::
  "'w env \<Rightarrow> credentialSecretFormat \<Rightarrow> string gomap \<Rightarrow> VCenterConfig \<Rightarrow> ('w, string gomap) comp" where
  "mergeCredentialSecretData env fmt data vc =
     (case fmt of
        credentialFormatYAML \<Rightarrow> mergeCloudCredentialsSecret env data vc
      | credentialFormatPerVCenter \<Rightarrow> mergeVSphereCredsSecret env data vc)"

definition update_target ::
  "'w env \<Rightarrow> VCenterConfig \<Rightarrow> bool \<Rightarrow> credentialSecretTarget \<Rightarrow> ('w, unit) comp" where
  "update_target env vc dryRun t =
     bindM (tryM (get_target env t)) (\<lambda>r.
       case r of
         Inl err \<Rightarrow>
           if IsNotFound err then ret ()
           else throw (Wrapf ''get %s/%s: %w'' [AStr (tg_Namespace t), AStr (tg_Name t)] err)
       | Inr secret \<Rightarrow>
           bindM (wrapM ''merge %s/%s: %w'' [AStr (tg_Namespace t), AStr (tg_Name t)]
                    (mergeCredentialSecretData env (tg_Format t) (sec_data secret) vc))
             (\<lambda>merged.
               if dryRun then ret ()
               else
                 let update = secret\<lparr>sec_data := merged\<rparr> in
                 bindM (wrapM ''update %s/%s: %w'' [AStr (tg_Namespace t), AStr (tg_Name t)]
                          (call (EUpdateSecret update) (update_secret env update)))
                   (\<lambda>_. ret ())))"

definition updateCredentialSecrets ::
  "'w env \<Rightarrow> VCenterConfig \<Rightarrow> bool \<Rightarrow> ('w, unit) comp" where
  "updateCredentialSecrets env vc dryRun =
     forM vsphereCredentialSecretTargets (update_target env vc dryRun)"

section \<open>Each merge keeps the contract\<close>

lemma update_same [simp]: "map_of m k = Some v \<Longrightarrow> gm_ok m \<Longrightarrow> gm_put k v m = m"
  by (induction m) (auto simp: gm_ok_def rev_image_eqI dest: map_of_SomeD)

lemma update_update [simp]: "gm_put k v (gm_put k v' m) = gm_put k v m"
  by (induction m) auto

lemma update_swap_present:
  "k \<noteq> k' \<Longrightarrow> k' \<in> fst ` set m \<Longrightarrow> gm_put k v (gm_put k' v' m) = gm_put k' v' (gm_put k v m)"
  by (induction m) auto

text \<open>What a secret says of a server.\<close>

definition secret_view :: "string gomap \<Rightarrow> string \<Rightarrow> (string \<times> string) option" where
  "secret_view data server =
     (case (gm_lookup data (server @ ''.username''), gm_lookup data (server @ ''.password'')) of
        (Some u, Some p) \<Rightarrow> Some (u, p)
      | _ \<Rightarrow> None)"

lemma suffix_differs [simp]: "a @ ''.username'' \<noteq> b @ ''.password''"
proof
  assume "a @ ''.username'' = b @ ''.password''"
  then have "last (a @ ''.username'') = last (b @ ''.password'')" by simp
  then show False by simp
qed

lemmas suffix_differs' [simp] = suffix_differs [symmetric]

lemma put_credentials_again: "put_credentials vc pw (put_credentials vc pw data) = put_credentials vc pw data"
proof -
  let ?u = "Server vc @ ''.username''" and ?p = "Server vc @ ''.password''"
  have "gm_put ?u x (gm_put ?p pw m) = gm_put ?p pw (gm_put ?u x m)" if "?u \<in> fst ` set m" for x m
    using that by (intro update_swap_present [symmetric]) simp_all
  then show ?thesis by (simp add: put_credentials_def dom_update)
qed

interpretation per_vcenter: credential_store secret_view Server "\<lambda>vc pw. (Username vc, pw)"
    put_credentials
proof unfold_locales
  fix vc pw data
  show "secret_view (put_credentials vc pw data) = (secret_view data)(Server vc \<mapsto> (Username vc, pw))"
    by (rule ext) (auto simp: secret_view_def put_credentials_def gm_lookup_put split: option.splits)
qed (rule put_credentials_again)

text \<open>What a credential list says of a URL, up to case, white space and a final slash.\<close>

definition creds_view :: "vsphereCredential list \<Rightarrow> string \<Rightarrow> (string \<times> string) option" where
  "creds_view creds url =
     map_option (\<lambda>c. (cred_Username c, cred_Password c))
       (find_first (\<lambda>c. normalizeURL (cred_URL c) = url) creds)"

lemma replace_creds_flag:
  "snd (replace_creds vc pw cs) \<longleftrightarrow> (\<exists>c \<in> set cs. normalizeURL (cred_URL c) = normalizeURL (Server vc))"
  by (induction cs) (auto split: prod.splits)

lemma replace_creds_map:
  "fst (replace_creds vc pw cs) =
     map (\<lambda>c. if normalizeURL (cred_URL c) = normalizeURL (Server vc)
              then c\<lparr>cred_Username := Username vc, cred_Password := pw\<rparr> else c) cs"
  by (induction cs) (auto split: prod.splits)

lemma upsert_creds_eq:
  "upsert_creds vc pw cs =
     (let cs' = map (\<lambda>c. if normalizeURL (cred_URL c) = normalizeURL (Server vc)
              then c\<lparr>cred_Username := Username vc, cred_Password := pw\<rparr> else c) cs
      in if \<exists>c \<in> set cs. normalizeURL (cred_URL c) = normalizeURL (Server vc) then cs'
         else cs' @ [\<lparr>cred_URL = Server vc, cred_Username = Username vc, cred_Password = pw\<rparr>])"
  using replace_creds_flag [of vc pw cs] replace_creds_map [of vc pw cs]
  by (cases "replace_creds vc pw cs") (simp add: upsert_creds_def Let_def)

lemma creds_view_Nil [simp]: "creds_view [] url = None"
  by (simp add: creds_view_def)

lemma creds_view_Cons:
  "creds_view (c # cs) url =
     (if normalizeURL (cred_URL c) = url then Some (cred_Username c, cred_Password c)
      else creds_view cs url)"
  by (simp add: creds_view_def)

lemma creds_view_snoc:
  "creds_view (cs @ [c]) url =
     (case creds_view cs url of
        None \<Rightarrow> if normalizeURL (cred_URL c) = url then Some (cred_Username c, cred_Password c) else None
      | Some x \<Rightarrow> Some x)"
  by (simp add: creds_view_def find_first_append split: option.splits)

lemma creds_view_map:
  "creds_view (map (\<lambda>c. if normalizeURL (cred_URL c) = k
              then c\<lparr>cred_Username := u, cred_Password := pw\<rparr> else c) cs) url =
     (if url = k \<and> (\<exists>c \<in> set cs. normalizeURL (cred_URL c) = k) then Some (u, pw) else creds_view cs url)"
  by (induction cs) (auto simp: creds_view_Cons)

lemma creds_view_None:
  "\<not> (\<exists>c \<in> set cs. normalizeURL (cred_URL c) = k) \<Longrightarrow> creds_view cs k = None"
  by (simp add: creds_view_def find_first_None_iff)

lemma creds_view_upsert:
  "creds_view (upsert_creds vc pw cs) = (creds_view cs)(normalizeURL (Server vc) \<mapsto> (Username vc, pw))"
  by (rule ext)
    (auto simp: upsert_creds_eq Let_def creds_view_map creds_view_snoc creds_view_None split: option.splits)

lemma upsert_creds_again: "upsert_creds vc pw (upsert_creds vc pw cs) = upsert_creds vc pw cs"
proof (cases "\<exists>c \<in> set cs. normalizeURL (cred_URL c) = normalizeURL (Server vc)")
  case True
  then have "upsert_creds vc pw cs = map (\<lambda>c. if normalizeURL (cred_URL c) = normalizeURL (Server vc)
      then c\<lparr>cred_Username := Username vc, cred_Password := pw\<rparr> else c) cs" (is "_ = map ?f cs")
    by (simp add: upsert_creds_eq)
  moreover have "\<exists>c \<in> set (map ?f cs). normalizeURL (cred_URL c) = normalizeURL (Server vc)"
  proof -
    from True obtain c where c: "c \<in> set cs" "normalizeURL (cred_URL c) = normalizeURL (Server vc)" ..
    then have "normalizeURL (cred_URL (?f c)) = normalizeURL (Server vc)" by simp
    moreover from c(1) have "?f c \<in> set (map ?f cs)" unfolding set_map by (rule imageI)
    ultimately show ?thesis by blast
  qed
  then have "upsert_creds vc pw (map ?f cs) = map ?f (map ?f cs)"
    unfolding upsert_creds_eq [of vc pw "map ?f cs"] Let_def by (rule if_P)
  moreover have "map ?f (map ?f cs) = map ?f cs" by simp
  ultimately show ?thesis by simp
next
  case False
  let ?new = "\<lparr>cred_URL = Server vc, cred_Username = Username vc, cred_Password = pw\<rparr>"
  from False have same: "map (\<lambda>c. if normalizeURL (cred_URL c) = normalizeURL (Server vc)
      then c\<lparr>cred_Username := Username vc, cred_Password := pw\<rparr> else c) cs = cs"
    by (intro map_idI) auto
  with False have "upsert_creds vc pw cs = cs @ [?new]"
    unfolding upsert_creds_eq by (simp only: Let_def if_False)
  moreover have "upsert_creds vc pw (cs @ [?new]) = cs @ [?new]"
    using same by (simp add: upsert_creds_eq)
  ultimately show ?thesis by simp
qed

interpretation creds_list: credential_store creds_view "\<lambda>vc. normalizeURL (Server vc)"
    "\<lambda>vc pw. (Username vc, pw)" upsert_creds
  by unfold_locales (simp_all add: creds_view_upsert upsert_creds_again)

text \<open>What a cloud configuration says of a vCenter.\<close>

definition config_view :: "CloudConfig \<Rightarrow> string \<Rightarrow> CloudVCenter option" where
  "config_view cfg = gm_lookup (vcenter_entries cfg)"

lemma secret_ref_put:
  "k \<notin> set secret_ref_keys \<Longrightarrow>
     cloudConfigUsesSecretRef (Some (gm_put k v g)) = cloudConfigUsesSecretRef (Some g)"
  by (auto simp: cloudConfigUsesSecretRef_def gm_lookup_put list_ex_iff)

lemma secret_ref_put_user [simp]:
  "cloudConfigUsesSecretRef (Some (gm_put ''password'' a (gm_put ''user'' b g))) =
     cloudConfigUsesSecretRef (Some g)"
  by (simp add: secret_ref_put secret_ref_keys_def)

lemma put_user_again:
  "gm_put ''password'' a (gm_put ''user'' b (gm_put ''password'' a (gm_put ''user'' b g))) =
     gm_put ''password'' a (gm_put ''user'' b g)"
proof -
  have "gm_put ''user'' b (gm_put ''password'' a (gm_put ''user'' b g)) =
      gm_put ''password'' a (gm_put ''user'' b (gm_put ''user'' b g))"
    by (intro update_swap_present [symmetric]) (simp_all add: dom_update)
  then show ?thesis by simp
qed

interpretation cloud_config: credential_store config_view Server "\<lambda>vc _. cloud_entry vc" put_vcenter
proof unfold_locales
  fix vc pw cfg
  show "config_view (put_vcenter vc pw cfg) = (config_view cfg)(Server vc \<mapsto> cloud_entry vc)"
    by (simp add: config_view_def put_vcenter_def vcenter_entries_def Let_def gm_lookup_put)
  show "put_vcenter vc pw (put_vcenter vc pw cfg) = put_vcenter vc pw cfg"
    by (simp add: put_vcenter_def Let_def put_user_again)
qed

section \<open>Merging and the presence check\<close>

lemma put_vcenter_keeps:
  "Labels (put_vcenter vc pw cfg) = Labels cfg" "Nodes (put_vcenter vc pw cfg) = Nodes cfg"
  "Extra (put_vcenter vc pw cfg) = Extra cfg"
  by (simp_all add: put_vcenter_def Let_def)

lemma put_vcenter_global:
  "Global (put_vcenter vc pw cfg) = Some
     (let g = (case Global cfg of None \<Rightarrow> [] | Some g \<Rightarrow> g) in
      if cloudConfigUsesSecretRef (Global cfg) then g
      else gm_put ''password'' (AnyString pw) (gm_put ''user'' (AnyString (Username vc)) g))"
  by (simp add: put_vcenter_def Let_def cloudConfigUsesSecretRef_def secret_ref_keys_def
      split: option.splits)

lemma config_names_put:
  assumes "Server vc \<notin> fst ` set (vcenter_entries cfg)"
  shows "config_names (put_vcenter vc pw cfg) = insert (Server vc) (config_names cfg)"
proof -
  have "vcenter_entries (put_vcenter vc pw cfg) = vcenter_entries cfg @ [(Server vc, cloud_entry vc)]"
    using assms gm_put_fresh [of "Server vc" "vcenter_entries cfg"]
    by (simp add: put_vcenter_def vcenter_entries_def Let_def split: option.splits)
  then show ?thesis by (auto simp: config_names_def entry_server_def cloud_entry_def)
qed

lemma fallback_keys_acc:
  "fst ` set (fold (\<lambda>x m. gm_put (vc_server x) (f x) m) vcs m) = fst ` set m \<union> vc_server ` set vcs"
  by (induction vcs arbitrary: m) (auto simp: dom_update)

lemma fallback_keys:
  "fst ` set (vcenter_entries (fallback_config infra)) = vc_server ` set (GetVCenters infra)"
  using fallback_keys_acc [where m = "[]"] by (simp add: vcenter_entries_def fallback_config_def)

section \<open>Merges and loops only read\<close>

lemma merges_read:
  "within (emitted read_only) (mergeCloudProviderConfig env ex infra vc)"
  "within (emitted read_only) (mergeCredentialSecretData env fmt data vc)"
  by (auto simp: mergeCloudProviderConfig_def mergeCredentialSecretData_def mergeVSphereCredsSecret_def
      mergeCloudCredentialsSecret_def Let_def
      intro!: emits_rules PasswordValue_reads split: credentialSecretFormat.splits)

lemma backup_targets_reads: "within (emitted read_only) (backup_targets env ts secrets)"
  by (induction ts arbitrary: secrets)
    (auto simp: get_target_def intro!: emits_rules split: sum.splits)

lemma backup_reads: "within (emitted read_only) (backupCredentialSecrets env)"
  by (simp add: backupCredentialSecrets_def backup_targets_reads)

lemma update_dry_reads: "within (emitted read_only) (updateCredentialSecrets env vc True)"
  by (auto simp: updateCredentialSecrets_def update_target_def get_target_def
      intro!: emits_rules merges_read split: sum.splits)

section \<open>Properties\<close>

text \<open>Merging into a per-vCenter secret sets the new server's user and password, leaves the
  credentials of every other server and every other key alone, and keeps the keys distinct.\<close>

theorem per_vcenter_merge:
  assumes "gm_ok data" and "mergeVSphereCredsSecret env data vc s = (Inr out, s')"
  shows "\<exists>pw. PasswordValue env vc s = (Inr pw, s') \<and>
    secret_view out = (secret_view data)(Server vc \<mapsto> (Username vc, pw)) \<and>
    gm_lookup out = (gm_lookup data)(Server vc @ ''.username'' \<mapsto> Username vc, Server vc @ ''.password'' \<mapsto> pw) \<and>
    gm_ok out"
proof -
  obtain pw where pw: "PasswordValue env vc s = (Inr pw, s')" and out: "out = put_credentials vc pw (gm_copy data)"
    using assms(2) by (auto simp: mergeVSphereCredsSecret_def comp_Inr)
  have "gm_copy data = data" using assms(1) by (rule gm_copy_id)
  then have o: "out = put_credentials vc pw data" using out by simp
  then have "gm_lookup out = (gm_lookup data)(Server vc @ ''.username'' \<mapsto> Username vc, Server vc @ ''.password'' \<mapsto> pw)"
      "gm_ok out"
    using assms(1) by (simp_all add: put_credentials_def gm_lookup_put)
  with pw o per_vcenter.view_upsert show ?thesis by blast
qed

lemma gm_keys_put_present: "k \<in> fst ` set m \<Longrightarrow> map fst (gm_put k v m) = map fst m"
  by (induction m) auto

lemma candidate_key: "find_first (\<lambda>c. gm_lookup data c \<noteq> None) creds_candidates = Some c \<Longrightarrow>
    gm_lookup data c \<noteq> None"
  using find_first_SomeD [of "\<lambda>c. gm_lookup data c \<noteq> None" creds_candidates c] by simp

text \<open>The key that was picked once is picked again.\<close>

lemma find_first_cong_first:
  "find_first p xs = Some x \<Longrightarrow> (\<And>y. y \<noteq> x \<Longrightarrow> q y = p y) \<Longrightarrow> q x \<Longrightarrow> find_first q xs = Some x"
  by (induction xs) (auto split: if_splits)

lemma pickCredsKey_stable: "pickCredsKey (gm_put (pickCredsKey data) v data) = pickCredsKey data"
proof (cases "find_first (\<lambda>c. gm_lookup data c \<noteq> None) creds_candidates")
  case (Some c)
  then have k: "pickCredsKey data = c" by (simp add: pickCredsKey_def)
  have "find_first (\<lambda>c'. gm_lookup (gm_put c v data) c' \<noteq> None) creds_candidates = Some c"
    by (rule find_first_cong_first [OF Some]) (simp_all add: gm_lookup_put)
  then show ?thesis unfolding k by (simp add: pickCredsKey_def)
next
  case none: None
  show ?thesis
  proof (cases "find_first (\<lambda>k. HasSuffix k ''.yaml'' \<or> HasSuffix k ''.yml'') (map fst data)")
    case (Some k)
    then have key: "pickCredsKey data = k" using none by (simp add: pickCredsKey_def)
    have kin: "k \<in> fst ` set data" using find_first_SomeD [OF Some] by simp
    then have "k \<notin> set creds_candidates"
      using none by (auto simp: find_first_None_iff map_of_eq_None_iff)
    then have "find_first (\<lambda>c. gm_lookup (gm_put k v data) c \<noteq> None) creds_candidates = None"
      using none by (auto simp: find_first_None_iff gm_lookup_put)
    then show ?thesis unfolding key using Some gm_keys_put_present [OF kin, of v] by (simp add: pickCredsKey_def)
  next
    case None
    then have "pickCredsKey data = ''vsphere-creds.yaml''" using none by (simp add: pickCredsKey_def)
    then show ?thesis by (simp add: pickCredsKey_def gm_lookup_put creds_candidates_def)
  qed
qed

text \<open>The YAML codec of the credential list reads back what it wrote.\<close>

definition creds_codec_ok :: "'w env \<Rightarrow> bool" where
  "creds_codec_ok env \<longleftrightarrow>
     (\<forall>cs t. yaml_marshal_creds env cs = Inr t \<longrightarrow> t \<noteq> '''' \<and> yaml_unmarshal_creds env t = Inr cs)"

definition decode_creds :: "'w env \<Rightarrow> string gomap \<Rightarrow> vsphereCredential list res" where
  "decode_creds env data =
     (let t = gm_get data (pickCredsKey data) in if t = '''' then Inr [] else yaml_unmarshal_creds env t)"


text \<open>The YAML codec of the cloud provider configuration reads back what it wrote.  A section that is there
  but empty is left out of the text (\<open>omitempty\<close>) and would come back as absent, so nothing is assumed
  of a configuration with such a section; what \<open>put_vcenter\<close> returns never has one.\<close>

definition no_empty_section :: "CloudConfig \<Rightarrow> bool" where
  "no_empty_section c \<longleftrightarrow> Global c \<noteq> Some [] \<and> VCenter c \<noteq> Some []"

definition cloud_codec_ok :: "'w env \<Rightarrow> bool" where
  "cloud_codec_ok env \<longleftrightarrow>
     (\<forall>c t. no_empty_section c \<and> yaml_marshal_cloud env c = Inr t \<longrightarrow>
        TrimSpace t \<noteq> '''' \<and> yaml_unmarshal_cloud env t = Inr c)"

lemma gm_put_nonempty [simp]: "gm_put k v m \<noteq> []"
  by (cases m) auto

lemma put_vcenter_no_empty: "no_empty_section (put_vcenter vc pw cfg)"
proof -
  have "cloudConfigUsesSecretRef (Some g) \<Longrightarrow> g \<noteq> []" for g :: "any gomap"
    by (auto simp: cloudConfigUsesSecretRef_def secret_ref_keys_def)
  then show ?thesis by (auto simp: no_empty_section_def put_vcenter_def Let_def)
qed

lemma put_vcenter_parses:
  assumes "cloud_codec_ok env" "yaml_marshal_cloud env (put_vcenter vc pw cfg) = Inr t"
  shows "ParseCloudConfigYAML env t = Inr (put_vcenter vc pw cfg)"
proof -
  have "TrimSpace t \<noteq> ''''" "yaml_unmarshal_cloud env t = Inr (put_vcenter vc pw cfg)"
    using assms put_vcenter_no_empty [of vc pw cfg] unfolding cloud_codec_ok_def by blast+
  then show ?thesis by (simp add: ParseCloudConfigYAML_def)
qed

lemma merge_config_Inr:
  "mergeCloudProviderConfig env ex infra vc s = (Inr out, s') \<longleftrightarrow>
     (\<exists>pw. PasswordValue env vc s = (Inr pw, s') \<and> yaml_marshal_cloud env (put_vcenter vc pw
        (case ParseCloudConfigYAML env ex of Inl _ \<Rightarrow> fallback_config infra | Inr c \<Rightarrow> c)) = Inr out)"
  by (auto simp: mergeCloudProviderConfig_def comp_Inr Let_def)

text \<open>C28: Merging a vCenter into a cloud provider configuration that parses gives a text that parses to
  the old configuration with just that vCenter's entry replaced or added; labels, nodes and
  unknown sections are kept; the global section is kept too when it refers to a secret, and otherwise
  only its user and password become those of the new vCenter; and merging once more gives the same text.\<close>

theorem config_merge_updates_one_entry:
  assumes codec: "cloud_codec_ok env" and parse: "ParseCloudConfigYAML env ex = Inr old"
    and pw: "Password vc \<noteq> ''''"
    and run: "mergeCloudProviderConfig env ex infra vc s = (Inr out, s')"
  shows "\<exists>new. ParseCloudConfigYAML env out = Inr new \<and>
    config_view new = (config_view old)(Server vc \<mapsto> cloud_entry vc) \<and>
    Labels new = Labels old \<and> Nodes new = Nodes old \<and> Extra new = Extra old \<and>
    Global new = (if cloudConfigUsesSecretRef (Global old) then Global old
      else Some (gm_put ''password'' (AnyString (Password vc)) (gm_put ''user'' (AnyString (Username vc))
        (case Global old of None \<Rightarrow> [] | Some g \<Rightarrow> g)))) \<and>
    mergeCloudProviderConfig env out infra vc s' = (Inr out, s')"
proof -
  have p: "PasswordValue env vc t = (Inr (Password vc), t)" for t :: "'a st"
    using pw by (simp add: PasswordValue_def ret_def)
  let ?new = "put_vcenter vc (Password vc) old"
  have m: "yaml_marshal_cloud env ?new = Inr out" using run p parse by (auto simp: merge_config_Inr)
  note new = put_vcenter_parses [OF codec m]
  have again: "mergeCloudProviderConfig env out infra vc s' = (Inr out, s')"
    using m new p cloud_config.upsert_again by (simp add: merge_config_Inr)
  have "Global ?new = (if cloudConfigUsesSecretRef (Global old) then Global old
      else Some (gm_put ''password'' (AnyString (Password vc)) (gm_put ''user'' (AnyString (Username vc))
        (case Global old of None \<Rightarrow> [] | Some g \<Rightarrow> g))))"
    by (auto simp: put_vcenter_global Let_def cloudConfigUsesSecretRef_def split: option.splits)
  with new again show ?thesis
    by (intro exI [of _ ?new]) (simp add: cloud_config.view_upsert put_vcenter_keeps)
qed

text \<open>C29: When the existing configuration does not parse, the merge does not fail: whatever labels,
  nodes, other sections and secret references the text had are dropped, and the result has
  just the Infrastructure's vCenters and the new one, with the new vCenter's user and password
  in the clear.\<close>

theorem config_merge_after_parse_error:
  assumes codec: "cloud_codec_ok env" and parse: "ParseCloudConfigYAML env ex = Inl e"
    and pw: "Password vc \<noteq> ''''"
    and run: "mergeCloudProviderConfig env ex infra vc s = (Inr out, s')"
  shows "\<exists>new. ParseCloudConfigYAML env out = Inr new \<and>
    Labels new = [] \<and> Nodes new = None \<and> Extra new = [] \<and>
    Global new = Some [(''user'', AnyString (Username vc)), (''password'', AnyString (Password vc))] \<and>
    fst ` set (vcenter_entries new) = insert (Server vc) (vc_server ` set (GetVCenters infra))"
proof -
  have p: "PasswordValue env vc t = (Inr (Password vc), t)" for t :: "'a st"
    using pw by (simp add: PasswordValue_def ret_def)
  let ?new = "put_vcenter vc (Password vc) (fallback_config infra)"
  have m: "yaml_marshal_cloud env ?new = Inr out" using run p parse by (auto simp: merge_config_Inr)
  note new = put_vcenter_parses [OF codec m]
  have "vcenter_entries ?new = gm_put (Server vc) (cloud_entry vc) (vcenter_entries (fallback_config infra))"
    by (simp add: put_vcenter_def vcenter_entries_def Let_def)
  then have "fst ` set (vcenter_entries ?new) = insert (Server vc) (vc_server ` set (GetVCenters infra))"
    by (simp add: gm_keys_put fallback_keys)
  with new show ?thesis
    by (intro exI [of _ ?new])
      (simp add: put_vcenter_keeps put_vcenter_global fallback_config_def cloudConfigUsesSecretRef_def secret_ref_keys_def)
qed

text \<open>Merging a fresh vCenter into a configuration that names every vCenter of the Infrastructure
  gives one that names every vCenter of the extended Infrastructure, so the presence check of
  \<open>Verify\<close> will pass once the configuration has been synced.\<close>

theorem merge_keeps_presence:
  assumes present: "AssertInfrastructureVCentersPresent (Some i) (Some c) = None"
    and fresh: "Server vc \<notin> fst ` set (vcenter_entries c)"
    and spec: "is_vsphere (infra_spec i) = Some p"
    and spec': "is_vsphere (infra_spec i') = Some p'"
    and added: "VCenterServers (vs_vcenters p') = VCenterServers (vs_vcenters p) @ [Server vc]"
  shows "AssertInfrastructureVCentersPresent (Some i') (Some (put_vcenter vc pw c)) = None"
proof -
  have "set (VCenterServers (vs_vcenters p)) \<subseteq> config_names c"
    using present spec by (simp add: present_iff)
  then show ?thesis
    using config_names_put [OF fresh, of pw] spec' added by (auto simp: present_iff)
qed

text \<open>The key of an object in the backup, \<open>namespace/name\<close>, is unambiguous when namespaces have no
  slash, as Kubernetes demands: equal keys come from equal objects.\<close>

lemma objectKey_inj:
  assumes "objectKey ns n = objectKey ns' n'" "CHR ''/'' \<notin> set ns" "CHR ''/'' \<notin> set ns'"
  shows "ns = ns' \<and> n = n'"
  using assms sep_inj [of ns "CHR ''/''" n ns' n'] by (simp add: objectKey_def)

end
