(* ===== verification/LabState.thy ===== *)
theory LabState
  imports Credentials
begin

text \<open>
  \<open>pkg/lab/state.go\<close>: the backup file.  \<open>filepath.Join\<close>, \<open>filepath.Clean\<close> and \<open>filepath.Base\<close> are written out for
  the slash-separated paths of the systems the program runs on.
\<close>

section \<open>Paths\<close>

fun clean_elems :: "bool \<Rightarrow> string list \<Rightarrow> string list \<Rightarrow> string list" where
  "clean_elems rooted stack [] = rev stack"
| "clean_elems rooted stack (e # es) =
     (if e = '''' \<or> e = ''.'' then clean_elems rooted stack es
      else if e = ''..'' then
        (case stack of
           [] \<Rightarrow> clean_elems rooted (if rooted then [] else [e]) es
         | e' # rest \<Rightarrow> clean_elems rooted (if e' = ''..'' then e # stack else rest) es)
      else clean_elems rooted (e # stack) es)"

definition Clean :: "string \<Rightarrow> string" where
  "Clean path =
     (let rooted = HasPrefix path ''/'';
          body = Join (clean_elems rooted [] (Split path CHR ''/'')) ''/'';
          out = (if rooted then ''/'' @ body else body)
      in if out = '''' then ''.'' else out)"

definition path_join :: "string \<Rightarrow> string \<Rightarrow> string" where
  "path_join dir file = (if dir = '''' then Clean file else Clean (dir @ ''/'' @ file))"

text \<open>\<open>filepath.Base\<close>.\<close>

definition Base :: "string \<Rightarrow> string" where
  "Base path =
     (if path = '''' then ''.''
      else let b = rev (takeWhile (\<lambda>x. x \<noteq> CHR ''/'') (dropWhile (\<lambda>x. x = CHR ''/'') (rev path)))
           in if b = '''' then ''/'' else b)"

section \<open>Saving and loading\<close>

definition stateFileName :: string where
  [go_defs]: "stateFileName = ''cluster-state.json''"

definition statePath :: "string \<Rightarrow> string" where
  "statePath stateDir = path_join stateDir stateFileName"

definition SaveState :: "'w env \<Rightarrow> string \<Rightarrow> cluster_state \<Rightarrow> ('w, unit) comp" where
  "SaveState env stateDir state =
     bindM (wrapM ''create state dir: %w'' [] (call (EMkdirAll stateDir) (mkdir_all env stateDir))) (\<lambda>_.
     bindM (wrapM ''marshal state: %w'' [] (liftR (json_marshal_state env state))) (\<lambda>data.
       wrapM ''write state: %w'' []
         (callE (\<lambda>r. EWriteState (statePath stateDir) data (is_ok r))
            (write_state env (statePath stateDir) data))))"

definition LoadState :: "'w env \<Rightarrow> string \<Rightarrow> ('w, cluster_state) comp" where
  "LoadState env stateDir =
     bindM (wrapM ''read state %q: %w'' [AStr (statePath stateDir)]
              (call (EReadFile (statePath stateDir)) (read_state env (statePath stateDir))))
       (\<lambda>data. wrapM ''parse state: %w'' [] (liftR (json_unmarshal_state env data)))"

definition HasState :: "'w env \<Rightarrow> string \<Rightarrow> 'w st \<Rightarrow> bool \<times> 'w st" where
  "HasState env stateDir =
     callE (EStat (statePath stateDir)) (stat_path env (statePath stateDir))"

section \<open>Lemmas\<close>

lemma clean_elems_plain:
  "\<forall>e \<in> set es. e \<noteq> '''' \<and> e \<noteq> ''.'' \<and> e \<noteq> ''..'' \<Longrightarrow> clean_elems r stack es = rev stack @ es"
  by (induction es arbitrary: stack) auto

lemma statePath_empty: "statePath '''' = ''cluster-state.json''"
  by code_simp

lemma statePath_default: "statePath DefaultStateDir = ''.lab-state/cluster-state.json''"
  by code_simp

lemma LoadState_reads: "within (emitted read_only) (LoadState env dir)"
  by (auto simp: LoadState_def intro!: emits_rules)

lemma SaveState_keeps_cluster: "within (emitted (\<lambda>e. \<not> persists e)) (SaveState env dir st)"
  by (auto simp: SaveState_def intro!: emits_rules)

text \<open>A save that succeeds has written the marshalled state.\<close>

lemma SaveState_writes:
  "SaveState env dir st s = (Inr u, s') \<Longrightarrow>
     \<exists>doc tr. json_marshal_state env st = Inr doc \<and> trace s' = trace s @ tr \<and>
       EWriteState (statePath dir) doc True \<in> set tr"
proof -
  assume "SaveState env dir st s = (Inr u, s')"
  then obtain s1 doc where s1: "call (EMkdirAll dir) (mkdir_all env dir) s = (Inr (), s1)"
    and doc: "json_marshal_state env st = Inr doc"
    and w: "callE (\<lambda>r. EWriteState (statePath dir) doc (is_ok r))
        (write_state env (statePath dir) doc) s1 = (Inr u, s')"
    by (auto simp: SaveState_def comp_Inr)
  from s1 have "trace s1 = trace s @ [EMkdirAll dir]" by (auto simp: callE_def split: prod.splits)
  moreover from w have "trace s' = trace s1 @ [EWriteState (statePath dir) doc True]"
    by (auto simp: callE_def split: prod.splits)
  ultimately show ?thesis using doc by simp
qed

end
