(* ===== verification/Readiness.thy ===== *)
theory Readiness
  imports FrameworkObjects
begin

text \<open>
  The readiness waits: \<open>conditions.go\<close>, the cluster-wide machine waits of \<open>machine.go\<close> and the
  CSI driver waits of \<open>storage.go\<close>.  Each wait is a probe under \<open>poll_last\<close>; beside the code's
  probe stands \<open>..._ready\<close>, a statement of what the API server must have answered, and the
  contract \<open>readiness\<close> is interpreted for each wait.  The progress lines the probes print
  every 30 seconds are left out.
\<close>

section \<open>Conditions of cluster operators\<close>

definition get_operator :: "'w env \<Rightarrow> string \<Rightarrow> ('w, conditioned) comp" where
  [go_defs]: "get_operator env name =
     call (EGet ''clusteroperators'' '''' name) (get_cluster_operator env name)"

definition GetClusterOperatorCondition :: "'w env \<Rightarrow> string \<Rightarrow> string \<Rightarrow> ('w, condition) comp" where
  "GetClusterOperatorCondition env name conditionType =
     bindM (wrapM ''get clusteroperator %q: %w'' [AStr name] (get_operator env name)) (\<lambda>co.
       case find_first (\<lambda>c. cond_type c = conditionType) (cd_conditions co) of
         Some c \<Rightarrow> ret c
       | None \<Rightarrow> throw (Errorf ''condition %q not found on clusteroperator %q''
                         [AStr conditionType, AStr name]))"

text \<open>The loops over the conditions; a later condition of a type overrides an earlier one.\<close>

fun available_flags :: "condition list \<Rightarrow> bool \<times> bool \<Rightarrow> bool \<times> bool" where
  "available_flags [] flags = flags"
| "available_flags (c # cs) (availableOK, degradedOK) = available_flags cs
     (if cond_type c = ''Available'' then (cond_status c = ''True'', degradedOK)
      else if cond_type c = ''Degraded'' then (availableOK, cond_status c = ''False'')
      else (availableOK, degradedOK))"

fun stable_flags :: "condition list \<Rightarrow> bool \<times> bool \<times> bool \<Rightarrow> bool \<times> bool \<times> bool" where
  "stable_flags [] flags = flags"
| "stable_flags (c # cs) (availableOK, degradedOK, progressingOK) = stable_flags cs
     (if cond_type c = ''Available'' then (cond_status c = ''True'', degradedOK, progressingOK)
      else if cond_type c = ''Degraded'' then (availableOK, cond_status c = ''False'', progressingOK)
      else if cond_type c = ''Progressing'' then (availableOK, degradedOK, cond_status c = ''False'')
      else (availableOK, degradedOK, progressingOK))"

definition operator_error :: "string \<Rightarrow> goerror \<Rightarrow> goerror" where
  [go_defs]: "operator_error name err =
     (if IsNotFound err then Errorf ''clusteroperator %q not found'' [AStr name] else err)"

definition available_probe :: "'w env \<Rightarrow> string \<Rightarrow> 'w st probe" where
  "available_probe env name s =
     (case get_operator env name s of
        (Inl err, s') \<Rightarrow> ((Some (operator_error name err), False), s')
      | (Inr co, s') \<Rightarrow>
          (case available_flags (cd_conditions co) (False, False) of
             (availableOK, degradedOK) \<Rightarrow> ((None, availableOK \<and> degradedOK), s')))"

definition WaitForClusterOperatorAvailable :: "'w env \<Rightarrow> string \<Rightarrow> int \<Rightarrow> ('w, unit) comp" where
  "WaitForClusterOperatorAvailable env name timeout =
     poll_last env ''%w: last error: %v'' timeout (available_probe env name)"

definition stable_probe :: "'w env \<Rightarrow> string \<Rightarrow> 'w st probe" where
  "stable_probe env name s =
     (case get_operator env name s of
        (Inl err, s') \<Rightarrow> ((Some (operator_error name err), False), s')
      | (Inr co, s') \<Rightarrow>
          (case stable_flags (cd_conditions co) (False, False, False) of
             (availableOK, degradedOK, progressingOK) \<Rightarrow>
               if \<not> availableOK \<or> \<not> degradedOK \<or> \<not> progressingOK then
                 ((Some (Errorf ''clusteroperator %q: Available=%v Degraded=%v Progressing=%v''
                     [AStr name, ABool availableOK, ABool (\<not> degradedOK), ABool (\<not> progressingOK)]),
                   False), s')
               else ((None, True), s')))"

definition WaitForClusterOperatorStable :: "'w env \<Rightarrow> string \<Rightarrow> int \<Rightarrow> ('w, unit) comp" where
  "WaitForClusterOperatorStable env name timeout =
     poll_last env ''%w: last error: %v'' timeout (stable_probe env name)"

definition check_not_degraded :: "'w env \<Rightarrow> string \<Rightarrow> ('w, unit) comp" where
  "check_not_degraded env name =
     bindM (GetClusterOperatorCondition env name ''Degraded'') (\<lambda>degraded.
       if cond_status degraded \<noteq> ''False''
       then throw (Errorf ''clusteroperator %q is degraded: %s'' [AStr name, AStr (cond_message degraded)])
       else ret ())"

definition CheckOperatorsNotDegraded :: "'w env \<Rightarrow> string list \<Rightarrow> ('w, unit) comp" where
  "CheckOperatorsNotDegraded env operators = forM operators (check_not_degraded env)"

section \<open>Nodes\<close>

definition node_ready :: "node \<Rightarrow> bool" where
  "node_ready n =
     (case find_first (\<lambda>c. cond_type c = ''Ready'') (n_conditions n) of
        None \<Rightarrow> False
      | Some c \<Rightarrow> cond_status c = ''True'')"

definition nodes_probe :: "'w env \<Rightarrow> 'w st probe" where
  "nodes_probe env s =
     (case call (EList ''nodes'' '''') (list_nodes env) s of
        (Inl err, s') \<Rightarrow> ((Some err, False), s')
      | (Inr nodes, s') \<Rightarrow>
          let notReady = map n_name (filter (\<lambda>n. \<not> node_ready n) nodes) in
          if notReady \<noteq> [] then
            ((Some (Errorf ''%d nodes not Ready: %v'' [AInt (int (length notReady)), AStrs notReady]),
              False), s')
          else ((None, True), s'))"

definition WaitForAllNodesReady :: "'w env \<Rightarrow> int \<Rightarrow> ('w, unit) comp" where
  "WaitForAllNodesReady env timeout = poll_last env ''%w: %v'' timeout (nodes_probe env)"

section \<open>Machines\<close>

definition phase_of :: "machine \<Rightarrow> string" where
  "phase_of m = (case m_phase m of None \<Rightarrow> '''' | Some p \<Rightarrow> p)"

text \<open>A failed machine that never got a node will not heal and is not waited for.\<close>

definition machine_unhealthy :: "machine \<Rightarrow> bool" where
  "machine_unhealthy m \<longleftrightarrow>
     m_deletionTimestamp m = None \<and> \<not> (phase_of m = ''Failed'' \<and> m_nodeRef m = None) \<and>
     phase_of m \<noteq> ''Running''"

definition healthy_probe :: "'w env \<Rightarrow> 'w st probe" where
  "healthy_probe env s =
     (case call (EList ''machines'' '''') (list_machines env '''') s of
        (Inl err, s') \<Rightarrow> ((Some err, False), s')
      | (Inr machines, s') \<Rightarrow>
          let unhealthy = map (\<lambda>m. m_name m @ ''('' @ phase_of m @ '')'') (filter machine_unhealthy machines) in
          if unhealthy \<noteq> [] then
            ((Some (Errorf ''%d machines not Running: %v'' [AInt (int (length unhealthy)), AStrs unhealthy]),
              False), s')
          else ((None, True), s'))"

definition WaitForAllMachinesHealthy :: "'w env \<Rightarrow> int \<Rightarrow> ('w, unit) comp" where
  "WaitForAllMachinesHealthy env timeout = poll_last env ''%w: %v'' timeout (healthy_probe env)"

definition machine_unlabeled :: "machine \<Rightarrow> bool" where
  "machine_unlabeled m \<longleftrightarrow>
     m_deletionTimestamp m = None \<and> phase_of m = ''Running'' \<and>
     (gm_get (m_labels m) MachineRegionLabel = '''' \<or> gm_get (m_labels m) MachineZoneLabel = '''')"

definition labeled_probe :: "'w env \<Rightarrow> 'w st probe" where
  "labeled_probe env s =
     (case call (EList ''machines'' '''') (list_machines env '''') s of
        (Inl err, s') \<Rightarrow> ((Some err, False), s')
      | (Inr machines, s') \<Rightarrow>
          let unlabeled = map m_name (filter machine_unlabeled machines) in
          if unlabeled \<noteq> [] then
            ((Some (Errorf ''%d machines missing region/zone labels: %v''
                [AInt (int (length unlabeled)), AStrs unlabeled]), False), s')
          else ((None, True), s'))"

definition WaitForAllMachinesLabeled :: "'w env \<Rightarrow> int \<Rightarrow> ('w, unit) comp" where
  "WaitForAllMachinesLabeled env timeout = poll_last env ''%w: %v'' timeout (labeled_probe env)"

section \<open>The CSI driver\<close>

definition get_csi :: "'w env \<Rightarrow> string \<Rightarrow> ('w, conditioned) comp" where
  [go_defs]: "get_csi env name = call (EGet ''clustercsidrivers'' '''' name) (get_csi_driver env name)"

definition GetClusterCSIDriverCondition :: "'w env \<Rightarrow> string \<Rightarrow> string \<Rightarrow> ('w, condition) comp" where
  "GetClusterCSIDriverCondition env name conditionType =
     bindM (wrapM ''get clustercsidriver %q: %w'' [AStr name] (get_csi env name)) (\<lambda>csi.
       case find_first (\<lambda>c. cond_type c = conditionType) (cd_conditions csi) of
         Some c \<Rightarrow> ret c
       | None \<Rightarrow> throw (Errorf ''condition %q not found on clustercsidriver %q''
                         [AStr conditionType, AStr name]))"

text \<open>The flags \<open>(anyAvailable, allAvailable, allNotDegraded)\<close> of the loop over the conditions.\<close>

fun csi_flags :: "condition list \<Rightarrow> bool \<times> bool \<times> bool \<Rightarrow> bool \<times> bool \<times> bool" where
  "csi_flags [] flags = flags"
| "csi_flags (c # cs) (anyAvailable, allAvailable, allNotDegraded) =
     (let anyAvailable = (if HasSuffix (cond_type c) ''Available'' then True else anyAvailable);
          allAvailable = (if HasSuffix (cond_type c) ''Available'' \<and> cond_status c \<noteq> ''True''
                          then False else allAvailable);
          allNotDegraded = (if HasSuffix (cond_type c) ''Degraded'' \<and> cond_status c \<noteq> ''False''
                            then False else allNotDegraded)
      in csi_flags cs (anyAvailable, allAvailable, allNotDegraded))"

definition csi_probe :: "'w env \<Rightarrow> string \<Rightarrow> 'w st probe" where
  "csi_probe env name s =
     (case get_csi env name s of
        (Inl err, s') \<Rightarrow>
          ((Some (if IsNotFound err then Errorf ''clustercsidriver %q not found'' [AStr name] else err),
            False), s')
      | (Inr csi, s') \<Rightarrow>
          (case csi_flags (cd_conditions csi) (False, True, True) of
             (anyAvailable, allAvailable, allNotDegraded) \<Rightarrow>
               ((None, anyAvailable \<and> allAvailable \<and> allNotDegraded), s')))"

definition WaitForClusterCSIDriverAvailable :: "'w env \<Rightarrow> string \<Rightarrow> int \<Rightarrow> ('w, unit) comp" where
  "WaitForClusterCSIDriverAvailable env name timeout =
     poll_last env ''%w: last error: %v'' timeout (csi_probe env name)"

definition pods_probe :: "'w env \<Rightarrow> 'w st probe" where
  "pods_probe env s =
     (case ListPodsByLabel env CSIDriverNamespace CSIDriverControllerLabel s of
        (Inl err, s1) \<Rightarrow> ((Some (Wrapf ''list CSI controller pods: %w'' [] err), False), s1)
      | (Inr controllerPods, s1) \<Rightarrow>
          if controllerPods = [] then ((Some (Errorf ''no CSI controller pods found'' []), False), s1)
          else
            (case ListPodsByLabel env CSIDriverNamespace CSIDriverNodeLabel s1 of
               (Inl err, s2) \<Rightarrow> ((Some (Wrapf ''list CSI node pods: %w'' [] err), False), s2)
             | (Inr nodePods, s2) \<Rightarrow>
                 (case find_first (\<lambda>p. pod_phase p \<noteq> ''Running'') (controllerPods @ nodePods) of
                    Some p \<Rightarrow> ((Some (Errorf ''CSI pod %s phase=%s'' [AStr (pod_name p), AStr (pod_phase p)]),
                                False), s2)
                  | None \<Rightarrow> ((None, True), s2))))"

definition WaitForCSIDriverPodsReady :: "'w env \<Rightarrow> int \<Rightarrow> ('w, unit) comp" where
  "WaitForCSIDriverPodsReady env timeout =
     poll_last env ''%w: last error: %v'' timeout (pods_probe env)"

section \<open>What each wait waits for\<close>

text \<open>The status the server last lists for a condition type.\<close>

definition condition_status :: "condition list \<Rightarrow> string \<Rightarrow> string option" where
  "condition_status cs ty = map_option cond_status (find_first (\<lambda>c. cond_type c = ty) (rev cs))"

lemma condition_status_Nil [simp]: "condition_status [] ty = None"
  by (simp add: condition_status_def)

lemma condition_status_Cons:
  "condition_status (c # cs) ty =
     (case condition_status cs ty of
        Some st \<Rightarrow> Some st
      | None \<Rightarrow> if cond_type c = ty then Some (cond_status c) else None)"
  by (simp add: condition_status_def find_first_append split: option.splits)

definition flag :: "string \<Rightarrow> string option \<Rightarrow> bool \<Rightarrow> bool" where
  "flag want st dflt = (case st of None \<Rightarrow> dflt | Some x \<Rightarrow> x = want)"

lemma stable_flags_eq:
  "stable_flags cs (a, d, p) =
     (flag ''True'' (condition_status cs ''Available'') a,
      flag ''False'' (condition_status cs ''Degraded'') d,
      flag ''False'' (condition_status cs ''Progressing'') p)"
  by (induction cs "(a, d, p)" arbitrary: a d p rule: stable_flags.induct)
    (auto simp: condition_status_Cons flag_def split: option.splits)

lemma available_flags_eq:
  "available_flags cs (a, d) =
     (flag ''True'' (condition_status cs ''Available'') a,
      flag ''False'' (condition_status cs ''Degraded'') d)"
  by (induction cs "(a, d)" arbitrary: a d rule: available_flags.induct)
    (auto simp: condition_status_Cons flag_def split: option.splits)

lemma csi_flags_eq:
  "csi_flags cs (a, b, d) =
     (a \<or> (\<exists>c \<in> set cs. HasSuffix (cond_type c) ''Available''),
      b \<and> (\<forall>c \<in> set cs. HasSuffix (cond_type c) ''Available'' \<longrightarrow> cond_status c = ''True''),
      d \<and> (\<forall>c \<in> set cs. HasSuffix (cond_type c) ''Degraded'' \<longrightarrow> cond_status c = ''False''))"
  by (induction cs "(a, b, d)" arbitrary: a b d rule: csi_flags.induct) (auto simp: Let_def)

definition available :: "condition list \<Rightarrow> bool" where
  "available cs \<longleftrightarrow> condition_status cs ''Available'' = Some ''True'' \<and>
     condition_status cs ''Degraded'' = Some ''False''"

definition stable :: "condition list \<Rightarrow> bool" where
  "stable cs \<longleftrightarrow> available cs \<and> condition_status cs ''Progressing'' = Some ''False''"

definition csi_available :: "condition list \<Rightarrow> bool" where
  "csi_available cs \<longleftrightarrow>
     (\<exists>c \<in> set cs. HasSuffix (cond_type c) ''Available'') \<and>
     (\<forall>c \<in> set cs. (HasSuffix (cond_type c) ''Available'' \<longrightarrow> cond_status c = ''True'') \<and>
        (HasSuffix (cond_type c) ''Degraded'' \<longrightarrow> cond_status c = ''False''))"

definition available_ready :: "'w env \<Rightarrow> string \<Rightarrow> 'w st \<Rightarrow> bool" where
  "available_ready env name s \<longleftrightarrow>
     (\<exists>co. fst (get_cluster_operator env name (world s)) = Inr co \<and> available (cd_conditions co))"

definition stable_ready :: "'w env \<Rightarrow> string \<Rightarrow> 'w st \<Rightarrow> bool" where
  "stable_ready env name s \<longleftrightarrow>
     (\<exists>co. fst (get_cluster_operator env name (world s)) = Inr co \<and> stable (cd_conditions co))"

definition csi_ready :: "'w env \<Rightarrow> string \<Rightarrow> 'w st \<Rightarrow> bool" where
  "csi_ready env name s \<longleftrightarrow>
     (\<exists>csi. fst (get_csi_driver env name (world s)) = Inr csi \<and> csi_available (cd_conditions csi))"

definition nodes_ready :: "'w env \<Rightarrow> 'w st \<Rightarrow> bool" where
  "nodes_ready env s \<longleftrightarrow>
     (\<exists>ns. fst (list_nodes env (world s)) = Inr ns \<and> (\<forall>n \<in> set ns. node_ready n))"

definition machines_healthy :: "'w env \<Rightarrow> 'w st \<Rightarrow> bool" where
  "machines_healthy env s \<longleftrightarrow>
     (\<exists>ms. fst (list_machines env '''' (world s)) = Inr ms \<and> (\<forall>m \<in> set ms. \<not> machine_unhealthy m))"

definition machines_labeled :: "'w env \<Rightarrow> 'w st \<Rightarrow> bool" where
  "machines_labeled env s \<longleftrightarrow>
     (\<exists>ms. fst (list_machines env '''' (world s)) = Inr ms \<and> (\<forall>m \<in> set ms. \<not> machine_unlabeled m))"

definition pods_ready :: "'w env \<Rightarrow> 'w st \<Rightarrow> bool" where
  "pods_ready env s \<longleftrightarrow>
     (\<exists>cps nps w1. list_pods env CSIDriverNamespace CSIDriverControllerLabel (world s) = (Inr cps, w1) \<and>
        cps \<noteq> [] \<and> fst (list_pods env CSIDriverNamespace CSIDriverNodeLabel w1) = Inr nps \<and>
        (\<forall>p \<in> set cps \<union> set nps. pod_phase p = ''Running''))"

section \<open>Every wait keeps the contract\<close>

lemmas probe_defs = available_probe_def stable_probe_def nodes_probe_def healthy_probe_def
  labeled_probe_def csi_probe_def pods_probe_def get_operator_def get_csi_def callE_def

interpretation wait_available: readiness WaitForClusterOperatorAvailable "''%w: last error: %v''"
    available_probe available_ready
  by unfold_locales
    (auto simp: WaitForClusterOperatorAvailable_def probe_defs available_ready_def available_def
      available_flags_eq flag_def split: prod.splits sum.splits option.splits)

interpretation wait_stable: readiness WaitForClusterOperatorStable "''%w: last error: %v''"
    stable_probe stable_ready
  by unfold_locales
    (auto simp: WaitForClusterOperatorStable_def probe_defs stable_ready_def stable_def available_def
      stable_flags_eq flag_def split: prod.splits sum.splits option.splits)

interpretation wait_csi: readiness WaitForClusterCSIDriverAvailable "''%w: last error: %v''"
    csi_probe csi_ready
  by unfold_locales
    (auto simp: WaitForClusterCSIDriverAvailable_def probe_defs csi_ready_def csi_available_def
      csi_flags_eq split: prod.splits sum.splits)

interpretation wait_nodes: readiness "\<lambda>env (_ :: unit). WaitForAllNodesReady env" "''%w: %v''"
    "\<lambda>env _. nodes_probe env" "\<lambda>env _. nodes_ready env"
  by unfold_locales
    (auto simp: WaitForAllNodesReady_def probe_defs nodes_ready_def Let_def filter_empty_conv
      split: prod.splits sum.splits)

interpretation wait_healthy: readiness "\<lambda>env (_ :: unit). WaitForAllMachinesHealthy env" "''%w: %v''"
    "\<lambda>env _. healthy_probe env" "\<lambda>env _. machines_healthy env"
  by unfold_locales
    (auto simp: WaitForAllMachinesHealthy_def probe_defs machines_healthy_def Let_def filter_empty_conv
      split: prod.splits sum.splits)

interpretation wait_labeled: readiness "\<lambda>env (_ :: unit). WaitForAllMachinesLabeled env" "''%w: %v''"
    "\<lambda>env _. labeled_probe env" "\<lambda>env _. machines_labeled env"
  by unfold_locales
    (auto simp: WaitForAllMachinesLabeled_def probe_defs machines_labeled_def Let_def filter_empty_conv
      split: prod.splits sum.splits)

lemma pods_probe_ready: "snd (fst (pods_probe env s)) \<longleftrightarrow> pods_ready env s"
  by (auto simp: pods_probe_def pods_ready_def ListPodsByLabel_def wrapM_def callE_def
      find_first_None_iff split: prod.splits sum.splits option.splits)
    (auto dest!: find_first_SomeD)

interpretation wait_pods: readiness "\<lambda>env (_ :: unit). WaitForCSIDriverPodsReady env"
    "''%w: last error: %v''" "\<lambda>env _. pods_probe env" "\<lambda>env _. pods_ready env"
  by unfold_locales (simp_all add: WaitForCSIDriverPodsReady_def pods_probe_ready)

section \<open>The probes only read\<close>

lemma emitted_step: "read_only e \<Longrightarrow> emitted read_only s (s\<lparr>world := w, trace := trace s @ [e]\<rparr>)"
  by (simp add: emitted_def)

lemma probes_read:
  "within (emitted read_only) (available_probe env name)"
  "within (emitted read_only) (stable_probe env name)"
  "within (emitted read_only) (csi_probe env name)"
  "within (emitted read_only) (nodes_probe env)"
  "within (emitted read_only) (healthy_probe env)"
  "within (emitted read_only) (labeled_probe env)"
  by (auto simp: within_def probe_defs Let_def emitted_step split: prod.splits sum.splits)

lemma pods_probe_reads: "within (emitted read_only) (pods_probe env)"
  unfolding within_def
proof
  fix s
  have l: "emitted read_only t (snd (ListPodsByLabel env ns sel t))" for ns sel t
    using reads_objects(5) [of env ns sel] by (simp add: within_def)
  let ?L1 = "ListPodsByLabel env CSIDriverNamespace CSIDriverControllerLabel"
  let ?L2 = "ListPodsByLabel env CSIDriverNamespace CSIDriverNodeLabel"
  have "emitted read_only s (snd (?L2 (snd (?L1 s))))"
    using em.trans [OF l l] .
  with l [of s CSIDriverNamespace CSIDriverControllerLabel]
  show "emitted read_only s (snd (pods_probe env s))"
    by (auto simp: pods_probe_def split: prod.splits sum.splits option.splits)
qed

lemma waits_read:
  assumes "poller_ok (poll env)"
  shows "within (emitted read_only) (WaitForClusterOperatorStable env name t)"
    "within (emitted read_only) (WaitForClusterCSIDriverAvailable env name t)"
    "within (emitted read_only) (WaitForAllNodesReady env t)"
    "within (emitted read_only) (WaitForAllMachinesHealthy env t)"
    "within (emitted read_only) (WaitForAllMachinesLabeled env t)"
    "within (emitted read_only) (WaitForCSIDriverPodsReady env t)"
  using wait_stable.wait_within [OF assms em.refl em.trans probes_read(2)]
    wait_csi.wait_within [OF assms em.refl em.trans probes_read(3)]
    wait_nodes.wait_within [OF assms em.refl em.trans probes_read(4)]
    wait_healthy.wait_within [OF assms em.refl em.trans probes_read(5)]
    wait_labeled.wait_within [OF assms em.refl em.trans probes_read(6)]
    wait_pods.wait_within [OF assms em.refl em.trans pods_probe_reads] by auto

lemma check_not_degraded_reads: "within (emitted read_only) (CheckOperatorsNotDegraded env ops)"
  by (auto simp: CheckOperatorsNotDegraded_def check_not_degraded_def GetClusterOperatorCondition_def
      get_operator_def intro!: emits_rules split: option.splits)

end
