(* ===== verification/LabApply.thy ===== *)
theory LabApply
  imports LabState Readiness
begin

text \<open>
  \<open>pkg/lab/apply.go\<close>: adding a vCenter to the cluster, going back, and checking the result.
  The progress lines are left out.  \<open>Apply\<close> validates its configuration and so trims and
  completes it; the computation after validation is \<open>apply_validated\<close>.
\<close>

record ApplyResult =
  AddedVCenter :: string
  AddedFailureDomain :: string
  ResultStateDir :: string

section \<open>Helpers\<close>

definition splitKey :: "string \<Rightarrow> (string \<times> string) res" where
  "splitKey key =
     (case Index key ''/'' of
        Some i \<Rightarrow> Inr (take i key, drop (Suc i) key)
      | None \<Rightarrow> Inl (Errorf ''invalid object key %q'' [AStr key]))"

definition vsphereHasServer :: "infrastructure option \<Rightarrow> string \<Rightarrow> bool" where
  "vsphereHasServer infra server = list_ex (\<lambda>vc. vc_server vc = server) (GetVCenters infra)"

definition operator_names :: "string list" where
  [go_defs]: "operator_names = [''cloud-controller-manager'', ''config-operator'', ''machine-api'', ''storage'']"

definition waitForClusterReady :: "'w env \<Rightarrow> ('w, unit) comp" where
  "waitForClusterReady env =
     bindM (forM operator_names (\<lambda>name.
              wrapM ''operator %q not stable: %w'' [AStr name]
                (WaitForClusterOperatorStable env name LongTimeout))) (\<lambda>_.
     bindM (wrapM ''ClusterCSIDriver not ready: %w'' []
              (WaitForClusterCSIDriverAvailable env ClusterCSIDriverName LongTimeout)) (\<lambda>_.
     bindM (wrapM ''CSI driver pods not ready: %w'' [] (WaitForCSIDriverPodsReady env LongTimeout)) (\<lambda>_.
     bindM (wrapM ''machines not ready: %w'' [] (WaitForAllMachinesHealthy env LongTimeout)) (\<lambda>_.
     bindM (wrapM ''nodes not ready: %w'' [] (WaitForAllNodesReady env LongTimeout)) (\<lambda>_.
     bindM (wrapM ''machine labels not ready: %w'' [] (WaitForAllMachinesLabeled env LongTimeout)) (\<lambda>_.
     ret ()))))))"

definition captureState :: "'w env \<Rightarrow> infrastructure \<Rightarrow> ('w, cluster_state) comp" where
  "captureState env infra =
     bindM (wrapM ''get %s/%s: %w'' [AStr SourceConfigNamespace, AStr SourceConfigName]
              (GetConfigMap env SourceConfigNamespace SourceConfigName)) (\<lambda>cm.
     bindM (backupCredentialSecrets env) (\<lambda>secrets.
       ret \<lparr>cs_infrastructure = Some infra,
            cs_configMaps = [(objectKey SourceConfigNamespace SourceConfigName, cm)],
            cs_secrets = secrets\<rparr>))"

definition updateCredentials :: "'w env \<Rightarrow> infrastructure \<Rightarrow> LabConfig \<Rightarrow> bool \<Rightarrow> ('w, unit) comp" where
  "updateCredentials env infra cfg dryRun =
     bindM (GetConfigMap env SourceConfigNamespace SourceConfigName) (\<lambda>cm.
     bindM (mergeCloudProviderConfig env (gm_get (cm_entries cm) SourceCloudConfigDataKey)
              (Some infra) (SecondVCenter cfg)) (\<lambda>mergedConfig.
       if dryRun then updateCredentialSecrets env (SecondVCenter cfg) True
       else
         let cmUpdate = cm\<lparr>cm_data := Some (gm_put SourceCloudConfigDataKey mergedConfig (cm_entries cm))\<rparr> in
         bindM (wrapM ''update cloud-provider-config: %w'' []
                  (call (EUpdateConfigMap cmUpdate) (update_config_map env cmUpdate))) (\<lambda>_.
         updateCredentialSecrets env (SecondVCenter cfg) False)))"

definition new_vcenter :: "LabConfig \<Rightarrow> vcenter_spec" where
  "new_vcenter cfg =
     \<lparr>vc_server = Server (SecondVCenter cfg), vc_port = Port (SecondVCenter cfg),
      vc_datacenters = Datacenters (SecondVCenter cfg)\<rparr>"

definition new_failure_domain :: "LabConfig \<Rightarrow> FailureDomainConfig \<Rightarrow> failure_domain" where
  "new_failure_domain cfg f =
     \<lparr>fd_name = Name f, fd_region = Region f, fd_zone = Zone f, fd_server = Server (SecondVCenter cfg),
      fd_topology =
        \<lparr>tp_computeCluster = ComputeCluster (Topology f), tp_datacenter = Datacenter (Topology f),
         tp_datastore = Datastore (Topology f), tp_networks = Networks (Topology f),
         tp_resourcePool = ResourcePool (Topology f), tp_other = ''''\<rparr>,
      fd_other = ''''\<rparr>"

definition buildInfrastructureSpec :: "infrastructure \<Rightarrow> LabConfig \<Rightarrow> (infra_spec \<times> string) res" where
  "buildInfrastructureSpec infra cfg =
     (let spec = CloneInfrastructureSpec (infra_spec infra) in
      case is_vsphere spec of
        None \<Rightarrow> Inl (Errorf ''infrastructure has no vsphere platform spec'' [])
      | Some p \<Rightarrow>
          let p = p\<lparr>vs_vcenters := vs_vcenters p @ [new_vcenter cfg]\<rparr> in
          (case FailureDomain cfg of
             None \<Rightarrow> Inr (spec\<lparr>is_vsphere := Some p\<rparr>, '''')
           | Some f \<Rightarrow>
               let fd = new_failure_domain cfg f;
                   p = p\<lparr>vs_failureDomains := vs_failureDomains p @ [fd]\<rparr>
               in Inr (spec\<lparr>is_vsphere := Some p\<rparr>, fd_name fd)))"

section \<open>Apply\<close>

definition backup_step :: "'w env \<Rightarrow> LabConfig \<Rightarrow> bool \<Rightarrow> infrastructure \<Rightarrow> ('w, unit) comp" where
  "backup_step env cfg dryRun infra =
     (if dryRun then ret ()
      else (\<lambda>s. case HasState env (StateDir cfg) s of
             (has, s') \<Rightarrow>
               if has then (Inr (), s')
               else bindM (wrapM ''backup cluster state: %w'' [] (captureState env infra))
                      (\<lambda>state. SaveState env (StateDir cfg) state) s'))"

definition commit_step :: "'w env \<Rightarrow> LabConfig \<Rightarrow> bool \<Rightarrow> infrastructure \<Rightarrow> ('w, ApplyResult) comp" where
  "commit_step env cfg dryRun infra =
     bindM (wrapM ''update credentials: %w'' [] (updateCredentials env infra cfg dryRun)) (\<lambda>_.
     bindM (liftR (buildInfrastructureSpec infra cfg)) (\<lambda>(newSpec, fdName).
     bindM (if dryRun then
              bindM (wrapM ''dry-run infrastructure patch: %w'' [] (ReplaceInfrastructureSpec env newSpec True))
                (\<lambda>_. ret ())
            else
              bindM (wrapM ''apply infrastructure patch: %w'' [] (ReplaceInfrastructureSpec env newSpec False))
                (\<lambda>_. waitForClusterReady env)) (\<lambda>_.
       ret \<lparr>AddedVCenter = Server (SecondVCenter cfg), AddedFailureDomain = fdName,
            ResultStateDir = StateDir cfg\<rparr>)))"

definition apply_validated :: "'w env \<Rightarrow> LabConfig \<Rightarrow> bool \<Rightarrow> ('w, ApplyResult) comp" where
  "apply_validated env cfg dryRun =
     bindM (GetInfrastructure env) (\<lambda>infra.
       if \<not> IsVSphereCluster (Some infra) then throw (Errorf ''cluster platform is not VSphere'' [])
       else bindM (IsFeatureGateEnabled env VSphereMultiVCenterDay2Gate) (\<lambda>enabled.
         if \<not> enabled then throw (Errorf ''VSphereMultiVCenterDay2 feature gate is not enabled'' [])
         else if vsphereHasServer (Some infra) (Server (SecondVCenter cfg)) then
           throw (Errorf ''vCenter %q is already in Infrastructure'' [AStr (Server (SecondVCenter cfg))])
         else if 3 \<le> length (GetVCenters (Some infra)) then
           throw (Errorf ''Infrastructure already has 3 vCenters (OpenShift maximum)'' [])
         else bindM (backup_step env cfg dryRun infra) (\<lambda>_. commit_step env cfg dryRun infra)))"

definition Apply :: "'w env \<Rightarrow> LabConfig option \<Rightarrow> bool \<Rightarrow> ('w, ApplyResult) comp" where
  "Apply env cfg dryRun s =
     (case cfg of
        None \<Rightarrow> (Inl (Errorf ''lab config is nil'' []), s)
      | Some cfg \<Rightarrow>
          (case LabConfig_Validate env cfg s of
             ((Some err, _), s') \<Rightarrow> (Inl err, s')
           | ((None, cfg), s') \<Rightarrow> apply_validated env cfg dryRun s'))"

section \<open>Restore\<close>

definition restore_config_map :: "'w env \<Rightarrow> string \<times> config_map \<Rightarrow> ('w, unit) comp" where
  "restore_config_map env entry = (case entry of (key, cm) \<Rightarrow>
     bindM (liftR (splitKey key)) (\<lambda>(ns, name).
     bindM (wrapM ''get configmap %s/%s: %w'' [AStr ns, AStr name] (GetConfigMap env ns name)) (\<lambda>current.
       let restored = current\<lparr>cm_data := cm_data cm, cm_binaryData := cm_binaryData cm\<rparr> in
       bindM (wrapM ''restore configmap %s/%s: %w'' [AStr ns, AStr name]
                (call (EUpdateConfigMap restored) (update_config_map env restored))) (\<lambda>_. ret ()))))"

definition restore_secret :: "'w env \<Rightarrow> string \<times> secret \<Rightarrow> ('w, unit) comp" where
  "restore_secret env entry = (case entry of (key, secret) \<Rightarrow>
     bindM (liftR (splitKey key)) (\<lambda>(ns, name).
       if ns = MachineAPINamespace \<and> name = VSphereMachineCredsSecret then ret ()
       else
         bindM (wrapM ''get secret %s/%s: %w'' [AStr ns, AStr name]
                  (call (EGet ''secrets'' ns name) (get_secret env ns name))) (\<lambda>current.
           let restored = current\<lparr>sec_data := sec_data secret\<rparr> in
           bindM (wrapM ''restore secret %s/%s: %w'' [AStr ns, AStr name]
                    (call (EUpdateSecret restored) (update_secret env restored))) (\<lambda>_. ret ()))))"

definition restore_objects :: "'w env \<Rightarrow> cluster_state \<Rightarrow> ('w, unit) comp" where
  "restore_objects env state =
     bindM (case cs_infrastructure state of
              None \<Rightarrow> ret ()
            | Some infra \<Rightarrow> wrapM ''restore infrastructure: %w'' [] (RestoreInfrastructure env (Some infra)))
       (\<lambda>_. bindM (forM (cs_configMaps state) (restore_config_map env))
       (\<lambda>_. forM (cs_secrets state) (restore_secret env)))"

definition Restore :: "'w env \<Rightarrow> string \<Rightarrow> ('w, unit) comp" where
  "Restore env stateDir =
     bindM (LoadState env stateDir) (\<lambda>state.
     bindM (restore_objects env state) (\<lambda>_. waitForClusterReady env))"

section \<open>Verify\<close>

definition Verify :: "'w env \<Rightarrow> LabConfig \<Rightarrow> ('w, unit) comp" where
  "Verify env cfg =
     bindM (CheckOperatorsNotDegraded env operator_names) (\<lambda>_.
     bindM (GetInfrastructure env) (\<lambda>infra.
       if \<not> vsphereHasServer (Some infra) (Server (SecondVCenter cfg)) then
         throw (Errorf ''Infrastructure does not include vCenter %q'' [AStr (Server (SecondVCenter cfg))])
       else
         bindM (GetConfigMap env ManagedConfigNamespace ManagedConfigName) (\<lambda>cm.
         bindM (liftR (ParseCloudConfigYAML env (gm_get (cm_entries cm) CloudConfigDataKey))) (\<lambda>parsed.
           case AssertInfrastructureVCentersPresent (Some infra) (Some parsed) of
             Some err \<Rightarrow> throw err
           | None \<Rightarrow> ret ()))))"

section \<open>Keys of the backup\<close>

lemma splitKey_objectKey:
  "CHR ''/'' \<notin> set ns \<Longrightarrow> splitKey (objectKey ns n) = Inr (ns, n)"
  using Index_char_append [of "CHR ''/''" ns n] by (simp add: splitKey_def objectKey_def)

lemma splitKey_Inr: "splitKey key = Inr (ns, n) \<Longrightarrow> key = objectKey ns n \<and> CHR ''/'' \<notin> set ns"
proof -
  assume "splitKey key = Inr (ns, n)"
  then obtain i where i: "Index key ''/'' = Some i" and nsn: "ns = take i key" "n = drop (Suc i) key"
    by (auto simp: splitKey_def split: option.splits)
  have "key = ns @ ''/'' @ n" using Index_Some [OF i] nsn by simp
  moreover have "CHR ''/'' \<notin> set ns" using Index_char_before [OF i] nsn by simp
  ultimately show ?thesis by (simp add: objectKey_def)
qed

section \<open>Only reading, only the listed objects, only after the backup\<close>

lemma waitForClusterReady_reads:
  "poller_ok (poll env) \<Longrightarrow> within (emitted read_only) (waitForClusterReady env)"
  unfolding waitForClusterReady_def by (intro emits_rules waits_read)

lemma captureState_reads: "within (emitted read_only) (captureState env infra)"
  unfolding captureState_def by (intro emits_rules reads_objects backup_reads)

lemma Verify_reads: "within (emitted read_only) (Verify env cfg)"
  unfolding Verify_def
  by (intro emits_rules check_not_degraded_reads reads_objects) (auto intro!: emits_rules reads_objects split: option.splits)

lemma updateCredentials_dry_reads: "within (emitted read_only) (updateCredentials env infra cfg True)"
  unfolding updateCredentials_def Let_def if_True
  by (intro emits_rules reads_objects merges_read update_dry_reads)

lemma commit_dry_reads: "within (emitted read_only) (commit_step env cfg True infra)"
  unfolding commit_step_def if_True case_prod_beta
  by (intro emits_rules updateCredentials_dry_reads dry_patch_reads)

end
