(* ===== verification/LabSafety.thy ===== *)
theory LabSafety
  imports LabApply
begin

text \<open>
  What \<open>Apply\<close>, \<open>Restore\<close> and \<open>Verify\<close> may do to the cluster and in which order, whatever
  the API server answers: statements about the list of calls, for every environment.
\<close>

section \<open>Classes of calls\<close>

fun backs_up :: "string \<Rightarrow> effect \<Rightarrow> bool" where
  "backs_up path (EStat p found) = (p = path \<and> found)"
| "backs_up path (EWriteState p _ ok) = (p = path \<and> ok)"
| "backs_up path _ = False"

lemma backs_up_not_persists: "\<not> (backs_up p e \<and> persists e)"
  by (cases e) auto

text \<open>The calls \<open>Restore\<close> may make.\<close>

fun restore_may :: "effect \<Rightarrow> bool" where
  "restore_may (EUpdateSecret sec) =
     (\<not> (sec_namespace sec = MachineAPINamespace \<and> sec_name sec = VSphereMachineCredsSecret))"
| "restore_may (EWriteState _ _ _) = False"
| "restore_may (EMkdirAll _) = False"
| "restore_may (EPatchInfrastructure _ dry) = dry"
| "restore_may _ = True"

text \<open>The calls \<open>Apply\<close> may make once the backup is written, and all its calls, with the directory of the backup.\<close>

fun commit_may :: "effect \<Rightarrow> bool" where
  "commit_may (EGet _ _ _) = True"
| "commit_may (EList _ _) = True"
| "commit_may (EStat _ _) = True"
| "commit_may (EReadFile _) = True"
| "commit_may (EPatchInfrastructure _ _) = True"
| "commit_may (EUpdateConfigMap cm) =
     (cm_namespace cm = SourceConfigNamespace \<and> cm_name cm = SourceConfigName)"
| "commit_may (EUpdateSecret sec) =
     ((sec_namespace sec, sec_name sec) \<in>
        {(VSphereCredsNamespace, VSphereCredsSecret), (SourceConfigNamespace, CloudCredentialsSecret)})"
| "commit_may _ = False"

fun apply_may :: "string \<Rightarrow> effect \<Rightarrow> bool" where
  "apply_may dir (EMkdirAll d) = (d = dir)"
| "apply_may dir (EWriteState path _ _) = (path = statePath dir)"
| "apply_may dir e = commit_may e"

lemma commit_may_apply: "commit_may e \<Longrightarrow> apply_may dir e"
  by (cases e) simp_all

lemma read_only_commit: "read_only e \<Longrightarrow> commit_may e"
  by (cases e) simp_all

lemma read_only_may: "read_only e \<Longrightarrow> apply_may dir e" "read_only e \<Longrightarrow> restore_may e"
proof -
  show "read_only e \<Longrightarrow> apply_may dir e" by (intro commit_may_apply read_only_commit)
  show "read_only e \<Longrightarrow> restore_may e" by (cases e) simp_all
qed

lemma read_only_not_persists: "read_only e \<Longrightarrow> \<not> persists e"
  by (simp add: read_only_def)

text \<open>A get returns the object it was asked for.\<close>

definition gets_named :: "'w env \<Rightarrow> bool" where
  "gets_named env \<longleftrightarrow>
     (\<forall>ns n w cm. fst (get_config_map env ns n w) = Inr cm \<longrightarrow> cm_namespace cm = ns \<and> cm_name cm = n) \<and>
     (\<forall>ns n w sec. fst (get_secret env ns n w) = Inr sec \<longrightarrow> sec_namespace sec = ns \<and> sec_name sec = n)"

section \<open>Validation before the rest\<close>

lemma Apply_Some:
  "Apply env (Some c) d = (\<lambda>s. case LabConfig_Validate env c s of
     (p, s') \<Rightarrow> (case fst p of Some err \<Rightarrow> throw err | None \<Rightarrow> apply_validated env (snd p) d) s')"
  by (rule ext) (auto simp: Apply_def throw_def split: prod.splits option.splits)

lemma Validate_reads: "within (emitted read_only) (LabConfig_Validate env c)"
  by (rule LabConfig_Validate_state [OF em.refl PasswordValue_reads])

lemma backup_step_seq:
  "backup_step env cfg False infra = (\<lambda>s. case HasState env (StateDir cfg) s of
     (has, s') \<Rightarrow> (if has then ret ()
        else bindM (wrapM ''backup cluster state: %w'' [] (captureState env infra))
               (\<lambda>state. SaveState env (StateDir cfg) state)) s')"
  by (rule ext) (auto simp: backup_step_def ret_def split: prod.splits)

lemma HasState_emits: "(\<And>b. P (EStat (statePath dir) b)) \<Longrightarrow> within (emitted P) (HasState env dir)"
  by (simp add: HasState_def within_emitted_call)

section \<open>Dry runs only read\<close>

lemma Apply_dry_reads: "within (emitted read_only) (Apply env cfg True)"
proof (cases cfg)
  case None
  then show ?thesis by (simp add: Apply_def within_def emitted_def)
next
  case (Some c)
  have "within (emitted read_only) (apply_validated env c' True)" for c'
    unfolding apply_validated_def backup_step_def if_True
    by (auto intro!: emits_rules reads_objects commit_dry_reads)
  then show ?thesis
    unfolding Some Apply_Some
    by (intro em.within_seq Validate_reads) (auto intro: em.within_throw split: option.splits)
qed

text \<open>C5: \<open>Apply\<close> with the dry-run option makes only read-only calls: it reads objects and files and
  sends the new spec to the server with the dry-run flag, but updates no object, persists no
  patch and writes no file, whatever the server answers and whether it succeeds or not.\<close>

theorem apply_dry_run_only_reads: "emitted read_only s (snd (Apply env cfg True s))"
  using Apply_dry_reads unfolding within_def by blast

section \<open>Every change comes after a backup\<close>

lemma updateCredentials_extends: "within (emitted (\<lambda>_. True)) (updateCredentials env infra cfg d)"
  unfolding updateCredentials_def updateCredentialSecrets_def update_target_def get_target_def Let_def
  by (auto intro!: emits_rules within_emitted_mono [OF reads_objects(2)]
      within_emitted_mono [OF merges_read(1)] within_emitted_mono [OF merges_read(2)] split: sum.splits)

lemma commit_extends:
  assumes "poller_ok (poll env)"
  shows "within (emitted (\<lambda>_. True)) (commit_step env cfg d infra)"
  unfolding commit_step_def ReplaceInfrastructureSpec_def PatchInfrastructure_def case_prod_beta
  by (auto intro!: emits_rules updateCredentials_extends
      within_emitted_mono [OF waitForClusterReady_reads [OF assms]])

lemma backup_step_quiet: "within (emitted (\<lambda>e. \<not> persists e)) (backup_step env cfg d infra)"
proof (cases d)
  case True
  then show ?thesis by (simp add: backup_step_def em.within_ret)
next
  case False
  then have "d = False" by simp
  then show ?thesis
    unfolding \<open>d = False\<close> backup_step_seq
    by (intro em.within_seq HasState_emits) (auto intro!: emits_rules SaveState_keeps_cluster
        within_emitted_mono [OF captureState_reads read_only_not_persists])
qed

lemma backup_step_backs:
  assumes "backup_step env cfg False infra s = (Inr u, s')"
  shows "\<exists>tr. trace s' = trace s @ tr \<and> list_ex (backs_up (statePath (StateDir cfg))) tr"
proof -
  let ?p = "statePath (StateDir cfg)"
  obtain has s1 where h: "HasState env (StateDir cfg) s = (has, s1)" by force
  then have t1: "trace s1 = trace s @ [EStat ?p has]"
    by (auto simp: HasState_def callE_def split: prod.splits)
  show ?thesis
  proof (cases has)
    case True
    with assms h t1 show ?thesis by (auto simp: backup_step_def)
  next
    case False
    with assms h obtain state s2 where c: "captureState env infra s1 = (Inr state, s2)"
      and w: "SaveState env (StateDir cfg) state s2 = (Inr u, s')"
      by (auto simp: backup_step_def comp_Inr)
    obtain tr2 where "trace s2 = trace s1 @ tr2"
      using captureState_reads c unfolding within_def emitted_def by (metis snd_conv)
    moreover obtain tr3 doc where "trace s' = trace s2 @ tr3" "EWriteState ?p doc True \<in> set tr3"
      using SaveState_writes [OF w] by blast
    ultimately have "trace s' = trace s @ (EStat ?p has # tr2 @ tr3)"
      "list_ex (backs_up ?p) (EStat ?p has # tr2 @ tr3)"
      using t1 by (auto simp: list_ex_iff intro!: bexI [of _ "EWriteState ?p doc True"])
    then show ?thesis by blast
  qed
qed

lemma apply_validated_guarded:
  assumes "poller_ok (poll env)"
  shows "runs_guarded (backs_up (statePath (StateDir cfg))) persists (apply_validated env cfg d)"
proof -
  let ?B = "backs_up (statePath (StateDir cfg))"
  have fail: "runs_guarded ?B persists (throw e)" for e
    by (intro runs_guarded_quiet em.within_throw)
  have tail: "runs_guarded ?B persists (bindM (backup_step env cfg d infra) (\<lambda>_. commit_step env cfg d infra))"
    for infra
  proof (cases d)
    case True
    then show ?thesis
      by (simp add: backup_step_def runs_guarded_quiet
          within_emitted_mono [OF commit_dry_reads read_only_not_persists])
  next
    case False
    then show ?thesis
      by (auto intro!: runs_guarded_bind_backed backup_step_quiet commit_extends assms backup_step_backs)
  qed
  show ?thesis
    unfolding apply_validated_def
    by (intro runs_guarded_bind_quiet within_emitted_mono [OF reads_objects(1) read_only_not_persists])
      (auto simp: fail tail intro!: runs_guarded_bind_quiet
        within_emitted_mono [OF reads_objects(4) read_only_not_persists])
qed

text \<open>C3: In every run of \<open>Apply\<close>, each call that changes an object of the cluster comes after a
  call that established a backup: either the state file was found to exist already, or it has
  been written successfully in this run.  The path is the one \<open>Restore\<close> will read.\<close>

theorem apply_backs_up_first:
  assumes "poller_ok (poll env)"
  shows "\<exists>tr. trace (snd (Apply env (Some cfg) d s)) = trace s @ tr \<and>
    guarded (backs_up (statePath (StateDir cfg))) persists tr"
proof -
  obtain err c s1 where v: "LabConfig_Validate env cfg s = ((err, c), s1)" by (metis surj_pair)
  with LabConfig_Validate_state [OF em.refl PasswordValue_reads, of env cfg]
  obtain tr1 where tr1: "trace s1 = trace s @ tr1" "list_all read_only tr1"
    unfolding within_def emitted_def by (metis snd_conv)
  then have q: "list_all (\<lambda>e. \<not> persists e) tr1"
    by (simp add: list_all_iff read_only_not_persists)
  show ?thesis
  proof (cases err)
    case None
    with v have "StateDir c = StateDir cfg" by (auto simp: LabConfig_Validate_ok)
    then obtain tr2 where "trace (snd (apply_validated env c d s1)) = trace s1 @ tr2"
      "guarded (backs_up (statePath (StateDir cfg))) persists tr2"
      using apply_validated_guarded [OF assms, of c d] unfolding runs_guarded_def by metis
    with v None tr1 q show ?thesis
      by (auto simp: Apply_def intro!: exI [of _ "tr1 @ tr2"] guarded_append_quiet)
  next
    case (Some e)
    with v tr1 q show ?thesis by (auto simp: Apply_def guarded_quiet)
  qed
qed

section \<open>Which objects are touched\<close>

lemma update_target_may:
  assumes "gets_named env" "t \<in> set vsphereCredentialSecretTargets"
  shows "within (emitted commit_may) (update_target env vc d t)"
proof -
  have named: "(tg_Namespace t, tg_Name t) \<in>
      {(VSphereCredsNamespace, VSphereCredsSecret), (SourceConfigNamespace, CloudCredentialsSecret)}"
    using assms(2) by (auto simp: vsphereCredentialSecretTargets_def)
  show ?thesis
    unfolding update_target_def
  proof (rule em.within_bind_result [where Q = "\<lambda>r. \<forall>sec. r = Inr sec \<longrightarrow>
        sec_namespace sec = tg_Namespace t \<and> sec_name sec = tg_Name t"])
    show "within (emitted commit_may) (tryM (get_target env t))"
      by (auto simp: get_target_def intro!: emits_rules)
    show "\<forall>sec. a = Inr sec \<longrightarrow> sec_namespace sec = tg_Namespace t \<and> sec_name sec = tg_Name t"
      if "tryM (get_target env t) s = (Inr a, s')" for s a s'
      using that assms(1) by (auto simp: tryM_eq get_target_def callE_def gets_named_def split: prod.splits)
        (metis fst_conv)+
    show "within (emitted commit_may) (case r of
         Inl err \<Rightarrow>
           if IsNotFound err then ret ()
           else throw (Wrapf ''get %s/%s: %w'' [AStr (tg_Namespace t), AStr (tg_Name t)] err)
       | Inr secret \<Rightarrow>
           bindM (wrapM ''merge %s/%s: %w'' [AStr (tg_Namespace t), AStr (tg_Name t)]
                    (mergeCredentialSecretData env (tg_Format t) (sec_data secret) vc))
             (\<lambda>merged.
               if d then ret ()
               else
                 let update = secret\<lparr>sec_data := merged\<rparr> in
                 bindM (wrapM ''update %s/%s: %w'' [AStr (tg_Namespace t), AStr (tg_Name t)]
                          (call (EUpdateSecret update) (update_secret env update)))
                   (\<lambda>_. ret ())))"
      if "\<forall>sec. r = Inr sec \<longrightarrow> sec_namespace sec = tg_Namespace t \<and> sec_name sec = tg_Name t" for r
      using that named
      by (auto simp: Let_def intro!: emits_rules within_emitted_mono [OF merges_read(2) read_only_commit]
          split: sum.splits)
  qed
qed

lemma updateCredentials_may:
  assumes "gets_named env"
  shows "within (emitted commit_may) (updateCredentials env infra cfg d)"
proof -
  have secs: "within (emitted commit_may) (updateCredentialSecrets env vc dry)" for vc dry
    unfolding updateCredentialSecrets_def by (intro emits_rules update_target_may assms)
  show ?thesis
    unfolding updateCredentials_def
  proof (rule em.within_bind_result [where Q = "\<lambda>cm. cm_namespace cm = SourceConfigNamespace \<and>
        cm_name cm = SourceConfigName"])
    show "within (emitted commit_may) (GetConfigMap env SourceConfigNamespace SourceConfigName)"
      by (rule within_emitted_mono [OF reads_objects(2) read_only_commit])
    show "cm_namespace a = SourceConfigNamespace \<and> cm_name a = SourceConfigName"
      if "GetConfigMap env SourceConfigNamespace SourceConfigName s = (Inr a, s')" for s a s'
      using that assms by (auto simp: GetConfigMap_def wrapM_Inr callE_def gets_named_def split: prod.splits)
        (metis fst_conv)+
  qed (auto simp: Let_def intro!: emits_rules secs within_emitted_mono [OF merges_read(1) read_only_commit])
qed

lemma commit_step_may:
  assumes p: "poller_ok (poll env)" and g: "gets_named env"
  shows "within (emitted commit_may) (commit_step env cfg d infra)"
  unfolding commit_step_def ReplaceInfrastructureSpec_def PatchInfrastructure_def case_prod_beta
  by (auto intro!: emits_rules updateCredentials_may [OF g]
      within_emitted_mono [OF waitForClusterReady_reads [OF p] read_only_commit])

lemma apply_validated_may:
  assumes p: "poller_ok (poll env)" and g: "gets_named env"
  shows "within (emitted (apply_may (StateDir cfg))) (apply_validated env cfg d)"
proof -
  have b: "within (emitted (apply_may (StateDir cfg))) (backup_step env cfg d infra)" for infra
  proof (cases d)
    case True
    then show ?thesis by (simp add: backup_step_def em.within_ret)
  next
    case False
    then have "d = False" by simp
    then show ?thesis
      unfolding \<open>d = False\<close> backup_step_seq SaveState_def
      by (intro em.within_seq HasState_emits)
        (auto intro!: emits_rules within_emitted_mono [OF captureState_reads read_only_may(1)])
  qed
  have c: "within (emitted (apply_may (StateDir cfg))) (commit_step env cfg d infra)" for infra
    by (rule within_emitted_mono [OF commit_step_may [OF p g] commit_may_apply])
  show ?thesis
    unfolding apply_validated_def
    by (auto intro!: emits_rules b c within_emitted_mono [OF reads_objects(1) read_only_may(1)]
        within_emitted_mono [OF reads_objects(4) read_only_may(1)])
qed

lemma Validate_StateDir: "StateDir (snd (fst (LabConfig_Validate env c s))) = StateDir c"
  by (auto simp: LabConfig_Validate_def Let_def split: prod.splits option.splits)

text \<open>C8: Whatever the outcome of \<open>Apply\<close>, every call it makes is a read, a patch of the Infrastructure, an update
  of the config map openshift-config/cloud-provider-config or of one of the secrets kube-system/vsphere-creds and
  openshift-config/cloud-credentials, or writes the backup in the configured directory.  It updates no other
  object, in particular not the secret that the cloud credential operator manages, changes no
  machine set, creates and deletes nothing.\<close>

theorem apply_touches_only:
  assumes "poller_ok (poll env)" "gets_named env"
  shows "emitted (apply_may (StateDir cfg)) s (snd (Apply env (Some cfg) d s))"
proof -
  obtain err cfg' s1 where v: "LabConfig_Validate env cfg s = ((err, cfg'), s1)" by (metis surj_pair)
  have "within (emitted (apply_may (StateDir cfg))) (LabConfig_Validate env cfg)"
    by (rule within_emitted_mono [OF Validate_reads read_only_may(1)])
  with v have 1: "emitted (apply_may (StateDir cfg)) s s1" unfolding within_def by (metis snd_conv)
  have "StateDir cfg' = StateDir cfg" using Validate_StateDir [of env cfg s] v by simp
  with apply_validated_may [OF assms, of cfg' d]
  have "emitted (apply_may (StateDir cfg)) s1 (snd (apply_validated env cfg' d s1))" by (simp add: within_def)
  with 1 v show ?thesis by (cases err) (auto simp: Apply_Some throw_def intro: em.trans)
qed

lemma restore_secret_may:
  assumes "gets_named env"
  shows "within (emitted restore_may) (restore_secret env kv)"
proof -
  obtain key sec where kv: "kv = (key, sec)" by force
  have "within (emitted restore_may)
      (bindM (wrapM ''get secret %s/%s: %w'' [AStr ns, AStr name]
                  (call (EGet ''secrets'' ns name) (get_secret env ns name))) (\<lambda>current.
           let restored = current\<lparr>sec_data := sec_data sec\<rparr> in
           bindM (wrapM ''restore secret %s/%s: %w'' [AStr ns, AStr name]
                    (call (EUpdateSecret restored) (update_secret env restored))) (\<lambda>_. ret ())))"
    if "\<not> (ns = MachineAPINamespace \<and> name = VSphereMachineCredsSecret)" for ns name
  proof (rule em.within_bind_result [where Q = "\<lambda>c. sec_namespace c = ns \<and> sec_name c = name"])
    show "sec_namespace a = ns \<and> sec_name a = name"
      if "wrapM ''get secret %s/%s: %w'' [AStr ns, AStr name]
          (call (EGet ''secrets'' ns name) (get_secret env ns name)) s = (Inr a, s')" for s a s'
      using that assms by (auto simp: wrapM_Inr callE_def gets_named_def split: prod.splits)
        (metis fst_conv)+
  qed (use that in \<open>auto simp: Let_def intro!: emits_rules\<close>)
  then show ?thesis
    unfolding restore_secret_def kv
    by (auto simp: kv intro!: emits_rules split: prod.splits)
qed

lemma restore_objects_may:
  assumes "gets_named env"
  shows "within (emitted restore_may) (restore_objects env state)"
  unfolding restore_objects_def restore_config_map_def RestoreInfrastructure_def Let_def
  by (auto intro!: emits_rules restore_secret_may [OF assms] within_emitted_mono [OF reads_objects(1) read_only_may(2)]
      within_emitted_mono [OF reads_objects(2) read_only_may(2)] split: option.splits prod.splits)

text \<open>C10: \<open>Restore\<close> writes no file, sends no patch and never updates the secret
  openshift-machine-api/vsphere-cloud-credentials, which the cloud credential operator derives
  from the root credentials, whatever the backup file contains.\<close>

theorem restore_spares_managed_secret:
  assumes "poller_ok (poll env)" "gets_named env"
  shows "emitted restore_may s (snd (Restore env dir s))"
proof -
  have "within (emitted restore_may) (Restore env dir)"
    unfolding Restore_def
    by (intro emits_rules within_emitted_mono [OF LoadState_reads read_only_may(2)]
        restore_objects_may assms within_emitted_mono [OF waitForClusterReady_reads [OF assms(1)] read_only_may(2)])
  then show ?thesis by (simp add: within_def)
qed

section \<open>Guards\<close>

lemma quiet_step:
  assumes "within (emitted read_only) m" "m s = (x, s')"
  shows "emitted (\<lambda>e. \<not> persists e) s s'"
proof -
  have "emitted read_only s s'" using assms unfolding within_def by (metis snd_conv)
  then show ?thesis by (rule emitted_mono) (rule read_only_not_persists)
qed

text \<open>C9: If a run of \<open>Apply\<close> changed anything in the cluster, or succeeded, then the configuration
  was valid and the Infrastructure it read was that of a vSphere cluster with the feature gate
  on, had fewer than three vCenters and did not list the new server yet.\<close>

theorem apply_changes_only_when_allowed:
  assumes run: "Apply env (Some cfg) d s = (r, s')"
    and acted: "\<not> emitted (\<lambda>e. \<not> persists e) s s' \<or> is_ok r"
  shows "\<exists>c s1 infra s2 s3. LabConfig_Validate env cfg s = ((None, c), s1) \<and>
    GetInfrastructure env s1 = (Inr infra, s2) \<and> IsVSphereCluster (Some infra) \<and>
    IsFeatureGateEnabled env VSphereMultiVCenterDay2Gate s2 = (Inr True, s3) \<and>
    \<not> vsphereHasServer (Some infra) (Server (SecondVCenter c)) \<and> length (GetVCenters (Some infra)) < 3"
proof -
  obtain err c s1 where v: "LabConfig_Validate env cfg s = ((err, c), s1)" by (metis surj_pair)
  have e1: "emitted (\<lambda>e. \<not> persists e) s s1" by (rule quiet_step [OF Validate_reads v])
  with v run acted have none: "err = None" by (cases err) (auto simp: Apply_def)
  with v run have r: "apply_validated env c d s1 = (r, s')" by (simp add: Apply_def)
  obtain ri s2 where g: "GetInfrastructure env s1 = (ri, s2)" by force
  have e2: "emitted (\<lambda>e. \<not> persists e) s1 s2" by (rule quiet_step [OF reads_objects(1) g])
  have "\<exists>infra. ri = Inr infra"
    using r g acted em.trans [OF e1 e2] by (cases ri) (auto simp: apply_validated_def bindM_def)
  then obtain infra where ri: "ri = Inr infra" ..
  have vs: "IsVSphereCluster (Some infra)"
    using r g ri acted em.trans [OF e1 e2] by (rule_tac ccontr) (auto simp: apply_validated_def bindM_def throw_def)
  obtain rg s3 where f: "IsFeatureGateEnabled env VSphereMultiVCenterDay2Gate s2 = (rg, s3)" by force
  have e3: "emitted (\<lambda>e. \<not> persists e) s2 s3" by (rule quiet_step [OF reads_objects(4) f])
  have stop: "\<not> (is_ok r \<or> \<not> emitted (\<lambda>e. \<not> persists e) s s')" if "(r, s') = (Inl x, s3)" for x
    using that em.trans [OF e1 em.trans [OF e2 e3]] by simp
  have "rg = Inr True"
    using r g ri vs f acted stop by (cases rg) (auto simp: apply_validated_def bindM_def throw_def split: if_splits)
  moreover have "\<not> vsphereHasServer (Some infra) (Server (SecondVCenter c))"
      "length (GetVCenters (Some infra)) < 3"
    using r g ri vs f calculation acted stop
    by (auto simp: apply_validated_def bindM_def throw_def split: if_splits)
  ultimately show ?thesis using v none g ri vs f by blast
qed

end
