(* ===== verification/LabSpec.thy ===== *)
theory LabSpec
  imports LabApply
begin

text \<open>
  What \<open>Apply\<close> adds to the Infrastructure spec, what its final wait establishes, and what
  \<open>Verify\<close> has checked when it succeeds.
\<close>

section \<open>The new spec\<close>

text \<open>
  A well-formed spec: the vCenters have distinct names, there are at most three of them, and
  every failure domain belongs to one of them.
\<close>

definition platform_wf :: "vsphere_platform \<Rightarrow> bool" where
  "platform_wf p \<longleftrightarrow>
     distinct (VCenterServers (vs_vcenters p)) \<and> length (vs_vcenters p) \<le> 3 \<and>
     list_all (\<lambda>fd. fd_server fd \<in> set (VCenterServers (vs_vcenters p))) (vs_failureDomains p)"

definition spec_wf :: "infra_spec \<Rightarrow> bool" where
  "spec_wf spec \<longleftrightarrow> (case is_vsphere spec of None \<Rightarrow> True | Some p \<Rightarrow> platform_wf p)"

definition spec_vcenters :: "infra_spec \<Rightarrow> vcenter_spec list" where
  "spec_vcenters spec = (case is_vsphere spec of None \<Rightarrow> [] | Some p \<Rightarrow> vs_vcenters p)"

lemma GetVCenters_spec: "GetVCenters (Some infra) = spec_vcenters (infra_spec infra)"
  by (simp add: GetVCenters_def spec_vcenters_def)

lemma vsphereHasServer_iff:
  "vsphereHasServer infra srv \<longleftrightarrow> srv \<in> set (VCenterServers (GetVCenters infra))"
  by (auto simp: vsphereHasServer_def VCenterServers_def list_ex_iff)

definition added_failure_domains :: "LabConfig \<Rightarrow> failure_domain list" where
  "added_failure_domains cfg =
     (case FailureDomain cfg of None \<Rightarrow> [] | Some f \<Rightarrow> [new_failure_domain cfg f])"

lemma buildInfrastructureSpec_Inr:
  "buildInfrastructureSpec infra cfg = Inr (spec, name) \<longleftrightarrow>
     (\<exists>p. is_vsphere (infra_spec infra) = Some p \<and>
        spec = (infra_spec infra)\<lparr>is_vsphere := Some
          (p\<lparr>vs_vcenters := vs_vcenters p @ [new_vcenter cfg],
             vs_failureDomains := vs_failureDomains p @ added_failure_domains cfg\<rparr>)\<rparr> \<and>
        name = (case FailureDomain cfg of None \<Rightarrow> '''' | Some f \<Rightarrow> Name f))"
  by (auto simp: buildInfrastructureSpec_def added_failure_domains_def new_failure_domain_def
      CloneInfrastructureSpec_def Let_def split: option.splits)

lemma buildInfrastructureSpec_fails:
  "buildInfrastructureSpec infra cfg = Inl e \<longleftrightarrow>
     is_vsphere (infra_spec infra) = None \<and>
     e = Errorf ''infrastructure has no vsphere platform spec'' []"
  by (auto simp: buildInfrastructureSpec_def CloneInfrastructureSpec_def Let_def split: option.splits)

text \<open>C11: Under the guards \<open>Apply\<close> has checked, the spec it builds from a well-formed spec is well
  formed again (distinct servers, at most three vCenters, every failure domain on a listed
  server), lists the new server, and taking the new server out of its vCenters gives the
  old list back.  Behind the old failure domains, in their order, comes the configured one if there is one, on the
  new server, and nothing else; and apart from these two lists the spec and its vSphere section
  are the old ones.\<close>

theorem build_keeps_spec_wf:
  assumes b: "buildInfrastructureSpec infra cfg = Inr (spec, name)"
    and wf: "spec_wf (infra_spec infra)"
    and fresh: "\<not> vsphereHasServer (Some infra) (Server (SecondVCenter cfg))"
    and room: "length (GetVCenters (Some infra)) < 3"
  shows "spec_wf spec \<and>
    vsphereHasServer (Some (infra\<lparr>infra_spec := spec\<rparr>)) (Server (SecondVCenter cfg)) \<and>
    RemoveVCenterByServer (GetVCenters (Some (infra\<lparr>infra_spec := spec\<rparr>))) (Server (SecondVCenter cfg)) =
      GetVCenters (Some infra) \<and>
    (\<exists>added. GetFailureDomains (Some (infra\<lparr>infra_spec := spec\<rparr>)) = GetFailureDomains (Some infra) @ added \<and>
       (case FailureDomain cfg of
          None \<Rightarrow> added = []
        | Some f \<Rightarrow> (\<exists>fd. added = [fd] \<and> fd_name fd = Name f \<and> fd_region fd = Region f \<and> fd_zone fd = Zone f \<and>
            fd_server fd = Server (SecondVCenter cfg)))) \<and>
    (\<exists>p q. is_vsphere (infra_spec infra) = Some p \<and> is_vsphere spec = Some q \<and>
       q\<lparr>vs_vcenters := vs_vcenters p, vs_failureDomains := vs_failureDomains p\<rparr> = p \<and>
       spec\<lparr>is_vsphere := Some p\<rparr> = infra_spec infra)"
proof -
  let ?srv = "Server (SecondVCenter cfg)"
  obtain p where p: "is_vsphere (infra_spec infra) = Some p"
    and spec: "spec = (infra_spec infra)\<lparr>is_vsphere := Some
          (p\<lparr>vs_vcenters := vs_vcenters p @ [new_vcenter cfg],
             vs_failureDomains := vs_failureDomains p @ added_failure_domains cfg\<rparr>)\<rparr>"
    using b by (auto simp: buildInfrastructureSpec_Inr)
  have vcs: "GetVCenters (Some infra) = vs_vcenters p" using p by (simp add: GetVCenters_Some)
  have fresh': "?srv \<notin> set (VCenterServers (vs_vcenters p))"
    using fresh vcs by (simp add: vsphereHasServer_iff)
  have "platform_wf p" using wf p by (simp add: spec_wf_def)
  then have "platform_wf (p\<lparr>vs_vcenters := vs_vcenters p @ [new_vcenter cfg],
      vs_failureDomains := vs_failureDomains p @ added_failure_domains cfg\<rparr>)"
    using fresh' room vcs
    by (auto simp: platform_wf_def VCenterServers_def new_vcenter_def added_failure_domains_def
        new_failure_domain_def list_all_iff split: option.splits)
  then have "spec_wf spec" by (simp add: spec_wf_def spec)
  moreover have vcs': "GetVCenters (Some (infra\<lparr>infra_spec := spec\<rparr>)) = vs_vcenters p @ [new_vcenter cfg]"
    by (simp add: GetVCenters_def spec)
  then have "vsphereHasServer (Some (infra\<lparr>infra_spec := spec\<rparr>)) ?srv"
    by (simp add: vsphereHasServer_iff VCenterServers_def new_vcenter_def)
  moreover have "RemoveVCenterByServer (vs_vcenters p @ [new_vcenter cfg]) ?srv = vs_vcenters p"
  proof (rule vcs.remove_undo_add)
    have "vc_server x \<noteq> ?srv" if "x \<in> set (vs_vcenters p)" for x
      using fresh' that by (metis VCenterServers_def image_eqI set_map)
    then show "find_first (\<lambda>vc. vc_server vc = ?srv) (vs_vcenters p) = None"
      by (simp add: vcs.search_None)
  qed (simp add: new_vcenter_def)
  moreover have "GetFailureDomains (Some (infra\<lparr>infra_spec := spec\<rparr>)) = GetFailureDomains (Some infra) @ added_failure_domains cfg"
    using p by (simp add: GetFailureDomains_def spec)
  moreover have "case FailureDomain cfg of
      None \<Rightarrow> added_failure_domains cfg = []
    | Some f \<Rightarrow> (\<exists>fd. added_failure_domains cfg = [fd] \<and> fd_name fd = Name f \<and> fd_region fd = Region f \<and>
        fd_zone fd = Zone f \<and> fd_server fd = ?srv)"
    by (simp add: added_failure_domains_def new_failure_domain_def split: option.split)
  moreover have "(infra_spec infra)\<lparr>is_vsphere := Some p\<rparr> = infra_spec infra"
    using p by (cases "infra_spec infra") simp
  ultimately show ?thesis using vcs vcs' p spec by simp
qed

definition demo_topology :: TopologyConfig where
  "demo_topology = \<lparr>ComputeCluster = ''/dc2/host/c2'', Datacenter = ''dc2'', Datastore = ''/dc2/datastore/d2'',
     Networks = [''net2''], ResourcePool = ''/dc2/host/c2/Resources'', Template = ''''\<rparr>"

definition demo_cfg :: LabConfig where
  "demo_cfg = \<lparr>StateDir = ''.lab-state'',
     SecondVCenter = \<lparr>Server = ''vc2'', Port = 443, Datacenters = [''dc2''], Username = ''admin'',
       Password = ''pw'', PasswordFile = ''''\<rparr>,
     FailureDomain = Some \<lparr>Name = ''fd2'', Region = ''r2'', Zone = ''z2'', Topology = demo_topology\<rparr>,
     OrphanTest = None\<rparr>"

definition demo_infra :: infrastructure where
  "demo_infra = \<lparr>infra_meta = ''m'',
     infra_spec = \<lparr>is_type = ''VSphere'', is_vsphere = Some
       \<lparr>vs_vcenters = [\<lparr>vc_server = ''vc1'', vc_port = 443, vc_datacenters = [''dc1'']\<rparr>],
        vs_failureDomains = [], vs_other = ''''\<rparr>, is_other = ''''\<rparr>,
     infra_status = \<lparr>ist_platformType = Some ''VSphere'', ist_other = ''''\<rparr>\<rparr>"

definition demo_spec :: infra_spec where
  "demo_spec = (case buildInfrastructureSpec demo_infra demo_cfg of Inr (spec, _) \<Rightarrow> spec)"

lemma demo_spec_build: "buildInfrastructureSpec demo_infra demo_cfg = Inr (demo_spec, ''fd2'')"
  by (simp add: demo_spec_def buildInfrastructureSpec_def demo_infra_def demo_cfg_def
      CloneInfrastructureSpec_def new_failure_domain_def)

lemma demo_facts:
  "spec_wf (infra_spec demo_infra)"
  "\<not> vsphereHasServer (Some demo_infra) (Server (SecondVCenter demo_cfg))"
  "length (GetVCenters (Some demo_infra)) < 3"
  by (simp_all add: spec_wf_def platform_wf_def VCenterServers_def demo_infra_def demo_cfg_def
      vsphereHasServer_def GetVCenters_def)

theorem build_keeps_spec_wf_witness: "spec_wf demo_spec"
  using build_keeps_spec_wf [OF demo_spec_build demo_facts] by blast

section \<open>What the final wait has seen\<close>

text \<open>\<open>ready\<close> held in a state between \<open>s\<close> and \<open>s'\<close>, with nothing but reads around it.\<close>

definition seen :: "('w st \<Rightarrow> bool) \<Rightarrow> 'w st \<Rightarrow> 'w st \<Rightarrow> bool" where
  "seen ready s s' \<longleftrightarrow> (\<exists>t. emitted read_only s t \<and> ready t \<and> emitted read_only t s')"

definition all_seen_ready :: "'w env \<Rightarrow> 'w st \<Rightarrow> 'w st \<Rightarrow> bool" where
  "all_seen_ready env s s' \<longleftrightarrow>
     list_all (\<lambda>name. seen (stable_ready env name) s s') operator_names \<and>
     seen (csi_ready env ClusterCSIDriverName) s s' \<and> seen (pods_ready env) s s' \<and>
     seen (machines_healthy env) s s' \<and> seen (nodes_ready env) s s' \<and> seen (machines_labeled env) s s'"

lemma seen_later: "emitted read_only s t \<Longrightarrow> seen rd t u \<Longrightarrow> seen rd s u"
  unfolding seen_def by (meson em.trans)

lemma seen_earlier: "seen rd s t \<Longrightarrow> emitted read_only t u \<Longrightarrow> seen rd s u"
  unfolding seen_def by (meson em.trans)

lemma waits_see:
  assumes "poller_ok (poll env)"
  shows "WaitForClusterOperatorStable env name t s = (Inr u, s') \<Longrightarrow> seen (stable_ready env name) s s'"
    "WaitForClusterCSIDriverAvailable env name t s = (Inr u, s') \<Longrightarrow> seen (csi_ready env name) s s'"
    "WaitForCSIDriverPodsReady env t s = (Inr u, s') \<Longrightarrow> seen (pods_ready env) s s'"
    "WaitForAllMachinesHealthy env t s = (Inr u, s') \<Longrightarrow> seen (machines_healthy env) s s'"
    "WaitForAllNodesReady env t s = (Inr u, s') \<Longrightarrow> seen (nodes_ready env) s s'"
    "WaitForAllMachinesLabeled env t s = (Inr u, s') \<Longrightarrow> seen (machines_labeled env) s s'"
  unfolding seen_def
  subgoal by (rule wait_stable.wait_sound_along [OF assms em.refl _ probes_read(2)], erule (1) em.trans)
  subgoal by (rule wait_csi.wait_sound_along [OF assms em.refl _ probes_read(3)], erule (1) em.trans)
  subgoal by (rule wait_pods.wait_sound_along [OF assms em.refl _ pods_probe_reads], erule (1) em.trans)
  subgoal by (rule wait_healthy.wait_sound_along [OF assms em.refl _ probes_read(5)], erule (1) em.trans)
  subgoal by (rule wait_nodes.wait_sound_along [OF assms em.refl _ probes_read(4)], erule (1) em.trans)
  subgoal by (rule wait_labeled.wait_sound_along [OF assms em.refl _ probes_read(6)], erule (1) em.trans)
  done

lemma wait_forM_stable:
  assumes "poller_ok (poll env)"
  shows "forM names (\<lambda>name. wrapM fmt (args name) (WaitForClusterOperatorStable env name t)) s = (Inr u, s')
    \<Longrightarrow> emitted read_only s s' \<and> list_all (\<lambda>name. seen (stable_ready env name) s s') names"
proof (induction names arbitrary: s)
  case Nil
  then show ?case by (simp add: ret_Inr em.refl)
next
  case (Cons n names)
  then obtain u1 s1 where w: "WaitForClusterOperatorStable env n t s = (Inr u1, s1)"
    and f: "forM names (\<lambda>name. wrapM fmt (args name) (WaitForClusterOperatorStable env name t)) s1 = (Inr u, s')"
    by (auto simp: comp_Inr)
  note rest = Cons.IH [OF f]
  have 1: "emitted read_only s s1"
    using waits_read(1) [OF assms, of n t] w unfolding within_def by (metis snd_conv)
  have "seen (stable_ready env n) s s'"
    using seen_earlier [OF waits_see(1) [OF assms w]] rest by blast
  moreover have "list_all (\<lambda>name. seen (stable_ready env name) s s') names"
    using rest seen_later [OF 1] by (auto simp: list_all_iff)
  ultimately show ?case using em.trans [OF 1 conjunct1 [OF rest]] by simp
qed

lemma step_reads: "within (emitted read_only) m \<Longrightarrow> m s = (x, s') \<Longrightarrow> emitted read_only s s'"
  unfolding within_def by (metis snd_conv)

text \<open>C25: When the final wait of \<open>Apply\<close> and \<open>Restore\<close> succeeds, then between its start and its end,
  with only reads in between, each of the four operators was seen available, not degraded and
  not progressing, the CSI driver available, its pods running, every machine healthy and
  labelled, and every node ready.\<close>

theorem waitForClusterReady_sees_ready:
  assumes ok: "poller_ok (poll env)" and run: "waitForClusterReady env s = (Inr u, s')"
  shows "all_seen_ready env s s'"
proof -
  obtain u0 s1 where f: "forM operator_names (\<lambda>name. wrapM ''operator %q not stable: %w'' [AStr name]
        (WaitForClusterOperatorStable env name LongTimeout)) s = (Inr u0, s1)"
    and r1: "bindM (wrapM ''ClusterCSIDriver not ready: %w'' []
              (WaitForClusterCSIDriverAvailable env ClusterCSIDriverName LongTimeout)) (\<lambda>_.
     bindM (wrapM ''CSI driver pods not ready: %w'' [] (WaitForCSIDriverPodsReady env LongTimeout)) (\<lambda>_.
     bindM (wrapM ''machines not ready: %w'' [] (WaitForAllMachinesHealthy env LongTimeout)) (\<lambda>_.
     bindM (wrapM ''nodes not ready: %w'' [] (WaitForAllNodesReady env LongTimeout)) (\<lambda>_.
     bindM (wrapM ''machine labels not ready: %w'' [] (WaitForAllMachinesLabeled env LongTimeout)) (\<lambda>_.
     ret ()))))) s1 = (Inr u, s')"
    using run unfolding waitForClusterReady_def by (subst (asm) bindM_Inr) blast
  from r1 obtain s2 s3 s4 s5 where
    w2: "WaitForClusterCSIDriverAvailable env ClusterCSIDriverName LongTimeout s1 = (Inr (), s2)"
    and w3: "WaitForCSIDriverPodsReady env LongTimeout s2 = (Inr (), s3)"
    and w4: "WaitForAllMachinesHealthy env LongTimeout s3 = (Inr (), s4)"
    and w5: "WaitForAllNodesReady env LongTimeout s4 = (Inr (), s5)"
    and w6: "WaitForAllMachinesLabeled env LongTimeout s5 = (Inr (), s')"
    by (auto simp: comp_Inr)
  note e1 = conjunct1 [OF wait_forM_stable [OF ok f]]
  note e2 = em.trans [OF e1 step_reads [OF waits_read(2) [OF ok] w2]]
  note e3 = em.trans [OF e2 step_reads [OF waits_read(6) [OF ok] w3]]
  note e4 = em.trans [OF e3 step_reads [OF waits_read(4) [OF ok] w4]]
  note e5 = em.trans [OF e4 step_reads [OF waits_read(3) [OF ok] w5]]
  note b6 = step_reads [OF waits_read(5) [OF ok] w6]
  note b5 = em.trans [OF step_reads [OF waits_read(3) [OF ok] w5] b6]
  note b4 = em.trans [OF step_reads [OF waits_read(4) [OF ok] w4] b5]
  note b3 = em.trans [OF step_reads [OF waits_read(6) [OF ok] w3] b4]
  note b2 = em.trans [OF step_reads [OF waits_read(2) [OF ok] w2] b3]
  have "list_all (\<lambda>name. seen (stable_ready env name) s s') operator_names"
    using wait_forM_stable [OF ok f] seen_earlier [OF _ b2] by (simp add: list_all_iff)
  moreover have "seen (csi_ready env ClusterCSIDriverName) s s'"
    by (rule seen_later [OF e1 seen_earlier [OF waits_see(2) [OF ok w2] b3]])
  moreover have "seen (pods_ready env) s s'"
    by (rule seen_later [OF e2 seen_earlier [OF waits_see(3) [OF ok w3] b4]])
  moreover have "seen (machines_healthy env) s s'"
    by (rule seen_later [OF e3 seen_earlier [OF waits_see(4) [OF ok w4] b5]])
  moreover have "seen (nodes_ready env) s s'"
    by (rule seen_later [OF e4 seen_earlier [OF waits_see(5) [OF ok w5] b6]])
  moreover have "seen (machines_labeled env) s s'"
    by (rule seen_later [OF e5 waits_see(6) [OF ok w6]])
  ultimately show ?thesis by (simp add: all_seen_ready_def)
qed

section \<open>The wait ends\<close>

text \<open>From every state, one of the next \<open>k + 1\<close> probes starts in a ready state.\<close>

definition soon :: "nat \<Rightarrow> 'w st probe \<Rightarrow> ('w st \<Rightarrow> bool) \<Rightarrow> bool" where
  "soon k pr rd \<longleftrightarrow> (\<forall>s. list_ex rd (probe_states pr k s))"

definition ready_soon :: "nat \<Rightarrow> 'w env \<Rightarrow> bool" where
  "ready_soon k env \<longleftrightarrow>
     list_all (\<lambda>name. soon k (stable_probe env name) (stable_ready env name)) operator_names \<and>
     soon k (csi_probe env ClusterCSIDriverName) (csi_ready env ClusterCSIDriverName) \<and>
     soon k (pods_probe env) (pods_ready env) \<and> soon k (healthy_probe env) (machines_healthy env) \<and>
     soon k (nodes_probe env) (nodes_ready env) \<and> soon k (labeled_probe env) (machines_labeled env)"

lemma soon_ex: "soon k pr rd \<Longrightarrow> \<exists>t \<in> set (probe_states pr k s). rd t"
  by (auto simp: soon_def list_ex_iff)

lemma bindM_total:
  "\<exists>s'. m s = (Inr u, s') \<Longrightarrow> (\<And>u s. \<exists>s'. f u s = (Inr v, s')) \<Longrightarrow> \<exists>s'. bindM m f s = (Inr v, s')"
  by (metis bindM_ok)

lemma wrapM_total: "\<exists>s'. m s = (Inr u, s') \<Longrightarrow> \<exists>s'. wrapM fmt args m s = (Inr u, s')"
  by (simp add: wrapM_Inr)

lemma forM_total:
  "(\<And>x s. x \<in> set xs \<Longrightarrow> \<exists>s'. f x s = (Inr (), s')) \<Longrightarrow> \<exists>s'. forM xs f s = (Inr (), s')"
proof (induction xs arbitrary: s)
  case Nil
  then show ?case by (simp add: ret_def)
next
  case (Cons x xs)
  obtain s1 where "f x s = (Inr (), s1)" using Cons.prems [of x] by auto
  moreover obtain s2 where "forM xs f s1 = (Inr (), s2)" using Cons by force
  ultimately show ?case by (simp add: bindM_def)
qed

text \<open>C26: If every readiness condition holds in one of the next \<open>k + 1\<close> observations, from whatever
  state one starts to look, and the poller makes at least \<open>k\<close> further attempts before it gives
  up, then the final wait returns without an error.\<close>

theorem waitForClusterReady_returns:
  assumes patient: "poller_patient k (poll env)" and soon: "ready_soon k env"
  shows "\<exists>s'. waitForClusterReady env s = (Inr (), s')"
proof -
  note sn = soon [unfolded ready_soon_def]
  have "\<exists>s'. forM operator_names (\<lambda>name. wrapM ''operator %q not stable: %w'' [AStr name]
      (WaitForClusterOperatorStable env name LongTimeout)) s = (Inr (), s')" for s
    using sn by (intro forM_total wrapM_total wait_stable.wait_live [OF patient soon_ex])
      (auto simp: list_all_iff)
  moreover have "\<exists>s'. WaitForClusterCSIDriverAvailable env ClusterCSIDriverName LongTimeout s = (Inr (), s')" for s
    using sn by (intro wait_csi.wait_live [OF patient soon_ex]) blast
  moreover have "\<exists>s'. WaitForCSIDriverPodsReady env LongTimeout s = (Inr (), s')" for s
    using sn by (intro wait_pods.wait_live [OF patient soon_ex]) blast
  moreover have "\<exists>s'. WaitForAllMachinesHealthy env LongTimeout s = (Inr (), s')" for s
    using sn by (intro wait_healthy.wait_live [OF patient soon_ex]) blast
  moreover have "\<exists>s'. WaitForAllNodesReady env LongTimeout s = (Inr (), s')" for s
    using sn by (intro wait_nodes.wait_live [OF patient soon_ex]) blast
  moreover have "\<exists>s'. WaitForAllMachinesLabeled env LongTimeout s = (Inr (), s')" for s
    using sn by (intro wait_labeled.wait_live [OF patient soon_ex]) blast
  ultimately show ?thesis
    unfolding waitForClusterReady_def
    by (intro bindM_total wrapM_total) (simp_all add: ret_def)
qed

section \<open>Verify\<close>

definition not_degraded :: "'w env \<Rightarrow> string \<Rightarrow> 'w st \<Rightarrow> bool" where
  "not_degraded env name t \<longleftrightarrow>
     (\<exists>c. fst (GetClusterOperatorCondition env name ''Degraded'' t) = Inr c \<and> cond_status c = ''False'')"

lemma checks_see_operators:
  assumes "forM names (check_not_degraded env) t = (Inr u', t')"
  shows "emitted read_only t t' \<and> list_all (\<lambda>name. seen (not_degraded env name) t t') names"
  using assms
proof (induction names arbitrary: t)
  case Nil
  then show ?case by (simp add: ret_Inr em.refl)
next
  case (Cons n names)
  then obtain u1 t1 where c: "check_not_degraded env n t = (Inr u1, t1)"
    and f: "forM names (check_not_degraded env) t1 = (Inr u', t')" by (auto simp: comp_Inr)
  have "within (emitted read_only) (check_not_degraded env n)"
    by (auto simp: check_not_degraded_def GetClusterOperatorCondition_def get_operator_def
        intro!: emits_rules split: option.splits)
  then have 1: "emitted read_only t t1" using c by (rule step_reads)
  have "not_degraded env n t" using c
    by (auto simp: not_degraded_def check_not_degraded_def comp_Inr split: if_splits)
  then have "seen (not_degraded env n) t t'" unfolding seen_def
    using em.refl em.trans [OF 1 conjunct1 [OF Cons.IH [OF f]]] by blast
  moreover have "list_all (\<lambda>name. seen (not_degraded env name) t t') names"
    using Cons.IH [OF f] seen_later [OF 1] by (auto simp: list_all_iff)
  ultimately show ?case using em.trans [OF 1 conjunct1 [OF Cons.IH [OF f]]] by simp
qed

text \<open>C27: A successful \<open>Verify\<close> has seen each of the four operators report Degraded=False, has read an
  Infrastructure that lists the configured server, and has read and parsed a managed cloud
  configuration that names every vCenter of that Infrastructure.\<close>

theorem verify_sound:
  assumes "Verify env cfg s = (Inr u, s')"
  shows "list_all (\<lambda>name. seen (\<lambda>t. \<exists>c. fst (GetClusterOperatorCondition env name ''Degraded'' t) = Inr c \<and>
            cond_status c = ''False'') s s') operator_names \<and>
    (\<exists>s1 infra s2 cm parsed. GetInfrastructure env s1 = (Inr infra, s2) \<and>
       GetConfigMap env ManagedConfigNamespace ManagedConfigName s2 = (Inr cm, s') \<and>
       ParseCloudConfigYAML env (gm_get (cm_entries cm) CloudConfigDataKey) = Inr parsed \<and>
       Server (SecondVCenter cfg) \<in> set (VCenterServers (GetVCenters (Some infra))) \<and>
       set (VCenterServers (GetVCenters (Some infra))) \<subseteq> config_names parsed)"
proof -
  let ?deg = "not_degraded env"
  obtain u0 s1 where ch: "CheckOperatorsNotDegraded env operator_names s = (Inr u0, s1)"
    and rest: "bindM (GetInfrastructure env) (\<lambda>infra.
       if \<not> vsphereHasServer (Some infra) (Server (SecondVCenter cfg)) then
         throw (Errorf ''Infrastructure does not include vCenter %q'' [AStr (Server (SecondVCenter cfg))])
       else
         bindM (GetConfigMap env ManagedConfigNamespace ManagedConfigName) (\<lambda>cm.
         bindM (liftR (ParseCloudConfigYAML env (gm_get (cm_entries cm) CloudConfigDataKey))) (\<lambda>parsed.
           case AssertInfrastructureVCentersPresent (Some infra) (Some parsed) of
             Some err \<Rightarrow> throw err
           | None \<Rightarrow> ret ()))) s1 = (Inr u, s')"
    using assms unfolding Verify_def by (subst (asm) bindM_Inr) blast
  from rest obtain infra s2 cm parsed where g: "GetInfrastructure env s1 = (Inr infra, s2)"
    and h: "vsphereHasServer (Some infra) (Server (SecondVCenter cfg))"
    and gc: "GetConfigMap env ManagedConfigNamespace ManagedConfigName s2 = (Inr cm, s')"
    and p: "ParseCloudConfigYAML env (gm_get (cm_entries cm) CloudConfigDataKey) = Inr parsed"
    and a: "AssertInfrastructureVCentersPresent (Some infra) (Some parsed) = None"
    by (auto simp: comp_Inr split: if_splits option.splits)
  have "emitted read_only s1 s'"
    using em.trans [OF step_reads [OF reads_objects(1) g] step_reads [OF reads_objects(2) gc]] .
  then have "list_all (\<lambda>name. seen (?deg name) s s') operator_names"
    using checks_see_operators [of operator_names env s u0 s1] ch seen_earlier
    unfolding CheckOperatorsNotDegraded_def list_all_iff by blast
  moreover have "set (VCenterServers (GetVCenters (Some infra))) \<subseteq> config_names parsed"
    using a by (auto simp: present_iff GetVCenters_def)
  ultimately show ?thesis unfolding not_degraded_def
    using g gc p h [unfolded vsphereHasServer_iff] by (intro conjI exI) assumption+
qed

end
