(* ===== verification/LabStore.thy ===== *)
theory LabStore
  imports LabSafety LabSpec
begin

text \<open>
  What \<open>Apply\<close> and \<open>Restore\<close> do to the cluster, given what the API server and the file system
  promise.  \<open>cluster\<close> is the part of the outside world they work on and \<open>store_ok env cl\<close> says
  that \<open>env\<close> is an object store over it: a get answers the stored object and changes nothing, a
  successful update replaces the data of an existing object, a failed one changes nothing, a
  successful write makes a file readable, and a merge patch that extends the stored spec
  replaces it.  Nobody else writes while the program runs.
\<close>

section \<open>The store\<close>

record cluster =
  c_spec :: infra_spec
  c_config :: "string \<times> string \<Rightarrow> (string gomap \<times> string gomap) option"
  c_secret :: "string \<times> string \<Rightarrow> string gomap option"
  c_disk :: "string \<Rightarrow> state_doc option"

definition keeps :: "('w \<Rightarrow> cluster) \<Rightarrow> ('w \<Rightarrow> 'r \<times> 'w) \<Rightarrow> bool" where
  "keeps cl f \<longleftrightarrow> (\<forall>w. cl (snd (f w)) = cl w)"

definition store_reads :: "'w env \<Rightarrow> ('w \<Rightarrow> cluster) \<Rightarrow> bool" where
  "store_reads env cl \<longleftrightarrow>
     (\<forall>n. keeps cl (get_infra env n)) \<and> (\<forall>n. keeps cl (get_cluster_operator env n)) \<and>
     (\<forall>n. keeps cl (get_feature_gate env n)) \<and> (\<forall>ns n. keeps cl (get_config_map env ns n)) \<and>
     (\<forall>ns n. keeps cl (get_secret env ns n)) \<and> (\<forall>n. keeps cl (get_csi_driver env n)) \<and>
     (\<forall>ns l. keeps cl (list_pods env ns l)) \<and> (\<forall>l. keeps cl (list_machines env l)) \<and>
     keeps cl (list_nodes env) \<and> (\<forall>p. keeps cl (stat_path env p)) \<and>
     (\<forall>d. keeps cl (mkdir_all env d)) \<and> (\<forall>p. keeps cl (read_state env p)) \<and>
     (\<forall>p. keeps cl (read_text env p))"

definition store_answers :: "'w env \<Rightarrow> ('w \<Rightarrow> cluster) \<Rightarrow> bool" where
  "store_answers env cl \<longleftrightarrow>
     (\<forall>n w i. fst (get_infra env n w) = Inr i \<longrightarrow> infra_spec i = c_spec (cl w)) \<and>
     (\<forall>ns n w cm. fst (get_config_map env ns n w) = Inr cm \<longrightarrow>
        c_config (cl w) (ns, n) = Some (cm_entries cm, cm_binaryData cm)) \<and>
     (\<forall>ns n w sec. fst (get_secret env ns n w) = Inr sec \<longrightarrow> c_secret (cl w) (ns, n) = Some (sec_data sec)) \<and>
     (\<forall>ns n w e. fst (get_secret env ns n w) = Inl e \<longrightarrow> IsNotFound e \<longrightarrow> c_secret (cl w) (ns, n) = None) \<and>
     (\<forall>p w. fst (stat_path env p w) \<longrightarrow> c_disk (cl w) p \<noteq> None) \<and>
     (\<forall>p w d. fst (read_state env p w) = Inr d \<longrightarrow> c_disk (cl w) p = Some d)"

text \<open>The spec \<open>new\<close> is \<open>old\<close> with entries appended to its lists.\<close>

definition extends :: "infra_spec \<Rightarrow> infra_spec \<Rightarrow> bool" where
  "extends old new \<longleftrightarrow>
     (case (is_vsphere old, is_vsphere new) of
        (Some p, Some q) \<Rightarrow>
          take (length (vs_vcenters p)) (vs_vcenters q) = vs_vcenters p \<and>
          take (length (vs_failureDomains p)) (vs_failureDomains q) = vs_failureDomains p \<and>
          vs_other q = vs_other p \<and> new = old\<lparr>is_vsphere := Some q\<rparr>
      | _ \<Rightarrow> False)"

definition store_writes :: "'w env \<Rightarrow> ('w \<Rightarrow> cluster) \<Rightarrow> bool" where
  "store_writes env cl \<longleftrightarrow>
     (\<forall>i w. cl (snd (update_infra env i w)) =
        (if is_ok (fst (update_infra env i w)) then (cl w)\<lparr>c_spec := infra_spec i\<rparr> else cl w)) \<and>
     (\<forall>cm w. cl (snd (update_config_map env cm w)) =
        (if is_ok (fst (update_config_map env cm w))
         then (cl w)\<lparr>c_config := (c_config (cl w))((cm_namespace cm, cm_name cm) \<mapsto>
                         (cm_entries cm, cm_binaryData cm))\<rparr>
         else cl w)) \<and>
     (\<forall>sec w. cl (snd (update_secret env sec w)) =
        (if is_ok (fst (update_secret env sec w))
         then (cl w)\<lparr>c_secret := (c_secret (cl w))((sec_namespace sec, sec_name sec) \<mapsto> sec_data sec)\<rparr>
         else cl w)) \<and>
     (\<forall>sec w. is_ok (fst (update_secret env sec w)) \<longrightarrow>
        c_secret (cl w) (sec_namespace sec, sec_name sec) \<noteq> None) \<and>
     (\<forall>p doc w. is_ok (fst (write_state env p doc w)) \<longrightarrow>
        cl (snd (write_state env p doc w)) = (cl w)\<lparr>c_disk := (c_disk (cl w))(p \<mapsto> doc)\<rparr>) \<and>
     (\<forall>p doc w. \<not> is_ok (fst (write_state env p doc w)) \<longrightarrow>
        (\<exists>x. cl (snd (write_state env p doc w)) = (cl w)\<lparr>c_disk := (c_disk (cl w))(p := x)\<rparr>))"

definition store_patches :: "'w env \<Rightarrow> ('w \<Rightarrow> cluster) \<Rightarrow> bool" where
  "store_patches env cl \<longleftrightarrow>
     (\<forall>n pt. keeps cl (patch_infra env n pt True)) \<and>
     (\<forall>n pt w. \<exists>sp. cl (snd (patch_infra env n pt False w)) = (cl w)\<lparr>c_spec := sp\<rparr>) \<and>
     (\<forall>n spec pt w. json_marshal_spec env spec = Inr pt \<longrightarrow> extends (c_spec (cl w)) spec \<longrightarrow>
        is_ok (fst (patch_infra env n pt False w)) \<longrightarrow>
        c_spec (cl (snd (patch_infra env n pt False w))) = spec)"

definition store_ok :: "'w env \<Rightarrow> ('w \<Rightarrow> cluster) \<Rightarrow> bool" where
  "store_ok env cl \<longleftrightarrow> store_reads env cl \<and> store_answers env cl \<and> store_writes env cl \<and>
     store_patches env cl \<and> gets_named env \<and> poller_ok (poll env)"

text \<open>The state codec reads back what it wrote.\<close>

definition state_codec_ok :: "'w env \<Rightarrow> bool" where
  "state_codec_ok env \<longleftrightarrow>
     (\<forall>st doc. json_marshal_state env st = Inr doc \<longrightarrow> json_unmarshal_state env doc = Inr st)"

section \<open>Reading changes nothing\<close>

lemma quiet_call: "keeps cl f \<Longrightarrow> within (unchanged cl) (callE eff f)"
  by (intro within_unchanged_call) (simp add: keeps_def)

lemma quiet_reads:
  assumes "store_reads env cl"
  shows "within (unchanged cl) (GetInfrastructure env)"
    "within (unchanged cl) (GetConfigMap env ns n)"
    "within (unchanged cl) (IsFeatureGateEnabled env g)"
    "within (unchanged cl) (ListPodsByLabel env ns l)"
    "within (unchanged cl) (get_target env t)"
    "within (unchanged cl) (PasswordValue env vc)"
    "within (unchanged cl) (HasState env dir)"
    "within (unchanged cl) (LoadState env dir)"
  using assms
  by (auto simp: store_reads_def GetInfrastructure_def GetConfigMap_def IsFeatureGateEnabled_def
      ListPodsByLabel_def get_target_def PasswordValue_def HasState_def LoadState_def
      intro!: un.within_ret un.within_throw un.within_liftR un.within_bind un.within_wrap quiet_call)

lemmas quiet_rules = un.within_ret un.within_throw un.within_liftR un.within_bind un.within_wrap
  un.within_try un.within_forM quiet_reads

lemma quiet_merges:
  assumes "store_reads env cl"
  shows "within (unchanged cl) (mergeCloudProviderConfig env ex infra vc)"
    "within (unchanged cl) (mergeCredentialSecretData env fmt data vc)"
  using assms
  by (auto simp: mergeCloudProviderConfig_def mergeCredentialSecretData_def mergeVSphereCredsSecret_def
      mergeCloudCredentialsSecret_def Let_def intro!: quiet_rules split: credentialSecretFormat.splits)

lemma quiet_backup_targets:
  assumes "store_reads env cl"
  shows "within (unchanged cl) (backup_targets env ts secrets)"
  using assms by (induction ts arbitrary: secrets) (auto intro!: quiet_rules split: sum.splits)

lemma quiet_capture:
  "store_reads env cl \<Longrightarrow> within (unchanged cl) (captureState env infra)"
  unfolding captureState_def backupCredentialSecrets_def
  by (intro quiet_rules quiet_backup_targets)

lemma unchanged_step: "unchanged cl s (s\<lparr>world := w, trace := tr\<rparr>) \<longleftrightarrow> cl w = cl (world s)"
  by (simp add: unchanged_def)

lemma quiet_probes:
  assumes "store_reads env cl"
  shows "within (unchanged cl) (stable_probe env name)" "within (unchanged cl) (csi_probe env name)"
    "within (unchanged cl) (nodes_probe env)" "within (unchanged cl) (healthy_probe env)"
    "within (unchanged cl) (labeled_probe env)"
  using assms unfolding within_def store_reads_def keeps_def
  by (auto simp: probe_defs unchanged_step Let_def split: prod.splits sum.splits) (metis snd_conv)+

lemma quiet_pods_probe:
  assumes "store_reads env cl"
  shows "within (unchanged cl) (pods_probe env)"
proof -
  have l: "cl (world (snd (ListPodsByLabel env ns l s))) = cl (world s)" for ns l s
    using quiet_reads(4) [OF assms] by (auto simp: within_def unchanged_def)
  then show ?thesis unfolding within_def unchanged_def pods_probe_def
    by (auto split: prod.splits sum.splits option.splits) (metis snd_conv)+
qed

lemma quiet_wait:
  assumes r: "store_reads env cl" and p: "poller_ok (poll env)"
  shows "within (unchanged cl) (waitForClusterReady env)"
proof -
  have "within (unchanged cl) (WaitForClusterOperatorStable env name t)" for name t
    by (rule wait_stable.wait_within [OF p un.refl _ quiet_probes(1) [OF r]]) (erule (1) un.trans)
  moreover have "within (unchanged cl) (WaitForClusterCSIDriverAvailable env name t)" for name t
    by (rule wait_csi.wait_within [OF p un.refl _ quiet_probes(2) [OF r]]) (erule (1) un.trans)
  moreover have "within (unchanged cl) (WaitForAllNodesReady env t)" for t
    by (rule wait_nodes.wait_within [OF p un.refl _ quiet_probes(3) [OF r]]) (erule (1) un.trans)
  moreover have "within (unchanged cl) (WaitForAllMachinesHealthy env t)" for t
    by (rule wait_healthy.wait_within [OF p un.refl _ quiet_probes(4) [OF r]]) (erule (1) un.trans)
  moreover have "within (unchanged cl) (WaitForAllMachinesLabeled env t)" for t
    by (rule wait_labeled.wait_within [OF p un.refl _ quiet_probes(5) [OF r]]) (erule (1) un.trans)
  moreover have "within (unchanged cl) (WaitForCSIDriverPodsReady env t)" for t
    by (rule wait_pods.wait_within [OF p un.refl _ quiet_pods_probe [OF r]]) (erule (1) un.trans)
  ultimately show ?thesis
    unfolding waitForClusterReady_def
    by (intro un.within_ret un.within_bind un.within_wrap un.within_forM)
qed

lemma quiet_validate: "store_reads env cl \<Longrightarrow> within (unchanged cl) (LabConfig_Validate env c)"
  by (rule LabConfig_Validate_state [OF un.refl quiet_reads(6)])

lemma quiet_eq: "within (unchanged cl) m \<Longrightarrow> m s = (r, s') \<Longrightarrow> cl (world s') = cl (world s)"
  unfolding within_def unchanged_def by (metis snd_conv)

end
