(* ===== verification/LabRoundTrip.thy ===== *)
theory LabRoundTrip
  imports LabStore
begin

text \<open>
  \<open>Restore\<close> undoes \<open>Apply\<close>: the effect of each on the store of \<open>LabStore\<close>, and their composition.
\<close>

section \<open>What the commit phase may change\<close>

definition source_config_key :: "string \<times> string" where
  "source_config_key = (SourceConfigNamespace, SourceConfigName)"

definition updated_secret_keys :: "(string \<times> string) set" where
  "updated_secret_keys =
     {(VSphereCredsNamespace, VSphereCredsSecret), (SourceConfigNamespace, CloudCredentialsSecret)}"

definition touched :: "cluster \<Rightarrow> cluster \<Rightarrow> bool" where
  "touched C C' \<longleftrightarrow>
     c_disk C' = c_disk C \<and> (\<forall>k. k \<noteq> source_config_key \<longrightarrow> c_config C' k = c_config C k) \<and>
     (\<forall>k. k \<notin> updated_secret_keys \<or> c_secret C k = None \<longrightarrow> c_secret C' k = c_secret C k)"

lemma touched_refl: "touched C C"
  by (simp add: touched_def)

lemma touched_trans: "touched A B \<Longrightarrow> touched B C \<Longrightarrow> touched A C"
  unfolding touched_def by (metis (no_types, lifting))

text \<open>If the calls are those of the commit phase, the store changes within \<open>touched\<close>.\<close>

definition framed :: "('w \<Rightarrow> cluster) \<Rightarrow> 'w st \<Rightarrow> 'w st \<Rightarrow> bool" where
  "framed cl s t \<longleftrightarrow> (\<exists>tr. trace t = trace s @ tr \<and>
     (list_all commit_may tr \<longrightarrow> touched (cl (world s)) (cl (world t))))"

interpretation fr: state_rel "framed cl :: 'w st \<Rightarrow> 'w st \<Rightarrow> bool" for cl
proof unfold_locales
  fix s t u :: "'w st"
  show "framed cl s s" by (simp add: framed_def touched_refl)
  assume "framed cl s t" "framed cl t u"
  then obtain tr1 tr2 where "trace u = trace s @ (tr1 @ tr2)"
    "list_all commit_may tr1 \<longrightarrow> touched (cl (world s)) (cl (world t))"
    "list_all commit_may tr2 \<longrightarrow> touched (cl (world t)) (cl (world u))"
    unfolding framed_def by auto
  then show "framed cl s u" unfolding framed_def using touched_trans by fastforce
qed

lemma within_framed_call:
  assumes "\<And>w. commit_may (eff (fst (f w))) \<Longrightarrow> touched (cl w) (cl (snd (f w)))"
  shows "within (framed cl) (callE eff f)"
  unfolding within_def framed_def callE_def
  using assms by (auto split: prod.splits) (metis fst_conv snd_conv)

lemma framed_quiet:
  assumes "within (unchanged cl) m" "within (emitted P) m"
  shows "within (framed cl) m"
  using assms touched_refl unfolding within_def framed_def unchanged_def emitted_def by metis

lemma store_answersD:
  assumes "store_answers env cl"
  shows "fst (get_infra env n w) = Inr i \<Longrightarrow> infra_spec i = c_spec (cl w)"
    "fst (get_config_map env ns n w) = Inr cm \<Longrightarrow>
       c_config (cl w) (ns, n) = Some (cm_entries cm, cm_binaryData cm)"
    "fst (get_secret env ns n w) = Inr sec \<Longrightarrow> c_secret (cl w) (ns, n) = Some (sec_data sec)"
    "fst (get_secret env ns n w) = Inl e \<Longrightarrow> IsNotFound e \<Longrightarrow> c_secret (cl w) (ns, n) = None"
    "fst (stat_path env p w) \<Longrightarrow> c_disk (cl w) p \<noteq> None"
    "fst (read_state env p w) = Inr d \<Longrightarrow> c_disk (cl w) p = Some d"
  using assms unfolding store_answers_def by blast+

lemma update_config_effect:
  "store_writes env cl \<Longrightarrow> cl (snd (update_config_map env cm w)) =
     (if is_ok (fst (update_config_map env cm w))
      then (cl w)\<lparr>c_config := (c_config (cl w))((cm_namespace cm, cm_name cm) \<mapsto>
                      (cm_entries cm, cm_binaryData cm))\<rparr>
      else cl w)"
  unfolding store_writes_def by blast

lemma update_secret_effect:
  "store_writes env cl \<Longrightarrow> cl (snd (update_secret env sec w)) =
     (if is_ok (fst (update_secret env sec w))
      then (cl w)\<lparr>c_secret := (c_secret (cl w))((sec_namespace sec, sec_name sec) \<mapsto> sec_data sec)\<rparr>
      else cl w)"
  "store_writes env cl \<Longrightarrow> is_ok (fst (update_secret env sec w)) \<Longrightarrow>
     c_secret (cl w) (sec_namespace sec, sec_name sec) \<noteq> None"
  unfolding store_writes_def by blast+

lemma update_infra_effect:
  "store_writes env cl \<Longrightarrow> cl (snd (update_infra env i w)) =
     (if is_ok (fst (update_infra env i w)) then (cl w)\<lparr>c_spec := infra_spec i\<rparr> else cl w)"
  unfolding store_writes_def by blast

lemma patch_effect:
  assumes "store_patches env cl"
  shows "cl (snd (patch_infra env n pt True w)) = cl w"
    "\<exists>sp. cl (snd (patch_infra env n pt False w)) = (cl w)\<lparr>c_spec := sp\<rparr>"
    "json_marshal_spec env spec = Inr pt \<Longrightarrow> extends (c_spec (cl w)) spec \<Longrightarrow>
       is_ok (fst (patch_infra env n pt False w)) \<Longrightarrow>
       c_spec (cl (snd (patch_infra env n pt False w))) = spec"
  using assms unfolding store_patches_def keeps_def by blast+

lemma framed_updates:
  assumes "store_ok env cl"
  shows "within (framed cl) (call (EUpdateConfigMap cm) (update_config_map env cm))"
    "within (framed cl) (call (EUpdateSecret sec) (update_secret env sec))"
    "within (framed cl) (call (EPatchInfrastructure pt d) (patch_infra env n pt d))"
    "within (framed cl) (get_target env t)"
proof -
  have r: "store_reads env cl" and w: "store_writes env cl" and p: "store_patches env cl"
    using assms by (simp_all add: store_ok_def)
  show "within (framed cl) (call (EUpdateConfigMap cm) (update_config_map env cm))"
    by (intro within_framed_call) (simp add: update_config_effect [OF w] touched_def source_config_key_def)
  show "within (framed cl) (call (EUpdateSecret sec) (update_secret env sec))"
  proof (rule within_framed_call)
    fix v assume "commit_may (EUpdateSecret sec)"
    then have k: "(sec_namespace sec, sec_name sec) \<in> updated_secret_keys"
      by (simp add: updated_secret_keys_def)
    show "touched (cl v) (cl (snd (update_secret env sec v)))"
    proof (cases "is_ok (fst (update_secret env sec v))")
      case True
      have e: "cl (snd (update_secret env sec v)) = (cl v)\<lparr>c_secret :=
          (c_secret (cl v))((sec_namespace sec, sec_name sec) \<mapsto> sec_data sec)\<rparr>"
        by (simp only: update_secret_effect(1) [OF w] True if_True)
      show ?thesis
        unfolding e touched_def
        using update_secret_effect(2) [OF w True] k by (simp add: fun_upd_def)
    next
      case False
      with update_secret_effect(1) [OF w, of sec v] show ?thesis by (simp add: touched_refl)
    qed
  qed
  show "within (framed cl) (call (EPatchInfrastructure pt d) (patch_infra env n pt d))"
  proof (rule within_framed_call)
    fix v
    show "touched (cl v) (cl (snd (patch_infra env n pt d v)))"
    proof (cases d)
      case True
      with patch_effect(1) [OF p] show ?thesis by (simp add: touched_refl)
    next
      case False
      from patch_effect(2) [OF p] obtain sp where
        "cl (snd (patch_infra env n pt False v)) = (cl v)\<lparr>c_spec := sp\<rparr>" by blast
      with False show ?thesis by (simp add: touched_def)
    qed
  qed
  show "within (framed cl) (get_target env t)"
    using framed_quiet [OF quiet_reads(5) [OF r]] by (auto simp: get_target_def intro!: within_emitted_call)
qed

lemma commit_step_framed:
  assumes ok: "store_ok env cl"
  shows "within (framed cl) (commit_step env cfg d infra)"
proof -
  have r: "store_reads env cl" and p: "poller_ok (poll env)"
    using ok by (simp_all add: store_ok_def)
  note rules = fr.within_ret fr.within_throw fr.within_liftR fr.within_bind fr.within_wrap
    fr.within_try fr.within_forM framed_updates [OF ok]
    framed_quiet [OF quiet_reads(2) [OF r] reads_objects(2)]
    framed_quiet [OF quiet_merges(1) [OF r] merges_read(1)]
    framed_quiet [OF quiet_merges(2) [OF r] merges_read(2)]
    framed_quiet [OF quiet_wait [OF r p] waitForClusterReady_reads [OF p]]
  have "within (framed cl) (updateCredentialSecrets env vc dry)" for vc dry
    unfolding updateCredentialSecrets_def update_target_def Let_def
    by (auto intro!: rules split: sum.splits)
  then show ?thesis
    unfolding commit_step_def updateCredentials_def ReplaceInfrastructureSpec_def
      PatchInfrastructure_def case_prod_beta Let_def
    by (auto intro!: rules)
qed

lemma commit_step_touched:
  assumes ok: "store_ok env cl" and run: "commit_step env cfg d infra s = (r, s')"
  shows "touched (cl (world s)) (cl (world s')) \<and> emitted commit_may s s'"
proof -
  have p: "poller_ok (poll env)" and g: "gets_named env" using ok by (simp_all add: store_ok_def)
  obtain tr where tr: "trace s' = trace s @ tr" "list_all commit_may tr"
    using commit_step_may [OF p g, of cfg d infra] run unfolding within_def emitted_def
    by (metis snd_conv)
  moreover have "framed cl s s'"
    using commit_step_framed [OF ok, of cfg d infra] run unfolding within_def by (metis snd_conv)
  ultimately show ?thesis by (auto simp: framed_def emitted_def)
qed

section \<open>What the backup holds\<close>

lemma fst_call: "callE eff f s = (r, s') \<Longrightarrow> fst (f (world s)) = r"
  by (auto simp: callE_def split: prod.splits)

lemma snd_call: "callE eff f s = (r, s') \<Longrightarrow> world s' = snd (f (world s))"
  by (auto simp: callE_def split: prod.splits)

definition backup_keys :: "(string \<times> string) set" where
  "backup_keys = insert (MachineAPINamespace, VSphereMachineCredsSecret) updated_secret_keys"

definition saved_secret :: "cluster \<Rightarrow> string \<times> secret \<Rightarrow> bool" where
  "saved_secret C kv \<longleftrightarrow> (\<exists>ns n. fst kv = objectKey ns n \<and> (ns, n) \<in> backup_keys \<and>
     c_secret C (ns, n) = Some (sec_data (snd kv)))"

text \<open>\<open>st\<close> is a faithful backup of \<open>C\<close>.\<close>

definition backup_of :: "cluster \<Rightarrow> cluster_state \<Rightarrow> bool" where
  "backup_of C st \<longleftrightarrow>
     (\<exists>infra cm. cs_infrastructure st = Some infra \<and> infra_spec infra = c_spec C \<and>
        cs_configMaps st = [(objectKey SourceConfigNamespace SourceConfigName, cm)] \<and>
        c_config C source_config_key = Some (cm_entries cm, cm_binaryData cm)) \<and>
     (\<forall>kv \<in> set (cs_secrets st). saved_secret C kv) \<and>
     (\<forall>ns n. (ns, n) \<in> backup_keys \<longrightarrow> c_secret C (ns, n) \<noteq> None \<longrightarrow> objectKey ns n \<in> fst ` set (cs_secrets st))"

lemma keys_no_slash:
  "(ns, n) \<in> backup_keys \<Longrightarrow> CHR ''/'' \<notin> set ns"
  by (auto simp: backup_keys_def updated_secret_keys_def go_defs)

lemma set_update_subset: "set (gm_put k v m) \<subseteq> insert (k, v) (set m)"
  by (induction m) auto

lemma backup_targets_contents:
  assumes ok: "store_ok env cl" and C: "cl (world s) = C"
    and run: "backup_targets env ts acc s = (Inr secs, s')"
    and good: "\<forall>kv \<in> set acc. saved_secret C kv"
    and sub: "\<forall>t \<in> set ts. (tg_Namespace t, tg_Name t) \<in> backup_keys"
  shows "(\<forall>kv \<in> set secs. saved_secret C kv) \<and> fst ` set acc \<subseteq> fst ` set secs \<and>
     (\<forall>t \<in> set ts. c_secret C (tg_Namespace t, tg_Name t) \<noteq> None \<longrightarrow>
        objectKey (tg_Namespace t) (tg_Name t) \<in> fst ` set secs)"
  using run C good sub
proof (induction ts arbitrary: acc s)
  case Nil
  then show ?case by (auto simp: ret_Inr)
next
  case (Cons t ts)
  let ?k = "(tg_Namespace t, tg_Name t)" and ?key = "objectKey (tg_Namespace t) (tg_Name t)"
  obtain r s1 where g: "get_target env t s = (r, s1)" by force
  have r: "store_reads env cl" and a: "store_answers env cl" using ok by (simp_all add: store_ok_def)
  have C1: "cl (world s1) = C" using quiet_eq [OF quiet_reads(5) [OF r] g] Cons.prems by simp
  have ans: "(\<forall>sec. r = Inr sec \<longrightarrow> c_secret C ?k = Some (sec_data sec)) \<and>
      (\<forall>e. r = Inl e \<longrightarrow> IsNotFound e \<longrightarrow> c_secret C ?k = None)"
    using store_answersD(3,4) [OF a, of "tg_Namespace t" "tg_Name t" "world s"] fst_call [OF g [unfolded get_target_def]]
    unfolding Cons.prems(2) by blast
  show ?case
  proof (cases r)
    case (Inl e)
    with Cons.prems g have nf: "IsNotFound e" and run': "backup_targets env ts acc s1 = (Inr secs, s')"
      by (auto simp: tryM_eq bindM_Inr throw_Inr split: if_splits)
    show ?thesis using Cons.IH [OF run' C1 Cons.prems(3)] Cons.prems(4) ans nf Inl by auto
  next
    case (Inr sec)
    with Cons.prems g have run': "backup_targets env ts (gm_put ?key sec acc) s1 = (Inr secs, s')"
      by (auto simp: tryM_eq bindM_Inr)
    have "?k \<in> backup_keys" "c_secret C ?k = Some (sec_data sec)" using Cons.prems(4) ans Inr by auto
    then have "saved_secret C (?key, sec)" by (auto simp: saved_secret_def)
    then have "\<forall>kv \<in> set (gm_put ?key sec acc). saved_secret C kv"
      using set_update_subset [of ?key sec acc] Cons.prems(3) by blast
    note ih = Cons.IH [OF run' C1 this]
    then have "?key \<in> fst ` set secs" using Cons.prems(4) by (auto simp: dom_update)
    with ih Cons.prems(4) show ?thesis by (simp add: dom_update)
  qed
qed

lemma captureState_backup:
  assumes ok: "store_ok env cl" and i: "infra_spec infra = c_spec (cl (world s))"
    and run: "captureState env infra s = (Inr st, s')"
  shows "backup_of (cl (world s)) st"
proof -
  let ?C = "cl (world s)"
  have r: "store_reads env cl" and a: "store_answers env cl" using ok by (simp_all add: store_ok_def)
  obtain cm s1 secs where g: "GetConfigMap env SourceConfigNamespace SourceConfigName s = (Inr cm, s1)"
    and b: "backupCredentialSecrets env s1 = (Inr secs, s')"
    and st: "st = \<lparr>cs_infrastructure = Some infra,
            cs_configMaps = [(objectKey SourceConfigNamespace SourceConfigName, cm)],
            cs_secrets = secs\<rparr>"
    using run unfolding captureState_def by (auto simp: comp_Inr)
  have cm: "c_config ?C source_config_key = Some (cm_entries cm, cm_binaryData cm)"
    unfolding source_config_key_def
    by (rule store_answersD(2) [OF a fst_call [OF g [unfolded GetConfigMap_def wrapM_Inr]]])
  have C1: "cl (world s1) = ?C" by (rule quiet_eq [OF quiet_reads(2) [OF r] g])
  have K: "(\<lambda>t. (tg_Namespace t, tg_Name t)) ` set vsphereCredentialBackupTargets = backup_keys"
    by (auto simp: vsphereCredentialBackupTargets_def backup_keys_def updated_secret_keys_def)
  then have sub: "\<forall>t \<in> set vsphereCredentialBackupTargets. (tg_Namespace t, tg_Name t) \<in> backup_keys"
    by blast
  have nil: "\<forall>kv \<in> set []. saved_secret ?C kv" by simp
  note c = backup_targets_contents [OF ok C1 b [unfolded backupCredentialSecrets_def] nil sub]
  then have "\<forall>kv \<in> set secs. saved_secret ?C kv" by simp
  moreover have "objectKey ns n \<in> fst ` set secs"
    if "(ns, n) \<in> backup_keys" "c_secret ?C (ns, n) \<noteq> None" for ns n
    using that c unfolding K [symmetric] by auto
  ultimately show ?thesis using st i cm by (auto simp: backup_of_def)
qed

section \<open>What \<open>Restore\<close> writes\<close>

lemma named_config: "gets_named env \<Longrightarrow> GetConfigMap env ns n s = (Inr cm, s') \<Longrightarrow>
    cm_namespace cm = ns \<and> cm_name cm = n"
  by (auto simp: GetConfigMap_def wrapM_Inr gets_named_def dest!: fst_call)

lemma named_secret: "gets_named env \<Longrightarrow> call e (get_secret env ns n) s = (Inr sec, s') \<Longrightarrow>
    sec_namespace sec = ns \<and> sec_name sec = n"
  by (auto simp: gets_named_def dest!: fst_call)

lemma restore_config_map_effect:
  assumes ok: "store_ok env cl" and key: "CHR ''/'' \<notin> set ns"
    and run: "restore_config_map env (objectKey ns n, cm) s = (Inr u, s')"
  shows "cl (world s') = (cl (world s))\<lparr>c_config := (c_config (cl (world s)))((ns, n) \<mapsto>
    (cm_entries cm, cm_binaryData cm))\<rparr>"
proof -
  have r: "store_reads env cl" and w: "store_writes env cl" and g: "gets_named env"
    using ok by (simp_all add: store_ok_def)
  obtain cur s1 x where get: "GetConfigMap env ns n s = (Inr cur, s1)"
    and up: "call (EUpdateConfigMap (cur\<lparr>cm_data := cm_data cm, cm_binaryData := cm_binaryData cm\<rparr>))
      (update_config_map env (cur\<lparr>cm_data := cm_data cm, cm_binaryData := cm_binaryData cm\<rparr>)) s1 = (Inr x, s')"
    using run by (auto simp: restore_config_map_def comp_Inr splitKey_objectKey [OF key] Let_def)
  show ?thesis
    unfolding snd_call [OF up] update_config_effect [OF w]
    by (simp add: fst_call [OF up] named_config [OF g get] quiet_eq [OF quiet_reads(2) [OF r] get] cm_entries_def)
qed

abbreviation managed_key :: "string \<times> string" where
  "managed_key \<equiv> (MachineAPINamespace, VSphereMachineCredsSecret)"

lemma restore_secret_effect:
  assumes ok: "store_ok env cl" and key: "CHR ''/'' \<notin> set ns"
    and run: "restore_secret env (objectKey ns n, sec) s = (Inr u, s')"
  shows "cl (world s') = (if (ns, n) = managed_key then cl (world s)
    else (cl (world s))\<lparr>c_secret := (c_secret (cl (world s)))((ns, n) \<mapsto> sec_data sec)\<rparr>)"
proof (cases "(ns, n) = managed_key")
  case True
  with run show ?thesis
    by (auto simp: restore_secret_def comp_Inr splitKey_objectKey [OF key])
next
  case False
  have r: "store_reads env cl" and w: "store_writes env cl" and g: "gets_named env"
    using ok by (simp_all add: store_ok_def)
  obtain cur s1 x where get: "call (EGet ''secrets'' ns n) (get_secret env ns n) s = (Inr cur, s1)"
    and up: "call (EUpdateSecret (cur\<lparr>sec_data := sec_data sec\<rparr>))
      (update_secret env (cur\<lparr>sec_data := sec_data sec\<rparr>)) s1 = (Inr x, s')"
    using run False by (auto simp: restore_secret_def comp_Inr splitKey_objectKey [OF key] Let_def)
  have "keeps cl (get_secret env ns n)" using r by (simp add: store_reads_def)
  then have "cl (world s1) = cl (world s)" by (rule quiet_eq [OF quiet_call get])
  with False show ?thesis
    unfolding snd_call [OF up] update_secret_effect(1) [OF w]
    by (auto simp: fst_call [OF up] named_secret [OF g get])
qed

lemma restore_secrets_effect:
  assumes ok: "store_ok env cl" and good: "\<forall>kv \<in> set secs. saved_secret C kv"
    and run: "forM secs (restore_secret env) s = (Inr u, s')"
  shows "\<exists>f. cl (world s') = (cl (world s))\<lparr>c_secret := f\<rparr> \<and>
    (\<forall>ns n. f (ns, n) = (if (ns, n) \<in> backup_keys \<and> (ns, n) \<noteq> managed_key \<and>
        objectKey ns n \<in> fst ` set secs then c_secret C (ns, n) else c_secret (cl (world s)) (ns, n)))"
  using good run
proof (induction secs arbitrary: s)
  case Nil
  then show ?case by (auto simp: ret_Inr intro!: exI [of _ "c_secret (cl (world s))"])
next
  case (Cons kv secs)
  obtain ns n where k: "fst kv = objectKey ns n" "(ns, n) \<in> backup_keys"
      "c_secret C (ns, n) = Some (sec_data (snd kv))"
    using Cons.prems(1) by (auto simp: saved_secret_def)
  obtain u1 s1 where one: "restore_secret env (objectKey ns n, snd kv) s = (Inr u1, s1)"
    and rest: "forM secs (restore_secret env) s1 = (Inr u, s')"
    using Cons.prems(2) k(1) by (cases kv) (auto simp: comp_Inr)
  have inj: "objectKey ns n = objectKey ns' n' \<longleftrightarrow> (ns, n) = (ns', n')" if "(ns', n') \<in> backup_keys" for ns' n'
    using sep_inj [of ns "CHR ''/''" n ns' n'] keys_no_slash [OF k(2)] keys_no_slash [OF that]
    by (auto simp: objectKey_def)
  obtain f where f: "cl (world s') = (cl (world s1))\<lparr>c_secret := f\<rparr>"
    "\<And>ns n. f (ns, n) = (if (ns, n) \<in> backup_keys \<and> (ns, n) \<noteq> managed_key \<and>
        objectKey ns n \<in> fst ` set secs then c_secret C (ns, n) else c_secret (cl (world s1)) (ns, n))"
    using Cons.IH [OF _ rest] Cons.prems(1) by auto
  have e: "cl (world s1) = (if (ns, n) = managed_key then cl (world s)
    else (cl (world s))\<lparr>c_secret := (c_secret (cl (world s)))((ns, n) \<mapsto> sec_data (snd kv))\<rparr>)"
    by (rule restore_secret_effect [OF ok keys_no_slash [OF k(2)] one])
  have "f (ns', n') = (if (ns', n') \<in> backup_keys \<and> (ns', n') \<noteq> managed_key \<and>
      objectKey ns' n' \<in> fst ` set (kv # secs) then c_secret C (ns', n')
      else c_secret (cl (world s)) (ns', n'))" for ns' n'
    using f(2) [of ns' n'] e k inj [of ns' n'] by (auto split: if_splits)
  moreover have "cl (world s') = (cl (world s))\<lparr>c_secret := f\<rparr>" using f(1) e by (auto split: if_splits)
  ultimately show ?case by blast
qed

lemma restore_infrastructure_effect:
  assumes ok: "store_ok env cl" and run: "RestoreInfrastructure env (Some b) s = (Inr u, s')"
  shows "cl (world s') = (cl (world s))\<lparr>c_spec := infra_spec b\<rparr>"
proof -
  have r: "store_reads env cl" and w: "store_writes env cl" using ok by (simp_all add: store_ok_def)
  obtain cur s1 x where get: "GetInfrastructure env s = (Inr cur, s1)"
    and up: "call (EUpdateInfrastructure (cur\<lparr>infra_spec := infra_spec b, infra_status := infra_status b\<rparr>))
      (update_infra env (cur\<lparr>infra_spec := infra_spec b, infra_status := infra_status b\<rparr>)) s1 = (Inr x, s')"
    using run by (auto simp: RestoreInfrastructure_def comp_Inr Let_def)
  show ?thesis
    unfolding snd_call [OF up] update_infra_effect [OF w]
    by (simp add: fst_call [OF up] quiet_eq [OF quiet_reads(1) [OF r] get])
qed

text \<open>Restoring a faithful backup of \<open>C\<close> puts everything \<open>Apply\<close> may have changed back.\<close>

lemma restore_objects_effect:
  assumes ok: "store_ok env cl" and b: "backup_of C st" and t: "touched C (cl (world s))"
    and run: "restore_objects env st s = (Inr u, s')"
  shows "c_spec (cl (world s')) = c_spec C \<and> c_config (cl (world s')) = c_config C \<and>
    c_secret (cl (world s')) = c_secret C"
proof -
  obtain infra cm where st: "cs_infrastructure st = Some infra" "infra_spec infra = c_spec C"
      "cs_configMaps st = [(objectKey SourceConfigNamespace SourceConfigName, cm)]"
      "c_config C source_config_key = Some (cm_entries cm, cm_binaryData cm)"
    and secs: "\<forall>kv \<in> set (cs_secrets st). saved_secret C kv"
      "\<And>ns n. (ns, n) \<in> backup_keys \<Longrightarrow> c_secret C (ns, n) \<noteq> None \<Longrightarrow> objectKey ns n \<in> fst ` set (cs_secrets st)"
    using b by (auto simp: backup_of_def)
  obtain u1 s1 u2 s2 where r1: "RestoreInfrastructure env (Some infra) s = (Inr u1, s1)"
    and r2: "restore_config_map env (objectKey SourceConfigNamespace SourceConfigName, cm) s1 = (Inr u2, s2)"
    and r3: "forM (cs_secrets st) (restore_secret env) s2 = (Inr u, s')"
    using run st by (auto simp: restore_objects_def comp_Inr)
  note e1 = restore_infrastructure_effect [OF ok r1]
  have "CHR ''/'' \<notin> set SourceConfigNamespace" by (simp add: go_defs)
  note e2 = restore_config_map_effect [OF ok this r2]
  obtain f where e3: "cl (world s') = (cl (world s2))\<lparr>c_secret := f\<rparr>"
    and f: "\<And>ns n. f (ns, n) = (if (ns, n) \<in> backup_keys \<and> (ns, n) \<noteq> managed_key \<and>
        objectKey ns n \<in> fst ` set (cs_secrets st) then c_secret C (ns, n)
        else c_secret (cl (world s2)) (ns, n))"
    using restore_secrets_effect [OF ok secs(1) r3] by blast
  have "managed_key \<notin> updated_secret_keys" by (simp add: updated_secret_keys_def go_defs)
  moreover have "c_secret (cl (world s2)) = c_secret (cl (world s))" using e1 e2 by simp
  ultimately have "f (a, b) = c_secret C (a, b)" for a b
  proof (cases "(a, b) \<notin> updated_secret_keys \<or> c_secret C (a, b) = None")
    case True
    then have "c_secret (cl (world s2)) (a, b) = c_secret C (a, b)"
      using t \<open>c_secret (cl (world s2)) = c_secret (cl (world s))\<close> by (simp add: touched_def)
    then show ?thesis using f [of a b] by simp
  next
    case False
    then have "(a, b) \<in> backup_keys" "(a, b) \<noteq> managed_key" "objectKey a b \<in> fst ` set (cs_secrets st)"
      using secs(2) [of a b] \<open>managed_key \<notin> updated_secret_keys\<close> by (auto simp: backup_keys_def)
    then show ?thesis using f [of a b] by simp
  qed
  then have "f k = c_secret C k" for k by (cases k) simp
  moreover have "c_config (cl (world s2)) k = c_config C k" for k
    using t e1 e2 st(4) by (cases k) (auto simp: touched_def source_config_key_def)
  ultimately show ?thesis using e1 e2 e3 st(2) by auto
qed

section \<open>The state file\<close>

fun failed_write :: "effect \<Rightarrow> bool" where
  "failed_write (EWriteState _ _ ok) = (\<not> ok)"
| "failed_write _ = False"

lemma SaveState_effect:
  assumes ok: "store_ok env cl" and run: "SaveState env dir st s = (r, s')"
    and nf: "list_all (\<lambda>e. \<not> failed_write e) (trace s')"
  shows "cl (world s') = cl (world s) \<and> r \<noteq> Inr () \<or>
    (\<exists>doc. json_marshal_state env st = Inr doc \<and>
      cl (world s') = (cl (world s))\<lparr>c_disk := (c_disk (cl (world s)))(statePath dir \<mapsto> doc)\<rparr>)"
proof -
  have rd: "store_reads env cl" and w: "store_writes env cl" using ok by (simp_all add: store_ok_def)
  obtain r1 s1 where m: "call (EMkdirAll dir) (mkdir_all env dir) s = (r1, s1)" by force
  have "keeps cl (mkdir_all env dir)" using rd by (simp add: store_reads_def)
  then have C1: "cl (world s1) = cl (world s)" by (rule quiet_eq [OF quiet_call m])
  show ?thesis
  proof (cases r1)
    case (Inl e)
    with run m C1 show ?thesis by (auto simp: SaveState_def bindM_def wrapM_def)
  next
    case (Inr u)
    show ?thesis
    proof (cases "json_marshal_state env st")
      case (Inl e)
      with run m C1 \<open>r1 = Inr u\<close> show ?thesis
        by (auto simp: SaveState_def bindM_def wrapM_def liftR_def)
    next
      case (Inr doc)
      let ?f = "write_state env (statePath dir) doc"
      obtain r2 s2 where wr: "callE (\<lambda>r. EWriteState (statePath dir) doc (is_ok r)) ?f s1 = (r2, s2)"
        by force
      have s2: "s' = s2"
        using run m \<open>r1 = Inr u\<close> Inr wr
        by (auto simp: SaveState_def bindM_def wrapM_def liftR_def split: sum.splits)
      have "EWriteState (statePath dir) doc (is_ok r2) \<in> set (trace s2)"
        using wr by (auto simp: callE_def split: prod.splits)
      then have "is_ok (fst (?f (world s1)))"
        using nf s2 fst_call [OF wr] by (auto simp: list_all_iff)
      then have "cl (world s2) = (cl (world s1))\<lparr>c_disk := (c_disk (cl (world s1)))(statePath dir \<mapsto> doc)\<rparr>"
        using w snd_call [OF wr] by (auto simp: store_writes_def)
      then show ?thesis using Inr s2 C1 by auto
    qed
  qed
qed

text \<open>A backup changes nothing but the disk.\<close>

lemma write_effect:
  "store_writes env cl \<Longrightarrow> \<exists>d. cl (snd (write_state env p doc w)) = (cl w)\<lparr>c_disk := d\<rparr>"
  unfolding store_writes_def by blast

lemma backup_step_disk:
  assumes ok: "store_ok env cl" and run: "backup_step env cfg False infra s = (Inr u, s')"
  shows "\<exists>d. cl (world s') = (cl (world s))\<lparr>c_disk := d\<rparr>"
proof -
  have rd: "store_reads env cl" and w: "store_writes env cl" using ok by (simp_all add: store_ok_def)
  obtain has s1 where h: "HasState env (StateDir cfg) s = (has, s1)" by force
  note C1 = quiet_eq [OF quiet_reads(7) [OF rd] h]
  show ?thesis
  proof (cases has)
    case True
    with run h C1 show ?thesis
      by (auto simp: backup_step_def intro!: exI [of _ "c_disk (cl (world s))"])
  next
    case False
    with run h obtain st s2 x s3 doc where c: "captureState env infra s1 = (Inr st, s2)"
      and m: "call (EMkdirAll (StateDir cfg)) (mkdir_all env (StateDir cfg)) s2 = (Inr x, s3)"
      and wr: "callE (\<lambda>r. EWriteState (statePath (StateDir cfg)) doc (is_ok r))
        (write_state env (statePath (StateDir cfg)) doc) s3 = (Inr u, s')"
      by (auto simp: backup_step_def SaveState_def comp_Inr)
    have k: "keeps cl (mkdir_all env (StateDir cfg))" using rd by (simp add: store_reads_def)
    have "cl (world s3) = cl (world s)"
      using quiet_eq [OF quiet_call [OF k] m] quiet_eq [OF quiet_capture [OF rd] c] C1 by simp
    then show ?thesis using write_effect [OF w] snd_call [OF wr] by metis
  qed
qed

text \<open>
  From a state without a backup file, after \<open>Apply\<close>: either there still is none, or the file
  holds a faithful backup of the store at the start and the store has changed within
  \<open>touched\<close> otherwise.
\<close>

definition backed_up :: "'w env \<Rightarrow> string \<Rightarrow> cluster \<Rightarrow> cluster \<Rightarrow> bool" where
  "backed_up env path C C' \<longleftrightarrow> c_disk C' path = None \<or>
     (\<exists>st doc. backup_of C st \<and> json_marshal_state env st = Inr doc \<and> c_disk C' path = Some doc \<and>
        touched (C\<lparr>c_disk := c_disk C'\<rparr>) C')"

lemma backup_of_disk [simp]: "backup_of (C\<lparr>c_disk := d\<rparr>) st = backup_of C st"
  by (simp add: backup_of_def saved_secret_def)

lemma saved_then_committed:
  assumes ok: "store_ok env cl" and bk: "backup_of (cl (world s)) st"
    and none: "c_disk (cl (world s)) (statePath (StateDir cfg)) = None"
    and run: "bindM (SaveState env (StateDir cfg) st) (\<lambda>_. commit_step env cfg False infra) s = (r, s')"
    and nf: "list_all (\<lambda>e. \<not> failed_write e) (trace s')"
  shows "backed_up env (statePath (StateDir cfg)) (cl (world s)) (cl (world s'))"
proof -
  let ?C = "cl (world s)" and ?p = "statePath (StateDir cfg)"
  obtain rs s1 where sv: "SaveState env (StateDir cfg) st s = (rs, s1)" by force
  have r1: "(case rs of Inl e \<Rightarrow> (Inl e, s1) | Inr _ \<Rightarrow> commit_step env cfg False infra s1) = (r, s')"
    using run sv by (simp add: bindM_def)
  have ext: "touched (cl (world s1)) (cl (world s')) \<and> (\<exists>tr. trace s' = trace s1 @ tr)"
    using r1 commit_step_touched [OF ok, of cfg False infra s1 r s']
    by (auto simp: touched_refl emitted_def split: sum.splits)
  then have nf1: "list_all (\<lambda>e. \<not> failed_write e) (trace s1)" using nf by auto
  from SaveState_effect [OF ok sv nf1] show ?thesis
  proof
    assume "cl (world s1) = ?C \<and> rs \<noteq> Inr ()"
    then show ?thesis using r1 none by (auto simp: backed_up_def split: sum.splits)
  next
    assume "\<exists>doc. json_marshal_state env st = Inr doc \<and> cl (world s1) = ?C\<lparr>c_disk := (c_disk ?C)(?p \<mapsto> doc)\<rparr>"
    moreover have "c_disk (cl (world s')) = c_disk (cl (world s1))" using ext by (simp add: touched_def)
    ultimately show ?thesis using bk ext unfolding backed_up_def by auto
  qed
qed

lemma backup_then_commit:
  assumes ok: "store_ok env cl" and none: "c_disk (cl (world s)) (statePath (StateDir cfg)) = None"
    and infra: "infra_spec infra = c_spec (cl (world s))"
    and run: "bindM (backup_step env cfg False infra) (\<lambda>_. commit_step env cfg False infra) s = (r, s')"
    and nf: "list_all (\<lambda>e. \<not> failed_write e) (trace s')"
  shows "backed_up env (statePath (StateDir cfg)) (cl (world s)) (cl (world s'))"
proof -
  let ?p = "statePath (StateDir cfg)"
  have rd: "store_reads env cl" and a: "store_answers env cl" using ok by (simp_all add: store_ok_def)
  obtain has s1 where h: "HasState env (StateDir cfg) s = (has, s1)" by force
  note C1 = quiet_eq [OF quiet_reads(7) [OF rd] h]
  have "\<not> has"
    using store_answersD(5) [OF a, of ?p "world s"] h none by (auto simp: HasState_def dest!: fst_call)
  then have bs: "backup_step env cfg False infra s =
      bindM (wrapM ''backup cluster state: %w'' [] (captureState env infra))
        (\<lambda>state. SaveState env (StateDir cfg) state) s1"
    using h by (simp add: backup_step_def)
  obtain rc s2 where c: "captureState env infra s1 = (rc, s2)" by force
  note C2 = quiet_eq [OF quiet_capture [OF rd] c]
  show ?thesis
  proof (cases rc)
    case (Inl e)
    then have "s' = s2" using run bs c by (simp add: bindM_def wrapM_def)
    then show ?thesis using C1 C2 none by (simp add: backed_up_def)
  next
    case (Inr st)
    have "backup_of (cl (world s2)) st"
      using captureState_backup [OF ok _ c [unfolded Inr]] infra C1 C2 by simp
    moreover have "bindM (SaveState env (StateDir cfg) st) (\<lambda>_. commit_step env cfg False infra) s2 = (r, s')"
      using run bs c Inr by (simp add: bindM_def wrapM_def)
    ultimately have "backed_up env ?p (cl (world s2)) (cl (world s'))"
      using none C1 C2 by (intro saved_then_committed [OF ok _ _ _ nf]) simp_all
    then show ?thesis using C1 C2 by simp
  qed
qed

lemma apply_validated_backed_up:
  assumes ok: "store_ok env cl" and none: "c_disk (cl (world s)) (statePath (StateDir cfg)) = None"
    and run: "apply_validated env cfg False s = (r, s')"
    and nf: "list_all (\<lambda>e. \<not> failed_write e) (trace s')"
  shows "backed_up env (statePath (StateDir cfg)) (cl (world s)) (cl (world s'))"
proof -
  let ?C = "cl (world s)" and ?p = "statePath (StateDir cfg)"
  have rd: "store_reads env cl" and a: "store_answers env cl" using ok by (simp_all add: store_ok_def)
  have stay: "backed_up env ?p ?C C'" if "C' = ?C" for C'
    using that none by (simp add: backed_up_def)
  obtain ri s1 where g: "GetInfrastructure env s = (ri, s1)" by force
  note C1 = quiet_eq [OF quiet_reads(1) [OF rd] g]
  obtain rg s2 where f: "IsFeatureGateEnabled env VSphereMultiVCenterDay2Gate s1 = (rg, s2)" by force
  note C2 = quiet_eq [OF quiet_reads(3) [OF rd] f]
  show ?thesis
  proof (cases "\<exists>infra. ri = Inr infra \<and> bindM (backup_step env cfg False infra)
      (\<lambda>_. commit_step env cfg False infra) s2 = (r, s')")
    case False
    then have "s' = s1 \<or> s' = s2"
      using run g f by (auto simp: apply_validated_def bindM_def throw_def split: sum.splits if_splits)
    then show ?thesis using C1 C2 stay by auto
  next
    case True
    then obtain infra where ri: "ri = Inr infra"
      and b: "bindM (backup_step env cfg False infra) (\<lambda>_. commit_step env cfg False infra) s2 = (r, s')" by blast
    have "infra_spec infra = c_spec ?C"
      using store_answersD(1) [OF a, of InfrastructureName "world s"] g ri
      by (auto simp: GetInfrastructure_def wrapM_Inr dest!: fst_call)
    then have infra: "infra_spec infra = c_spec (cl (world s2))" using C1 C2 by simp
    show ?thesis using backup_then_commit [OF ok _ infra b nf] none C1 C2 by simp
  qed
qed

lemma nothing_backed_up:
  "c_disk C p = None \<Longrightarrow> C' = C \<Longrightarrow> backed_up env p C C'"
  by (auto simp: backed_up_def)

text \<open>\<open>Apply\<close> leaves a backup of what was there before it changes anything.\<close>

lemma Apply_backed_up:
  assumes ok: "store_ok env cl"
    and none: "c_disk (cl (world s)) (statePath (StateDir cfg)) = None"
    and run: "Apply env (Some cfg) False s = (r, s1)"
    and nf: "list_all (\<lambda>e. \<not> failed_write e) (trace s1)"
  shows "backed_up env (statePath (StateDir cfg)) (cl (world s)) (cl (world s1))"
proof -
  have rd: "store_reads env cl" using ok by (simp add: store_ok_def)
  obtain err c s0 where v: "LabConfig_Validate env cfg s = ((err, c), s0)" by (metis surj_pair)
  note C0 = quiet_eq [OF quiet_validate [OF rd] v]
  show ?thesis
  proof (cases err)
    case (Some e)
    with v run have "s1 = s0" by (simp add: Apply_def)
    with C0 none show ?thesis by (intro nothing_backed_up) simp_all
  next
    case None
    with v have dir: "StateDir c = StateDir cfg" by (auto simp: LabConfig_Validate_ok)
    from None v run have "apply_validated env c False s0 = (r, s1)" by (simp add: Apply_def)
    from apply_validated_backed_up [OF ok _ this nf] show ?thesis using C0 none dir by simp
  qed
qed

text \<open>\<open>Restore\<close> gives back what a backup describes.\<close>

lemma Restore_gives_back:
  assumes ok: "store_ok env cl" and codec: "state_codec_ok env"
    and bu: "backed_up env (statePath dir) C (cl (world s1))"
    and undo: "Restore env dir s1 = (Inr u, s2)"
  shows "c_spec (cl (world s2)) = c_spec C \<and> c_config (cl (world s2)) = c_config C \<and>
    c_secret (cl (world s2)) = c_secret C"
proof -
  let ?p = "statePath dir"
  have rd: "store_reads env cl" and a: "store_answers env cl" and p: "poller_ok (poll env)"
    using ok by (simp_all add: store_ok_def)
  obtain st s3 x s4 where l: "LoadState env dir s1 = (Inr st, s3)"
    and ro: "restore_objects env st s3 = (Inr x, s4)" and w: "waitForClusterReady env s4 = (Inr u, s2)"
    using undo by (auto simp: Restore_def comp_Inr)
  obtain d where d: "fst (read_state env ?p (world s1)) = Inr d" "json_unmarshal_state env d = Inr st"
    using l by (auto simp: LoadState_def comp_Inr dest!: fst_call)
  note C3 = quiet_eq [OF quiet_reads(8) [OF rd] l]
  have "c_disk (cl (world s1)) ?p = Some d" by (rule store_answersD(6) [OF a d(1)])
  with bu obtain st' where "backup_of C st'" "json_marshal_state env st' = Inr d"
    and t: "touched (C\<lparr>c_disk := c_disk (cl (world s1))\<rparr>) (cl (world s1))"
    unfolding backed_up_def by auto
  then have "backup_of C st" using codec d(2) unfolding state_codec_ok_def by auto
  from restore_objects_effect [OF ok _ _ ro, of "C\<lparr>c_disk := c_disk (cl (world s1))\<rparr>"] this t C3
  have "c_spec (cl (world s4)) = c_spec C \<and> c_config (cl (world s4)) = c_config C \<and>
      c_secret (cl (world s4)) = c_secret C" by simp
  then show ?thesis using quiet_eq [OF quiet_wait [OF rd p] w] by simp
qed

text \<open>C1: \<open>Restore\<close> undoes \<open>Apply\<close>, whether \<open>Apply\<close> succeeded or failed half way: started without a
  backup file and with no failed file write, if \<open>Restore\<close> then succeeds, the Infrastructure
  spec, the data of every config map and the data of every secret are what they were before
  \<open>Apply\<close>.\<close>

theorem restore_undoes_apply:
  assumes ok: "store_ok env cl" and codec: "state_codec_ok env"
    and none: "c_disk (cl (world s)) (statePath (StateDir cfg)) = None"
    and run: "Apply env (Some cfg) False s = (r, s1)"
    and nf: "list_all (\<lambda>e. \<not> failed_write e) (trace s1)"
    and undo: "Restore env (StateDir cfg) s1 = (Inr u, s2)"
  shows "c_spec (cl (world s2)) = c_spec (cl (world s)) \<and>
    c_config (cl (world s2)) = c_config (cl (world s)) \<and>
    c_secret (cl (world s2)) = c_secret (cl (world s))"
  using Restore_gives_back [OF ok codec Apply_backed_up [OF ok none run nf] undo] .

end
