(* ===== verification/LabCommit.thy ===== *)
theory LabCommit
  imports LabRoundTrip
begin

text \<open>
  What a successful \<open>Apply\<close> leaves in the store: the new spec, the merged cloud provider
  configuration and the merged credential secrets.
\<close>

section \<open>The secrets\<close>

lemma PasswordValue_inline:
  "Password v \<noteq> '''' \<Longrightarrow> PasswordValue env v s = (r, s') \<longleftrightarrow> r = Inr (Password v) \<and> s' = s"
  by (auto simp: PasswordValue_def ret_Inr)

lemma update_target_effect:
  assumes ok: "store_ok env cl" and run: "update_target env vc False t s = (Inr u, s')"
  shows "(c_secret (cl (world s)) (tg_Namespace t, tg_Name t) = None \<and> cl (world s') = cl (world s)) \<or>
    (\<exists>data merged x y. c_secret (cl (world s)) (tg_Namespace t, tg_Name t) = Some data \<and>
       mergeCredentialSecretData env (tg_Format t) data vc x = (Inr merged, y) \<and>
       cl (world s') = (cl (world s))\<lparr>c_secret :=
         (c_secret (cl (world s)))((tg_Namespace t, tg_Name t) \<mapsto> merged)\<rparr>)"
proof -
  let ?k = "(tg_Namespace t, tg_Name t)"
  have rd: "store_reads env cl" and a: "store_answers env cl" and w: "store_writes env cl"
    and gn: "gets_named env" using ok by (simp_all add: store_ok_def)
  obtain r s1 where g: "get_target env t s = (r, s1)" by force
  note C1 = quiet_eq [OF quiet_reads(5) [OF rd] g]
  note f = fst_call [OF g [unfolded get_target_def]]
  show ?thesis
  proof (cases r)
    case (Inl e)
    with run g have "IsNotFound e" "s' = s1"
      by (auto simp: update_target_def comp_Inr split: if_splits)
    then show ?thesis using store_answersD(4) [OF a f [unfolded Inl]] C1 by simp
  next
    case (Inr sec)
    with run g obtain merged s2 x where
      m: "mergeCredentialSecretData env (tg_Format t) (sec_data sec) vc s1 = (Inr merged, s2)"
      and up: "call (EUpdateSecret (sec\<lparr>sec_data := merged\<rparr>)) (update_secret env (sec\<lparr>sec_data := merged\<rparr>)) s2 = (Inr x, s')"
      by (auto simp: update_target_def comp_Inr Let_def)
    have names: "sec_namespace sec = tg_Namespace t \<and> sec_name sec = tg_Name t"
      by (rule named_secret [OF gn g [unfolded get_target_def Inr]])
    have "cl (world s2) = cl (world s)" using quiet_eq [OF quiet_merges(2) [OF rd] m] C1 by simp
    then have "cl (world s') = (cl (world s))\<lparr>c_secret := (c_secret (cl (world s)))(?k \<mapsto> merged)\<rparr>"
      unfolding snd_call [OF up] update_secret_effect(1) [OF w] by (simp add: fst_call [OF up] names)
    moreover have "c_secret (cl (world s)) ?k = Some (sec_data sec)"
      using store_answersD(3) [OF a f [unfolded Inr]] .
    ultimately show ?thesis using m by blast
  qed
qed

lemma merge_per_vcenter:
  assumes "Password vc \<noteq> ''''"
    and "mergeCredentialSecretData env credentialFormatPerVCenter data vc x = (Inr merged, y)"
  shows "merged = put_credentials vc (Password vc) (gm_copy data)"
  using assms by (auto simp: mergeCredentialSecretData_def mergeVSphereCredsSecret_def comp_Inr
      PasswordValue_inline)

definition root_creds_key :: "string \<times> string" where
  "root_creds_key = (VSphereCredsNamespace, VSphereCredsSecret)"

definition cloud_creds_key :: "string \<times> string" where
  "cloud_creds_key = (SourceConfigNamespace, CloudCredentialsSecret)"

lemma updateCredentialSecrets_effect:
  assumes ok: "store_ok env cl" and pw: "Password vc \<noteq> ''''"
    and run: "updateCredentialSecrets env vc False s = (Inr u, s')"
  shows "\<exists>f. cl (world s') = (cl (world s))\<lparr>c_secret := f\<rparr> \<and>
    f root_creds_key = map_option (\<lambda>data. put_credentials vc (Password vc) (gm_copy data))
      (c_secret (cl (world s)) root_creds_key) \<and>
    (\<forall>data. c_secret (cl (world s)) cloud_creds_key = Some data \<longrightarrow>
       (\<exists>x y merged. mergeCloudCredentialsSecret env data vc x = (Inr merged, y) \<and>
          f cloud_creds_key = Some merged))"
proof -
  let ?t1 = "\<lparr>tg_Namespace = VSphereCredsNamespace, tg_Name = VSphereCredsSecret,
       tg_Format = credentialFormatPerVCenter\<rparr>"
  let ?t2 = "\<lparr>tg_Namespace = SourceConfigNamespace, tg_Name = CloudCredentialsSecret,
       tg_Format = credentialFormatYAML\<rparr>"
  obtain u1 s1 u2 where r1: "update_target env vc False ?t1 s = (Inr u1, s1)"
    and r2: "update_target env vc False ?t2 s1 = (Inr u2, s')"
    using run by (auto simp: updateCredentialSecrets_def vsphereCredentialSecretTargets_def comp_Inr)
  have ne: "root_creds_key \<noteq> cloud_creds_key"
    by (simp add: root_creds_key_def cloud_creds_key_def go_defs)
  have e1: "\<exists>f1. cl (world s1) = (cl (world s))\<lparr>c_secret := f1\<rparr> \<and>
      f1 cloud_creds_key = c_secret (cl (world s)) cloud_creds_key \<and>
      f1 root_creds_key = map_option (\<lambda>data. put_credentials vc (Password vc) (gm_copy data))
      (c_secret (cl (world s)) root_creds_key)"
    using update_target_effect [OF ok r1] merge_per_vcenter [OF pw] ne
    by (fastforce simp: root_creds_key_def [symmetric])
  then obtain f1 where f1: "cl (world s1) = (cl (world s))\<lparr>c_secret := f1\<rparr>"
      "f1 cloud_creds_key = c_secret (cl (world s)) cloud_creds_key"
      "f1 root_creds_key = map_option (\<lambda>data. put_credentials vc (Password vc) (gm_copy data))
        (c_secret (cl (world s)) root_creds_key)" by blast
  have "(f1 cloud_creds_key = None \<and> cl (world s') = cl (world s1)) \<or>
    (\<exists>data merged x y. f1 cloud_creds_key = Some data \<and>
       mergeCloudCredentialsSecret env data vc x = (Inr merged, y) \<and>
       cl (world s') = (cl (world s1))\<lparr>c_secret := f1(cloud_creds_key \<mapsto> merged)\<rparr>)"
    using update_target_effect [OF ok r2] f1(1)
    by (simp add: cloud_creds_key_def [symmetric] mergeCredentialSecretData_def)
  then show ?thesis
  proof (elim disjE exE conjE)
    assume "f1 cloud_creds_key = None" "cl (world s') = cl (world s1)"
    with f1 show ?thesis by (intro exI [of _ f1]) simp
  next
    fix data merged x y
    assume d: "f1 cloud_creds_key = Some data" and m: "mergeCloudCredentialsSecret env data vc x = (Inr merged, y)"
      and e: "cl (world s') = (cl (world s1))\<lparr>c_secret := f1(cloud_creds_key \<mapsto> merged)\<rparr>"
    show ?thesis
    proof (intro exI conjI allI impI)
      show "cl (world s') = (cl (world s))\<lparr>c_secret := f1(cloud_creds_key \<mapsto> merged)\<rparr>"
        using e f1(1) by simp
      show "(f1(cloud_creds_key \<mapsto> merged)) root_creds_key =
        map_option (\<lambda>data. put_credentials vc (Password vc) (gm_copy data))
          (c_secret (cl (world s)) root_creds_key)" using f1(3) ne by simp
      show "mergeCloudCredentialsSecret env data' vc x = (Inr merged, y)"
        if "c_secret (cl (world s)) cloud_creds_key = Some data'" for data'
        using that d f1(2) m by simp
      show "(f1(cloud_creds_key \<mapsto> merged)) cloud_creds_key = Some merged" by simp
    qed
  qed
qed

section \<open>The cloud provider configuration\<close>

lemma cm_entries_Some [simp]: "cm_entries (cm\<lparr>cm_data := Some d\<rparr>) = d"
  by (simp add: cm_entries_def)

lemma updateCredentials_effect:
  assumes ok: "store_ok env cl" and pw: "Password (SecondVCenter cfg) \<noteq> ''''"
    and run: "updateCredentials env infra cfg False s = (Inr u, s')"
  shows "\<exists>entries bin base merged f.
    c_config (cl (world s)) source_config_key = Some (entries, bin) \<and>
    base = (case ParseCloudConfigYAML env (gm_get entries SourceCloudConfigDataKey) of
              Inl _ \<Rightarrow> fallback_config (Some infra) | Inr c \<Rightarrow> c) \<and>
    yaml_marshal_cloud env (put_vcenter (SecondVCenter cfg) (Password (SecondVCenter cfg)) base) = Inr merged \<and>
    cl (world s') = (cl (world s))\<lparr>
      c_config := (c_config (cl (world s)))(source_config_key \<mapsto>
        (gm_put SourceCloudConfigDataKey merged entries, bin)),
      c_secret := f\<rparr> \<and>
    f root_creds_key = map_option (\<lambda>data. put_credentials (SecondVCenter cfg) (Password (SecondVCenter cfg)) (gm_copy data))
      (c_secret (cl (world s)) root_creds_key)"
proof -
  let ?vc = "SecondVCenter cfg"
  have rd: "store_reads env cl" and a: "store_answers env cl" and w: "store_writes env cl"
    and gn: "gets_named env" using ok by (simp_all add: store_ok_def)
  obtain cm s1 merged s2 x s3 where
    g: "GetConfigMap env SourceConfigNamespace SourceConfigName s = (Inr cm, s1)"
    and m: "mergeCloudProviderConfig env (gm_get (cm_entries cm) SourceCloudConfigDataKey) (Some infra) ?vc s1 = (Inr merged, s2)"
    and up: "call (EUpdateConfigMap (cm\<lparr>cm_data := Some (gm_put SourceCloudConfigDataKey merged (cm_entries cm))\<rparr>))
      (update_config_map env (cm\<lparr>cm_data := Some (gm_put SourceCloudConfigDataKey merged (cm_entries cm))\<rparr>)) s2 = (Inr x, s3)"
    and us: "updateCredentialSecrets env ?vc False s3 = (Inr u, s')"
    using run by (auto simp: updateCredentials_def comp_Inr Let_def)
  have ans: "c_config (cl (world s)) source_config_key = Some (cm_entries cm, cm_binaryData cm)"
    unfolding source_config_key_def
    by (rule store_answersD(2) [OF a fst_call [OF g [unfolded GetConfigMap_def wrapM_Inr]]])
  have C2: "cl (world s2) = cl (world s)"
    using quiet_eq [OF quiet_reads(2) [OF rd] g] quiet_eq [OF quiet_merges(1) [OF rd] m] by simp
  have mm: "yaml_marshal_cloud env (put_vcenter ?vc (Password ?vc)
      (case ParseCloudConfigYAML env (gm_get (cm_entries cm) SourceCloudConfigDataKey) of
         Inl _ \<Rightarrow> fallback_config (Some infra) | Inr c \<Rightarrow> c)) = Inr merged"
    using m by (auto simp: mergeCloudProviderConfig_def comp_Inr PasswordValue_inline [OF pw] Let_def)
  have C3: "cl (world s3) = (cl (world s))\<lparr>c_config := (c_config (cl (world s)))(source_config_key \<mapsto>
        (gm_put SourceCloudConfigDataKey merged (cm_entries cm), cm_binaryData cm))\<rparr>"
    unfolding snd_call [OF up] update_config_effect [OF w] source_config_key_def
    using named_config [OF gn g] by (simp add: fst_call [OF up] C2)
  obtain f where "cl (world s') = (cl (world s3))\<lparr>c_secret := f\<rparr>"
    "f root_creds_key = map_option (\<lambda>data. put_credentials ?vc (Password ?vc) (gm_copy data))
      (c_secret (cl (world s3)) root_creds_key)"
    using updateCredentialSecrets_effect [OF ok pw us] by blast
  with ans mm C3 show ?thesis by auto
qed

section \<open>The whole of \<open>Apply\<close>\<close>

lemma build_extends:
  "buildInfrastructureSpec infra cfg = Inr (spec, name) \<Longrightarrow> extends (infra_spec infra) spec"
  by (auto simp: buildInfrastructureSpec_Inr extends_def)

text \<open>What the steps after the backup leave in the store.\<close>

definition committed :: "'w env \<Rightarrow> LabConfig \<Rightarrow> infrastructure \<Rightarrow> cluster \<Rightarrow> cluster \<Rightarrow> ApplyResult \<Rightarrow> bool" where
  "committed env c infra C C' res \<longleftrightarrow>
     buildInfrastructureSpec infra c = Inr (c_spec C', AddedFailureDomain res) \<and>
     AddedVCenter res = Server (SecondVCenter c) \<and>
     (\<exists>entries bin base merged.
        c_config C source_config_key = Some (entries, bin) \<and>
        base = (case ParseCloudConfigYAML env (gm_get entries SourceCloudConfigDataKey) of
                  Inl _ \<Rightarrow> fallback_config (Some infra) | Inr b \<Rightarrow> b) \<and>
        yaml_marshal_cloud env (put_vcenter (SecondVCenter c) (Password (SecondVCenter c)) base) = Inr merged \<and>
        c_config C' = (c_config C)(source_config_key \<mapsto> (gm_put SourceCloudConfigDataKey merged entries, bin))) \<and>
     c_secret C' root_creds_key =
       map_option (\<lambda>data. put_credentials (SecondVCenter c) (Password (SecondVCenter c)) (gm_copy data))
         (c_secret C root_creds_key)"

lemma commit_step_effect:
  assumes ok: "store_ok env cl" and pw: "Password (SecondVCenter c) \<noteq> ''''"
    and infra: "infra_spec infra = c_spec (cl (world s))"
    and run: "commit_step env c False infra s = (Inr res, s')"
  shows "committed env c infra (cl (world s)) (cl (world s')) res"
proof -
  have rd: "store_reads env cl" and sp: "store_patches env cl" and p: "poller_ok (poll env)"
    using ok by (simp_all add: store_ok_def)
  obtain u1 s1 spec fdName pt y s2 where uc: "updateCredentials env infra c False s = (Inr u1, s1)"
    and bs: "buildInfrastructureSpec infra c = Inr (spec, fdName)"
    and mj: "json_marshal_spec env spec = Inr pt"
    and pa: "call (EPatchInfrastructure pt False) (patch_infra env InfrastructureName pt False) s1 = (Inr y, s2)"
    and wt: "waitForClusterReady env s2 = (Inr (), s')"
    and res: "res = \<lparr>AddedVCenter = Server (SecondVCenter c), AddedFailureDomain = fdName,
      ResultStateDir = StateDir c\<rparr>"
    using run by (auto simp: commit_step_def ReplaceInfrastructureSpec_def PatchInfrastructure_def comp_Inr)
  obtain entries bin base merged fs where
    conf: "c_config (cl (world s)) source_config_key = Some (entries, bin)"
    "base = (case ParseCloudConfigYAML env (gm_get entries SourceCloudConfigDataKey) of
              Inl _ \<Rightarrow> fallback_config (Some infra) | Inr b \<Rightarrow> b)"
    "yaml_marshal_cloud env (put_vcenter (SecondVCenter c) (Password (SecondVCenter c)) base) = Inr merged"
    and C1: "cl (world s1) = (cl (world s))\<lparr>
      c_config := (c_config (cl (world s)))(source_config_key \<mapsto>
        (gm_put SourceCloudConfigDataKey merged entries, bin)), c_secret := fs\<rparr>"
    and fs: "fs root_creds_key = map_option (\<lambda>data. put_credentials (SecondVCenter c)
      (Password (SecondVCenter c)) (gm_copy data)) (c_secret (cl (world s)) root_creds_key)"
    using updateCredentials_effect [OF ok pw uc] by blast
  obtain sp' where C2: "cl (world s2) = (cl (world s1))\<lparr>c_spec := sp'\<rparr>"
    using patch_effect(2) [OF sp] snd_call [OF pa] by metis
  have "extends (c_spec (cl (world s1))) spec" using build_extends [OF bs] infra C1 by simp
  then have "c_spec (cl (world s2)) = spec"
    using patch_effect(3) [OF sp mj] fst_call [OF pa] snd_call [OF pa] by simp
  then have "sp' = spec" using C2 by simp
  moreover have "cl (world s') = cl (world s2)" by (rule quiet_eq [OF quiet_wait [OF rd p] wt])
  ultimately show ?thesis using bs res conf fs C1 C2 by (simp add: committed_def)
qed

text \<open>What a successful \<open>Apply\<close> has committed, over the cluster with the backup on its disk.\<close>

lemma Apply_committed:
  assumes ok: "store_ok env cl" and pw: "Password (SecondVCenter cfg) \<noteq> []"
    and run: "Apply env (Some cfg) False s = (Inr res, s')"
  shows "\<exists>c infra d. c = cfg\<lparr>SecondVCenter := normalised (SecondVCenter cfg)\<rparr> \<and>
    infra_spec infra = c_spec (cl (world s)) \<and> \<not> vsphereHasServer (Some infra) (Server (SecondVCenter c)) \<and>
    committed env c infra ((cl (world s))\<lparr>c_disk := d\<rparr>) (cl (world s')) res"
proof -
  have rd: "store_reads env cl" and a: "store_answers env cl" using ok by (simp_all add: store_ok_def)
  obtain err c s0 where v: "LabConfig_Validate env cfg s = ((err, c), s0)" by (metis surj_pair)
  with run have "err = None" by (cases err) (auto simp: Apply_def)
  with v have v': "LabConfig_Validate env cfg s = ((None, c), s0)" by simp
  then have c: "c = cfg\<lparr>SecondVCenter := normalised (SecondVCenter cfg)\<rparr>"
    by (simp add: LabConfig_Validate_ok)
  have pwc: "Password (SecondVCenter c) \<noteq> ''''" using pw c by (simp add: normalised_def)
  note C0 = quiet_eq [OF quiet_validate [OF rd] v]
  have "apply_validated env c False s0 = (Inr res, s')" using run v' by (simp add: Apply_def)
  then obtain infra s1 s2 u s3 where g: "GetInfrastructure env s0 = (Inr infra, s1)"
    and f: "IsFeatureGateEnabled env VSphereMultiVCenterDay2Gate s1 = (Inr True, s2)"
    and b: "backup_step env c False infra s2 = (Inr u, s3)"
    and cs: "commit_step env c False infra s3 = (Inr res, s')"
    and fresh: "\<not> vsphereHasServer (Some infra) (Server (SecondVCenter c))"
    by (auto simp: apply_validated_def comp_Inr split: if_splits)
  have C2: "cl (world s2) = cl (world s)"
    using C0 quiet_eq [OF quiet_reads(1) [OF rd] g] quiet_eq [OF quiet_reads(3) [OF rd] f] by simp
  have infra: "infra_spec infra = c_spec (cl (world s))"
    using store_answersD(1) [OF a, of InfrastructureName "world s0"] g C0
    by (auto simp: GetInfrastructure_def wrapM_Inr dest!: fst_call)
  obtain d where C3: "cl (world s3) = (cl (world s))\<lparr>c_disk := d\<rparr>"
    using backup_step_disk [OF ok b] C2 by auto
  have "committed env c infra (cl (world s3)) (cl (world s')) res"
    using commit_step_effect [OF ok pwc _ cs] infra C3 by simp
  then show ?thesis using c infra fresh unfolding C3 by (intro exI conjI) assumption+
qed

text \<open>C6: A successful \<open>Apply\<close> with an inline password has stored the spec built from the stored one and
  reports what it added; it has put the new vCenter into the parsed (or rebuilt) cloud
  provider configuration under the key config and kept the other keys of that config map; and
  it has set the new server's user and password in kube-system/vsphere-creds, where that
  secret exists.\<close>

theorem apply_success_effect:
  assumes ok: "store_ok env cl" and pw: "Password (SecondVCenter cfg) \<noteq> ''''"
    and run: "Apply env (Some cfg) False s = (Inr res, s')"
  shows "\<exists>c infra entries bin base merged.
    c = cfg\<lparr>SecondVCenter := normalised (SecondVCenter cfg)\<rparr> \<and>
    infra_spec infra = c_spec (cl (world s)) \<and>
    buildInfrastructureSpec infra c = Inr (c_spec (cl (world s')), AddedFailureDomain res) \<and>
    AddedVCenter res = Server (SecondVCenter c) \<and>
    c_config (cl (world s)) source_config_key = Some (entries, bin) \<and>
    base = (case ParseCloudConfigYAML env (gm_get entries SourceCloudConfigDataKey) of
              Inl _ \<Rightarrow> fallback_config (Some infra) | Inr b \<Rightarrow> b) \<and>
    yaml_marshal_cloud env (put_vcenter (SecondVCenter c) (Password (SecondVCenter c)) base) = Inr merged \<and>
    c_config (cl (world s')) = (c_config (cl (world s)))(source_config_key \<mapsto>
      (gm_put SourceCloudConfigDataKey merged entries, bin)) \<and>
    c_secret (cl (world s')) root_creds_key =
      map_option (\<lambda>data. put_credentials (SecondVCenter c) (Password (SecondVCenter c)) (gm_copy data))
        (c_secret (cl (world s)) root_creds_key)"
proof -
  from Apply_committed [OF assms] obtain c infra d where "c = cfg\<lparr>SecondVCenter := normalised (SecondVCenter cfg)\<rparr>"
    "infra_spec infra = c_spec (cl (world s))"
    "committed env c infra ((cl (world s))\<lparr>c_disk := d\<rparr>) (cl (world s')) res" by blast
  then show ?thesis by (simp add: committed_def) blast
qed

end
