(* ===== verification/Lifecycle.thy ===== *)
theory Lifecycle
  imports LabCommit
begin

text \<open>
  \<open>Apply\<close> and \<open>Verify\<close> of \<open>pkg/lab\<close> together, with the operators of the cluster between them: after
  \<open>Apply\<close> has changed the source configuration, the operators copy it to the managed one, and
  \<open>Verify\<close> looks there.  What the operators and the API server do is stated as hypotheses; \<open>Verify\<close> is
  characterised exactly, so that it is also known when it fails.
\<close>

section \<open>When \<open>Verify\<close> succeeds\<close>

definition managed_config_key :: "string \<times> string" where
  "managed_config_key = (ManagedConfigNamespace, ManagedConfigName)"

text \<open>Every operator answers that it is not degraded, whenever it is asked.\<close>

definition healthy_operators :: "'w env \<Rightarrow> bool" where
  "healthy_operators env \<longleftrightarrow>
     list_all (\<lambda>name. \<forall>t. \<exists>c. fst (GetClusterOperatorCondition env name ''Degraded'' t) = Inr c \<and>
        cond_status c = ''False'') operator_names"

text \<open>The API server answers for the Infrastructure and for the config maps there are.\<close>

definition serves :: "'w env \<Rightarrow> ('w \<Rightarrow> cluster) \<Rightarrow> bool" where
  "serves env cl \<longleftrightarrow> (\<forall>w. is_ok (fst (get_infra env InfrastructureName w))) \<and>
     (\<forall>ns n w. c_config (cl w) (ns, n) = None \<or> is_ok (fst (get_config_map env ns n w)))"

text \<open>The managed configuration parses and names every vCenter of the spec.\<close>

definition managed_names_all :: "'w env \<Rightarrow> cluster \<Rightarrow> bool" where
  "managed_names_all env C \<longleftrightarrow>
     (case c_config C managed_config_key of
        None \<Rightarrow> False
      | Some (entries, bin) \<Rightarrow>
          (case ParseCloudConfigYAML env (gm_get entries CloudConfigDataKey) of
             Inl _ \<Rightarrow> False
           | Inr parsed \<Rightarrow> set (VCenterServers (spec_vcenters (c_spec C))) \<subseteq> config_names parsed))"

lemma GetInfrastructure_serves:
  assumes "store_ok env cl" "serves env cl"
  shows "\<exists>infra s'. GetInfrastructure env s = (Inr infra, s') \<and> infra_spec infra = c_spec (cl (world s))
    \<and> cl (world s') = cl (world s)"
proof -
  have a: "store_answers env cl" and r: "store_reads env cl" using assms(1) by (simp_all add: store_ok_def)
  have "is_ok (fst (get_infra env InfrastructureName (world s)))" using assms(2) by (simp add: serves_def)
  then obtain infra where i: "fst (get_infra env InfrastructureName (world s)) = Inr infra"
    by (cases "fst (get_infra env InfrastructureName (world s))") auto
  then obtain s' where g: "GetInfrastructure env s = (Inr infra, s')"
    by (cases "get_infra env InfrastructureName (world s)") (simp add: GetInfrastructure_def wrapM_Inr callE_def)
  from quiet_eq [OF quiet_reads(1) [OF r] g] store_answersD(1) [OF a i] g show ?thesis by blast
qed

lemma GetConfigMap_serves:
  assumes "store_ok env cl" "serves env cl" "c_config (cl (world s)) (ns, n) = Some (entries, bin)"
  shows "\<exists>cm s'. GetConfigMap env ns n s = (Inr cm, s') \<and> cm_entries cm = entries \<and> cl (world s') = cl (world s)"
proof -
  have a: "store_answers env cl" and r: "store_reads env cl" using assms(1) by (simp_all add: store_ok_def)
  have "is_ok (fst (get_config_map env ns n (world s)))"
    using assms(2,3) unfolding serves_def by (metis option.distinct(1))
  then obtain cm where i: "fst (get_config_map env ns n (world s)) = Inr cm"
    by (cases "fst (get_config_map env ns n (world s))") auto
  then obtain s' where g: "GetConfigMap env ns n s = (Inr cm, s')"
    by (cases "get_config_map env ns n (world s)") (simp add: GetConfigMap_def wrapM_Inr callE_def)
  from quiet_eq [OF quiet_reads(2) [OF r] g] store_answersD(2) [OF a i] assms(3) g show ?thesis by auto
qed

lemma GetConfigMap_absent:
  assumes "store_ok env cl" "c_config (cl (world s)) (ns, n) = None"
  shows "\<exists>e s'. GetConfigMap env ns n s = (Inl e, s')"
proof (cases "fst (get_config_map env ns n (world s))")
  case (Inl e)
  then show ?thesis by (cases "get_config_map env ns n (world s)") (simp add: GetConfigMap_def wrapM_def callE_def)
next
  case (Inr cm)
  then have "c_config (cl (world s)) (ns, n) \<noteq> None"
    using assms(1) store_answersD(2) [of env cl ns n "world s" cm] by (simp add: store_ok_def)
  with assms(2) show ?thesis by simp
qed

lemma quiet_check: "store_reads env cl \<Longrightarrow> within (unchanged cl) (check_not_degraded env name)"
  by (auto simp: check_not_degraded_def GetClusterOperatorCondition_def get_operator_def store_reads_def
      intro!: un.within_ret un.within_throw un.within_bind un.within_wrap quiet_call split: option.splits)

lemma checks_pass:
  assumes "healthy_operators env" "store_reads env cl"
  shows "\<exists>s'. CheckOperatorsNotDegraded env operator_names s = (Inr (), s') \<and> cl (world s') = cl (world s)"
proof -
  have "\<exists>s'. check_not_degraded env name t = (Inr (), s')" if "name \<in> set operator_names" for name t
  proof -
    have "\<forall>t. \<exists>c. fst (GetClusterOperatorCondition env name ''Degraded'' t) = Inr c \<and> cond_status c = ''False''"
      using bspec [OF assms(1) [unfolded healthy_operators_def list_all_iff] that] .
    from spec [OF this, of t] obtain c
      where "fst (GetClusterOperatorCondition env name ''Degraded'' t) = Inr c" "cond_status c = ''False''" by (elim exE conjE)
    then show ?thesis
      by (cases "GetClusterOperatorCondition env name ''Degraded'' t") (simp add: check_not_degraded_def bindM_def ret_def)
  qed
  then have "\<exists>s'. forM operator_names (check_not_degraded env) s = (Inr (), s')" by (rule forM_total)
  then obtain s' where run: "CheckOperatorsNotDegraded env operator_names s = (Inr (), s')"
    by (auto simp: CheckOperatorsNotDegraded_def)
  have "within (unchanged cl) (CheckOperatorsNotDegraded env operator_names)"
    unfolding CheckOperatorsNotDegraded_def by (intro un.within_forM quiet_check assms(2))
  from quiet_eq [OF this run] run show ?thesis by blast
qed


lemma Verify_iff:
  assumes "store_ok env cl" "healthy_operators env" "serves env cl"
  shows "fst (Verify env cfg s) = Inr () \<longleftrightarrow>
    Server (SecondVCenter cfg) \<in> set (VCenterServers (spec_vcenters (c_spec (cl (world s)))))
    \<and> is_vsphere (c_spec (cl (world s))) \<noteq> None \<and> managed_names_all env (cl (world s))"
proof -
  have r: "store_reads env cl" using assms(1) by (simp add: store_ok_def)
  obtain s1 where 1: "CheckOperatorsNotDegraded env operator_names s = (Inr (), s1)" "cl (world s1) = cl (world s)"
    using checks_pass [OF assms(2) r] by blast
  obtain infra s2 where 2: "GetInfrastructure env s1 = (Inr infra, s2)" "infra_spec infra = c_spec (cl (world s))"
    "cl (world s2) = cl (world s)" using GetInfrastructure_serves [OF assms(1,3), of s1] 1(2) by auto
  have has: "vsphereHasServer (Some infra) (Server (SecondVCenter cfg)) \<longleftrightarrow>
      Server (SecondVCenter cfg) \<in> set (VCenterServers (spec_vcenters (c_spec (cl (world s)))))"
    by (simp add: vsphereHasServer_iff GetVCenters_spec 2(2))
  show ?thesis
  proof (cases "c_config (cl (world s)) managed_config_key")
    case None
    obtain e s3 where "GetConfigMap env ManagedConfigNamespace ManagedConfigName s2 = (Inl e, s3)"
      using GetConfigMap_absent [OF assms(1), of s2] None 2(3) unfolding managed_config_key_def by metis
    with 1(1) 2(1) None show ?thesis
      by (simp add: Verify_def bindM_def throw_def managed_names_all_def)
  next
    case (Some eb)
    obtain entries bin where eb: "eb = (entries, bin)" by (cases eb)
    obtain cm s3 where 3: "GetConfigMap env ManagedConfigNamespace ManagedConfigName s2 = (Inr cm, s3)" "cm_entries cm = entries"
      using GetConfigMap_serves [OF assms(1,3)] Some [unfolded eb managed_config_key_def] 2(3) by metis
    have pres: "AssertInfrastructureVCentersPresent (Some infra) (Some parsed) = None \<longleftrightarrow>
        is_vsphere (c_spec (cl (world s))) \<noteq> None
        \<and> set (VCenterServers (spec_vcenters (c_spec (cl (world s))))) \<subseteq> config_names parsed" for parsed
      by (auto simp: present_iff 2(2) spec_vcenters_def)
    note runs = 1(1) 2(1) 3(1) has Verify_def bindM_def throw_def ret_def liftR_def managed_names_all_def Some eb 3(2)
    show ?thesis
    proof (cases "ParseCloudConfigYAML env (gm_get entries CloudConfigDataKey)")
      case (Inl e)
      then show ?thesis by (simp add: runs)
    next
      case (Inr parsed)
      with pres [of parsed] show ?thesis
        by (cases "AssertInfrastructureVCentersPresent (Some infra) (Some parsed)") (auto simp: runs)
    qed
  qed
qed


section \<open>Apply, then the operators, then \<open>Verify\<close>\<close>

text \<open>The source configuration, if it parses, names the vCenters of the spec and has no entry for \<open>server\<close>.\<close>

definition source_in_step :: "'w env \<Rightarrow> cluster \<Rightarrow> string \<Rightarrow> bool" where
  "source_in_step env C server \<longleftrightarrow>
     (case c_config C source_config_key of
        None \<Rightarrow> True
      | Some (entries, bin) \<Rightarrow>
          (case ParseCloudConfigYAML env (gm_get entries SourceCloudConfigDataKey) of
             Inl _ \<Rightarrow> True
           | Inr old \<Rightarrow> set (VCenterServers (spec_vcenters (c_spec C))) \<subseteq> config_names old
               \<and> server \<notin> fst ` set (vcenter_entries old)))"

text \<open>The operators have copied the source configuration of \<open>C\<close> to the managed one of \<open>C'\<close>.\<close>

definition synced :: "cluster \<Rightarrow> cluster \<Rightarrow> bool" where
  "synced C C' \<longleftrightarrow> c_spec C' = c_spec C \<and>
     (case (c_config C source_config_key, c_config C' managed_config_key) of
        (Some (es, _), Some (ms, _)) \<Rightarrow> gm_get ms CloudConfigDataKey = gm_get es SourceCloudConfigDataKey
      | _ \<Rightarrow> False)"

lemma fallback_names: "vc_server ` set (GetVCenters infra) \<subseteq> config_names (fallback_config infra)"
  using fallback_keys [of infra] by (auto simp: config_names_def)

lemma committed_spec:
  assumes "committed env c infra C C' res"
  shows "is_vsphere (c_spec C') \<noteq> None \<and> set (VCenterServers (spec_vcenters (c_spec C'))) =
    insert (Server (SecondVCenter c)) (set (VCenterServers (spec_vcenters (infra_spec infra))))"
proof -
  have "buildInfrastructureSpec infra c = Inr (c_spec C', AddedFailureDomain res)"
    using assms by (simp add: committed_def)
  then obtain p where "is_vsphere (infra_spec infra) = Some p" "is_vsphere (c_spec C') =
      Some (p\<lparr>vs_vcenters := vs_vcenters p @ [new_vcenter c],
        vs_failureDomains := vs_failureDomains p @ added_failure_domains c\<rparr>)"
    by (auto simp: buildInfrastructureSpec_Inr)
  then show ?thesis by (simp add: spec_vcenters_def VCenterServers_def new_vcenter_def)
qed

lemma committed_names:
  assumes com: "committed env c infra C C' res" and spec: "infra_spec infra = c_spec C"
    and codec: "cloud_codec_ok env" and src: "source_in_step env C (Server (SecondVCenter c))"
    and fresh: "\<not> vsphereHasServer (Some infra) (Server (SecondVCenter c))"
  shows "\<exists>es bin parsed. c_config C' source_config_key = Some (es, bin)
    \<and> ParseCloudConfigYAML env (gm_get es SourceCloudConfigDataKey) = Inr parsed
    \<and> set (VCenterServers (spec_vcenters (c_spec C'))) \<subseteq> config_names parsed"
proof -
  let ?vc = "SecondVCenter c"
  obtain entries bin merged base where e: "c_config C source_config_key = Some (entries, bin)"
    and base: "base = (case ParseCloudConfigYAML env (gm_get entries SourceCloudConfigDataKey) of
        Inl _ \<Rightarrow> fallback_config (Some infra) | Inr b \<Rightarrow> b)"
    and m: "yaml_marshal_cloud env (put_vcenter ?vc (Password ?vc) base) = Inr merged"
    and c': "c_config C' = (c_config C)(source_config_key \<mapsto> (gm_put SourceCloudConfigDataKey merged entries, bin))"
    using com by (auto simp: committed_def)
  let ?old = "set (VCenterServers (spec_vcenters (c_spec C)))"
  have "?old \<subseteq> config_names base \<and> Server ?vc \<notin> fst ` set (vcenter_entries base)"
  proof (cases "ParseCloudConfigYAML env (gm_get entries SourceCloudConfigDataKey)")
    case (Inl err)
    then have "base = fallback_config (Some infra)" by (simp add: base)
    moreover have "vc_server ` set (GetVCenters (Some infra)) = ?old"
      by (auto simp: GetVCenters_spec spec VCenterServers_def)
    ultimately show ?thesis using fallback_names [of "Some infra"] fallback_keys [of "Some infra"] fresh
      by (auto simp: vsphereHasServer_iff VCenterServers_def)
  next
    case (Inr old)
    with src e base show ?thesis by (simp add: source_in_step_def)
  qed
  with config_names_put [of ?vc base "Password ?vc"] committed_spec [OF com] spec
  have "set (VCenterServers (spec_vcenters (c_spec C'))) \<subseteq> config_names (put_vcenter ?vc (Password ?vc) base)"
    by auto
  moreover note put_vcenter_parses [OF codec m]
  moreover have "c_config C' source_config_key = Some (gm_put SourceCloudConfigDataKey merged entries, bin)"
    using c' by simp
  ultimately show ?thesis by (simp add: gm_get_put)
qed

text \<open>C7: \<open>Apply\<close>, the operators and \<open>Verify\<close> fit together.  After an \<open>Apply\<close> that succeeded and was no dry run, \<open>Verify\<close>
  with the same configuration succeeds on every later state of the cluster that still has this spec and to whose
  managed configuration the operators have copied the source configuration, as long as they are healthy and the
  API answers; and it fails on every state with this spec whose managed configuration does not name
  all vCenters of the spec, so that a missing or stale copy does not go unnoticed.\<close>
theorem apply_then_verify:
  assumes ok: "store_ok env cl" and healthy: "healthy_operators env" and api: "serves env cl"
    and codec: "cloud_codec_ok env" and pw: "Password (SecondVCenter cfg) \<noteq> ''''"
    and c: "c = cfg\<lparr>SecondVCenter := normalised (SecondVCenter cfg)\<rparr>"
    and src: "source_in_step env (cl (world s)) (Server (SecondVCenter c))"
    and run: "Apply env (Some cfg) False s = (Inr res, s')"
    and later: "c_spec (cl (world t)) = c_spec (cl (world s'))"
  shows "(synced (cl (world s')) (cl (world t)) \<longrightarrow> fst (Verify env c t) = Inr ()) \<and>
    (managed_names_all env (cl (world t)) \<or> fst (Verify env c t) \<noteq> Inr ())"
proof -
  obtain infra d where spec: "infra_spec infra = c_spec (cl (world s))"
    and fresh: "\<not> vsphereHasServer (Some infra) (Server (SecondVCenter c))"
    and com: "committed env c infra ((cl (world s))\<lparr>c_disk := d\<rparr>) (cl (world s')) res"
    using Apply_committed [OF ok pw run] c by blast
  note sp = committed_spec [OF com]
  have src': "source_in_step env ((cl (world s))\<lparr>c_disk := d\<rparr>) (Server (SecondVCenter c))"
    using src by (auto simp: source_in_step_def split: option.splits sum.splits prod.splits)
  have spec': "infra_spec infra = c_spec ((cl (world s))\<lparr>c_disk := d\<rparr>)" using spec by simp
  obtain es bin parsed where names: "c_config (cl (world s')) source_config_key = Some (es, bin)"
    "ParseCloudConfigYAML env (gm_get es SourceCloudConfigDataKey) = Inr parsed"
    "set (VCenterServers (spec_vcenters (c_spec (cl (world s'))))) \<subseteq> config_names parsed"
    using committed_names [OF com spec' codec src' fresh] by blast
  have "managed_names_all env (cl (world t))" if "synced (cl (world s')) (cl (world t))"
    using that names by (auto simp: synced_def managed_names_all_def split: option.splits prod.splits)
  moreover have "Server (SecondVCenter c) \<in> set (VCenterServers (spec_vcenters (c_spec (cl (world t)))))"
    "is_vsphere (c_spec (cl (world t))) \<noteq> None"
    using sp later by simp_all
  ultimately show ?thesis using Verify_iff [OF ok healthy api, of c t] by blast
qed

end
