(* ===== verification/DemoCluster.thy ===== *)
theory DemoCluster
  imports Lifecycle
begin

text \<open>
  A concrete outside world: a cluster kept in a record, on which the hypotheses about the API
  server, the file system and the codecs hold and the program's functions run.
\<close>

section \<open>The environment\<close>

definition mem_infra :: "cluster \<Rightarrow> infrastructure" where
  "mem_infra w = \<lparr>infra_meta = '''', infra_spec = c_spec w,
     infra_status = \<lparr>ist_platformType = Some ''VSphere'', ist_other = ''''\<rparr>\<rparr>"

definition mem_cond :: "string \<Rightarrow> string \<Rightarrow> condition" where
  "mem_cond ty st = \<lparr>cond_type = ty, cond_status = st, cond_message = '''', cond_transition = 0\<rparr>"

definition mem_config_map :: "string \<Rightarrow> string \<Rightarrow> string gomap \<Rightarrow> string gomap \<Rightarrow> config_map" where
  "mem_config_map ns n d b = \<lparr>cm_namespace = ns, cm_name = n, cm_data = Some d, cm_binaryData = b,
     cm_annotations = [], cm_resourceVersion = ''1'', cm_other = ''''\<rparr>"

definition mem_cloud :: CloudConfig where
  "mem_cloud = \<lparr>Global = None, Labels = [],
     VCenter = Some [(''vc1'', \<lparr>cv_Server = ''vc1'', cv_Port = 443, cv_Datacenters = [''dc1''],
       cv_Insecure = False\<rparr>)], Nodes = None, Extra = []\<rparr>"

definition mem_merged :: CloudConfig where
  "mem_merged = put_vcenter (SecondVCenter demo_cfg) ''pw'' mem_cloud"

definition mem :: "cluster env" where
  "mem = \<lparr>
     get_infra = (\<lambda>n w. (Inr (mem_infra w), w)),
     update_infra = (\<lambda>i w. (Inr i, w\<lparr>c_spec := infra_spec i\<rparr>)),
     patch_infra = (\<lambda>n pt dry w.
       case pt of
         SpecPatch sp \<Rightarrow> (Inr (mem_infra w), if dry then w else w\<lparr>c_spec := sp\<rparr>)
       | RawPatch _ \<Rightarrow> (Inl (StatusError ''BadRequest''), w)),
     get_cluster_operator = (\<lambda>n w. (Inr \<lparr>cd_name = n, cd_conditions =
       [mem_cond ''Available'' ''True'', mem_cond ''Degraded'' ''False'', mem_cond ''Progressing'' ''False'']\<rparr>, w)),
     get_feature_gate = (\<lambda>n w. (Inr [\<lparr>gd_version = ''4.20'', gd_enabled = [''VSphereMultiVCenterDay2''],
       gd_disabled = []\<rparr>], w)),
     get_config_map = (\<lambda>ns n w.
       case c_config w (ns, n) of
         None \<Rightarrow> (Inl (StatusError ''NotFound''), w)
       | Some (d, b) \<Rightarrow> (Inr (mem_config_map ns n d b), w)),
     update_config_map = (\<lambda>cm w.
       (Inr cm, w\<lparr>c_config := (c_config w)((cm_namespace cm, cm_name cm) \<mapsto>
         (cm_entries cm, cm_binaryData cm))\<rparr>)),
     get_secret = (\<lambda>ns n w.
       case c_secret w (ns, n) of
         None \<Rightarrow> (Inl (StatusError ''NotFound''), w)
       | Some d \<Rightarrow> (Inr \<lparr>sec_namespace = ns, sec_name = n, sec_data = d, sec_other = ''''\<rparr>, w)),
     update_secret = (\<lambda>sec w.
       if c_secret w (sec_namespace sec, sec_name sec) = None then (Inl (StatusError ''NotFound''), w)
       else (Inr sec, w\<lparr>c_secret := (c_secret w)((sec_namespace sec, sec_name sec) \<mapsto> sec_data sec)\<rparr>)),
     get_csi_driver = (\<lambda>n w. (Inr \<lparr>cd_name = n,
       cd_conditions = [mem_cond ''ControllerAvailable'' ''True'', mem_cond ''ControllerDegraded'' ''False'']\<rparr>, w)),
     list_pods = (\<lambda>ns l w. (Inr [\<lparr>pod_name = ''p'', pod_phase = ''Running'', pod_restarts = []\<rparr>], w)),
     list_machines = (\<lambda>l w. (Inr [], w)),
     list_nodes = (\<lambda>w. (Inr [], w)),
     stat_path = (\<lambda>p w. (c_disk w p \<noteq> None, w)),
     mkdir_all = (\<lambda>d w. (Inr (), w)),
     write_state = (\<lambda>p d w. (Inr (), w\<lparr>c_disk := (c_disk w)(p \<mapsto> d)\<rparr>)),
     read_state = (\<lambda>p w. (case c_disk w p of None \<Rightarrow> Inl (ForeignError ''no such file'') | Some d \<Rightarrow> Inr d, w)),
     read_text = (\<lambda>p w. (Inr ''file'', w)),
     json_marshal_spec = (\<lambda>sp. Inr (SpecPatch sp)),
     json_marshal_state = (\<lambda>st. Inr (StateDoc st)),
     json_unmarshal_state = (\<lambda>d. case d of StateDoc st \<Rightarrow> Inr st | OtherDoc t \<Rightarrow> Inl (ForeignError t)),
     yaml_unmarshal_lab = (\<lambda>t. Inr demo_cfg),
     yaml_unmarshal_cloud = (\<lambda>t. Inr (if t = ''merged'' then mem_merged else mem_cloud)),
     yaml_marshal_cloud = (\<lambda>c. if c = mem_merged then Inr ''merged'' else Inl (ForeignError ''yaml'')),
     yaml_unmarshal_creds = (\<lambda>t. Inr []),
     yaml_marshal_creds = (\<lambda>cs. Inr ''credentials: []''),
     poll = (\<lambda>i t. poll_upto 3),
     clock = (\<lambda>w. (0, w))\<rparr>"

definition mem_start :: cluster where
  "mem_start = \<lparr>c_spec = infra_spec demo_infra,
     c_config = (\<lambda>k. if k = (''openshift-config'', ''cloud-provider-config'')
       then Some ([(''config'', ''vcenter: {}''), (''ca.pem'', ''x'')], [])
       else if k = (''openshift-config-managed'', ''kube-cloud-config'')
       then Some ([(''cloud.conf'', ''vcenter: {}'')], []) else None),
     c_secret = (\<lambda>k. if k = (''kube-system'', ''vsphere-creds'')
       then Some [(''vc1.username'', ''u1''), (''vc1.password'', ''p1'')] else None),
     c_disk = (\<lambda>_. None)\<rparr>"

definition mem_st :: "cluster st" where
  "mem_st = \<lparr>world = mem_start, trace = []\<rparr>"

section \<open>The hypotheses hold\<close>

lemma mem_sel [simp]:
  "get_infra mem n w = (Inr (mem_infra w), w)"
  "update_infra mem i w = (Inr i, w\<lparr>c_spec := infra_spec i\<rparr>)"
  "patch_infra mem n pt dry w = (case pt of
         SpecPatch sp \<Rightarrow> (Inr (mem_infra w), if dry then w else w\<lparr>c_spec := sp\<rparr>)
       | RawPatch _ \<Rightarrow> (Inl (StatusError ''BadRequest''), w))"
  "get_config_map mem ns n w = (case c_config w (ns, n) of
         None \<Rightarrow> (Inl (StatusError ''NotFound''), w)
       | Some (d, b) \<Rightarrow> (Inr (mem_config_map ns n d b), w))"
  "update_config_map mem cm w = (Inr cm, w\<lparr>c_config := (c_config w)((cm_namespace cm, cm_name cm) \<mapsto>
         (cm_entries cm, cm_binaryData cm))\<rparr>)"
  "get_secret mem ns n w = (case c_secret w (ns, n) of
         None \<Rightarrow> (Inl (StatusError ''NotFound''), w)
       | Some d \<Rightarrow> (Inr \<lparr>sec_namespace = ns, sec_name = n, sec_data = d, sec_other = ''''\<rparr>, w))"
  "update_secret mem sec w =
       (if c_secret w (sec_namespace sec, sec_name sec) = None then (Inl (StatusError ''NotFound''), w)
       else (Inr sec, w\<lparr>c_secret := (c_secret w)((sec_namespace sec, sec_name sec) \<mapsto> sec_data sec)\<rparr>))"
  "stat_path mem p w = (c_disk w p \<noteq> None, w)"
  "mkdir_all mem p w = (Inr (), w)"
  "write_state mem p doc w = (Inr (), w\<lparr>c_disk := (c_disk w)(p \<mapsto> doc)\<rparr>)"
  "read_state mem p w = (case c_disk w p of None \<Rightarrow> Inl (ForeignError ''no such file'') | Some d \<Rightarrow> Inr d, w)"
  "read_text mem p w = (Inr ''file'', w)"
  "json_marshal_spec mem sp = Inr (SpecPatch sp)"
  "json_marshal_state mem st = Inr (StateDoc st)"
  "json_unmarshal_state mem doc = (case doc of StateDoc st \<Rightarrow> Inr st | OtherDoc t \<Rightarrow> Inl (ForeignError t))"
  "list_pods mem ns l w = (Inr [\<lparr>pod_name = ''p'', pod_phase = ''Running'', pod_restarts = []\<rparr>], w)"
  "list_machines mem l w = (Inr [], w)"
  "list_nodes mem w = (Inr [], w)"
  "poll mem = (\<lambda>i t. poll_upto 3)"
  by (simp_all add: mem_def)

lemma mem_sel_status [simp]:
  "snd (get_cluster_operator mem n w) = w" "snd (get_feature_gate mem n w) = w"
  "snd (get_csi_driver mem n w) = w"
  by (simp_all add: mem_def)

lemma mem_poller_ok: "poller_ok (poll mem)"
  by (auto simp: poller_ok_def)

lemma mem_named: "gets_named mem"
  by (auto simp: gets_named_def mem_config_map_def split: option.splits)

lemma mem_reads: "store_reads mem id"
  by (auto simp: store_reads_def keeps_def split: option.splits)

lemma mem_answers: "store_answers mem id"
  by (auto simp: store_answers_def mem_infra_def mem_config_map_def cm_entries_def split: option.splits)

lemma mem_writes: "store_writes mem id"
  by (auto simp: store_writes_def split: option.splits)

lemma mem_patches: "store_patches mem id"
proof -
  have "\<exists>sp. snd (patch_infra mem n pt False w) = w\<lparr>c_spec := sp\<rparr>" for n pt w
    by (cases pt) (auto intro: exI [of _ "c_spec w"])
  then show ?thesis by (auto simp: store_patches_def keeps_def split: patch.splits)
qed

lemma mem_store_ok: "store_ok mem id"
  by (simp only: store_ok_def mem_reads mem_answers mem_writes mem_patches mem_named mem_poller_ok simp_thms)

lemma mem_codec_ok: "state_codec_ok mem"
  by (simp add: state_codec_ok_def)

section \<open>A run of \<open>Apply\<close> and \<open>Restore\<close>\<close>

lemma poll_first: "poll env = (\<lambda>i t. poll_upto (Suc n)) \<Longrightarrow> snd (fst (pr s)) \<Longrightarrow>
    poll_last env fmt t pr s = (Inr (), snd (pr s))"
  by (simp add: poll_last_def probe_cond_eq)

lemma mem_status [simp]:
  "get_cluster_operator mem n w = (Inr \<lparr>cd_name = n, cd_conditions =
     [mem_cond ''Available'' ''True'', mem_cond ''Degraded'' ''False'', mem_cond ''Progressing'' ''False'']\<rparr>, w)"
  "get_csi_driver mem n w = (Inr \<lparr>cd_name = n, cd_conditions =
     [mem_cond ''ControllerAvailable'' ''True'', mem_cond ''ControllerDegraded'' ''False'']\<rparr>, w)"
  "get_feature_gate mem n w = (Inr [\<lparr>gd_version = ''4.20'', gd_enabled = [''VSphereMultiVCenterDay2''],
     gd_disabled = []\<rparr>], w)"
  by (simp_all add: mem_def)

lemmas comp_defs = bindM_def ret_def throw_def wrapM_def tryM_def liftR_def callE_def

lemma mem_poll [simp]: "poll mem = (\<lambda>i t. poll_upto (Suc 2))"
  by (simp add: eval_nat_numeral)

lemma mem_probes:
  "stable_probe mem name s = ((None, True), s\<lparr>trace := trace s @ [EGet ''clusteroperators'' '''' name]\<rparr>)"
  "csi_probe mem name s = ((None, True), s\<lparr>trace := trace s @ [EGet ''clustercsidrivers'' '''' name]\<rparr>)"
  "healthy_probe mem s = ((None, True), s\<lparr>trace := trace s @ [EList ''machines'' '''']\<rparr>)"
  "labeled_probe mem s = ((None, True), s\<lparr>trace := trace s @ [EList ''machines'' '''']\<rparr>)"
  "nodes_probe mem s = ((None, True), s\<lparr>trace := trace s @ [EList ''nodes'' '''']\<rparr>)"
  "pods_probe mem s = ((None, True), s\<lparr>trace := trace s @
     [EList ''pods'' CSIDriverControllerLabel, EList ''pods'' CSIDriverNodeLabel]\<rparr>)"
  by (simp_all add: probe_defs ListPodsByLabel_def wrapM_def mem_cond_def HasSuffix_def HasPrefix_def)

lemma mem_wait: "waitForClusterReady mem s = (Inr (), s\<lparr>trace := trace s @
    [EGet ''clusteroperators'' '''' ''cloud-controller-manager'', EGet ''clusteroperators'' '''' ''config-operator'',
     EGet ''clusteroperators'' '''' ''machine-api'', EGet ''clusteroperators'' '''' ''storage'',
     EGet ''clustercsidrivers'' '''' ClusterCSIDriverName, EList ''pods'' CSIDriverControllerLabel,
     EList ''pods'' CSIDriverNodeLabel, EList ''machines'' '''', EList ''nodes'' '''', EList ''machines'' '''']\<rparr>)"
  by (simp add: waitForClusterReady_def WaitForClusterOperatorStable_def WaitForClusterCSIDriverAvailable_def
      WaitForCSIDriverPodsReady_def WaitForAllMachinesHealthy_def WaitForAllNodesReady_def
      WaitForAllMachinesLabeled_def poll_first [OF mem_poll] mem_probes comp_defs operator_names_def)

lemma trim_facts: "TrimSpace ''vc2'' = ''vc2''" "TrimSpace ''admin'' = ''admin''" "TrimSpace ''fd2'' = ''fd2''"
    "TrimSpace ''r2'' = ''r2''" "TrimSpace ''z2'' = ''z2''" "TrimSpace ''dc2'' = ''dc2''"
    "TrimSpace ''/dc2/host/c2'' = ''/dc2/host/c2''" "TrimSpace ''/dc2/datastore/d2'' = ''/dc2/datastore/d2''"
    "TrimSpace ''/dc2/host/c2/Resources'' = ''/dc2/host/c2/Resources''" "TrimSpace ''vcenter: {}'' = ''vcenter: {}''"
  by code_simp+

lemma mem_validate: "LabConfig_Validate mem demo_cfg s = ((None, demo_cfg), s)"
  by (simp add: LabConfig_Validate_def VCenterConfig_Validate_def PasswordValue_def ret_def
      FailureDomainConfig_Validate_def demo_cfg_def demo_topology_def trim_facts Let_def)

lemma mem_gate: "gate_enabled ''VSphereMultiVCenterDay2'' [\<lparr>gd_version = ''4.20'',
     gd_enabled = [''VSphereMultiVCenterDay2''], gd_disabled = []\<rparr>]"
  by (simp add: gateEnabledInDetails_def)

lemma demo_paths: "statePath ''.lab-state'' = ''.lab-state/cluster-state.json''"
  "splitKey ''openshift-config/cloud-provider-config'' = Inr (''openshift-config'', ''cloud-provider-config'')"
  "splitKey ''kube-system/vsphere-creds'' = Inr (''kube-system'', ''vsphere-creds'')"
  by code_simp+

lemma demo_sel: "StateDir demo_cfg = ''.lab-state''" "Server (SecondVCenter demo_cfg) = ''vc2''"
  "Password (SecondVCenter demo_cfg) = ''pw''"
  by (simp_all add: demo_cfg_def)

lemma mem_codecs [simp]:
  "yaml_unmarshal_cloud mem t = Inr (if t = ''merged'' then mem_merged else mem_cloud)"
  "yaml_marshal_cloud mem (put_vcenter (SecondVCenter demo_cfg) ''pw'' mem_cloud) = Inr ''merged''"
  by (simp_all add: mem_def mem_merged_def)

lemma mem_cloud_codec: "cloud_codec_ok mem"
proof -
  have "TrimSpace ''merged'' = ''merged''" by code_simp
  then show ?thesis by (auto simp: cloud_codec_ok_def mem_def split: if_splits)
qed

lemma mem_start_sel: "world mem_st = mem_start" "trace mem_st = []"
  "c_spec mem_start = infra_spec demo_infra" "c_disk mem_start p = None"
  "c_config mem_start (''openshift-config'', ''cloud-provider-config'') =
     Some ([(''config'', ''vcenter: {}''), (''ca.pem'', ''x'')], [])"
  "c_config mem_start (''openshift-config-managed'', ''kube-cloud-config'') =
     Some ([(''cloud.conf'', ''vcenter: {}'')], [])"
  "c_secret mem_start (''kube-system'', ''vsphere-creds'') =
     Some [(''vc1.username'', ''u1''), (''vc1.password'', ''p1'')]"
  "c_secret mem_start (''openshift-config'', ''cloud-credentials'') = None"
  "c_secret mem_start (''openshift-machine-api'', ''vsphere-cloud-credentials'') = None"
  by (simp_all add: mem_start_def mem_st_def)

lemma demo_infra_sel: "IsVSphereCluster (Some (mem_infra w))" "infra_spec (mem_infra w) = c_spec w"
  by (simp_all add: IsVSphereCluster_def mem_infra_def go_defs)

lemma demo_vcs: "GetVCenters (Some (mem_infra mem_start)) =
    [\<lparr>vc_server = ''vc1'', vc_port = 443, vc_datacenters = [''dc1'']\<rparr>]"
  by (simp add: GetVCenters_def mem_infra_def mem_start_def demo_infra_def)

lemma demo_spec_mem: "buildInfrastructureSpec (mem_infra mem_start) demo_cfg = Inr (demo_spec, ''fd2'')"
  using demo_spec_build by (simp add: buildInfrastructureSpec_def mem_infra_def mem_start_def)

lemmas demo_run = comp_defs go_defs demo_sel demo_paths mem_start_sel demo_infra_sel demo_vcs
  demo_spec_mem mem_gate mem_wait mem_validate trim_facts mem_config_map_def Let_def

lemmas apply_defs = Apply_def apply_validated_def GetInfrastructure_def IsFeatureGateEnabled_def
  gateEnabledInDetails_def vsphereHasServer_def backup_step_def HasState_def captureState_def
  GetConfigMap_def backupCredentialSecrets_def vsphereCredentialBackupTargets_def objectKey_def
  SaveState_def commit_step_def updateCredentials_def gm_get_def mergeCloudProviderConfig_def
  PasswordValue_def ParseCloudConfigYAML_def updateCredentialSecrets_def
  vsphereCredentialSecretTargets_def update_target_def mergeCredentialSecretData_def
  mergeVSphereCredsSecret_def ReplaceInfrastructureSpec_def PatchInfrastructure_def gm_copy_def

lemmas restore_defs = Restore_def LoadState_def restore_objects_def RestoreInfrastructure_def
  restore_config_map_def restore_secret_def

lemma demo_apply_restore:
  "case Apply mem (Some demo_cfg) False mem_st of (r, s) \<Rightarrow>
     is_ok r \<and> list_all (\<lambda>e. \<not> failed_write e) (trace s) \<and> is_ok (fst (Restore mem (StateDir demo_cfg) s))"
  by (simp add: demo_run apply_defs restore_defs)

definition demo_applied :: "cluster st" where
  "demo_applied = snd (Apply mem (Some demo_cfg) False mem_st)"

definition demo_restored :: "cluster st" where
  "demo_restored = snd (Restore mem (StateDir demo_cfg) demo_applied)"

lemma demo_applied_run: "\<exists>res. Apply mem (Some demo_cfg) False mem_st = (Inr res, demo_applied)"
  using demo_apply_restore unfolding demo_applied_def
  by (cases "fst (Apply mem (Some demo_cfg) False mem_st)") (auto simp: prod_eq_iff split: prod.splits)

lemma demo_applied_trace: "list_all (\<lambda>e. \<not> failed_write e) (trace demo_applied)"
  using demo_apply_restore unfolding demo_applied_def by (simp add: case_prod_beta)

lemma demo_restored_run: "Restore mem (StateDir demo_cfg) demo_applied = (Inr (), demo_restored)"
  using demo_apply_restore unfolding demo_restored_def demo_applied_def
  by (cases "fst (Restore mem (StateDir demo_cfg) (snd (Apply mem (Some demo_cfg) False mem_st)))")
    (auto simp: prod_eq_iff case_prod_beta)

section \<open>Witnesses\<close>

theorem apply_backs_up_first_witness:
  "\<exists>tr. trace demo_applied = tr \<and> guarded (backs_up (statePath ''.lab-state'')) persists tr"
  using apply_backs_up_first [OF mem_poller_ok, of demo_cfg False mem_st]
  by (simp add: demo_applied_def demo_sel mem_start_sel)

theorem apply_touches_only_witness: "emitted (apply_may ''.lab-state'') mem_st demo_applied"
  using apply_touches_only [OF mem_poller_ok mem_named, of demo_cfg mem_st False]
  by (simp add: demo_applied_def demo_cfg_def)

theorem restore_spares_managed_secret_witness: "emitted restore_may demo_applied demo_restored"
  unfolding demo_restored_def by (rule restore_spares_managed_secret [OF mem_poller_ok mem_named])

theorem apply_changes_only_when_allowed_witness:
  "\<exists>s1 infra s2. GetInfrastructure mem s1 = (Inr infra, s2) \<and> IsVSphereCluster (Some infra) \<and>
    length (GetVCenters (Some infra)) < 3"
proof -
  obtain res where "Apply mem (Some demo_cfg) False mem_st = (Inr res, demo_applied)"
    using demo_applied_run ..
  from apply_changes_only_when_allowed [OF this] show ?thesis by (simp only: is_ok_simps) blast
qed

theorem waitForClusterReady_sees_ready_witness:
  "all_seen_ready mem mem_st (snd (waitForClusterReady mem mem_st))"
  by (rule waitForClusterReady_sees_ready [OF mem_poller_ok]) (simp add: mem_wait)

lemma mem_ready_soon: "ready_soon 2 mem"
proof -
  have "list_ex rd (probe_states pr k s)" if "rd s" for rd :: "cluster st \<Rightarrow> bool" and pr k s
    using that by (cases k) simp_all
  then have "soon k pr rd" if "\<And>s. rd s" for k pr and rd :: "cluster st \<Rightarrow> bool"
    using that by (simp add: soon_def)
  moreover have "stable_ready mem name s" "csi_ready mem name s" "pods_ready mem s" "machines_healthy mem s"
      "nodes_ready mem s" "machines_labeled mem s" for name s
    by (simp_all add: stable_ready_def stable_def available_def condition_status_def csi_ready_def
        csi_available_def pods_ready_def machines_healthy_def nodes_ready_def machines_labeled_def
        mem_cond_def HasSuffix_def HasPrefix_def)
  ultimately show ?thesis by (simp add: ready_soon_def list_all_iff)
qed

theorem waitForClusterReady_returns_witness: "\<exists>s'. waitForClusterReady mem mem_st = (Inr (), s')"
proof (rule waitForClusterReady_returns [OF _ mem_ready_soon])
  show "poller_patient 2 (poll mem)" unfolding poller_patient_def mem_poll by (metis lessI less_imp_le)
qed

definition verify_cfg :: LabConfig where
  "verify_cfg = demo_cfg\<lparr>SecondVCenter := (SecondVCenter demo_cfg)\<lparr>Server := ''vc1''\<rparr>\<rparr>"

lemma demo_present: "AssertInfrastructureVCentersPresent (Some (mem_infra mem_start)) (Some mem_cloud) = None"
  by (simp add: present_iff mem_infra_def mem_start_def demo_infra_def VCenterServers_def
      config_names_def mem_cloud_def vcenter_entries_def entry_server_def)

lemma demo_verify: "fst (Verify mem verify_cfg mem_st) = Inr ()"
  by (simp add: Verify_def CheckOperatorsNotDegraded_def check_not_degraded_def
      GetClusterOperatorCondition_def demo_run GetInfrastructure_def GetConfigMap_def verify_cfg_def
      vsphereHasServer_def mem_cond_def gm_get_def ParseCloudConfigYAML_def demo_present)

theorem verify_sound_witness:
  "\<exists>s1 infra s2. GetInfrastructure mem s1 = (Inr infra, s2) \<and> ''vc1'' \<in> set (VCenterServers (GetVCenters (Some infra)))"
proof -
  have "Verify mem verify_cfg mem_st = (Inr (), snd (Verify mem verify_cfg mem_st))"
    using demo_verify by (simp add: prod_eq_iff)
  from verify_sound [OF this] show ?thesis by (auto simp: verify_cfg_def)
qed

theorem restore_undoes_apply_witness:
  "c_spec (world demo_restored) = c_spec mem_start \<and> c_config (world demo_restored) = c_config mem_start \<and>
    c_secret (world demo_restored) = c_secret mem_start"
proof -
  obtain res where run: "Apply mem (Some demo_cfg) False mem_st = (Inr res, demo_applied)"
    using demo_applied_run ..
  have "c_disk (id (world mem_st)) (statePath (StateDir demo_cfg)) = None" by (simp add: mem_start_sel)
  from restore_undoes_apply [OF mem_store_ok mem_codec_ok this run demo_applied_trace demo_restored_run]
  show ?thesis by (simp add: mem_start_sel)
qed

theorem apply_success_effect_witness:
  "c_secret (world demo_applied) root_creds_key =
     Some [(''vc1.username'', ''u1''), (''vc1.password'', ''p1''), (''vc2.username'', ''admin''), (''vc2.password'', ''pw'')]"
proof -
  obtain res where run: "Apply mem (Some demo_cfg) False mem_st = (Inr res, demo_applied)"
    using demo_applied_run ..
  have "Password (SecondVCenter demo_cfg) \<noteq> ''''" by (simp add: demo_sel)
  from apply_success_effect [OF mem_store_ok this run] show ?thesis
    by (auto simp: root_creds_key_def go_defs mem_start_sel put_credentials_def gm_copy_def
        normalised_def demo_cfg_def trim_facts)
qed

section \<open>Witnesses for the merges and the configuration\<close>

abbreviation demo_vc :: VCenterConfig where
  "demo_vc \<equiv> SecondVCenter demo_cfg"

lemma demo_vc_sel: "Server demo_vc = ''vc2''" "Username demo_vc = ''admin''" "Password demo_vc = ''pw''"
  by (simp_all add: demo_cfg_def)

lemma mem_load: "yaml_unmarshal_lab mem t = Inr demo_cfg"
  by (simp add: mem_def)

theorem load_returns_valid_config_witness: "config_wf demo_cfg"
proof -
  have "Load mem ''config/lab.yaml'' mem_st = (Inr demo_cfg, snd (Load mem ''config/lab.yaml'' mem_st))"
    by (simp add: Load_def comp_defs mem_load mem_validate) (simp add: demo_cfg_def)
  from load_returns_valid_config [OF this] show ?thesis by (simp add: demo_sel)
qed

theorem per_vcenter_merge_witness:
  "\<exists>out. mergeVSphereCredsSecret mem [] demo_vc mem_st = (Inr out, mem_st) \<and>
    secret_view out ''vc2'' = Some (''admin'', ''pw'')"
proof -
  have run: "mergeVSphereCredsSecret mem [] demo_vc mem_st =
      (Inr (put_credentials demo_vc ''pw'' []), mem_st)"
    by (simp add: mergeVSphereCredsSecret_def PasswordValue_def demo_vc_sel ret_def bindM_def gm_copy_def)
  from per_vcenter_merge [OF gm_ok_Nil this] obtain pw where
    "PasswordValue mem demo_vc mem_st = (Inr pw, mem_st)"
    "secret_view (put_credentials demo_vc ''pw'' []) = Map.empty(''vc2'' \<mapsto> (''admin'', pw))"
    by (auto simp: demo_vc_sel secret_view_def fun_eq_iff)
  then have "secret_view (put_credentials demo_vc ''pw'' []) ''vc2'' = Some (''admin'', ''pw'')"
    by (simp add: PasswordValue_def demo_vc_sel ret_def)
  with run show ?thesis by blast
qed

definition demo_cred :: vsphereCredential where
  "demo_cred = \<lparr>cred_URL = ''vc2'', cred_Username = ''admin'', cred_Password = ''pw''\<rparr>"

definition creds_env :: "cluster env" where
  "creds_env = mem\<lparr>
     yaml_marshal_creds := (\<lambda>cs. if cs = [demo_cred] then Inr ''x'' else Inl (ForeignError '''')),
     yaml_unmarshal_creds := (\<lambda>t. if t = ''x'' then Inr [demo_cred] else Inl (ForeignError ''''))\<rparr>"

lemma creds_env_ok: "creds_codec_ok creds_env"
  by (auto simp: creds_codec_ok_def creds_env_def split: if_splits)


definition cloud_env :: "cluster env" where
  "cloud_env = mem\<lparr>
     yaml_marshal_cloud := (\<lambda>c. if c = put_vcenter demo_vc ''pw'' mem_cloud then Inr ''new''
       else if c = put_vcenter demo_vc ''pw'' (fallback_config None) then Inr ''fallback''
       else Inl (ForeignError '''')),
     yaml_unmarshal_cloud := (\<lambda>t. if t = ''new'' then Inr (put_vcenter demo_vc ''pw'' mem_cloud)
       else if t = ''fallback'' then Inr (put_vcenter demo_vc ''pw'' (fallback_config None))
       else if t = ''old'' then Inr mem_cloud else Inl (ForeignError ''''))\<rparr>"

lemma cloud_env_ok: "cloud_codec_ok cloud_env"
proof -
  have "TrimSpace ''new'' = ''new''" "TrimSpace ''fallback'' = ''fallback''" by code_simp+
  then show ?thesis by (auto simp: cloud_codec_ok_def cloud_env_def split: if_splits)
qed

lemma cloud_env_parse: "ParseCloudConfigYAML cloud_env ''old'' = Inr mem_cloud"
  "\<exists>e. ParseCloudConfigYAML cloud_env ''bad'' = Inl e"
proof -
  have "TrimSpace ''old'' = ''old''" "TrimSpace ''bad'' = ''bad''" by code_simp+
  then show "ParseCloudConfigYAML cloud_env ''old'' = Inr mem_cloud"
    "\<exists>e. ParseCloudConfigYAML cloud_env ''bad'' = Inl e"
    by (simp_all add: ParseCloudConfigYAML_def cloud_env_def)
qed

lemma demo_vc_password: "Password demo_vc \<noteq> ''''"
  by (simp add: demo_vc_sel)

lemma cloud_env_merge: "mergeCloudProviderConfig cloud_env ''old'' None demo_vc mem_st = (Inr ''new'', mem_st)"
  "mergeCloudProviderConfig cloud_env ''bad'' None demo_vc mem_st = (Inr ''fallback'', mem_st)"
proof -
  have pw: "PasswordValue cloud_env demo_vc mem_st = (Inr ''pw'', mem_st)"
    by (simp add: PasswordValue_def demo_vc_sel ret_def)
  have "fallback_config None \<noteq> mem_cloud" by (simp add: fallback_config_def mem_cloud_def)
  have ne: "put_vcenter demo_vc ''pw'' (fallback_config None) \<noteq> put_vcenter demo_vc ''pw'' mem_cloud"
    by (simp add: put_vcenter_def fallback_config_def mem_cloud_def GetVCenters_def Let_def
        cloudConfigUsesSecretRef_def secret_ref_keys_def demo_vc_sel)
  show "mergeCloudProviderConfig cloud_env ''old'' None demo_vc mem_st = (Inr ''new'', mem_st)"
    unfolding merge_config_Inr using pw cloud_env_parse(1) by (simp add: cloud_env_def)
  show "mergeCloudProviderConfig cloud_env ''bad'' None demo_vc mem_st = (Inr ''fallback'', mem_st)"
    unfolding merge_config_Inr using pw cloud_env_parse(2) ne by (auto simp: cloud_env_def)
qed

theorem config_merge_updates_one_entry_witness:
  "\<exists>new. ParseCloudConfigYAML cloud_env ''new'' = Inr new \<and> config_view new ''vc2'' = Some (cloud_entry demo_vc)"
  using config_merge_updates_one_entry [OF cloud_env_ok cloud_env_parse(1) demo_vc_password cloud_env_merge(1)]
  by (auto simp: demo_vc_sel)

theorem config_merge_after_parse_error_witness:
  "\<exists>new. ParseCloudConfigYAML cloud_env ''fallback'' = Inr new \<and> Extra new = []"
proof -
  obtain e where "ParseCloudConfigYAML cloud_env ''bad'' = Inl e" using cloud_env_parse(2) ..
  from config_merge_after_parse_error [OF cloud_env_ok this demo_vc_password cloud_env_merge(2)]
  show ?thesis by blast
qed

theorem merge_keeps_presence_witness:
  "AssertInfrastructureVCentersPresent (Some (demo_infra\<lparr>infra_spec := demo_spec\<rparr>))
     (Some (put_vcenter demo_vc ''pw'' mem_cloud)) = None"
proof (rule merge_keeps_presence)
  show "AssertInfrastructureVCentersPresent (Some demo_infra) (Some mem_cloud) = None"
    by (simp add: present_iff demo_infra_def VCenterServers_def config_names_def mem_cloud_def
        vcenter_entries_def entry_server_def)
  show "Server demo_vc \<notin> fst ` set (vcenter_entries mem_cloud)"
    by (simp add: demo_vc_sel mem_cloud_def vcenter_entries_def)
  show "is_vsphere (infra_spec demo_infra) = Some (the (is_vsphere (infra_spec demo_infra)))"
    by (simp add: demo_infra_def)
  obtain q where q: "is_vsphere (infra_spec demo_infra) = Some q"
      "demo_spec = infra_spec demo_infra\<lparr>is_vsphere := Some (q\<lparr>
         vs_vcenters := vs_vcenters q @ [new_vcenter demo_cfg],
         vs_failureDomains := vs_failureDomains q @ added_failure_domains demo_cfg\<rparr>)\<rparr>"
    using demo_spec_build by (auto simp: buildInfrastructureSpec_Inr)
  have p: "is_vsphere demo_spec = Some (the (is_vsphere demo_spec))"
      "VCenterServers (vs_vcenters (the (is_vsphere demo_spec))) =
        VCenterServers (vs_vcenters (the (is_vsphere (infra_spec demo_infra)))) @ [Server demo_vc]"
    using q(1) by (simp_all add: q(2) VCenterServers_def new_vcenter_def demo_sel)
  from p show "is_vsphere (infra_spec (demo_infra\<lparr>infra_spec := demo_spec\<rparr>)) = Some (the (is_vsphere demo_spec))"
    by simp
  show "VCenterServers (vs_vcenters (the (is_vsphere demo_spec))) =
      VCenterServers (vs_vcenters (the (is_vsphere (infra_spec demo_infra)))) @ [Server demo_vc]"
    using p by simp
qed


section \<open>Apply, the operators, Verify\<close>

lemma demo_applied_config: "c_config (world demo_applied) (''openshift-config'', ''cloud-provider-config'') =
    Some ([(''config'', ''merged''), (''ca.pem'', ''x'')], [])"
  "c_spec (world demo_applied) = demo_spec"
  unfolding demo_applied_def by (simp_all add: demo_run apply_defs)

text \<open>The operators copy the configuration.\<close>

definition demo_synced :: "cluster st" where
  "demo_synced = demo_applied\<lparr>world := (world demo_applied)\<lparr>c_config := (c_config (world demo_applied))
     ((''openshift-config-managed'', ''kube-cloud-config'') \<mapsto> ([(''cloud.conf'', ''merged'')], []))\<rparr>\<rparr>"

lemma demo_synced: "synced (world demo_applied) (world demo_synced)"
  by (simp add: synced_def demo_synced_def source_config_key_def managed_config_key_def go_defs
      demo_applied_config gm_get_def)

lemma mem_healthy: "healthy_operators mem"
  by (simp add: healthy_operators_def operator_names_def GetClusterOperatorCondition_def get_operator_def
      comp_defs mem_cond_def)

lemma mem_serves: "serves mem id"
  by (auto simp: serves_def split: option.splits)

lemma demo_in_step: "source_in_step mem mem_start ''vc2''"
  by (simp add: source_in_step_def source_config_key_def go_defs mem_start_sel ParseCloudConfigYAML_def
      trim_facts gm_get_def)
    (simp add: mem_cloud_def vcenter_entries_def config_names_def spec_vcenters_def demo_infra_def VCenterServers_def)

lemma demo_normal: "demo_cfg = demo_cfg\<lparr>SecondVCenter := normalised (SecondVCenter demo_cfg)\<rparr>"
  by (simp add: normalised_def demo_cfg_def trim_facts)

theorem apply_then_verify_witness: "fst (Verify mem demo_cfg demo_synced) = Inr ()"
proof -
  obtain res where run: "Apply mem (Some demo_cfg) False mem_st = (Inr res, demo_applied)"
    using demo_applied_run ..
  have src: "source_in_step mem (id (world mem_st)) (Server (SecondVCenter demo_cfg))"
    using demo_in_step by (simp add: mem_start_sel demo_sel)
  have "c_spec (id (world demo_synced)) = c_spec (id (world demo_applied))" by (simp add: demo_synced_def)
  from apply_then_verify [OF mem_store_ok mem_healthy mem_serves mem_cloud_codec demo_vc_password demo_normal
      src run this] demo_synced
  show ?thesis by simp
qed


section \<open>A writer between the read and the patch\<close>

text \<open>
  The patch of \<open>Apply\<close> is built from the Infrastructure it read in the beginning and has no resource
  version: whatever the spec has become meanwhile, it is replaced.
\<close>

lemma stale_spec_overwrites:
  "\<exists>res s'. commit_step mem demo_cfg False (mem_infra mem_start) (mem_st\<lparr>world := mem_start\<lparr>c_spec := sp\<rparr>\<rparr>) = (Inr res, s')
     \<and> c_spec (world s') = demo_spec"
  by (simp add: demo_run apply_defs)

end
