(* ===== verification/MachineSets.thy ===== *)
theory MachineSets
  imports Readiness
begin

text \<open>
  The pure part of \<open>pkg/framework/machine.go\<close>: reading the vSphere provider spec of machines
  and machine sets, cloning machine sets, and rewriting inventory paths.  The JSON codec of
  provider specs is a parameter, the pair \<open>json_unmarshal_ps\<close>, \<open>json_marshal_ps\<close> of
  \<open>machine_api\<close>, which also has the machine API calls that \<open>MachineOps\<close> uses.
\<close>

section \<open>The machine API\<close>

record 'w machine_api =
  get_machine_set :: "string \<Rightarrow> 'w \<Rightarrow> machine_set res \<times> 'w"
  update_machine_set :: "machine_set \<Rightarrow> 'w \<Rightarrow> machine_set res \<times> 'w"
  create_machine_set :: "machine_set \<Rightarrow> 'w \<Rightarrow> machine_set res \<times> 'w"
  delete_machine_set :: "string \<Rightarrow> 'w \<Rightarrow> unit res \<times> 'w"
  delete_machine :: "string \<Rightarrow> 'w \<Rightarrow> unit res \<times> 'w"
  json_unmarshal_ps :: "string \<Rightarrow> provider_spec res"
  json_marshal_ps :: "provider_spec \<Rightarrow> string res"
  retry_on_conflict :: "('w st \<Rightarrow> unit res \<times> 'w st) \<Rightarrow> 'w st \<Rightarrow> unit res \<times> 'w st"

section \<open>Provider specs\<close>

definition ExtractVSphereMachineProviderSpec :: "'w machine_api \<Rightarrow> machine \<Rightarrow> provider_spec res" where
  "ExtractVSphereMachineProviderSpec api m =
     (case m_providerSpec m of
        None \<Rightarrow> Inl (Errorf ''machine %s has nil providerSpec'' [AStr (m_name m)])
      | Some raw \<Rightarrow>
          (case json_unmarshal_ps api raw of
             Inl err \<Rightarrow> Inl (Wrapf ''unmarshal machine %s providerSpec: %w'' [AStr (m_name m)] err)
           | Inr spec \<Rightarrow> Inr spec))"

definition ExtractVSphereMachineSetProviderSpec ::
  "'w machine_api \<Rightarrow> machine_set \<Rightarrow> provider_spec res" where
  "ExtractVSphereMachineSetProviderSpec api ms =
     (case ms_providerSpec ms of
        None \<Rightarrow> Inl (Errorf ''machineset %s has nil providerSpec'' [AStr (ms_name ms)])
      | Some raw \<Rightarrow>
          (case json_unmarshal_ps api raw of
             Inl err \<Rightarrow> Inl (Wrapf ''unmarshal machineset %s providerSpec: %w'' [AStr (ms_name ms)] err)
           | Inr spec \<Rightarrow> Inr spec))"

definition CPMSVSphereFailureDomainNames :: "cpms \<Rightarrow> string list" where
  "CPMSVSphereFailureDomainNames c =
     (case cpms_machineTemplate c of
        None \<Rightarrow> []
      | Some fds \<Rightarrow> (case fds of None \<Rightarrow> [] | Some names \<Rightarrow> names))"

section \<open>Inventory paths\<close>

text \<open>
  The loop of \<open>splitOn\<close> keeps the segment \<open>s[start:i]\<close> it is in; here that segment is the first
  argument.
\<close>

fun splitOn_loop :: "string \<Rightarrow> string \<Rightarrow> char \<Rightarrow> string list" where
  "splitOn_loop seg [] sep = [seg]"
| "splitOn_loop seg (x # s) sep =
     (if x = sep then seg # splitOn_loop [] s sep else splitOn_loop (seg @ [x]) s sep)"

definition splitOn :: "string \<Rightarrow> char \<Rightarrow> string list" where
  "splitOn s sep = splitOn_loop [] s sep"

definition splitVSpherePath :: "string \<Rightarrow> string list" where
  "splitVSpherePath p = filter (\<lambda>s. s \<noteq> []) (splitOn p (CHR ''/''))"

definition joinVSpherePath :: "string list \<Rightarrow> string" where
  "joinVSpherePath parts =
     (case parts of [] \<Rightarrow> [] | p # ps \<Rightarrow> foldl (\<lambda>result q. result @ ''/'' @ q) p ps)"

definition rewriteFolderDatacenter :: "string \<Rightarrow> string \<Rightarrow> string" where
  "rewriteFolderDatacenter folder newDC =
     (let parts = splitVSpherePath folder;
          parts = (if length parts \<ge> 1 then parts[0 := newDC] else parts)
      in ''/'' @ joinVSpherePath parts)"

definition rewriteTemplateDatacenter :: "string \<Rightarrow> string \<Rightarrow> string" where
  "rewriteTemplateDatacenter template newDC =
     (let parts = splitVSpherePath template;
          parts = (if length parts \<ge> 1 then parts[0 := newDC] else parts)
      in ''/'' @ joinVSpherePath parts)"

section \<open>Cloning\<close>

definition machineSetLabel :: string where
  [go_defs]: "machineSetLabel = ''machine.openshift.io/cluster-api-machineset''"

definition CloneMachineSetForVAP ::
  "machine_set \<Rightarrow> string \<Rightarrow> string \<Rightarrow> string \<Rightarrow> int32 \<Rightarrow> machine_set" where
  "CloneMachineSetForVAP source name region zone replicas =
     \<lparr>ms_name = name, ms_namespace = ms_namespace source,
      ms_labels = [(MachineRegionLabel, region), (MachineZoneLabel, zone)],
      ms_replicas = Some replicas,
      ms_matchLabels = [(machineSetLabel, name)],
      ms_templateLabels =
        [(machineSetLabel, name), (MachineRegionLabel, region), (MachineZoneLabel, zone)],
      ms_providerSpec = ms_providerSpec source,
      ms_resourceVersion = '''', ms_other = ''''\<rparr>"

text \<open>A nil label map reads like an empty one, so the guard on \<open>Labels != nil\<close> needs no case.\<close>

definition CloneMachineSetSameSpec :: "machine_set \<Rightarrow> string \<Rightarrow> machine_set" where
  "CloneMachineSetSameSpec source newName =
     (let region = gm_get (ms_templateLabels source) MachineRegionLabel;
          zone = gm_get (ms_templateLabels source) MachineZoneLabel
      in \<lparr>ms_name = newName, ms_namespace = ms_namespace source,
          ms_labels = [(MachineRegionLabel, region), (MachineZoneLabel, zone)],
          ms_replicas = Some 0,
          ms_matchLabels = [(machineSetLabel, newName)],
          ms_templateLabels =
            [(machineSetLabel, newName), (MachineRegionLabel, region), (MachineZoneLabel, zone)],
          ms_providerSpec = ms_providerSpec source,
          ms_resourceVersion = '''', ms_other = ''''\<rparr>)"

definition empty_workspace :: vsphere_workspace where
  "empty_workspace = \<lparr>ws_server = '''', ws_datacenter = '''', ws_datastore = '''',
     ws_resourcePool = '''', ws_folder = '''', ws_other = ''''\<rparr>"

definition spec_for_fd :: "provider_spec \<Rightarrow> string \<Rightarrow> TopologyConfig \<Rightarrow> provider_spec" where
  "spec_for_fd srcSpec server topo =
     (let ws = (case ps_workspace srcSpec of None \<Rightarrow> empty_workspace | Some w \<Rightarrow> w);
          ws = ws\<lparr>ws_server := server, ws_datacenter := Datacenter topo,
                  ws_datastore := Datastore topo, ws_resourcePool := ResourcePool topo\<rparr>;
          ws = (case ps_workspace srcSpec of
                  None \<Rightarrow> ws
                | Some w \<Rightarrow>
                    if ws_folder w \<noteq> ''''
                    then ws\<lparr>ws_folder := rewriteFolderDatacenter (ws_folder w) (Datacenter topo)\<rparr>
                    else ws);
          newSpec = srcSpec\<lparr>ps_workspace := Some ws\<rparr>;
          newSpec = (if Template topo \<noteq> '''' then newSpec\<lparr>ps_template := Template topo\<rparr>
                     else if ps_template srcSpec \<noteq> ''''
                     then newSpec\<lparr>ps_template :=
                            rewriteTemplateDatacenter (ps_template srcSpec) (Datacenter topo)\<rparr>
                     else newSpec)
      in if length (Networks topo) > 0
         then newSpec\<lparr>ps_devices :=
                map (\<lambda>net. \<lparr>nd_networkName = net, nd_other = ''''\<rparr>) (Networks topo)\<rparr>
         else newSpec)"

definition CloneMachineSetForFD ::
  "'w machine_api \<Rightarrow> machine_set \<Rightarrow> string \<Rightarrow> LabConfig \<Rightarrow> machine_set res" where
  "CloneMachineSetForFD api source name labCfg =
     (case FailureDomain labCfg of
        None \<Rightarrow> Inl (Errorf ''lab config has no failureDomain'' [])
      | Some fd \<Rightarrow>
          (case ExtractVSphereMachineSetProviderSpec api source of
             Inl err \<Rightarrow> Inl (Wrapf ''extract source providerSpec: %w'' [] err)
           | Inr srcSpec \<Rightarrow>
               (case json_marshal_ps api
                       (spec_for_fd srcSpec (Server (SecondVCenter labCfg)) (Topology fd)) of
                  Inl err \<Rightarrow> Inl (Wrapf ''marshal providerSpec: %w'' [] err)
                | Inr rawSpec \<Rightarrow>
                    Inr \<lparr>ms_name = name, ms_namespace = ms_namespace source,
                         ms_labels = [(MachineRegionLabel, Region fd), (MachineZoneLabel, Zone fd)],
                         ms_replicas = Some 1,
                         ms_matchLabels = [(machineSetLabel, name)],
                         ms_templateLabels =
                           [(machineSetLabel, name), (MachineRegionLabel, Region fd),
                            (MachineZoneLabel, Zone fd)],
                         ms_providerSpec = Some rawSpec,
                         ms_resourceVersion = '''', ms_other = ''''\<rparr>)))"

section \<open>Paths are what they look like\<close>

lemma splitOn_loop_Split: "splitOn_loop seg s sep = (seg @ hd (Split s sep)) # tl (Split s sep)"
  by (induction seg s sep rule: splitOn_loop.induct) (auto split: list.splits)

lemma splitOn_Split: "splitOn s sep = Split s sep"
  by (simp add: splitOn_def splitOn_loop_Split)

lemma joinVSpherePath_Join: "joinVSpherePath parts = Join parts ''/''"
proof -
  have "foldl (\<lambda>result q. result @ ''/'' @ q) p ps = Join (p # ps) ''/''" for p ps
  proof (induction ps arbitrary: p)
    case (Cons q ps)
    have "Join ((p @ ''/'' @ q) # ps) ''/'' = Join (p # q # ps) ''/''" by (cases ps) simp_all
    then show ?case using Cons by simp
  qed simp
  then show ?thesis by (simp add: joinVSpherePath_def split: list.splits)
qed

text \<open>A path component, and the paths the rewriting writes.\<close>

definition component :: "string \<Rightarrow> bool" where
  "component p \<longleftrightarrow> p \<noteq> '''' \<and> CHR ''/'' \<notin> set p"

lemma splitVSpherePath_components: "p \<in> set (splitVSpherePath s) \<Longrightarrow> component p"
  by (auto simp: splitVSpherePath_def splitOn_Split component_def dest: Split_no_sep)

lemma split_join_path:
  assumes "\<forall>p \<in> set parts. component p"
  shows "splitVSpherePath (''/'' @ joinVSpherePath parts) = parts"
proof (cases parts)
  case Nil
  then show ?thesis by (simp add: splitVSpherePath_def splitOn_Split joinVSpherePath_def)
next
  case (Cons p ps)
  then have "Split (joinVSpherePath parts) (CHR ''/'') = parts"
    using assms by (auto simp: joinVSpherePath_Join component_def intro!: Split_Join)
  moreover have "filter (\<lambda>s. s \<noteq> []) parts = parts"
    using assms by (auto simp: component_def filter_id_conv)
  ultimately show ?thesis by (simp add: splitVSpherePath_def splitOn_Split)
qed

lemma rewrite_template_folder: "rewriteTemplateDatacenter = rewriteFolderDatacenter"
  by (simp add: fun_eq_iff rewriteTemplateDatacenter_def rewriteFolderDatacenter_def)

lemma rewrite_folder_eq:
  "rewriteFolderDatacenter f dc = ''/'' @ joinVSpherePath
     (case splitVSpherePath f of [] \<Rightarrow> [] | _ # ps \<Rightarrow> dc # ps)"
  by (simp add: rewriteFolderDatacenter_def Let_def split: list.splits)

lemma split_rewrite:
  assumes "component dc"
  shows "splitVSpherePath (rewriteFolderDatacenter f dc) =
    (case splitVSpherePath f of [] \<Rightarrow> [] | _ # ps \<Rightarrow> dc # ps)"
proof -
  have "\<forall>p \<in> set (case splitVSpherePath f of [] \<Rightarrow> [] | _ # ps \<Rightarrow> dc # ps). component p"
    using assms splitVSpherePath_components [of _ f] by (cases "splitVSpherePath f") auto
  then show ?thesis unfolding rewrite_folder_eq by (rule split_join_path)
qed

text \<open>Rewriting the datacenter of an inventory path replaces the first component and keeps
  all others, whatever slashes the path had; for the documented form it gives the documented
  result, and a second rewriting overrides the first.  The template path is rewritten alike.\<close>

theorem rewrite_datacenter:
  assumes dc: "component dc"
  shows "splitVSpherePath (rewriteFolderDatacenter path dc) =
      (case splitVSpherePath path of [] \<Rightarrow> [] | old # rest \<Rightarrow> dc # rest) \<and>
    rewriteFolderDatacenter (rewriteFolderDatacenter path dc) dc' = rewriteFolderDatacenter path dc' \<and>
    rewriteTemplateDatacenter path dc = rewriteFolderDatacenter path dc \<and>
    (component old \<longrightarrow> component infraID \<longrightarrow>
      rewriteFolderDatacenter (''/'' @ old @ ''/vm/'' @ infraID) dc = ''/'' @ dc @ ''/vm/'' @ infraID)"
proof (intro conjI impI)
  show "splitVSpherePath (rewriteFolderDatacenter path dc) =
      (case splitVSpherePath path of [] \<Rightarrow> [] | old # rest \<Rightarrow> dc # rest)"
    by (rule split_rewrite [OF dc])
  show "rewriteFolderDatacenter (rewriteFolderDatacenter path dc) dc' = rewriteFolderDatacenter path dc'"
    by (simp add: rewrite_folder_eq [of "rewriteFolderDatacenter path dc"] split_rewrite [OF dc])
      (simp add: rewrite_folder_eq split: list.splits)
  show "rewriteTemplateDatacenter path dc = rewriteFolderDatacenter path dc"
    by (simp add: rewrite_template_folder)
  assume "component old" "component infraID"
  then have "splitVSpherePath (''/'' @ joinVSpherePath [old, ''vm'', infraID]) = [old, ''vm'', infraID]"
    by (intro split_join_path) (simp add: component_def)
  then show "rewriteFolderDatacenter (''/'' @ old @ ''/vm/'' @ infraID) dc = ''/'' @ dc @ ''/vm/'' @ infraID"
    by (simp add: rewrite_folder_eq joinVSpherePath_def)
qed

theorem rewrite_datacenter_witness:
  "rewriteFolderDatacenter ''/dc1/vm/infra-x'' ''dc2'' = ''/dc2/vm/infra-x''"
  using rewrite_datacenter [of "''dc2''" "''/dc1''" "''''" "''dc1''" "''infra-x''"]
  by (simp add: component_def)

section \<open>Clones\<close>

text \<open>
  What the API server asks of a machine set: its selector selects its own template; and what
  the tests ask of a clone: the name, the namespace of the source, the region and zone.
\<close>

definition selects_template :: "machine_set \<Rightarrow> bool" where
  "selects_template ms \<longleftrightarrow>
     (\<forall>(k, v) \<in> set (ms_matchLabels ms). gm_lookup (ms_templateLabels ms) k = Some v)"

definition clone_of :: "machine_set \<Rightarrow> string \<Rightarrow> string \<Rightarrow> string \<Rightarrow> int32 \<Rightarrow> machine_set \<Rightarrow> bool" where
  "clone_of src name region zone n ms \<longleftrightarrow>
     ms_name ms = name \<and> ms_namespace ms = ms_namespace src \<and> ms_replicas ms = Some n \<and>
     selects_template ms \<and> gm_ok (ms_labels ms) \<and> gm_ok (ms_templateLabels ms) \<and>
     gm_lookup (ms_matchLabels ms) machineSetLabel = Some name \<and>
     gm_get (ms_labels ms) MachineRegionLabel = region \<and>
     gm_get (ms_labels ms) MachineZoneLabel = zone \<and>
     gm_get (ms_templateLabels ms) MachineRegionLabel = region \<and>
     gm_get (ms_templateLabels ms) MachineZoneLabel = zone"

definition ps_codec_ok :: "'w machine_api \<Rightarrow> bool" where
  "ps_codec_ok api \<longleftrightarrow>
     (\<forall>ps raw. json_marshal_ps api ps = Inr raw \<longrightarrow> json_unmarshal_ps api raw = Inr ps)"

lemmas clone_simps = clone_of_def selects_template_def gm_ok_def gm_get_def go_defs Let_def

text \<open>The provider spec that places a machine in the failure domain of the configuration.\<close>

definition placed :: "provider_spec \<Rightarrow> string \<Rightarrow> TopologyConfig \<Rightarrow> provider_spec \<Rightarrow> bool" where
  "placed src server topo ps \<longleftrightarrow> ps_other ps = ps_other src \<and>
     (\<exists>ws. ps_workspace ps = Some ws \<and> ws_server ws = server \<and>
        ws_datacenter ws = Datacenter topo \<and> ws_datastore ws = Datastore topo \<and>
        ws_resourcePool ws = ResourcePool topo \<and>
        (\<forall>w. ps_workspace src = Some w \<longrightarrow> ws_other ws = ws_other w \<and>
           splitVSpherePath (ws_folder ws) =
             (case splitVSpherePath (ws_folder w) of [] \<Rightarrow> [] | _ # ps \<Rightarrow> Datacenter topo # ps))) \<and>
     ps_template ps =
       (if Template topo \<noteq> '''' then Template topo
        else if ps_template src = '''' then ''''
        else rewriteTemplateDatacenter (ps_template src) (Datacenter topo)) \<and>
     (if Networks topo = [] then ps_devices ps = ps_devices src
      else map nd_networkName (ps_devices ps) = Networks topo)"

lemma splitVSpherePath_Nil [simp]: "splitVSpherePath [] = []"
  by (simp add: splitVSpherePath_def splitOn_def)

lemma spec_for_fd_placed:
  assumes "component (Datacenter topo)"
  shows "placed src server topo (spec_for_fd src server topo)"
  using assms
  by (cases "ps_workspace src")
    (auto simp: placed_def spec_for_fd_def Let_def split_rewrite comp_def)

text \<open>C40: A machine set cloned for a failure domain is well formed, has the failure domain's
  region and zone, and its provider spec, read back with the program's own reader, is the
  source's placed in the failure domain.  Server, datacenter, datastore and resource pool are the
  configuration's; the folder of the source's workspace keeps its path below the datacenter.  The template is the one the
  configuration names, and only if it names none the source's, moved to the new datacenter.  The network devices are one for
  each network of the configuration, or the source's if it has none.  The other fields are the
  source's.  A clone is made only if there is a failure domain.\<close>

theorem clone_for_fd_placed:
  assumes codec: "ps_codec_ok api" and run: "CloneMachineSetForFD api src name cfg = Inr ms"
    and dc: "\<forall>fd. FailureDomain cfg = Some fd \<longrightarrow> component (Datacenter (Topology fd))"
  shows "\<exists>fd srcSpec ps. FailureDomain cfg = Some fd \<and>
    ExtractVSphereMachineSetProviderSpec api src = Inr srcSpec \<and>
    ExtractVSphereMachineSetProviderSpec api ms = Inr ps \<and>
    placed srcSpec (Server (SecondVCenter cfg)) (Topology fd) ps \<and>
    clone_of src name (Region fd) (Zone fd) 1 ms"
proof -
  from run obtain fd srcSpec raw where fd: "FailureDomain cfg = Some fd"
    and src: "ExtractVSphereMachineSetProviderSpec api src = Inr srcSpec"
    and raw: "json_marshal_ps api (spec_for_fd srcSpec (Server (SecondVCenter cfg)) (Topology fd)) = Inr raw"
    by (auto simp: CloneMachineSetForFD_def split: option.splits sum.splits)
  have "json_unmarshal_ps api raw = Inr (spec_for_fd srcSpec (Server (SecondVCenter cfg)) (Topology fd))"
    using codec raw by (simp add: ps_codec_ok_def)
  then have "ExtractVSphereMachineSetProviderSpec api ms =
      Inr (spec_for_fd srcSpec (Server (SecondVCenter cfg)) (Topology fd))"
    using run fd src raw by (auto simp: CloneMachineSetForFD_def ExtractVSphereMachineSetProviderSpec_def)
  moreover have "clone_of src name (Region fd) (Zone fd) 1 ms"
    using run fd src raw by (auto simp: CloneMachineSetForFD_def clone_simps)
  ultimately show ?thesis using fd src spec_for_fd_placed dc by blast
qed

text \<open>The other two clones are well formed too and share the source's provider spec: one
  gets the given region, zone and replicas, the other the source's region and zone and no
  replicas; cloning a clone again changes only its name.\<close>

theorem clones_well_formed:
  "clone_of src name region zone n (CloneMachineSetForVAP src name region zone n) \<and>
   ms_providerSpec (CloneMachineSetForVAP src name region zone n) = ms_providerSpec src \<and>
   clone_of src name (gm_get (ms_templateLabels src) MachineRegionLabel)
     (gm_get (ms_templateLabels src) MachineZoneLabel) 0 (CloneMachineSetSameSpec src name) \<and>
   ms_providerSpec (CloneMachineSetSameSpec src name) = ms_providerSpec src \<and>
   CloneMachineSetSameSpec (CloneMachineSetSameSpec src name) name' = CloneMachineSetSameSpec src name'"
  by (simp add: CloneMachineSetForVAP_def CloneMachineSetSameSpec_def clone_simps)

end
