(* ===== verification/MachineOps.thy ===== *)
theory MachineOps
  imports MachineSets "HOL-Library.Sublist"
begin

text \<open>
  The operations of \<open>pkg/framework/machine.go\<close> that talk to the machine API: scaling under
  optimistic concurrency, the waits for machines and for a drained machine set, deletion, and
  the resource-version snapshots.
\<close>

section \<open>Scaling\<close>

text \<open>\<open>apierrors.IsConflict\<close>.\<close>

fun IsConflict :: "goerror \<Rightarrow> bool" where
  "IsConflict (StatusError reason) = (reason = ''Conflict'')"
| "IsConflict (Wrapf f args e) = IsConflict e"
| "IsConflict _ = False"

definition scale_attempt :: "'w machine_api \<Rightarrow> string \<Rightarrow> int32 \<Rightarrow> ('w, unit) comp" where
  "scale_attempt api name replicas =
     bindM (wrapM ''get machineset %s: %w'' [AStr name]
              (call (EGet ''machinesets'' MachineAPINamespace name) (get_machine_set api name)))
       (\<lambda>ms. let ms = ms\<lparr>ms_replicas := Some replicas\<rparr> in
          bindM (call (EUpdateMachineSet ms) (update_machine_set api ms)) (\<lambda>_. ret ()))"

definition ScaleMachineSet :: "'w machine_api \<Rightarrow> string \<Rightarrow> int32 \<Rightarrow> ('w, unit) comp" where
  "ScaleMachineSet api name replicas = retry_on_conflict api (scale_attempt api name replicas)"

definition CreateMachineSet :: "'w machine_api \<Rightarrow> machine_set \<Rightarrow> ('w, machine_set) comp" where
  "CreateMachineSet api ms = call (ECreateMachineSet ms) (create_machine_set api ms)"

definition DeleteMachineSet :: "'w machine_api \<Rightarrow> string \<Rightarrow> ('w, unit) comp" where
  "DeleteMachineSet api name = call (EDelete ''machinesets'' name) (delete_machine_set api name)"

section \<open>Machines of a machine set\<close>

definition machinesOf :: "string \<Rightarrow> string" where
  "machinesOf msName = ''machine.openshift.io/cluster-api-machineset='' @ msName"

definition list_machines_of :: "'w env \<Rightarrow> string \<Rightarrow> ('w, machine list) comp" where
  "list_machines_of env msName =
     call (EList ''machines'' (machinesOf msName)) (list_machines env (machinesOf msName))"

definition running :: "machine \<Rightarrow> bool" where
  "running m \<longleftrightarrow> m_deletionTimestamp m = None \<and> m_phase m = Some ''Running''"

definition WaitForMachineSetMachines :: "'w env \<Rightarrow> string \<Rightarrow> int \<Rightarrow> ('w, unit) comp" where
  "WaitForMachineSetMachines env msName cnt =
     bindM (wrapM ''list machines for machineset %s: %w'' [AStr msName] (list_machines_of env msName))
       (\<lambda>machines. let ready = int (length (filter running machines)) in
          if ready < cnt
          then throw (Errorf ''machineset %s has %d/%d running machines''
                 [AStr msName, AInt ready, AInt cnt])
          else ret ())"

definition WaitForMachineSetDrained :: "'w env \<Rightarrow> string \<Rightarrow> ('w, unit) comp" where
  "WaitForMachineSetDrained env msName =
     bindM (wrapM ''list machines for machineset %s: %w'' [AStr msName] (list_machines_of env msName))
       (\<lambda>machines.
          if length machines > 0
          then throw (Errorf ''machineset %s still has %d machines''
                 [AStr msName, AInt (int (length machines))])
          else ret ())"

definition WaitForMachineSetDrainedWithDelete :: "'w env \<Rightarrow> string \<Rightarrow> int \<Rightarrow> ('w, unit) comp" where
  "WaitForMachineSetDrainedWithDelete env msName timeout =
     poll_plain env DefaultPolling timeout
       (\<lambda>s. case WaitForMachineSetDrained env msName s of (r, s') \<Rightarrow> (Inr (is_ok r), s'))"

definition WaitForMachineSetDrainedWithLog :: "'w env \<Rightarrow> string \<Rightarrow> int \<Rightarrow> ('w, unit) comp" where
  "WaitForMachineSetDrainedWithLog env msName timeout =
     poll_plain env DefaultPolling timeout
       (\<lambda>s. case list_machines_of env msName s of
          (Inl err, s') \<Rightarrow> (Inr False, s')
        | (Inr machines, s') \<Rightarrow> (Inr (length machines = 0), s'))"

fun delete_all :: "'w machine_api \<Rightarrow> machine list \<Rightarrow> 'w st \<Rightarrow> 'w st" where
  "delete_all api [] s = s"
| "delete_all api (m # ms) s =
     delete_all api ms (snd (call (EDelete ''machines'' (m_name m)) (delete_machine api (m_name m)) s))"

definition ForceDeleteMachineSetMachines ::
  "'w env \<Rightarrow> 'w machine_api \<Rightarrow> string \<Rightarrow> 'w st \<Rightarrow> 'w st" where
  "ForceDeleteMachineSetMachines env api msName s =
     (case list_machines_of env msName s of
        (Inl err, s') \<Rightarrow> s'
      | (Inr machines, s') \<Rightarrow> delete_all api machines s')"

section \<open>Resource versions\<close>

definition live_versions :: "machine list \<Rightarrow> string gomap" where
  "live_versions machines =
     fold (\<lambda>m result. if m_deletionTimestamp m = None
             then gm_put (m_name m) (m_resourceVersion m) result else result) machines []"

definition SnapshotMachineResourceVersions :: "'w env \<Rightarrow> string \<Rightarrow> ('w, string gomap) comp" where
  "SnapshotMachineResourceVersions env msName =
     bindM (list_machines_of env msName) (\<lambda>machines. ret (live_versions machines))"

fun CountResourceVersionChanges :: "string gomap \<Rightarrow> string gomap \<Rightarrow> int" where
  "CountResourceVersionChanges [] after = 0"
| "CountResourceVersionChanges ((name, rv) # before) after =
     (case gm_lookup after name of
        Some afterRV \<Rightarrow> if afterRV \<noteq> rv then 1 + CountResourceVersionChanges before after
                        else CountResourceVersionChanges before after
      | None \<Rightarrow> CountResourceVersionChanges before after)"

section \<open>Optimistic concurrency\<close>

text \<open>
  \<open>retry.RetryOnConflict\<close> runs its function again while it fails with a conflict, up to a
  number of attempts.  \<open>H w\<close> is the list of all versions the server has stored of one machine
  set, oldest first.  The server answers a read with some stored version, and accepts an update
  only on top of the version whose resource version the update carries; others may write at
  any time.
\<close>

fun retry_upto :: "nat \<Rightarrow> ('s \<Rightarrow> unit res \<times> 's) \<Rightarrow> 's \<Rightarrow> unit res \<times> 's" where
  "retry_upto 0 f s = f s"
| "retry_upto (Suc n) f s =
     (case f s of
        (Inl e, s') \<Rightarrow> if IsConflict e then retry_upto n f s' else (Inl e, s')
      | (Inr u, s') \<Rightarrow> (Inr u, s'))"

definition retry_ok :: "'w machine_api \<Rightarrow> bool" where
  "retry_ok api \<longleftrightarrow> (\<forall>f s. \<exists>n. retry_on_conflict api f s = retry_upto n f s)"

definition reads_version :: "'w machine_api \<Rightarrow> string \<Rightarrow> ('w \<Rightarrow> machine_set list) \<Rightarrow> bool" where
  "reads_version api name H \<longleftrightarrow>
     (\<forall>w r w'. get_machine_set api name w = (r, w') \<longrightarrow> prefix (H w) (H w') \<and>
        (\<forall>ms. r = Inr ms \<longrightarrow> ms \<in> set (H w') \<and> ms_name ms = name))"

definition writes_version :: "'w machine_api \<Rightarrow> string \<Rightarrow> ('w \<Rightarrow> machine_set list) \<Rightarrow> bool" where
  "writes_version api name H \<longleftrightarrow>
     (\<forall>w ms r w'. update_machine_set api ms w = (r, w') \<longrightarrow> ms_name ms = name \<longrightarrow>
        prefix (H w) (H w') \<and>
        (\<forall>new. r = Inr new \<longrightarrow> (\<exists>pre old post. H w' = pre @ old # new # post \<and>
           prefix (H w) (pre @ [old]) \<and> ms_resourceVersion old = ms_resourceVersion ms \<and>
           new = ms\<lparr>ms_resourceVersion := ms_resourceVersion new\<rparr>)))"

definition versioned_store :: "'w machine_api \<Rightarrow> string \<Rightarrow> ('w \<Rightarrow> machine_set list) \<Rightarrow> bool" where
  "versioned_store api name H \<longleftrightarrow> reads_version api name H \<and> writes_version api name H \<and>
     (\<forall>w. distinct (map ms_resourceVersion (H w)))"

text \<open>The versions of \<open>s'\<close> have an update of the replicas right after the version it is based on.\<close>

definition scaled :: "('w \<Rightarrow> machine_set list) \<Rightarrow> int32 \<Rightarrow> 'w st \<Rightarrow> 'w st \<Rightarrow> bool" where
  "scaled H n s s' \<longleftrightarrow> (\<exists>pre old new post. H (world s') = pre @ old # new # post \<and>
     prefix (H (world s)) (pre @ [old]) \<and>
     new = old\<lparr>ms_replicas := Some n, ms_resourceVersion := ms_resourceVersion new\<rparr>)"

lemma retry_upto_ok: "f s = (Inr u, s') \<Longrightarrow> retry_upto n f s = (Inr u, s')"
  by (cases n) simp_all

lemma retry_upto_along:
  assumes step: "\<And>s. R s (snd (f s))" and refl: "\<And>s. R s s"
    and trans: "\<And>s t u. R s t \<Longrightarrow> R t u \<Longrightarrow> R s u"
  shows "retry_upto n f s = (Inr u, s') \<Longrightarrow> \<exists>t. R s t \<and> f t = (Inr u, s')"
proof (induction n arbitrary: s)
  case 0
  then show ?case using refl by auto
next
  case (Suc n)
  show ?case
  proof (cases "\<exists>e t. f s = (Inl e, t) \<and> IsConflict e")
    case True
    then obtain e t where t: "f s = (Inl e, t)" "IsConflict e" by blast
    with Suc.prems have "retry_upto n f t = (Inr u, s')" by simp
    then obtain t' where "R t t'" "f t' = (Inr u, s')" using Suc.IH by blast
    with t step [of s] trans show ?thesis by auto
  next
    case False
    with Suc.prems have "f s = (Inr u, s')" by (auto split: prod.splits sum.splits if_splits)
    with refl show ?thesis by blast
  qed
qed

definition history_grows :: "('w \<Rightarrow> machine_set list) \<Rightarrow> 'w st \<Rightarrow> 'w st \<Rightarrow> bool" where
  "history_grows H s t \<longleftrightarrow> prefix (H (world s)) (H (world t))"

interpretation hist: state_rel "history_grows H" for H
  by unfold_locales (auto simp: history_grows_def intro: prefix_order.trans)

lemma scale_attempt_grows:
  assumes st: "versioned_store api name H"
  shows "within (history_grows H) (scale_attempt api name n)"
  unfolding scale_attempt_def Let_def
proof (rule hist.within_bind_result [where Q = "\<lambda>ms. ms_name ms = name"])
  show "within (history_grows H) (wrapM ''get machineset %s: %w'' [AStr name]
      (call (EGet ''machinesets'' MachineAPINamespace name) (get_machine_set api name)))"
    using st by (auto simp: within_def versioned_store_def reads_version_def wrapM_def callE_def
        history_grows_def split: prod.splits sum.splits)
  show "ms_name a = name" if "wrapM ''get machineset %s: %w'' [AStr name]
      (call (EGet ''machinesets'' MachineAPINamespace name) (get_machine_set api name)) s = (Inr a, s')"
    for s a s'
    using st that by (auto simp: versioned_store_def reads_version_def wrapM_Inr callE_def
        split: prod.splits)
  show "within (history_grows H) (bindM (call (EUpdateMachineSet (ms\<lparr>ms_replicas := Some n\<rparr>))
      (update_machine_set api (ms\<lparr>ms_replicas := Some n\<rparr>))) (\<lambda>_. ret ()))" if "ms_name ms = name" for ms
    using st that by (auto simp: within_def versioned_store_def writes_version_def bindM_def ret_def
        callE_def history_grows_def split: prod.splits sum.splits)
qed

lemma distinct_map_inj: "distinct (map f xs) \<Longrightarrow> x \<in> set xs \<Longrightarrow> y \<in> set xs \<Longrightarrow> f x = f y \<Longrightarrow> x = y"
  by (auto simp: distinct_map dest: inj_onD)

lemma writes_versionD:
  assumes "writes_version api name H" "update_machine_set api ms w = (Inr new, w')" "ms_name ms = name"
  shows "\<exists>pre old post. H w' = pre @ old # new # post \<and> prefix (H w) (pre @ [old]) \<and>
    ms_resourceVersion old = ms_resourceVersion ms \<and>
    new = ms\<lparr>ms_resourceVersion := ms_resourceVersion new\<rparr>"
  using assms unfolding writes_version_def by blast

lemma scale_attempt_scaled:
  assumes st: "versioned_store api name H" and run: "scale_attempt api name n s = (Inr u, s')"
  shows "scaled H n s s'"
proof -
  obtain r w1 where get0: "get_machine_set api name (world s) = (r, w1)" by force
  then obtain ms where get: "get_machine_set api name (world s) = (Inr ms, w1)"
    using run by (cases r) (auto simp: scale_attempt_def bindM_def wrapM_def callE_def)
  obtain r2 w2 where upd0: "update_machine_set api (ms\<lparr>ms_replicas := Some n\<rparr>) w1 = (r2, w2)" by force
  then obtain new where upd: "update_machine_set api (ms\<lparr>ms_replicas := Some n\<rparr>) w1 = (Inr new, w2)"
    and s': "world s' = w2"
    using run get by (cases r2) (auto simp: scale_attempt_def bindM_def wrapM_def callE_def ret_def Let_def)
  have ms: "prefix (H (world s)) (H w1)" "ms \<in> set (H w1)" "ms_name ms = name"
    using st get by (auto simp: versioned_store_def reads_version_def)
  have wv: "writes_version api name H" using st by (simp add: versioned_store_def)
  obtain pre old post where H: "H w2 = pre @ old # new # post" "prefix (H w1) (pre @ [old])"
    and old: "ms_resourceVersion old = ms_resourceVersion ms"
    and new: "new = ms\<lparr>ms_replicas := Some n, ms_resourceVersion := ms_resourceVersion new\<rparr>"
    using writes_versionD [OF wv upd] ms(3) by auto
  have "ms \<in> set (H w2)" "old \<in> set (H w2)"
    using H ms(2) set_mono_prefix [OF H(2)] by auto
  then have "old = ms"
    using st old distinct_map_inj [of ms_resourceVersion "H w2" old ms] by (simp add: versioned_store_def)
  with new have "new = old\<lparr>ms_replicas := Some n, ms_resourceVersion := ms_resourceVersion new\<rparr>" by simp
  moreover have "prefix (H (world s)) (pre @ [old])" using ms(1) H(2) by (rule prefix_order.trans)
  ultimately show ?thesis using H(1) s' unfolding scaled_def by blast
qed

text \<open>C30: Scaling loses no update.  Whoever else writes the machine set meanwhile, and however
  often the attempt is repeated after a conflict, a successful \<open>ScaleMachineSet\<close> has stored a
  version that differs from the version just before it in the replicas only.\<close>

theorem scale_loses_no_update:
  assumes st: "versioned_store api name H" and retry: "retry_ok api"
    and run: "ScaleMachineSet api name n s = (Inr u, s')"
  shows "\<exists>pre old new post. H (world s') = pre @ old # new # post \<and>
    prefix (H (world s)) (pre @ [old]) \<and>
    new = old\<lparr>ms_replicas := Some n, ms_resourceVersion := ms_resourceVersion new\<rparr>"
proof -
  obtain k where "retry_upto k (scale_attempt api name n) s = (Inr u, s')"
    using retry run unfolding retry_ok_def ScaleMachineSet_def by metis
  then obtain t where t: "history_grows H s t" "scale_attempt api name n t = (Inr u, s')"
    using retry_upto_along [of "history_grows H" "scale_attempt api name n"]
      scale_attempt_grows [OF st] hist.refl hist.trans by (metis within_def)
  have "scaled H n t s'" by (rule scale_attempt_scaled [OF st t(2)])
  with t(1) show ?thesis
    unfolding scaled_def history_grows_def by (meson prefix_order.trans)
qed

section \<open>The waits\<close>

text \<open>What one list call of a machine set's machines says in state \<open>s\<close>.\<close>

definition machines_listed :: "'w env \<Rightarrow> string \<Rightarrow> 'w st \<Rightarrow> machine list res" where
  "machines_listed env msName s = fst (list_machines env (machinesOf msName) (world s))"

lemma list_machines_of_listed: "fst (list_machines_of env msName s) = machines_listed env msName s"
  by (simp add: list_machines_of_def callE_def machines_listed_def split: prod.splits)

lemma list_machines_of_cases:
  "list_machines_of env msName s = (machines_listed env msName s, snd (list_machines_of env msName s))"
  by (simp add: prod_eq_iff list_machines_of_listed)

lemma drained_ok:
  "is_ok (fst (WaitForMachineSetDrained env msName s)) \<longleftrightarrow> machines_listed env msName s = Inr []"
  by (subst list_machines_of_listed [symmetric])
    (auto simp: WaitForMachineSetDrained_def bindM_def wrapM_def ret_def throw_def
      split: prod.splits sum.splits)

text \<open>The two functions that look once: \<open>WaitForMachineSetMachines\<close> succeeds exactly when
  the listing has at least the wanted number of running machines that are not being deleted,
  \<open>WaitForMachineSetDrained\<close> exactly when the listing is empty; a listing that fails makes both
  fail with that error wrapped.\<close>

theorem machine_set_checks:
  "case machines_listed env msName s of
     Inl e \<Rightarrow>
       fst (WaitForMachineSetMachines env msName cnt s) =
         Inl (Wrapf ''list machines for machineset %s: %w'' [AStr msName] e) \<and>
       fst (WaitForMachineSetDrained env msName s) =
         Inl (Wrapf ''list machines for machineset %s: %w'' [AStr msName] e)
   | Inr ms \<Rightarrow>
       (is_ok (fst (WaitForMachineSetMachines env msName cnt s)) \<longleftrightarrow> cnt \<le> int (length (filter running ms))) \<and>
       (is_ok (fst (WaitForMachineSetDrained env msName s)) \<longleftrightarrow> ms = [])"
  by (subst list_machines_of_listed [symmetric])
    (auto simp: WaitForMachineSetMachines_def WaitForMachineSetDrained_def bindM_def wrapM_def
      ret_def throw_def Let_def split: prod.splits sum.splits)

definition drained_step :: "'w env \<Rightarrow> string \<Rightarrow> 'w st condition_fn" where
  "drained_step env msName s =
     (Inr (machines_listed env msName s = Inr []), snd (list_machines_of env msName s))"

lemma drained_with_delete_eq:
  "WaitForMachineSetDrainedWithDelete env msName timeout =
     poll_plain env DefaultPolling timeout (drained_step env msName)"
proof -
  have "snd (WaitForMachineSetDrained env msName s) = snd (list_machines_of env msName s)" for s
    by (auto simp: WaitForMachineSetDrained_def bindM_def wrapM_def ret_def throw_def
        split: prod.splits sum.splits)
  then have "(\<lambda>s. case WaitForMachineSetDrained env msName s of (r, s') \<Rightarrow> (Inr (is_ok r), s')) =
      drained_step env msName"
    using drained_ok [of env msName]
    by (simp add: fun_eq_iff drained_step_def case_prod_beta)
  then show ?thesis by (simp add: WaitForMachineSetDrainedWithDelete_def)
qed

lemma drained_with_log_eq:
  "WaitForMachineSetDrainedWithLog env msName timeout =
     poll_plain env DefaultPolling timeout (drained_step env msName)"
proof -
  have "(case list_machines_of env msName s of (Inl err, s') \<Rightarrow> (Inr False, s')
        | (Inr machines, s') \<Rightarrow> (Inr (length machines = 0), s')) = drained_step env msName s" for s
    unfolding drained_step_def list_machines_of_listed [symmetric] by (auto split: prod.splits sum.splits)
  then show ?thesis by (simp add: WaitForMachineSetDrainedWithLog_def)
qed

text \<open>The two drain waits are the same wait, whatever they print.  Each succeeds only after a
  listing without machines, made with nothing but listings before it, and when it gives up, the
  error is the context's: a failing listing never ends the wait.\<close>

theorem drain_waits:
  assumes ok: "poller_ok (poll env)"
    and run: "WaitForMachineSetDrainedWithLog env msName timeout s = (r, s')"
  shows "WaitForMachineSetDrainedWithDelete env msName timeout s = (r, s') \<and>
    emitted (\<lambda>e. e = EList ''machines'' (machinesOf msName)) s s' \<and>
    (case r of
       Inr _ \<Rightarrow> (\<exists>t. machines_listed env msName t = Inr [] \<and> s' = snd (list_machines_of env msName t))
     | Inl e \<Rightarrow> e = ContextDone)"
proof (intro conjI)
  have run': "poll_plain env DefaultPolling timeout (drained_step env msName) s = (r, s')"
    using run by (simp add: drained_with_log_eq)
  show "WaitForMachineSetDrainedWithDelete env msName timeout s = (r, s')"
    using run' by (simp add: drained_with_delete_eq)
  have "within (emitted (\<lambda>e. e = EList ''machines'' (machinesOf msName))) (drained_step env msName)"
    unfolding within_def drained_step_def list_machines_of_def
    by (simp add: callE_def emitted_def split: prod.splits)
  then have "within (emitted (\<lambda>e. e = EList ''machines'' (machinesOf msName)))
      (poll_plain env DefaultPolling timeout (drained_step env msName))"
    by (intro poll_plain_within [OF ok]) (auto intro: em.refl elim: em.trans)
  then have "emitted (\<lambda>e. e = EList ''machines'' (machinesOf msName)) s
      (snd (poll_plain env DefaultPolling timeout (drained_step env msName) s))"
    unfolding within_def by (rule spec)
  then show "emitted (\<lambda>e. e = EList ''machines'' (machinesOf msName)) s s'"
    by (simp add: run')
  show "case r of
       Inr _ \<Rightarrow> (\<exists>t. machines_listed env msName t = Inr [] \<and> s' = snd (list_machines_of env msName t))
     | Inl e \<Rightarrow> e = ContextDone"
  proof (cases r)
    case (Inl e)
    with run' have "e = ContextDone \<or> (\<exists>t. drained_step env msName t = (Inl e, s'))"
      using poll_plain_error [OF ok] by blast
    with Inl show ?thesis by (simp add: drained_step_def)
  next
    case (Inr u)
    with run' poll_plain_success [OF ok] obtain t where "drained_step env msName t = (Inr True, s')" by blast
    with Inr show ?thesis by (auto simp: drained_step_def)
  qed
qed

section \<open>Deleting and counting\<close>

lemma delete_all_trace:
  "trace (delete_all api ms s) = trace s @ map (\<lambda>m. EDelete ''machines'' (m_name m)) ms"
  by (induction ms arbitrary: s) (auto simp: callE_def split: prod.splits)

text \<open>\<open>ForceDeleteMachineSetMachines\<close> asks for the deletion of exactly the machines listed,
  each once and in the order of the listing, also when some deletions fail; when the listing
  fails it deletes nothing.\<close>

theorem force_delete_all:
  "trace (ForceDeleteMachineSetMachines env api msName s) =
     trace s @ [EList ''machines'' (machinesOf msName)] @
     (case machines_listed env msName s of
        Inl _ \<Rightarrow> [] | Inr ms \<Rightarrow> map (\<lambda>m. EDelete ''machines'' (m_name m)) ms)"
  by (auto simp: ForceDeleteMachineSetMachines_def list_machines_of_def callE_def machines_listed_def
      delete_all_trace split: prod.splits sum.splits)

lemma live_versions_acc:
  "gm_ok acc \<Longrightarrow> distinct (map m_name ms) \<Longrightarrow>
   gm_ok (fold (\<lambda>m result. if m_deletionTimestamp m = None
             then gm_put (m_name m) (m_resourceVersion m) result else result) ms acc) \<and>
   gm_lookup (fold (\<lambda>m result. if m_deletionTimestamp m = None
             then gm_put (m_name m) (m_resourceVersion m) result else result) ms acc) n =
     (case find_first (\<lambda>m. m_name m = n \<and> m_deletionTimestamp m = None) ms of
        Some m \<Rightarrow> Some (m_resourceVersion m) | None \<Rightarrow> gm_lookup acc n)"
proof (induction ms arbitrary: acc)
  case (Cons m ms)
  have *: "find_first (\<lambda>m'. m_name m' = m_name m \<and> m_deletionTimestamp m' = None) ms = None"
    using Cons.prems(2) by (auto simp: find_first_None_iff image_iff)
  let ?acc = "if m_deletionTimestamp m = None then gm_put (m_name m) (m_resourceVersion m) acc else acc"
  have "gm_ok ?acc" using Cons.prems(1) by simp
  from Cons.IH [OF this] Cons.prems(2) show ?case
    using * by (auto simp: gm_lookup_put split: option.splits)
qed simp

lemma live_versions_spec:
  assumes "distinct (map m_name ms)"
  shows "gm_ok (live_versions ms) \<and> gm_lookup (live_versions ms) n =
    map_option m_resourceVersion (find_first (\<lambda>m. m_name m = n \<and> m_deletionTimestamp m = None) ms)"
  using live_versions_acc [OF gm_ok_Nil assms, of n]
  by (auto simp: live_versions_def split: option.splits)

lemma count_changes_card:
  "gm_ok before \<Longrightarrow> CountResourceVersionChanges before aft =
     int (card {n. \<exists>v v'. gm_lookup before n = Some v \<and> gm_lookup aft n = Some v' \<and> v' \<noteq> v})"
proof (induction before)
  case (Cons p before)
  obtain n v where p: "p = (n, v)" by force
  let ?D = "\<lambda>b. {n. \<exists>v v'. gm_lookup b n = Some v \<and> gm_lookup aft n = Some v' \<and> v' \<noteq> v}"
  have fresh: "gm_lookup before n = None" and ok: "gm_ok before"
    using Cons.prems p by (auto simp: gm_ok_def map_of_eq_None_iff)
  have fin: "finite (?D before)"
    by (rule finite_subset [OF _ finite_dom_map_of [of before]]) auto
  have "?D (p # before) =
      (if \<exists>v'. gm_lookup aft n = Some v' \<and> v' \<noteq> v then insert n (?D before) else ?D before)"
    using fresh p by auto
  moreover have "n \<notin> ?D before" using fresh by simp
  ultimately show ?case
    using Cons.IH [OF ok] fin p by (auto split: option.splits)
qed (simp add: gm_ok_def)

text \<open>Two snapshots and their comparison count the machines that live in both listings under
  different resource versions: machines being deleted, gone or new are not counted, whatever the
  order in which the maps are visited.\<close>

theorem resource_version_changes:
  assumes "distinct (map m_name ms)" "distinct (map m_name ms')"
    and "mset before = mset (live_versions ms)"
  shows "CountResourceVersionChanges before (live_versions ms') =
    int (card {n. \<exists>m m'. m \<in> set ms \<and> m' \<in> set ms' \<and> m_name m = n \<and> m_name m' = n \<and>
      m_deletionTimestamp m = None \<and> m_deletionTimestamp m' = None \<and>
      m_resourceVersion m' \<noteq> m_resourceVersion m})"
proof -
  have ok: "gm_ok before" and look: "gm_lookup before = gm_lookup (live_versions ms)"
  proof -
    have d: "distinct (map fst (live_versions ms))"
      using live_versions_spec [OF assms(1)] by (simp add: gm_ok_def)
    then show "gm_ok before"
      using assms(3) mset_eq_imp_distinct_iff [of "map fst before" "map fst (live_versions ms)"]
      by (simp add: gm_ok_def)
    then show "gm_lookup before = gm_lookup (live_versions ms)"
      using d assms(3) by (intro map_of_eqI) (auto simp: gm_ok_def dest: mset_eq_setD)
  qed
  have find: "map_option m_resourceVersion (find_first (\<lambda>m. m_name m = n \<and> m_deletionTimestamp m = None) xs)
      = Some v \<longleftrightarrow> (\<exists>m \<in> set xs. m_name m = n \<and> m_deletionTimestamp m = None \<and> m_resourceVersion m = v)"
    if "distinct (map m_name xs)" for xs n v
  proof
    assume "\<exists>m \<in> set xs. m_name m = n \<and> m_deletionTimestamp m = None \<and> m_resourceVersion m = v"
    then obtain m where m: "m \<in> set xs" "m_name m = n" "m_deletionTimestamp m = None"
      "m_resourceVersion m = v" by blast
    then obtain m' where m': "find_first (\<lambda>m. m_name m = n \<and> m_deletionTimestamp m = None) xs = Some m'"
      using find_first_None_iff by (metis (mono_tags, lifting) not_Some_eq)
    with find_first_SomeD m that have "m' = m" by (metis (mono_tags, lifting) distinct_map_inj)
    with m m' show "map_option m_resourceVersion
        (find_first (\<lambda>m. m_name m = n \<and> m_deletionTimestamp m = None) xs) = Some v" by simp
  qed (auto dest: find_first_SomeD)
  show ?thesis
    unfolding count_changes_card [OF ok] look conjunct2 [OF live_versions_spec [OF assms(1)]]
      conjunct2 [OF live_versions_spec [OF assms(2)]] find [OF assms(1)] find [OF assms(2)]
    by (rule arg_cong [where f = "\<lambda>X. int (card X)"]) blast
qed

end
