(* ===== verification/MachineTiming.thy ===== *)
theory MachineTiming
  imports MachineOps Complex_Main
begin

text \<open>
  \<open>WatchMachinePhaseTimestamps\<close> of \<open>pkg/framework/machine.go\<close>: polling the machines of a
  machine set and noting the time at which each first reaches each phase.  A time is in
  nanoseconds and 0 is the zero time.  The records are a Go map from machine names; the counts of
  machines that are provisioning or provisioned are only printed and left out.
\<close>

section \<open>The records\<close>

record MachineTimingRecord =
  tr_Name :: string
  tr_Created :: int
  tr_Provisioning :: int
  tr_Provisioned :: int
  tr_Running :: int

text \<open>The measured rates are \<open>float64\<close> numbers, which are rational.\<close>

record SteadyStateResult =
  ss_WindowDuration :: string
  ss_ReconcileDelta :: rat
  ss_ReconcileRate :: rat
  ss_QueueAddsDelta :: rat
  ss_QueueDepthEnd :: rat
  ss_ResourceVersionDeltas :: int
  ss_MachineCount :: int

record NewMachineLatencyResult =
  nl_BackgroundMachines :: int
  nl_NewMachineCount :: int
  nl_TotalDuration :: string
  nl_Machines :: "MachineTimingRecord list"

record PerfBenchmarkResult =
  pb_ScaleRequestTime :: int
  pb_AllRunningTime :: int
  pb_TargetCount :: int
  pb_TotalDuration :: string
  pb_Machines :: "MachineTimingRecord list"
  pb_SteadyState :: "SteadyStateResult option"
  pb_NewMachineLatency :: "NewMachineLatencyResult option"

definition IsZero :: "int \<Rightarrow> bool" where
  "IsZero t \<longleftrightarrow> t = 0"

definition stamp_provisioning :: "int \<Rightarrow> MachineTimingRecord \<Rightarrow> MachineTimingRecord" where
  "stamp_provisioning now r = (if IsZero (tr_Provisioning r) then r\<lparr>tr_Provisioning := now\<rparr> else r)"

definition stamp_provisioned :: "int \<Rightarrow> MachineTimingRecord \<Rightarrow> MachineTimingRecord" where
  "stamp_provisioned now r = (if IsZero (tr_Provisioned r) then r\<lparr>tr_Provisioned := now\<rparr> else r)"

definition stamp_running :: "int \<Rightarrow> MachineTimingRecord \<Rightarrow> MachineTimingRecord" where
  "stamp_running now r = (if IsZero (tr_Running r) then r\<lparr>tr_Running := now\<rparr> else r)"

definition note_phase :: "int \<Rightarrow> string \<Rightarrow> MachineTimingRecord \<Rightarrow> MachineTimingRecord" where
  "note_phase now phase r =
     (if phase = ''Provisioning'' then stamp_provisioning now r
      else if phase = ''Provisioned'' then stamp_provisioned now (stamp_provisioning now r)
      else if phase = ''Running''
      then stamp_running now (stamp_provisioned now (stamp_provisioning now r))
      else r)"

definition watch_machine ::
  "int \<Rightarrow> machine \<Rightarrow> MachineTimingRecord gomap \<times> int \<Rightarrow> MachineTimingRecord gomap \<times> int" where
  "watch_machine now m acc =
     (case acc of (records, runningCount) \<Rightarrow>
        if m_deletionTimestamp m \<noteq> None then (records, runningCount)
        else
          (let r = (case gm_lookup records (m_name m) of
                      Some r \<Rightarrow> r
                    | None \<Rightarrow> \<lparr>tr_Name = m_name m, tr_Created = m_creationTimestamp m,
                        tr_Provisioning = 0, tr_Provisioned = 0, tr_Running = 0\<rparr>)
           in (gm_put (m_name m) (note_phase now (phase_of m) r) records,
               if phase_of m = ''Running'' then runningCount + 1 else runningCount)))"

text \<open>The variables of the polling loop: the records and the last error.\<close>

type_synonym 'w watch_vars = "(MachineTimingRecord gomap \<times> goerror option) \<times> 'w st"

definition watch_cond :: "'w env \<Rightarrow> string \<Rightarrow> int \<Rightarrow> 'w watch_vars condition_fn" where
  "watch_cond env msName targetCount v =
     (case v of ((records, lastErr), s) \<Rightarrow>
        case list_machines_of env msName s of
          (Inl err, s1) \<Rightarrow> (Inr False, ((records, Some err), s1))
        | (Inr machines, s1) \<Rightarrow>
            case Now env s1 of (now, s2) \<Rightarrow>
              case fold (watch_machine now) machines (records, 0) of (records, runningCount) \<Rightarrow>
                if runningCount \<ge> targetCount then (Inr True, ((records, None), s2))
                else (Inr False, ((records, Some (Errorf ''%d/%d machines Running''
                        [AInt runningCount, AInt targetCount])), s2)))"

definition add_record ::
  "string \<times> MachineTimingRecord \<Rightarrow> PerfBenchmarkResult \<Rightarrow> PerfBenchmarkResult" where
  "add_record p result =
     (let r = snd p; result = result\<lparr>pb_Machines := pb_Machines result @ [r]\<rparr> in
      if \<not> IsZero (tr_Running r) \<and> tr_Running r > pb_AllRunningTime result
      then result\<lparr>pb_AllRunningTime := tr_Running r\<rparr> else result)"

definition watch_result :: "int \<Rightarrow> MachineTimingRecord gomap \<Rightarrow> PerfBenchmarkResult" where
  "watch_result targetCount records =
     fold add_record records
       \<lparr>pb_ScaleRequestTime = 0, pb_AllRunningTime = 0, pb_TargetCount = targetCount,
        pb_TotalDuration = '''', pb_Machines = [], pb_SteadyState = None, pb_NewMachineLatency = None\<rparr>"

text \<open>
  \<open>pollw\<close> is the library's polling function, at the type of the variables of this loop; the
  result is returned together with the error.
\<close>

definition WatchMachinePhaseTimestamps ::
  "'w env \<Rightarrow> 'w watch_vars poller \<Rightarrow> string \<Rightarrow> int \<Rightarrow> int \<Rightarrow> 'w st \<Rightarrow>
     (PerfBenchmarkResult \<times> goerror option) \<times> 'w st" where
  "WatchMachinePhaseTimestamps env pollw msName targetCount timeout s =
     (case pollw DefaultPolling timeout (watch_cond env msName targetCount) (([], None), s) of
        (pollErr, (records, lastErr), s') \<Rightarrow>
          let result = watch_result targetCount records in
          case pollErr of
            None \<Rightarrow> ((result, None), s')
          | Some e \<Rightarrow>
              (case lastErr of
                 Some le \<Rightarrow> ((result, Some (Wrapf ''%w: %v'' [AErr le] e)), s')
               | None \<Rightarrow> ((result, Some e), s')))"

section \<open>Well-formed records\<close>

text \<open>
  A record is timed between \<open>t0\<close> and \<open>t\<close> when the phases it has reached are an initial part of
  provisioning, provisioned, running, with stamps in that order and in that interval.
\<close>

definition timed :: "int \<Rightarrow> int \<Rightarrow> MachineTimingRecord \<Rightarrow> bool" where
  "timed t0 t r \<longleftrightarrow>
     (tr_Provisioning r = 0 \<or> t0 \<le> tr_Provisioning r \<and> tr_Provisioning r \<le> t) \<and>
     (tr_Provisioned r = 0 \<or> tr_Provisioning r \<noteq> 0 \<and> tr_Provisioning r \<le> tr_Provisioned r \<and>
        tr_Provisioned r \<le> t) \<and>
     (tr_Running r = 0 \<or> tr_Provisioned r \<noteq> 0 \<and> tr_Provisioned r \<le> tr_Running r \<and> tr_Running r \<le> t)"

definition records_ok :: "int \<Rightarrow> int \<Rightarrow> MachineTimingRecord gomap \<Rightarrow> bool" where
  "records_ok t0 t records \<longleftrightarrow> gm_ok records \<and>
     (\<forall>(n, r) \<in> set records. tr_Name r = n \<and> timed t0 t r)"

lemma note_phase_name [simp]: "tr_Name (note_phase now ph r) = tr_Name r"
  by (simp add: note_phase_def stamp_provisioning_def stamp_provisioned_def stamp_running_def)

lemma note_phase_timed:
  assumes "timed t0 t r" "t0 \<le> t" "t \<le> now" "now \<noteq> 0"
  shows "timed t0 now (note_phase now ph r)"
  using assms by (auto simp: timed_def note_phase_def stamp_provisioning_def stamp_provisioned_def
      stamp_running_def IsZero_def)

text \<open>Stamps are kept: what one look has noted, no later look changes.\<close>

definition keeps_stamps :: "MachineTimingRecord \<Rightarrow> MachineTimingRecord \<Rightarrow> bool" where
  "keeps_stamps r r' \<longleftrightarrow> tr_Name r' = tr_Name r \<and> tr_Created r' = tr_Created r \<and>
     (tr_Provisioning r \<noteq> 0 \<longrightarrow> tr_Provisioning r' = tr_Provisioning r) \<and>
     (tr_Provisioned r \<noteq> 0 \<longrightarrow> tr_Provisioned r' = tr_Provisioned r) \<and>
     (tr_Running r \<noteq> 0 \<longrightarrow> tr_Running r' = tr_Running r)"

lemma note_phase_keeps: "keeps_stamps r (note_phase now ph r)"
  by (simp add: keeps_stamps_def note_phase_def stamp_provisioning_def stamp_provisioned_def
      stamp_running_def IsZero_def)

lemma keeps_stamps_trans: "keeps_stamps a b \<Longrightarrow> keeps_stamps b c \<Longrightarrow> keeps_stamps a c"
  by (auto simp: keeps_stamps_def)

lemma keeps_stamps_refl: "keeps_stamps a a"
  by (simp add: keeps_stamps_def)

section \<open>One look at the machines\<close>

lemma running_phase: "running m \<longleftrightarrow> m_deletionTimestamp m = None \<and> phase_of m = ''Running''"
  by (auto simp: running_def phase_of_def split: option.splits)

lemma timed_later: "timed t0 t r \<Longrightarrow> t \<le> u \<Longrightarrow> timed t0 u r"
  by (auto simp: timed_def)

lemma records_ok_later: "records_ok t0 t rs \<Longrightarrow> t \<le> u \<Longrightarrow> records_ok t0 u rs"
  unfolding records_ok_def using timed_later by blast

lemma records_ok_put:
  assumes "records_ok t0 t rs" "tr_Name r = n" "timed t0 t r"
  shows "records_ok t0 t (gm_put n r rs)"
proof -
  have "x \<in> set (gm_put n r rs) \<Longrightarrow> x = (n, r) \<or> x \<in> set rs" for x
    by (induction rs) (auto split: if_splits)
  with assms show ?thesis by (fastforce simp: records_ok_def)
qed

lemma records_ok_lookup:
  "records_ok t0 t rs \<Longrightarrow> gm_lookup rs n = Some r \<Longrightarrow> tr_Name r = n \<and> timed t0 t r"
  unfolding records_ok_def using map_of_SomeD by fastforce

definition record_of :: "MachineTimingRecord gomap \<Rightarrow> machine \<Rightarrow> MachineTimingRecord" where
  "record_of records m = (case gm_lookup records (m_name m) of
     Some r \<Rightarrow> r
   | None \<Rightarrow> \<lparr>tr_Name = m_name m, tr_Created = m_creationTimestamp m,
       tr_Provisioning = 0, tr_Provisioned = 0, tr_Running = 0\<rparr>)"

lemma watch_machine_eq:
  "watch_machine now m (records, k) =
     (if m_deletionTimestamp m \<noteq> None then (records, k)
      else (gm_put (m_name m) (note_phase now (phase_of m) (record_of records m)) records,
            if running m then k + 1 else k))"
  by (simp add: watch_machine_def record_of_def running_phase Let_def)

lemma record_of_ok:
  "records_ok t0 t rs \<Longrightarrow> tr_Name (record_of rs m) = m_name m \<and> timed t0 t (record_of rs m)"
  using records_ok_lookup [of t0 t rs] by (auto simp: record_of_def timed_def split: option.splits)

lemma watch_machine_ok:
  assumes "records_ok t0 now records" "t0 \<le> now" "now \<noteq> 0"
  shows "records_ok t0 now (fst (watch_machine now m (records, k)))"
  using assms record_of_ok [OF assms(1), of m]
  by (auto simp: watch_machine_eq intro!: records_ok_put note_phase_timed [where t = now])

lemma watch_fold_ok:
  "records_ok t0 now records \<Longrightarrow> t0 \<le> now \<Longrightarrow> now \<noteq> 0 \<Longrightarrow>
     records_ok t0 now (fst (fold (watch_machine now) ms (records, k)))"
proof (induction ms arbitrary: records k)
  case (Cons m ms)
  obtain rs k' where w: "watch_machine now m (records, k) = (rs, k')" by force
  have "records_ok t0 now rs" using watch_machine_ok [OF Cons.prems, of m k] w by simp
  from Cons.IH [OF this Cons.prems(2,3)] w show ?case by simp
qed simp

text \<open>How the map of records may develop.\<close>

definition records_grow :: "MachineTimingRecord gomap \<Rightarrow> MachineTimingRecord gomap \<Rightarrow> bool" where
  "records_grow rs rs' \<longleftrightarrow>
     (\<forall>n r. gm_lookup rs n = Some r \<longrightarrow> (\<exists>r'. gm_lookup rs' n = Some r' \<and> keeps_stamps r r'))"

lemma records_grow_refl: "records_grow rs rs"
  by (auto simp: records_grow_def keeps_stamps_refl)

lemma records_grow_trans: "records_grow a b \<Longrightarrow> records_grow b d \<Longrightarrow> records_grow a d"
  unfolding records_grow_def using keeps_stamps_trans by blast

lemma watch_machine_grows: "records_grow records (fst (watch_machine now m (records, k)))"
  by (auto simp: records_grow_def watch_machine_eq gm_lookup_put record_of_def note_phase_keeps
      keeps_stamps_refl)

lemma watch_fold_grows: "records_grow records (fst (fold (watch_machine now) ms (records, k)))"
proof (induction ms arbitrary: records k)
  case (Cons m ms)
  obtain rs k' where w: "watch_machine now m (records, k) = (rs, k')" by force
  have "records_grow records rs" using watch_machine_grows [of records now m k] w by simp
  with Cons.IH [of rs k'] w show ?case by (auto intro: records_grow_trans)
qed (simp add: records_grow_refl)

definition has_run :: "MachineTimingRecord gomap \<Rightarrow> string \<Rightarrow> bool" where
  "has_run rs n \<longleftrightarrow> (\<exists>r. gm_lookup rs n = Some r \<and> tr_Running r \<noteq> 0)"

lemma has_run_grows: "records_grow rs rs' \<Longrightarrow> has_run rs n \<Longrightarrow> has_run rs' n"
  unfolding records_grow_def has_run_def keeps_stamps_def by metis

lemma watch_fold_count: "snd (fold (watch_machine now) ms (records, k)) = k + int (length (filter running ms))"
proof (induction ms arbitrary: records k)
  case (Cons m ms)
  then show ?case by (auto simp: watch_machine_eq running_phase)
qed simp

lemma watch_fold_runs:
  assumes "now \<noteq> 0"
  shows "m \<in> set ms \<Longrightarrow> running m \<Longrightarrow> has_run (fst (fold (watch_machine now) ms (records, k))) (m_name m)"
proof (induction ms arbitrary: records k)
  case (Cons m' ms)
  obtain rs k' where w: "watch_machine now m' (records, k) = (rs, k')" by force
  show ?case
  proof (cases "m \<in> set ms")
    case True
    with Cons.IH [OF True Cons.prems(2)] w show ?thesis by simp
  next
    case False
    with Cons.prems have "m' = m" by simp
    then have "rs = gm_put (m_name m) (note_phase now ''Running'' (record_of records m)) records"
      using w Cons.prems(2) by (simp add: watch_machine_eq running_phase)
    then have "has_run rs (m_name m)"
      using assms by (simp add: has_run_def gm_lookup_put note_phase_def stamp_running_def
          stamp_provisioned_def stamp_provisioning_def IsZero_def)
    then show ?thesis using has_run_grows [OF watch_fold_grows] w by simp
  qed
qed simp

lemma watch_look_facts:
  assumes "now \<noteq> 0" and look: "fold (watch_machine now) machines (records, 0) = (records', runningCount)"
  shows "runningCount = int (length (filter running machines))"
    "\<forall>m \<in> set machines. running m \<longrightarrow> has_run records' (m_name m)"
  using watch_fold_count [of now machines records 0]
    watch_fold_runs [OF assms(1), of _ machines records 0] look by auto

text \<open>One look of the watch at a listing never moves a stamp that is set and never forgets a
  machine, also one that is gone or being deleted; it counts exactly the machines that run and are
  not being deleted, and every one of those has a running stamp afterwards.\<close>

theorem watch_look:
  assumes "now \<noteq> 0" and look: "fold (watch_machine now) machines (records, 0) = (records', runningCount)"
  shows "records_grow records records' \<and> runningCount = int (length (filter running machines)) \<and>
    (\<forall>m \<in> set machines. running m \<longrightarrow> has_run records' (m_name m))"
  using watch_fold_grows [of records now machines 0] watch_look_facts [OF assms] look by auto

section \<open>The result\<close>

lemma watch_result_fold:
  "pb_Machines (fold add_record records res) = pb_Machines res @ map snd records \<and>
    pb_AllRunningTime res \<le> pb_AllRunningTime (fold add_record records res) \<and>
    (pb_AllRunningTime (fold add_record records res) = pb_AllRunningTime res \<or>
      pb_AllRunningTime (fold add_record records res) \<in> tr_Running ` snd ` set records) \<and>
    (\<forall>r \<in> snd ` set records. tr_Running r \<noteq> 0 \<longrightarrow>
      tr_Running r \<le> pb_AllRunningTime (fold add_record records res))"
proof (induction records arbitrary: res)
  case (Cons p records)
  have 1: "pb_Machines (add_record p res) = pb_Machines res @ [snd p]"
    "pb_AllRunningTime res \<le> pb_AllRunningTime (add_record p res)"
    "pb_AllRunningTime (add_record p res) = pb_AllRunningTime res \<or>
     pb_AllRunningTime (add_record p res) = tr_Running (snd p)"
    "tr_Running (snd p) \<noteq> 0 \<Longrightarrow> tr_Running (snd p) \<le> pb_AllRunningTime (add_record p res)"
    by (auto simp: add_record_def IsZero_def Let_def)
  show ?case
    using Cons.IH [of "add_record p res"] 1 by (auto intro: order_trans)
qed simp

lemma watch_result_facts:
  "pb_Machines (watch_result tc records) = map snd records"
  "r \<in> snd ` set records \<Longrightarrow> tr_Running r \<noteq> 0 \<Longrightarrow> tr_Running r \<le> pb_AllRunningTime (watch_result tc records)"
  "0 \<le> pb_AllRunningTime (watch_result tc records)"
  "pb_AllRunningTime (watch_result tc records) = 0 \<or>
     pb_AllRunningTime (watch_result tc records) \<in> tr_Running ` snd ` set records"
  using watch_result_fold [of records "\<lparr>pb_ScaleRequestTime = 0, pb_AllRunningTime = 0,
    pb_TargetCount = tc, pb_TotalDuration = '''', pb_Machines = [], pb_SteadyState = None, pb_NewMachineLatency = None\<rparr>"]
  by (auto simp: watch_result_def)

section \<open>The whole watch\<close>

text \<open>
  Time only moves forward: \<open>time w\<close> is the time in world \<open>w\<close>, which a reading of the clock and a
  listing do not set back; and a listing names each machine once.
\<close>

definition clock_ok :: "('w \<Rightarrow> int) \<Rightarrow> 'w env \<Rightarrow> bool" where
  "clock_ok time env \<longleftrightarrow>
     (\<forall>w t w'. clock env w = (t, w') \<longrightarrow> time w \<le> t \<and> t \<le> time w') \<and>
     (\<forall>sel w r w'. list_machines env sel w = (r, w') \<longrightarrow> time w \<le> time w')"

definition names_distinct :: "'w env \<Rightarrow> bool" where
  "names_distinct env \<longleftrightarrow>
     (\<forall>sel w ms w'. list_machines env sel w = (Inr ms, w') \<longrightarrow> distinct (map m_name ms))"

definition watch_inv :: "('w \<Rightarrow> int) \<Rightarrow> int \<Rightarrow> 'w watch_vars \<Rightarrow> bool" where
  "watch_inv time t0 v \<longleftrightarrow> (case v of ((records, le), s) \<Rightarrow>
     t0 \<le> time (world s) \<and> records_ok t0 (time (world s)) records)"

lemma watch_cond_inv:
  assumes ck: "clock_ok time env" and t0: "0 < t0" and inv: "watch_inv time t0 v"
  shows "watch_inv time t0 (snd (watch_cond env msName target v))"
proof -
  obtain records le s where v: "v = ((records, le), s)" by (metis prod.exhaust)
  obtain r w1 where l: "list_machines env (machinesOf msName) (world s) = (r, w1)" by force
  obtain now w2 where n: "clock env w1 = (now, w2)" by force
  have t: "t0 \<le> time (world s)" "time (world s) \<le> time w1" "time w1 \<le> now" "now \<le> time w2"
    using ck l n inv v by (auto simp: clock_ok_def watch_inv_def)
  have rs: "records_ok t0 (time (world s)) records" using inv v by (simp add: watch_inv_def)
  show ?thesis
  proof (cases r)
    case (Inl e)
    with v l t rs show ?thesis
      by (simp add: watch_cond_def list_machines_of_def callE_def watch_inv_def records_ok_later)
  next
    case (Inr ms)
    obtain rs' k where f: "fold (watch_machine now) ms (records, 0) = (rs', k)" by force
    have "records_ok t0 now records" using rs t by (auto elim: records_ok_later)
    then have "records_ok t0 now rs'" using watch_fold_ok [of t0 now records ms 0] f t t0 by simp
    then have "records_ok t0 (time w2) rs'" using t(4) by (rule records_ok_later)
    with Inr v l n f t show ?thesis
      by (simp add: watch_cond_def list_machines_of_def callE_def watch_inv_def Now_def)
  qed
qed

lemma watch_cond_true:
  assumes ck: "clock_ok time env" and dis: "names_distinct env" and t0: "0 < t0"
    and inv: "watch_inv time t0 v" and run: "watch_cond env msName target v = (Inr True, ((records, le), s'))"
  shows "target \<le> int (card {n. has_run records n})"
proof -
  obtain records0 le0 s where v: "v = ((records0, le0), s)" by (metis prod.exhaust)
  obtain r w1 where l: "list_machines env (machinesOf msName) (world s) = (r, w1)" by force
  obtain now w2 where n: "clock env w1 = (now, w2)" by force
  obtain ms where ms: "r = Inr ms" using run v l
    by (cases r) (auto simp: watch_cond_def list_machines_of_def callE_def)
  obtain rs k where f: "fold (watch_machine now) ms (records0, 0) = (rs, k)" by force
  have rs: "rs = records" "target \<le> k"
    using run v l n ms f by (auto simp: watch_cond_def list_machines_of_def callE_def Now_def split: if_splits)
  have "time (world s) \<le> time w1" "time w1 \<le> now" "t0 \<le> time (world s)"
    using ck l n inv v by (auto simp: clock_ok_def watch_inv_def)
  then have look: "k = int (length (filter running ms))" "\<forall>m \<in> set ms. running m \<longrightarrow> has_run rs (m_name m)"
    using watch_look_facts [OF _ f] t0 by auto
  have "finite {n. has_run records n}"
    by (rule finite_subset [OF _ finite_dom_map_of [of records]]) (auto simp: has_run_def)
  moreover have "m_name ` set (filter running ms) \<subseteq> {n. has_run records n}" using look(2) rs by auto
  moreover have "distinct (map m_name (filter running ms))"
    using dis l ms unfolding names_distinct_def by (metis distinct_map_filter)
  then have "card (m_name ` set (filter running ms)) = length (filter running ms)"
    by (metis distinct_card length_map list.set_map)
  ultimately have "length (filter running ms) \<le> card {n. has_run records n}" by (metis card_mono)
  then show ?thesis using rs(2) look(1) by simp
qed

lemma has_run_card:
  assumes "gm_ok records"
  shows "card {n. has_run records n} = length (filter (\<lambda>r. tr_Running r \<noteq> 0) (map snd records))"
proof -
  let ?p = "\<lambda>x :: string \<times> MachineTimingRecord. tr_Running (snd x) \<noteq> 0"
  have "{n. has_run records n} = fst ` set (filter ?p records)"
    using assms by (force simp: has_run_def gm_ok_def)
  moreover have "distinct (map fst (filter ?p records))"
    using assms by (simp add: gm_ok_def distinct_map_filter)
  then have "card (fst ` set (filter ?p records)) = length (filter ?p records)"
    using distinct_card by fastforce
  ultimately show ?thesis by (simp add: filter_map comp_def)
qed

lemma watch_final:
  assumes ok: "poller_ok pollw" and ck: "clock_ok time env" and start: "0 < time (world s)"
    and run: "pollw DefaultPolling timeout (watch_cond env msName target) (([], None), s) =
      (pollErr, (records, lastErr), s')"
  shows "watch_inv time (time (world s)) ((records, lastErr), s') \<and>
    (pollErr = None \<longrightarrow> (\<exists>t. watch_inv time (time (world s)) t \<and>
       watch_cond env msName target t = (Inr True, (records, lastErr), s'))) \<and>
    (\<forall>e. pollErr = Some e \<longrightarrow> e = ContextDone)"
proof -
  let ?R = "\<lambda>x y. watch_inv time (time (world s)) x \<longrightarrow> watch_inv time (time (world s)) y"
  let ?c = "watch_cond env msName target"
  obtain n where n: "poll_upto n ?c (([], None), s) = (pollErr, (records, lastErr), s')"
    using ok run unfolding poller_ok_def by metis
  have step: "?R v (snd (?c v))" for v using watch_cond_inv [OF ck start] by blast
  have init: "watch_inv time (time (world s)) (([], None), s)"
    by (simp add: watch_inv_def records_ok_def)
  have "watch_inv time (time (world s)) ((records, lastErr), s')"
    using poll_upto_within [of ?R ?c, where n = n and s = "(([], None), s)"] step init n by auto
  moreover have "\<exists>t. watch_inv time (time (world s)) t \<and> ?c t = (Inr True, (records, lastErr), s')"
    if "pollErr = None"
    using poll_upto_success_along [of ?R ?c n "(([], None), s)"] step init n that by auto
  moreover have "e = ContextDone" if e: "pollErr = Some e" for e
  proof -
    have "?c t \<noteq> (Inl e, x)" for t x
      by (auto simp: watch_cond_def split: prod.splits sum.splits if_splits)
    with poll_upto_error n e show ?thesis by metis
  qed
  ultimately show ?thesis by blast
qed

text \<open>What the watch promises of its result and error, when it ran from time \<open>t0\<close> to time \<open>t\<close>.\<close>

definition benchmark_ok ::
  "int \<Rightarrow> int \<Rightarrow> int \<Rightarrow> PerfBenchmarkResult \<Rightarrow> goerror option \<Rightarrow> bool" where
  "benchmark_ok t0 t target result err \<longleftrightarrow>
    distinct (map tr_Name (pb_Machines result)) \<and>
    (\<forall>r \<in> set (pb_Machines result). timed t0 t r \<and>
       tr_Running r \<le> pb_AllRunningTime result) \<and>
    (pb_AllRunningTime result = 0 \<or> pb_AllRunningTime result \<in> tr_Running ` set (pb_Machines result)) \<and>
    (case err of
       None \<Rightarrow> target \<le> int (length (filter (\<lambda>r. tr_Running r \<noteq> 0) (pb_Machines result)))
     | Some e \<Rightarrow> e = ContextDone \<or> (\<exists>le. e = Wrapf ''%w: %v'' [AErr le] ContextDone))"

lemma watch_benchmark:
  assumes ok: "poller_ok pollw" and ck: "clock_ok time env" and dis: "names_distinct env"
    and start: "0 < time (world s)"
    and run: "WatchMachinePhaseTimestamps env pollw msName target timeout s = ((result, err), s')"
  shows "benchmark_ok (time (world s)) (time (world s')) target result err"
proof -
  obtain pollErr records lastErr s1 where p: "pollw DefaultPolling timeout
      (watch_cond env msName target) (([], None), s) = (pollErr, (records, lastErr), s1)"
    by (metis prod.exhaust)
  note res = run [unfolded WatchMachinePhaseTimestamps_def p]
  have s1: "s1 = s'" and result: "result = watch_result target records"
    and err: "err = (case pollErr of None \<Rightarrow> None
      | Some e \<Rightarrow> Some (case lastErr of None \<Rightarrow> e | Some le \<Rightarrow> Wrapf ''%w: %v'' [AErr le] e))"
    using res by (auto simp: Let_def split: option.splits)
  note fin = watch_final [OF ok ck start p [unfolded s1]]
  have rs: "gm_ok records" "\<forall>(n, r) \<in> set records. tr_Name r = n \<and> timed (time (world s)) (time (world s')) r"
    using fin by (auto simp: watch_inv_def records_ok_def)
  have "map tr_Name (map snd records) = map fst records" using rs(2) by auto
  then have 1: "distinct (map tr_Name (pb_Machines result))"
    using rs(1) by (simp only: result watch_result_facts(1) gm_ok_def)
  have 2: "timed (time (world s)) (time (world s')) r \<and> tr_Running r \<le> pb_AllRunningTime result"
    if "r \<in> set (pb_Machines result)" for r
    using that rs(2) watch_result_facts(2) [of r records target] watch_result_facts(3) [of target records]
    by (cases "tr_Running r = 0") (auto simp: result watch_result_facts(1))
  have 3: "target \<le> int (length (filter (\<lambda>r. tr_Running r \<noteq> 0) (pb_Machines result)))" if "pollErr = None"
  proof -
    obtain t where "watch_inv time (time (world s)) t"
      "watch_cond env msName target t = (Inr True, (records, lastErr), s')" using fin \<open>pollErr = None\<close> by blast
    from watch_cond_true [OF ck dis start this] show ?thesis
      by (simp add: has_run_card [OF rs(1)] result watch_result_facts(1))
  qed
  show ?thesis
    using 1 2 3 fin watch_result_facts(4) [of target records]
    by (auto simp: benchmark_ok_def result watch_result_facts(1) err split: option.splits)
qed

text \<open>C22: The result of the watch, also when it times out.  There is one record per machine name,
  and in each the phases reached are an initial part of provisioning, provisioned, running, with
  stamps in that order that lie between the start and the end of the watch; \<open>AllRunningTime\<close> is
  the latest running stamp, or zero.  Without an error at least \<open>targetCount\<close> machines have a
  running stamp; an error is the context's, with the last complaint.\<close>

theorem watch_result_correct:
  assumes ok: "poller_ok pollw" and ck: "clock_ok time env" and dis: "names_distinct env"
    and start: "0 < time (world s)"
    and run: "WatchMachinePhaseTimestamps env pollw msName target timeout s = ((result, err), s')"
  shows "distinct (map tr_Name (pb_Machines result)) \<and>
    (\<forall>r \<in> set (pb_Machines result). timed (time (world s)) (time (world s')) r \<and>
       tr_Running r \<le> pb_AllRunningTime result) \<and>
    (pb_AllRunningTime result = 0 \<or> pb_AllRunningTime result \<in> tr_Running ` set (pb_Machines result)) \<and>
    (case err of
       None \<Rightarrow> target \<le> int (length (filter (\<lambda>r. tr_Running r \<noteq> 0) (pb_Machines result)))
     | Some e \<Rightarrow> e = ContextDone \<or> (\<exists>le. e = Wrapf ''%w: %v'' [AErr le] ContextDone))"
  using watch_benchmark [OF assms] unfolding benchmark_ok_def .

end
