(* ===== verification/DemoMachines.thy ===== *)
theory DemoMachines
  imports DemoCluster MachineTiming
begin

text \<open>
  Concrete machine APIs at which the properties of the machine theories are applied: a store of
  one machine set with its versions, a codec, and a listing of machines.
\<close>

section \<open>A versioned store\<close>

text \<open>The world is the list of the machine sets written; the position gives the version.\<close>

definition versions :: "machine_set list \<Rightarrow> machine_set list" where
  "versions w = map (\<lambda>i. (w ! i)\<lparr>ms_resourceVersion := replicate i (CHR ''v'')\<rparr>) [0..<length w]"

definition demo_ps :: provider_spec where
  "demo_ps = \<lparr>ps_workspace = Some \<lparr>ws_server = ''vc1'', ws_datacenter = ''dc1'', ws_datastore = ''ds1'',
     ws_resourcePool = ''rp1'', ws_folder = ''/dc1/vm/infra'', ws_other = ''''\<rparr>,
     ps_template = ''/dc1/vm/rhcos'', ps_devices = [], ps_other = ''''\<rparr>"

definition demo_fd_ps :: provider_spec where
  "demo_fd_ps = spec_for_fd demo_ps (Server demo_vc) demo_topology"

definition demo_api :: "machine_set list machine_api" where
  "demo_api = \<lparr>
     get_machine_set = (\<lambda>n w. if w \<noteq> [] \<and> ms_name (last w) = n then (Inr (last (versions w)), w)
       else (Inl (StatusError ''NotFound''), w)),
     update_machine_set = (\<lambda>ms w. if w \<noteq> [] \<and> ms_resourceVersion ms = ms_resourceVersion (last (versions w))
       then (Inr (last (versions (w @ [ms]))), w @ [ms]) else (Inl (StatusError ''Conflict''), w)),
     create_machine_set = (\<lambda>ms w. (Inr ms, w)),
     delete_machine_set = (\<lambda>n w. (Inr (), w)),
     delete_machine = (\<lambda>n w. (Inr (), w)),
     json_unmarshal_ps = (\<lambda>raw. if raw = ''old'' then Inr demo_ps
       else if raw = ''new'' then Inr demo_fd_ps else Inl (ForeignError ''json'')),
     json_marshal_ps = (\<lambda>ps. if ps = demo_fd_ps then Inr ''new'' else Inl (ForeignError ''json'')),
     retry_on_conflict = retry_upto 4\<rparr>"

definition demo_ms :: machine_set where
  "demo_ms = \<lparr>ms_name = ''workers'', ms_namespace = ''openshift-machine-api'', ms_labels = [],
     ms_replicas = Some 1, ms_matchLabels = [], ms_templateLabels = [], ms_providerSpec = Some ''old'',
     ms_resourceVersion = '''', ms_other = ''''\<rparr>"

lemma versions_snoc:
  "versions (w @ [m]) = versions w @ [m\<lparr>ms_resourceVersion := replicate (length w) (CHR ''v'')\<rparr>]"
  by (simp add: versions_def nth_append)

lemma versions_last: "w \<noteq> [] \<Longrightarrow>
    last (versions w) = (last w)\<lparr>ms_resourceVersion := replicate (length w - 1) (CHR ''v'')\<rparr>"
  by (induction w rule: rev_induct) (simp_all add: versions_snoc)

lemma versions_Nil_iff [simp]: "versions w = [] \<longleftrightarrow> w = []"
  by (simp add: versions_def)

lemma versions_distinct: "distinct (map ms_resourceVersion (versions w))"
proof -
  have "map ms_resourceVersion (versions w) = map (\<lambda>i. replicate i (CHR ''v'')) [0..<length w]"
    by (simp add: versions_def)
  moreover have "inj (\<lambda>i. replicate i (CHR ''v''))" by (rule injI) (metis length_replicate)
  ultimately show ?thesis by (simp add: distinct_map inj_on_def inj_def)
qed

lemma demo_versioned: "versioned_store demo_api name versions"
proof -
  have "writes_version demo_api name versions"
    unfolding writes_version_def
  proof (intro allI impI)
    fix w ms r w' assume u: "update_machine_set demo_api ms w = (r, w')" and n: "ms_name ms = name"
    show "prefix (versions w) (versions w') \<and>
        (\<forall>new. r = Inr new \<longrightarrow> (\<exists>pre old post. versions w' = pre @ old # new # post \<and>
           prefix (versions w) (pre @ [old]) \<and> ms_resourceVersion old = ms_resourceVersion ms \<and>
           new = ms\<lparr>ms_resourceVersion := ms_resourceVersion new\<rparr>))"
    proof (cases "w \<noteq> [] \<and> ms_resourceVersion ms = ms_resourceVersion (last (versions w))")
      case True
      then have w': "w' = w @ [ms]" "r = Inr (last (versions (w @ [ms])))"
        using u by (auto simp: demo_api_def)
      have "versions w' = butlast (versions w) @ last (versions w) # last (versions w') # []"
        using True w' by (simp add: versions_snoc)
      moreover have "prefix (versions w) (butlast (versions w) @ [last (versions w)])" using True by simp
      ultimately show ?thesis using True w' by (fastforce simp: versions_snoc)
    qed (use u in \<open>auto simp: demo_api_def\<close>)
  qed
  moreover have "reads_version demo_api name versions"
    unfolding reads_version_def
  proof (intro allI impI)
    fix w r w' assume g: "get_machine_set demo_api name w = (r, w')"
    show "prefix (versions w) (versions w') \<and> (\<forall>ms. r = Inr ms \<longrightarrow> ms \<in> set (versions w') \<and> ms_name ms = name)"
    proof (cases "w \<noteq> [] \<and> ms_name (last w) = name")
      case True
      then have "last (versions w) \<in> set (versions w)" by (intro last_in_set) simp
      moreover have "ms_name (last (versions w)) = name" using True by (simp add: versions_last)
      ultimately show ?thesis using g True by (auto simp: demo_api_def)
    qed (use g in \<open>auto simp: demo_api_def\<close>)
  qed
  ultimately show ?thesis by (simp add: versioned_store_def versions_distinct)
qed

lemma demo_retry: "retry_ok demo_api"
  by (auto simp: retry_ok_def demo_api_def)

theorem scale_loses_no_update_witness:
  "\<exists>s' pre old new post. ScaleMachineSet demo_api ''workers'' 3 \<lparr>world = [demo_ms], trace = []\<rparr> = (Inr (), s') \<and>
     versions (world s') = pre @ old # new # post \<and>
     new = old\<lparr>ms_replicas := Some 3, ms_resourceVersion := ms_resourceVersion new\<rparr>"
proof -
  have g: "get_machine_set demo_api ''workers'' [demo_ms] = (Inr demo_ms, [demo_ms])"
    by (simp add: demo_api_def versions_def demo_ms_def)
  have u: "update_machine_set demo_api (demo_ms\<lparr>ms_replicas := Some 3\<rparr>) [demo_ms] =
      (Inr (last (versions [demo_ms, demo_ms\<lparr>ms_replicas := Some 3\<rparr>])), [demo_ms, demo_ms\<lparr>ms_replicas := Some 3\<rparr>])"
    by (simp add: demo_api_def versions_def demo_ms_def)
  have r: "retry_on_conflict demo_api = retry_upto 4"
    by (simp add: demo_api_def)
  obtain s' where "scale_attempt demo_api ''workers'' 3 \<lparr>world = [demo_ms], trace = []\<rparr> = (Inr (), s')"
    by (simp add: scale_attempt_def bindM_def wrapM_def callE_def Let_def g u ret_def)
  then have "ScaleMachineSet demo_api ''workers'' 3 \<lparr>world = [demo_ms], trace = []\<rparr> = (Inr (), s')"
    unfolding ScaleMachineSet_def r by (rule retry_upto_ok)
  then have run: "ScaleMachineSet demo_api ''workers'' 3 \<lparr>world = [demo_ms], trace = []\<rparr> = (Inr (), s')" .
  from scale_loses_no_update [OF demo_versioned demo_retry run] run show ?thesis by blast
qed

section \<open>Clones\<close>

lemma demo_codec: "ps_codec_ok demo_api"
  by (auto simp: ps_codec_ok_def demo_api_def split: if_splits)

theorem clone_for_fd_placed_witness:
  "\<exists>ms ps. CloneMachineSetForFD demo_api demo_ms ''clone'' demo_cfg = Inr ms \<and>
     ExtractVSphereMachineSetProviderSpec demo_api ms = Inr ps \<and>
     placed demo_ps ''vc2'' demo_topology ps"
proof -
  have fd: "FailureDomain demo_cfg = Some fd \<Longrightarrow> Topology fd = demo_topology" for fd
    by (auto simp: demo_cfg_def)
  have "\<exists>ms. CloneMachineSetForFD demo_api demo_ms ''clone'' demo_cfg = Inr ms"
    by (simp add: CloneMachineSetForFD_def ExtractVSphereMachineSetProviderSpec_def demo_api_def
        demo_ms_def demo_fd_ps_def demo_cfg_def)
  then obtain ms where run: "CloneMachineSetForFD demo_api demo_ms ''clone'' demo_cfg = Inr ms" ..
  have dc: "\<forall>fd. FailureDomain demo_cfg = Some fd \<longrightarrow> component (Datacenter (Topology fd))"
    using fd by (auto simp: component_def demo_topology_def)
  have src: "ExtractVSphereMachineSetProviderSpec demo_api demo_ms = Inr demo_ps"
    by (simp add: ExtractVSphereMachineSetProviderSpec_def demo_api_def demo_ms_def)
  have "Server (SecondVCenter demo_cfg) = ''vc2''" by (simp add: demo_cfg_def)
  with clone_for_fd_placed [OF demo_codec run dc] src run fd show ?thesis by auto
qed

section \<open>Listings\<close>

definition demo_machine :: machine where
  "demo_machine = \<lparr>m_name = ''worker-0'', m_labels = [], m_deletionTimestamp = None,
     m_creationTimestamp = 3, m_phase = Some ''Running'', m_nodeRef = Some ''node-0'',
     m_resourceVersion = ''1'', m_providerSpec = None\<rparr>"

theorem drain_waits_witness:
  "\<exists>s'. WaitForMachineSetDrainedWithDelete mem ''workers'' 5 mem_st = (Inr (), s') \<and>
     emitted (\<lambda>e. e = EList ''machines'' (machinesOf ''workers'')) mem_st s'"
proof -
  have ok: "poller_ok (poll mem)" by (auto simp: poller_ok_def mem_def)
  have "\<exists>s'. WaitForMachineSetDrainedWithLog mem ''workers'' 5 mem_st = (Inr (), s')"
    by (simp add: WaitForMachineSetDrainedWithLog_def poll_plain_def mem_def plain_cond_def
        list_machines_of_def callE_def eval_nat_numeral)
  then obtain s' where run: "WaitForMachineSetDrainedWithLog mem ''workers'' 5 mem_st = (Inr (), s')" ..
  from drain_waits [OF ok run] show ?thesis by blast
qed

theorem resource_version_changes_witness:
  "CountResourceVersionChanges (live_versions [demo_machine])
     (live_versions [demo_machine\<lparr>m_resourceVersion := ''2''\<rparr>]) =
   int (card {n. \<exists>m m'. m \<in> {demo_machine} \<and> m' \<in> {demo_machine\<lparr>m_resourceVersion := ''2''\<rparr>} \<and>
      m_name m = n \<and> m_name m' = n \<and> m_deletionTimestamp m = None \<and>
      m_deletionTimestamp m' = None \<and> m_resourceVersion m' \<noteq> m_resourceVersion m})"
  using resource_version_changes [of "[demo_machine]" "[demo_machine\<lparr>m_resourceVersion := ''2''\<rparr>]"
    "live_versions [demo_machine]"] by simp

definition watch_env :: "cluster env" where
  "watch_env = mem\<lparr>list_machines := (\<lambda>sel w. (Inr [demo_machine], w)), clock := (\<lambda>w. (5, w))\<rparr>"

theorem watch_look_witness:
  "has_run (fst (fold (watch_machine 5) [demo_machine] ([], 0))) ''worker-0''"
  using watch_look [of 5 "[demo_machine]" "[]" "fst (fold (watch_machine 5) [demo_machine] ([], 0))"
    "snd (fold (watch_machine 5) [demo_machine] ([], 0))"]
  by (simp add: demo_machine_def running_def)

lemma watch_env_facts: "poller_ok (\<lambda>i t. poll_upto 2)" "clock_ok (\<lambda>_. 5) watch_env" "names_distinct watch_env"
  by (auto simp: poller_ok_def clock_ok_def names_distinct_def watch_env_def)

lemma watch_run:
  "\<exists>result s'. WatchMachinePhaseTimestamps watch_env (\<lambda>i t. poll_upto 2) ''workers'' 1 60 mem_st =
      ((result, None), s') \<and> length (pb_Machines result) = 1"
  by (simp add: WatchMachinePhaseTimestamps_def watch_cond_def watch_env_def list_machines_of_def callE_def
      Now_def watch_machine_eq running_def demo_machine_def eval_nat_numeral watch_result_facts(1))

theorem watch_result_correct_witness:
  "\<exists>result s'. WatchMachinePhaseTimestamps watch_env (\<lambda>i t. poll_upto 2) ''workers'' 1 60 mem_st =
      ((result, None), s') \<and>
    1 \<le> length (filter (\<lambda>r. tr_Running r \<noteq> 0) (pb_Machines result))"
proof -
  obtain result s' where run: "WatchMachinePhaseTimestamps watch_env (\<lambda>i t. poll_upto 2) ''workers'' 1 60
      mem_st = ((result, None), s')" using watch_run by blast
  from watch_result_correct [OF watch_env_facts _ run] run show ?thesis by auto
qed

end
