(* ===== verification/Float64.thy ===== *)
theory Float64
  imports Complex_Main
begin

text \<open>
  Arithmetic in \<open>float64\<close>: a rational number is rounded to 53 significant bits, to nearest, ties to
  even, and an operation of the program is the exact operation followed by the rounding.  The range
  of the exponent is not bounded, so overflow to infinity and subnormal numbers do not occur; the
  programs here compute with counts, durations and their quotients.
\<close>

section \<open>Rounding\<close>

text \<open>The number of binary digits.\<close>

function bits :: "int \<Rightarrow> nat" where
  "bits n = (if n \<le> 0 then 0 else Suc (bits (n div 2)))"
  by pat_completeness auto
termination
  by (relation "measure nat") auto

declare bits.simps [simp del]

definition pow2 :: "int \<Rightarrow> rat" where
  "pow2 e = (if 0 \<le> e then 2 ^ nat e else 1 / 2 ^ nat (- e))"

definition round_half_even :: "rat \<Rightarrow> int" where
  "round_half_even r =
     (let q = \<lfloor>r\<rfloor>; f = r - of_int q in
      if f < 1 / 2 then q else if 1 / 2 < f then q + 1 else if even q then q else q + 1)"

text \<open>The exponent of the last of the 53 digits of a positive number.\<close>

definition exponent :: "rat \<Rightarrow> int" where
  "exponent x =
     (case quotient_of x of (a, b) \<Rightarrow>
        let e = int (bits a) - int (bits b) in (if pow2 e \<le> x then e else e - 1) - 52)"

definition fl :: "rat \<Rightarrow> rat" where
  "fl x =
     (if x = 0 then 0
      else let e = exponent \<bar>x\<bar>; y = of_int (round_half_even (\<bar>x\<bar> / pow2 e)) * pow2 e
           in if x < 0 then - y else y)"

section \<open>Powers of two\<close>

lemma pow2_powi: "pow2 e = 2 powi e"
  by (auto simp: pow2_def power_int_def inverse_eq_divide power_divide)

lemma pow2_pos [simp]: "0 < pow2 e" "pow2 e \<noteq> 0" "0 \<le> pow2 e"
  by (simp_all add: pow2_powi)

lemma pow2_add: "pow2 (a + b) = pow2 a * pow2 b"
  by (simp add: pow2_powi power_int_add)

lemma pow2_mono: "a \<le> b \<Longrightarrow> pow2 a \<le> pow2 b"
  by (simp add: pow2_powi power_int_increasing)

lemma pow2_less: "pow2 a < pow2 b \<Longrightarrow> a < b"
  using pow2_mono [of b a] by linarith

lemma pow2_strict: "a < b \<Longrightarrow> pow2 a < pow2 b"
  by (simp add: pow2_powi power_int_strict_increasing)

lemma pow2_int: "pow2 (int n) = 2 ^ n"
  by (simp add: pow2_def)

lemma pow2_53: "pow2 (e + 53) = 2 ^ 53 * pow2 e" and pow2_52: "pow2 (e + 52) = 2 ^ 52 * pow2 e"
  using pow2_add [of e 53] pow2_add [of e 52] by (simp_all add: pow2_def)

lemma bits_bounds: "0 < n \<Longrightarrow> 2 ^ (bits n - 1) \<le> n \<and> n < 2 ^ bits n"
proof (induction n rule: bits.induct)
  case (1 n)
  show ?case
  proof (cases "n = 1")
    case True
    then show ?thesis by (simp add: bits.simps [of 1] bits.simps [of 0])
  next
    case False
    then have pos: "0 < n div 2" using 1(2) by linarith
    then have "2 ^ (bits (n div 2) - 1) \<le> n div 2" "n div 2 < 2 ^ bits (n div 2)" "0 < bits (n div 2)"
      using 1 by (auto simp: bits.simps [of "n div 2"])
    moreover from this(3) have "(2 :: int) ^ bits (n div 2) = 2 * 2 ^ (bits (n div 2) - 1)"
      by (cases "bits (n div 2)") simp_all
    moreover have "bits n = Suc (bits (n div 2))" using 1(2) by (simp add: bits.simps [of n])
    ultimately show ?thesis by simp linarith
  qed
qed

lemma bits_pos: "0 < n \<Longrightarrow> 0 < bits n"
  by (simp add: bits.simps)

lemma bits_pow2:
  assumes "0 < n"
  shows "pow2 (int (bits n) - 1) \<le> of_int n" "of_int n < pow2 (int (bits n))"
proof -
  have "int (bits n) - 1 = int (bits n - 1)" using bits_pos [OF assms] by simp
  moreover have "(of_int (2 ^ (bits n - 1)) :: rat) \<le> of_int n" "(of_int n :: rat) < of_int (2 ^ bits n)"
    using bits_bounds [OF assms] by (simp_all only: of_int_le_iff of_int_less_iff)
  ultimately show "pow2 (int (bits n) - 1) \<le> of_int n" "of_int n < pow2 (int (bits n))"
    by (simp_all only: pow2_int of_int_power of_int_numeral)
qed

lemma exponent_bounds:
  assumes "0 < x"
  shows "pow2 (exponent x + 52) \<le> x \<and> x < pow2 (exponent x + 53)"
proof -
  obtain a b where q: "quotient_of x = (a, b)" by force
  have x: "x = of_int a / of_int b" and b: "0 < b" using q by (simp_all add: quotient_of_div quotient_of_denom_pos)
  then have a: "0 < a" using assms by (simp add: zero_less_divide_iff)
  let ?A = "int (bits a)" and ?B = "int (bits b)"
  have A: "pow2 (?A - 1) \<le> of_int a" "of_int a < pow2 ?A" using bits_pow2 [OF a] by simp_all
  have B: "pow2 (?B - 1) \<le> of_int b" "of_int b < pow2 ?B" using bits_pow2 [OF b] by simp_all
  have eq: "pow2 (?A - ?B - 1) * pow2 ?B = pow2 (?A - 1)" "pow2 (?A - ?B + 1) * pow2 (?B - 1) = pow2 ?A"
    by (simp_all flip: pow2_add)
  have bp: "0 < (of_int b :: rat)" using b by simp
  have "pow2 (?A - ?B - 1) * of_int b \<le> pow2 (?A - ?B - 1) * pow2 ?B" using B by simp
  also have "\<dots> \<le> of_int a" using A eq by simp
  finally have lo: "pow2 (?A - ?B - 1) \<le> x" unfolding x using bp by (simp add: le_divide_eq)
  have "of_int a < pow2 (?A - ?B + 1) * pow2 (?B - 1)" using A eq by simp
  also have "\<dots> \<le> pow2 (?A - ?B + 1) * of_int b" using B by simp
  finally have hi: "x < pow2 (?A - ?B + 1)" unfolding x using bp by (simp add: divide_less_eq)
  show ?thesis
  proof (cases "pow2 (?A - ?B) \<le> x")
    case True
    then show ?thesis using hi by (simp add: exponent_def q Let_def algebra_simps)
  next
    case False
    then show ?thesis using lo by (simp add: exponent_def q Let_def algebra_simps)
  qed
qed

lemma round_close: "\<bar>of_int (round_half_even r) - r\<bar> \<le> 1 / 2"
proof -
  have "0 \<le> r - of_int \<lfloor>r\<rfloor>" "r - of_int \<lfloor>r\<rfloor> < 1" by linarith+
  then show ?thesis by (auto simp: round_half_even_def Let_def abs_le_iff)
qed

lemma round_mono: "r \<le> s \<Longrightarrow> round_half_even r \<le> round_half_even s"
proof (cases "\<lfloor>r\<rfloor> = \<lfloor>s\<rfloor>")
  case True
  assume "r \<le> s"
  then show ?thesis using True by (auto simp: round_half_even_def Let_def)
next
  case False
  assume "r \<le> s"
  with False have "\<lfloor>r\<rfloor> + 1 \<le> \<lfloor>s\<rfloor>" using floor_mono [of r s] by linarith
  then show ?thesis by (auto simp: round_half_even_def Let_def)
qed

lemma round_of_int [simp]: "round_half_even (of_int i) = i"
  by (simp add: round_half_even_def)

lemma fl_pos: "0 < x \<Longrightarrow> fl x = of_int (round_half_even (x / pow2 (exponent x))) * pow2 (exponent x)"
  by (simp add: fl_def Let_def)

lemma fl_zero [simp]: "fl 0 = 0"
  by (simp add: fl_def)

lemma fl_minus: "fl (- x) = - fl x"
  by (simp add: fl_def Let_def)

lemma fl_between:
  assumes "0 < x"
  shows "pow2 (exponent x + 52) \<le> fl x" "fl x \<le> pow2 (exponent x + 53)"
proof -
  let ?e = "exponent x"
  have "of_int (2 ^ 52) \<le> x / pow2 ?e" "x / pow2 ?e \<le> of_int (2 ^ 53)"
    using exponent_bounds [OF assms] by (simp_all add: pow2_52 pow2_53 field_simps)
  from round_mono [OF this(1)] round_mono [OF this(2)]
  have "(2 :: int) ^ 52 \<le> round_half_even (x / pow2 ?e)" "round_half_even (x / pow2 ?e) \<le> 2 ^ 53"
    by (simp_all only: round_of_int)
  then have "(of_int (2 ^ 52) :: rat) \<le> of_int (round_half_even (x / pow2 ?e))"
    "(of_int (round_half_even (x / pow2 ?e)) :: rat) \<le> of_int (2 ^ 53)"
    by (simp_all only: of_int_le_iff)
  then show "pow2 (?e + 52) \<le> fl x" "fl x \<le> pow2 (?e + 53)"
    by (simp_all add: fl_pos [OF assms] pow2_52 pow2_53)
qed

lemma fl_positive: "0 < x \<Longrightarrow> 0 < fl x"
  using fl_between(1) [of x] pow2_pos(1) [of "exponent x + 52"] by linarith

lemma fl_nonneg: "0 \<le> x \<Longrightarrow> 0 \<le> fl x"
  using fl_positive [of x] by (cases "x = 0") simp_all

lemma fl_mono_pos:
  assumes "0 < x" "x \<le> y"
  shows "fl x \<le> fl y"
proof (cases "exponent x = exponent y")
  case True
  have "x / pow2 (exponent y) \<le> y / pow2 (exponent y)" using assms(2) by (simp add: divide_right_mono)
  then show ?thesis using assms True by (simp add: fl_pos round_mono)
next
  case False
  have "pow2 (exponent x + 52) < pow2 (exponent y + 53)"
    using exponent_bounds [of x] exponent_bounds [of y] assms by linarith
  then have "exponent x + 53 \<le> exponent y + 52" using pow2_less False by fastforce
  then have "pow2 (exponent x + 53) \<le> pow2 (exponent y + 52)" by (rule pow2_mono)
  then show ?thesis using fl_between [of x] fl_between [of y] assms by linarith
qed

text \<open>Rounding is monotone.\<close>

lemma fl_mono: "x \<le> y \<Longrightarrow> fl x \<le> fl y"
proof (cases "0 < x")
  case False
  assume le: "x \<le> y"
  show ?thesis
  proof (cases "y < 0")
    case True
    then show ?thesis using fl_mono_pos [of "- y" "- x"] le by (simp add: fl_minus)
  next
    case y: False
    have "fl x \<le> 0" using fl_nonneg [of "- x"] False by (simp add: fl_minus)
    also have "0 \<le> fl y" using fl_nonneg [of y] y by simp
    finally show ?thesis .
  qed
qed (simp add: fl_mono_pos)

text \<open>A number of at most 53 digits is not rounded.\<close>

lemma fl_exact:
  assumes "\<bar>c\<bar> \<le> 2 ^ 53"
  shows "fl (of_int c * pow2 j) = of_int c * pow2 j"
proof -
  have pos: "fl (of_int c * pow2 j) = of_int c * pow2 j" if c: "0 < c" "c \<le> 2 ^ 53" for c
  proof -
    let ?x = "of_int c * pow2 j"
    obtain e where e: "exponent ?x = e" by simp
    have x: "0 < ?x" using c by simp
    note bounds = exponent_bounds [OF x, unfolded e]
    have "of_int c \<le> (of_int (2 ^ 53) :: rat)" using c(2) by (simp only: of_int_le_iff)
    then have top: "?x \<le> pow2 (j + 53)" by (simp add: pow2_53)
    then have "\<not> pow2 (j + 53) < pow2 (e + 52)" using bounds by linarith
    then have le: "e \<le> j + 1" using pow2_strict [of "j + 53" "e + 52"] by linarith
    have "\<exists>i. ?x / pow2 e = of_int i"
    proof (cases "e \<le> j")
      case True
      have "pow2 j = 2 ^ nat (j - e) * pow2 e"
        using pow2_add [of "j - e" e] True by (simp add: pow2_def [of "j - e"])
      then have "?x / pow2 e = of_int (c * 2 ^ nat (j - e))" by simp
      then show ?thesis ..
    next
      case False
      then have e: "e = j + 1" using le by simp
      then have "?x = 2 ^ 53 * pow2 j" using bounds top by (simp add: pow2_53 algebra_simps)
      moreover have "pow2 e = 2 * pow2 j" using pow2_add [of j 1] e by (simp add: pow2_def [of 1])
      ultimately have "?x / pow2 e = of_int (2 ^ 52)" by (simp only:) simp
      then show ?thesis ..
    qed
    then obtain i where i: "?x / pow2 e = of_int i" ..
    then have "fl ?x = of_int i * pow2 e" using fl_pos [OF x] by (simp only: e round_of_int)
    then show ?thesis by (simp flip: i)
  qed
  consider "c = 0" | "0 < c" | "0 < - c" by linarith
  then show ?thesis
  proof cases
    case 3
    then show ?thesis using pos [of "- c"] assms by (simp add: fl_minus)
  qed (use pos [of c] assms in auto)
qed

lemma fl_of_int [simp]: "\<bar>c\<bar> \<le> 2 ^ 53 \<Longrightarrow> fl (of_int c) = of_int c"
  using fl_exact [of c 0] by (simp add: pow2_def)

lemma fl_of_nat [simp]: "n \<le> 2 ^ 53 \<Longrightarrow> fl (of_nat n) = of_nat n"
  using fl_of_int [of "int n"] by simp

text \<open>The relative error of a rounding is at most \<open>2 ^ -53\<close>.\<close>

lemma fl_close: "\<bar>fl x - x\<bar> \<le> \<bar>x\<bar> / 2 ^ 53"
proof -
  have pos: "\<bar>fl x - x\<bar> \<le> x / 2 ^ 53" if x: "0 < x" for x
  proof -
    let ?e = "exponent x"
    have "fl x - x = (of_int (round_half_even (x / pow2 ?e)) - x / pow2 ?e) * pow2 ?e"
      by (simp add: fl_pos [OF x] algebra_simps)
    then have "\<bar>fl x - x\<bar> = \<bar>of_int (round_half_even (x / pow2 ?e)) - x / pow2 ?e\<bar> * pow2 ?e"
      by (simp add: abs_mult)
    also have "\<dots> \<le> 1 / 2 * pow2 ?e" by (intro mult_right_mono round_close) simp
    also have "\<dots> \<le> x / 2 ^ 53" using exponent_bounds [OF x] by (simp add: pow2_52)
    finally show ?thesis .
  qed
  consider "x = 0" | "0 < x" | "0 < - x" by linarith
  then show ?thesis
    by cases (use pos [of x] pos [of "- x"] in \<open>auto simp: fl_minus\<close>)
qed

end
