(* ===== verification/JUnitGrid.thy ===== *)
theory JUnitGrid
  imports LabState Float64
begin

text \<open>
  \<open>cmd/aggregate-junit/main.go\<close>: the grid of test results over several runs.  The file system,
  the XML decoder and the \<open>git\<close> command are the fields of \<open>junit_env\<close>; they do not change while
  the program runs.
  Printing the grid is in \<open>GridReport\<close> (Markdown) and \<open>HtmlPage\<close> (HTML).
\<close>

section \<open>Results\<close>

datatype Result = ResultMissing | ResultSkip | ResultPass | ResultFail | ResultError

fun rank :: "Result \<Rightarrow> nat" where
  "rank ResultMissing = 0"
| "rank ResultSkip = 1"
| "rank ResultPass = 2"
| "rank ResultFail = 3"
| "rank ResultError = 4"

lemma rank_inj: "rank r = rank s \<Longrightarrow> r = s"
  by (cases r; cases s) simp_all

instantiation Result :: linorder
begin

definition less_eq_Result :: "Result \<Rightarrow> Result \<Rightarrow> bool" where
  "less_eq_Result r s \<longleftrightarrow> rank r \<le> rank s"

definition less_Result :: "Result \<Rightarrow> Result \<Rightarrow> bool" where
  "less_Result r s \<longleftrightarrow> rank r < rank s"

instance
  by intro_classes (auto simp: less_eq_Result_def less_Result_def intro: rank_inj)

end

lemma Missing_least [simp]: "ResultMissing \<le> r" "max ResultMissing r = r" "max r ResultMissing = r"
  by (cases r; simp add: less_eq_Result_def max_def)+

fun Result_String :: "Result \<Rightarrow> string" where
  "Result_String ResultPass = ''PASS''"
| "Result_String ResultFail = ''FAIL''"
| "Result_String ResultSkip = ''SKIP''"
| "Result_String ResultError = ''ERR''"
| "Result_String ResultMissing = ''-''"

fun CSSClass :: "Result \<Rightarrow> string" where
  "CSSClass ResultPass = ''pass''"
| "CSSClass ResultFail = ''fail''"
| "CSSClass ResultSkip = ''skip''"
| "CSSClass ResultError = ''error''"
| "CSSClass ResultMissing = ''missing''"

text \<open>The elements of a JUnit file.\<close>

record JUnitFailure =
  jf_Message :: string
  jf_Body :: string

record JUnitSkipped =
  jk_Message :: string

record JUnitError =
  je_Message :: string
  je_Body :: string

record JUnitTestCase =
  jc_Name :: string
  jc_ClassName :: string
  jc_Time :: rat
  jc_Failure :: "JUnitFailure option"
  jc_Skipped :: "JUnitSkipped option"
  jc_Error :: "JUnitError option"

record JUnitTestSuite =
  js_Name :: string
  js_Tests :: int
  js_Failures :: int
  js_Errors :: int
  js_Skipped :: int
  js_Time :: rat
  js_TestCases :: "JUnitTestCase list"

record JUnitTestSuites =
  jss_Suites :: "JUnitTestSuite list"

definition classifyResult :: "JUnitTestCase \<Rightarrow> Result" where
  "classifyResult tc =
     (if jc_Error tc \<noteq> None then ResultError
      else if jc_Failure tc \<noteq> None then ResultFail
      else if jc_Skipped tc \<noteq> None then ResultSkip
      else ResultPass)"

section \<open>Test identifiers and links\<close>

text \<open>
  \<open>testIDPattern\<close>: a word boundary, one of the prefixes, a hyphen and digits, then groups of a
  slash and digits, as many as there are.  The first position of the name that has a match wins.
\<close>

definition id_prefixes :: "string list" where
  "id_prefixes =
     [''N-INF'', ''N-SEQ'', ''N-CFG'', ''N-CM'', ''N-OP'', ''N-GATE'', ''N-CRED'', ''N-MACH'', ''N-CPMS'',
      ''N-MS'', ''N-CSI-INT'', ''N-CSI-STOR'', ''N-CSI'', ''N-RVC'', ''N-VPD'', ''N-TOPO'',
      ''SYNTH'', ''TOPO'', ''FD-ADD'', ''FD-REM'', ''PV-SAFE'', ''VC-REM'', ''EDGE'', ''OBS'']"

definition digit :: "char \<Rightarrow> bool" where
  "digit c \<longleftrightarrow> (let n = (of_char c :: nat) in 48 \<le> n \<and> n \<le> 57)"

definition word_char :: "char \<Rightarrow> bool" where
  "word_char c \<longleftrightarrow> (let n = (of_char c :: nat) in
     digit c \<or> 65 \<le> n \<and> n \<le> 90 \<or> 97 \<le> n \<and> n \<le> 122 \<or> n = 95)"

function slash_groups :: "string \<Rightarrow> string" where
  "slash_groups s =
     (case s of
        [] \<Rightarrow> []
      | c # t \<Rightarrow>
          let ds = takeWhile digit t in
          if c = CHR ''/'' \<and> ds \<noteq> [] then c # ds @ slash_groups (drop (length ds) t) else [])"
  by pat_completeness auto
termination
  by (relation "measure length") auto

declare slash_groups.simps [simp del]

fun match_id_with :: "string list \<Rightarrow> string \<Rightarrow> string option" where
  "match_id_with [] s = None"
| "match_id_with (p # ps) s =
     (let rest = drop (length p) s; ds = takeWhile digit (drop 1 rest) in
      if HasPrefix s p \<and> HasPrefix rest ''-'' \<and> ds \<noteq> []
      then Some (p @ ''-'' @ ds @ slash_groups (drop (1 + length ds) rest))
      else match_id_with ps s)"

text \<open>The search; the first argument tells whether the previous character is a word character.\<close>

fun find_id :: "bool \<Rightarrow> string \<Rightarrow> string" where
  "find_id prev [] = ''''"
| "find_id prev (c # s) =
     (case (if prev then None else match_id_with id_prefixes (c # s)) of
        Some m \<Rightarrow> m
      | None \<Rightarrow> find_id (word_char c) s)"

definition extractTestID :: "string \<Rightarrow> string" where
  "extractTestID name = find_id False name"

definition testIDToDocFile :: "string \<Rightarrow> string" where
  "testIDToDocFile i = ReplaceAll i (CHR ''/'') (CHR ''-'') @ ''.md''"

record junit_env =
  ju_glob :: "string \<Rightarrow> string list res"
  ju_read :: "string \<Rightarrow> string res"
  ju_suites :: "string \<Rightarrow> JUnitTestSuites res"
  ju_suite :: "string \<Rightarrow> JUnitTestSuite res"
  ju_remote :: "string res"
  ju_exists :: "string \<Rightarrow> bool"

text \<open>\<open>strings.Replace(s, old, new, 1)\<close>.\<close>

definition Replace1 :: "string \<Rightarrow> string \<Rightarrow> string \<Rightarrow> string" where
  "Replace1 s old new =
     (case Index s old of None \<Rightarrow> s | Some i \<Rightarrow> take i s @ new @ drop (i + length old) s)"

definition gitRepoBaseURL :: "junit_env \<Rightarrow> string" where
  "gitRepoBaseURL env =
     (case ju_remote env of
        Inl _ \<Rightarrow> ''''
      | Inr out \<Rightarrow>
          let remote = TrimSuffix (TrimSpace out) ''.git'';
              remote = (if HasPrefix remote ''git@''
                        then Replace1 (Replace1 remote '':'' ''/'') ''git@'' ''https://''
                        else remote)
          in remote @ ''/blob/main'')"

definition doc_link :: "junit_env \<Rightarrow> string \<Rightarrow> string \<Rightarrow> string option" where
  "doc_link env baseURL test =
     (let i = extractTestID test; docFile = testIDToDocFile i in
      if i = '''' then None
      else if ju_exists env (path_join ''docs/tests'' docFile)
      then Some (baseURL @ ''/docs/tests/'' @ docFile) else None)"

definition resolveDocLinks :: "junit_env \<Rightarrow> string list \<Rightarrow> string gomap" where
  "resolveDocLinks env tests =
     (let baseURL = gitRepoBaseURL env in
      if baseURL = '''' then []
      else fold (\<lambda>test links. case doc_link env baseURL test of
              None \<Rightarrow> links | Some l \<Rightarrow> gm_put test l links) tests [])"

section \<open>The grid\<close>

record RunSummary =
  rs_Pass :: int
  rs_Fail :: int
  rs_Skip :: int
  rs_Error :: int
  rs_Missing :: int
  rs_Total :: int

record GridData =
  g_Runs :: "string list"
  g_Tests :: "string list"
  g_Matrix :: "Result gomap gomap"
  g_PassRates :: "rat gomap"
  g_RunTotals :: "RunSummary gomap"
  g_DocLinks :: "string gomap"

text \<open>\<open>grid.Matrix[test][run]\<close>: a missing entry reads as the zero value, \<open>ResultMissing\<close>.\<close>

definition cell :: "Result gomap gomap \<Rightarrow> string \<Rightarrow> string \<Rightarrow> Result" where
  "cell matrix test run =
     (case gm_lookup matrix test of
        None \<Rightarrow> ResultMissing
      | Some row \<Rightarrow> (case gm_lookup row run of None \<Rightarrow> ResultMissing | Some r \<Rightarrow> r))"

definition parseJUnitFile :: "junit_env \<Rightarrow> string \<Rightarrow> JUnitTestCase list res" where
  "parseJUnitFile env path =
     (case ju_read env path of
        Inl err \<Rightarrow> Inl err
      | Inr data \<Rightarrow>
          (case (case ju_suites env data of
                   Inr suites \<Rightarrow> Inr (jss_Suites suites)
                 | Inl err \<Rightarrow>
                     (case ju_suite env data of
                        Inl _ \<Rightarrow> Inl (Wrapf ''parse XML: %w'' [] err)
                      | Inr suite \<Rightarrow> Inr [suite])) of
             Inl err \<Rightarrow> Inl err
           | Inr suites \<Rightarrow> Inr (concat (map js_TestCases suites))))"

type_synonym grid_acc = "bool gomap \<times> Result gomap gomap"

definition add_case :: "string \<Rightarrow> JUnitTestCase \<Rightarrow> grid_acc \<Rightarrow> grid_acc" where
  "add_case runName tc acc =
     (case acc of (testSet, matrix) \<Rightarrow>
        let testName = jc_Name tc;
            row = (case gm_lookup matrix testName of None \<Rightarrow> [] | Some row \<Rightarrow> row);
            result = classifyResult tc;
            row = (case gm_lookup row runName of
                     None \<Rightarrow> gm_put runName result row
                   | Some existing \<Rightarrow> if result > existing then gm_put runName result row else row)
        in (gm_put testName True testSet, gm_put testName row matrix))"

definition add_file :: "junit_env \<Rightarrow> string \<Rightarrow> string \<Rightarrow> grid_acc \<Rightarrow> grid_acc" where
  "add_file env runName xmlFile acc =
     (case parseJUnitFile env xmlFile of
        Inl err \<Rightarrow> acc
      | Inr cases \<Rightarrow> fold (add_case runName) cases acc)"

definition add_run :: "junit_env \<Rightarrow> string \<Rightarrow> grid_acc \<Rightarrow> grid_acc" where
  "add_run env runDir acc =
     (case ju_glob env (path_join runDir ''*.xml'') of
        Inl err \<Rightarrow> acc
      | Inr xmlFiles \<Rightarrow> fold (add_file env (Base runDir)) xmlFiles acc)"

definition decided :: "Result \<Rightarrow> bool" where
  "decided r \<longleftrightarrow> r = ResultPass \<or> r = ResultFail \<or> r = ResultError"

definition pass_rate :: "nat \<Rightarrow> nat \<Rightarrow> rat" where
  "pass_rate passed all = fl (fl (fl (of_nat passed) / fl (of_nat all)) * 100)"

definition add_rate :: "string list \<Rightarrow> Result gomap gomap \<Rightarrow> string \<Rightarrow> rat gomap \<Rightarrow> rat gomap" where
  "add_rate runs matrix test rates =
     (let results = map (cell matrix test) runs;
          total = length (filter decided results);
          passed = length (filter (\<lambda>r. r = ResultPass) results)
      in if total > 0 then gm_put test (pass_rate passed total) rates else rates)"

definition count_result :: "Result \<Rightarrow> RunSummary \<Rightarrow> RunSummary" where
  "count_result r summary =
     (let summary = summary\<lparr>rs_Total := rs_Total summary + 1\<rparr> in
      case r of
        ResultPass \<Rightarrow> summary\<lparr>rs_Pass := rs_Pass summary + 1\<rparr>
      | ResultFail \<Rightarrow> summary\<lparr>rs_Fail := rs_Fail summary + 1\<rparr>
      | ResultSkip \<Rightarrow> summary\<lparr>rs_Skip := rs_Skip summary + 1\<rparr>
      | ResultError \<Rightarrow> summary\<lparr>rs_Error := rs_Error summary + 1\<rparr>
      | ResultMissing \<Rightarrow> summary\<lparr>rs_Missing := rs_Missing summary + 1\<rparr>)"

definition summarize :: "string list \<Rightarrow> Result gomap gomap \<Rightarrow> string \<Rightarrow> RunSummary" where
  "summarize tests matrix run =
     fold (\<lambda>test. count_result (cell matrix test run)) tests
       \<lparr>rs_Pass = 0, rs_Fail = 0, rs_Skip = 0, rs_Error = 0, rs_Missing = 0, rs_Total = 0\<rparr>"

definition buildGrid :: "junit_env \<Rightarrow> string \<Rightarrow> GridData res" where
  "buildGrid env resultsDir =
     (case ju_glob env (path_join resultsDir ''run-*'') of
        Inl err \<Rightarrow> Inl (Wrapf ''glob run dirs: %w'' [] err)
      | Inr runDirs \<Rightarrow>
          if runDirs = [] then Inl (Errorf ''no run-* directories found in %s'' [AStr resultsDir])
          else
            (let runDirs = sort runDirs; runs = map Base runDirs in
             case fold (add_run env) runDirs ([], []) of
               (testSet, matrix) \<Rightarrow>
                 let tests = sort (map fst testSet) in
                 Inr \<lparr>g_Runs = runs, g_Tests = tests, g_Matrix = matrix,
                      g_PassRates = fold (add_rate runs matrix) tests [],
                      g_RunTotals = fold (\<lambda>run. gm_put run (summarize tests matrix run)) runs [],
                      g_DocLinks = resolveDocLinks env tests\<rparr>))"

section \<open>Presentation\<close>

definition shortName :: "string \<Rightarrow> string" where
  "shortName fullName =
     (let parts = SplitN2 fullName (CHR '' '') in
      if length parts = 2 \<and> HasPrefix (parts ! 0) ''['' then parts ! 1 else fullName)"

definition rateClass :: "rat \<Rightarrow> string" where
  "rateClass rate =
     (if rate \<ge> 100 then ''rate-100''
      else if rate \<ge> 80 then ''rate-high''
      else if rate \<ge> 50 then ''rate-med''
      else ''rate-low'')"

section \<open>What is in a cell\<close>

text \<open>The cases of a run are those of its files that can be read and parsed.\<close>

definition file_cases :: "junit_env \<Rightarrow> string \<Rightarrow> JUnitTestCase list" where
  "file_cases env f = (case parseJUnitFile env f of Inl _ \<Rightarrow> [] | Inr cs \<Rightarrow> cs)"

definition run_cases :: "junit_env \<Rightarrow> string \<Rightarrow> JUnitTestCase list" where
  "run_cases env runDir =
     (case ju_glob env (path_join runDir ''*.xml'') of
        Inl _ \<Rightarrow> [] | Inr files \<Rightarrow> concat (map (file_cases env) files))"

definition results_of :: "junit_env \<Rightarrow> string list \<Rightarrow> string \<Rightarrow> string \<Rightarrow> Result set" where
  "results_of env dirs test run =
     {classifyResult tc | tc dir. dir \<in> set dirs \<and> Base dir = run \<and> tc \<in> set (run_cases env dir) \<and>
        jc_Name tc = test}"

lemma add_file_fold: "add_file env run f acc = fold (add_case run) (file_cases env f) acc"
  by (simp add: add_file_def file_cases_def split: sum.splits)

lemma add_run_fold: "add_run env dir acc = fold (add_case (Base dir)) (run_cases env dir) acc"
proof -
  have "fold (add_file env run) fs acc = fold (add_case run) (concat (map (file_cases env) fs)) acc" for run fs
    by (induction fs arbitrary: acc) (simp_all add: add_file_fold)
  then show ?thesis by (simp add: add_run_def run_cases_def split: sum.splits)
qed

lemma cell_add_case:
  "cell (snd (add_case run tc acc)) t r =
     (if t = jc_Name tc \<and> r = run then max (cell (snd acc) t r) (classifyResult tc) else cell (snd acc) t r)"
  by (cases acc)
    (auto simp: add_case_def cell_def gm_lookup_put Let_def max_def split: option.splits)

lemma cell_fold_case:
  "cell (snd (fold (add_case run) cs acc)) t r =
     (if r = run then fold max (map classifyResult (filter (\<lambda>tc. jc_Name tc = t) cs)) (cell (snd acc) t r)
      else cell (snd acc) t r)"
  by (induction cs arbitrary: acc) (auto simp: cell_add_case max.commute)

lemma cell_fold_run:
  "cell (snd (fold (add_run env) dirs acc)) t r =
     fold max (concat (map (\<lambda>d. if Base d = r
       then map classifyResult (filter (\<lambda>tc. jc_Name tc = t) (run_cases env d)) else []) dirs)) (cell (snd acc) t r)"
  by (induction dirs arbitrary: acc) (auto simp: add_run_fold cell_fold_case)

lemma cell_Nil [simp]: "cell [] t r = ResultMissing"
  by (simp add: cell_def)

lemma buildGrid_Inr:
  assumes "buildGrid env dir = Inr g"
  obtains dirs where "ju_glob env (path_join dir ''run-*'') = Inr dirs" "dirs \<noteq> []"
    "g_Runs g = map Base (sort dirs)" "g_Matrix g = snd (fold (add_run env) (sort dirs) ([], []))"
    "g_Tests g = sort (map fst (fst (fold (add_run env) (sort dirs) ([], []))))"
    "g_PassRates g = fold (add_rate (g_Runs g) (g_Matrix g)) (g_Tests g) []"
    "g_RunTotals g = fold (\<lambda>run. gm_put run (summarize (g_Tests g) (g_Matrix g) run)) (g_Runs g) []"
    "g_DocLinks g = resolveDocLinks env (g_Tests g)"
  using assms by (auto simp: buildGrid_def Let_def split: sum.splits if_splits prod.splits)

text \<open>C33: A cell of the grid has the worst result any case of that test had in any readable file of
  that run (an error is worse than a failure, that than a pass, that than a skip), and is missing
  when there is none.  So it does not depend on the order in which files and cases are read.\<close>

theorem grid_cell_is_worst:
  assumes g: "buildGrid env dir = Inr g" and dirs: "ju_glob env (path_join dir ''run-*'') = Inr dirs"
  shows "cell (g_Matrix g) test run = Max (insert ResultMissing (results_of env dirs test run))"
proof -
  have m: "g_Matrix g = snd (fold (add_run env) (sort dirs) ([], []))"
    using g dirs by (auto elim!: buildGrid_Inr)
  let ?rs = "concat (map (\<lambda>d. if Base d = run
       then map classifyResult (filter (\<lambda>tc. jc_Name tc = test) (run_cases env d)) else []) (sort dirs))"
  have "cell (g_Matrix g) test run = fold max ?rs ResultMissing"
    by (simp add: m cell_fold_run)
  also have "\<dots> = Max (set (ResultMissing # ?rs))" by (simp only: Max.set_eq_fold)
  also have "set ?rs = results_of env dirs test run"
    by (auto simp: results_of_def split: if_splits)
  then have "set (ResultMissing # ?rs) = insert ResultMissing (results_of env dirs test run)" by simp
  finally show ?thesis .
qed

section \<open>Rows and columns\<close>

lemma tests_add_case: "fst ` set (fst (add_case run tc acc)) = insert (jc_Name tc) (fst ` set (fst acc))"
  "gm_ok (fst acc) \<Longrightarrow> gm_ok (fst (add_case run tc acc))"
  by (cases acc, simp add: add_case_def Let_def gm_keys_put)+

lemma tests_fold_case:
  "fst ` set (fst (fold (add_case run) cs acc)) = jc_Name ` set cs \<union> fst ` set (fst acc)"
  "gm_ok (fst acc) \<Longrightarrow> gm_ok (fst (fold (add_case run) cs acc))"
  by (induction cs arbitrary: acc) (auto simp: tests_add_case)

lemma tests_fold_run:
  "fst ` set (fst (fold (add_run env) dirs acc)) = (\<Union>d \<in> set dirs. jc_Name ` set (run_cases env d)) \<union> fst ` set (fst acc)"
  "gm_ok (fst acc) \<Longrightarrow> gm_ok (fst (fold (add_run env) dirs acc))"
  by (induction dirs arbitrary: acc) (auto simp: add_run_fold tests_fold_case)

text \<open>The rows of the grid are the names of all cases of all runs, each once and in order, the
  columns the run directories in order.\<close>

theorem grid_rows_columns:
  assumes g: "buildGrid env dir = Inr g" and dirs: "ju_glob env (path_join dir ''run-*'') = Inr dirs"
  shows "sorted (g_Tests g) \<and> distinct (g_Tests g) \<and>
    set (g_Tests g) = (\<Union>d \<in> set dirs. jc_Name ` set (run_cases env d)) \<and>
    g_Runs g = map Base (sort dirs)"
proof -
  have t: "g_Tests g = sort (map fst (fst (fold (add_run env) (sort dirs) ([], []))))"
    and r: "g_Runs g = map Base (sort dirs)"
    using g dirs by (auto elim!: buildGrid_Inr)
  show ?thesis
    using tests_fold_run(1) [of env "sort dirs" "([], [])"] tests_fold_run(2) [of "([], [])" env "sort dirs"]
    by (simp add: t r gm_ok_def)
qed

lemma grid_rows_columns_distinct:
  assumes "buildGrid env dir = Inr g"
  shows "distinct (g_Tests g)"
  using assms tests_fold_run(2) [of "([], [])" env] by (auto elim!: buildGrid_Inr simp: gm_ok_def)

lemma count_result_facts:
  "rs_Total (count_result r s) = rs_Total s + 1"
  "rs_Pass (count_result r s) = rs_Pass s + (if r = ResultPass then 1 else 0)"
  "rs_Fail (count_result r s) = rs_Fail s + (if r = ResultFail then 1 else 0)"
  "rs_Skip (count_result r s) = rs_Skip s + (if r = ResultSkip then 1 else 0)"
  "rs_Error (count_result r s) = rs_Error s + (if r = ResultError then 1 else 0)"
  "rs_Missing (count_result r s) = rs_Missing s + (if r = ResultMissing then 1 else 0)"
  by (cases r; simp add: count_result_def Let_def)+

definition occurs :: "Result \<Rightarrow> Result list \<Rightarrow> int" where
  "occurs r rs = int (length (filter (\<lambda>x. x = r) rs))"

lemma occurs_simps [simp]: "occurs r [] = 0" "occurs r (x # rs) = (if x = r then 1 else 0) + occurs r rs"
  by (simp_all add: occurs_def)

lemma count_fold:
  fixes f :: "'a \<Rightarrow> Result" and s :: RunSummary
  defines "t \<equiv> \<lambda>xs s. fold (\<lambda>x. count_result (f x)) xs s"
  shows "rs_Total (t xs s) = rs_Total s + int (length xs)"
    "rs_Pass (t xs s) = rs_Pass s + occurs ResultPass (map f xs)"
    "rs_Fail (t xs s) = rs_Fail s + occurs ResultFail (map f xs)"
    "rs_Skip (t xs s) = rs_Skip s + occurs ResultSkip (map f xs)"
    "rs_Error (t xs s) = rs_Error s + occurs ResultError (map f xs)"
    "rs_Missing (t xs s) = rs_Missing s + occurs ResultMissing (map f xs)"
  unfolding t_def by (induction xs arbitrary: s) (simp_all add: count_result_facts)

lemma fold_put_fun: "gm_lookup (fold (\<lambda>k. gm_put k (f k)) ks m) k = (if k \<in> set ks then Some (f k) else gm_lookup m k)"
  by (induction ks arbitrary: m) (auto simp: gm_lookup_put)

lemma occurs_total:
  "occurs ResultPass rs + occurs ResultFail rs + occurs ResultSkip rs + occurs ResultError rs +
     occurs ResultMissing rs = int (length rs)"
proof (induction rs)
  case (Cons r rs)
  then show ?case by (cases r) simp_all
qed simp

text \<open>The totals of a run count its column: each of the five kinds of result as often as it occurs
  there, and together they are all the tests.\<close>

theorem run_totals_count:
  assumes g: "buildGrid env dir = Inr g" and run: "run \<in> set (g_Runs g)"
  shows "\<exists>s. gm_lookup (g_RunTotals g) run = Some s \<and>
    rs_Pass s = occurs ResultPass (map (\<lambda>t. cell (g_Matrix g) t run) (g_Tests g)) \<and>
    rs_Fail s = occurs ResultFail (map (\<lambda>t. cell (g_Matrix g) t run) (g_Tests g)) \<and>
    rs_Skip s = occurs ResultSkip (map (\<lambda>t. cell (g_Matrix g) t run) (g_Tests g)) \<and>
    rs_Error s = occurs ResultError (map (\<lambda>t. cell (g_Matrix g) t run) (g_Tests g)) \<and>
    rs_Missing s = occurs ResultMissing (map (\<lambda>t. cell (g_Matrix g) t run) (g_Tests g)) \<and>
    rs_Pass s + rs_Fail s + rs_Skip s + rs_Error s + rs_Missing s = rs_Total s \<and>
    rs_Total s = int (length (g_Tests g))"
proof -
  have "g_RunTotals g = fold (\<lambda>run. gm_put run (summarize (g_Tests g) (g_Matrix g) run)) (g_Runs g) []"
    using g by (auto elim!: buildGrid_Inr)
  then have "gm_lookup (g_RunTotals g) run = Some (summarize (g_Tests g) (g_Matrix g) run)"
    using run by (simp add: fold_put_fun)
  then show ?thesis
    using occurs_total [of "map (\<lambda>t. cell (g_Matrix g) t run) (g_Tests g)"]
    by (simp add: summarize_def count_fold)
qed

lemma rate_fold:
  "distinct ts \<Longrightarrow> gm_lookup (fold (add_rate runs m) ts rates) t =
     (if t \<in> set ts \<and> filter decided (map (cell m t) runs) \<noteq> []
      then Some (pass_rate (length (filter (\<lambda>r. r = ResultPass) (map (cell m t) runs)))
                 (length (filter decided (map (cell m t) runs))))
      else gm_lookup rates t)"
  by (induction ts arbitrary: rates) (auto simp: add_rate_def Let_def gm_lookup_put)

lemma filter_pass_decided: "filter (\<lambda>r. r = ResultPass) rs = filter (\<lambda>r. r = ResultPass) (filter decided rs)"
  by (simp add: decided_def conj_commute cong: conj_cong)

lemma length_filter_all: "length (filter P xs) = length xs \<longleftrightarrow> (\<forall>x \<in> set xs. P x)"
proof (induction xs)
  case (Cons x xs)
  have "length (filter P xs) \<noteq> Suc (length xs)" using length_filter_le [of P xs] by linarith
  with Cons show ?case by auto
qed simp

text \<open>In \<open>float64\<close> a rate is 100 only if all have passed, as long as the counts are exact.\<close>

lemma pass_rate_facts:
  assumes "0 < all" "passed \<le> all" "all \<le> 2 ^ 53"
  shows "0 \<le> pass_rate passed all" "pass_rate passed all \<le> 100"
    "pass_rate passed all = 100 \<longleftrightarrow> passed = all" "pass_rate passed all = 0 \<longleftrightarrow> passed = 0"
proof -
  let ?q = "of_nat passed / of_nat all :: rat"
  have rate: "pass_rate passed all = fl (fl ?q * 100)" using assms by (simp add: pass_rate_def)
  have one: "fl 1 = 1" "fl 100 = 100" using fl_of_int [of 1] fl_of_int [of 100] by simp_all
  have q: "0 \<le> ?q" "?q \<le> 1" using assms by (simp_all add: divide_le_eq)
  then have f: "0 \<le> fl ?q" "fl ?q \<le> 1" using fl_nonneg fl_mono [OF q(2)] one by simp_all
  then show "0 \<le> pass_rate passed all" unfolding rate by (intro fl_nonneg) simp
  have "fl (fl ?q * 100) \<le> fl 100" using f by (intro fl_mono) simp
  then show "pass_rate passed all \<le> 100" by (simp only: rate one)
  have less: "pass_rate passed all < 100" if "passed < all"
  proof -
    have "of_nat passed + 1 \<le> (of_nat all :: rat)" using that by (metis Suc_leI of_nat_Suc of_nat_mono add.commute)
    moreover have "(of_nat all :: rat) \<le> 2 ^ 53" using assms(3) by (metis of_nat_mono of_nat_power of_nat_numeral)
    ultimately have "?q \<le> 1 - 1 / 2 ^ 53" using assms(1) by (simp add: field_simps) 
    then have "?q \<le> of_int (2 ^ 53 - 1) * pow2 (- 53)" by (simp add: pow2_def)
    from fl_mono [OF this] have "fl ?q \<le> of_int (2 ^ 53 - 1) * pow2 (- 53)" by (subst (asm) fl_exact) simp_all
    then have le: "fl ?q * 100 \<le> 100 - 100 / 2 ^ 53" by (simp add: pow2_def)
    have "fl (fl ?q * 100) \<le> fl ?q * 100 + fl ?q * 100 / 2 ^ 53"
      using fl_close [of "fl ?q * 100"] f(1) by linarith
    also have "\<dots> < 100" using le by simp
    finally show ?thesis by (simp only: rate)
  qed
  show "pass_rate passed all = 100 \<longleftrightarrow> passed = all"
  proof (cases "passed = all")
    case True
    then have "?q = 1" using assms(1) by simp
    with True show ?thesis unfolding rate by (simp add: one)
  next
    case False
    then show ?thesis using less assms(2) by simp
  qed
  show "pass_rate passed all = 0 \<longleftrightarrow> passed = 0"
  proof (cases "passed = 0")
    case False
    then have "0 < ?q" using assms(1) by simp
    then have "0 < fl (fl ?q * 100)" by (intro fl_positive) (simp add: fl_positive)
    then show ?thesis using False by (simp only: rate) simp
  next
    case True
    then show ?thesis unfolding rate by simp
  qed
qed

text \<open>A test has a pass rate exactly when some run decided it (pass, failure or error); the rate is
  between 0 and 100, it is 100 exactly when every run that decided the test passed it, and 0 exactly
  when none did.  Skipped and missing runs do not count.\<close>

theorem pass_rates:
  assumes g: "buildGrid env dir = Inr g" and t: "test \<in> set (g_Tests g)" and n: "length (g_Runs g) \<le> 2 ^ 53"
  shows "let results = map (cell (g_Matrix g) test) (g_Runs g) in
    case gm_lookup (g_PassRates g) test of
      None \<Rightarrow> (\<forall>r \<in> set results. \<not> decided r)
    | Some rate \<Rightarrow> (\<exists>r \<in> set results. decided r) \<and> 0 \<le> rate \<and> rate \<le> 100 \<and>
        (rate = 100 \<longleftrightarrow> (\<forall>r \<in> set results. decided r \<longrightarrow> r = ResultPass)) \<and>
        (rate = 0 \<longleftrightarrow> (\<forall>r \<in> set results. r \<noteq> ResultPass))"
proof -
  let ?rs = "map (cell (g_Matrix g) test) (g_Runs g)"
  let ?d = "filter decided ?rs" and ?p = "filter (\<lambda>r. r = ResultPass) ?rs"
  obtain dirs where dirs: "ju_glob env (path_join dir ''run-*'') = Inr dirs" using g by (rule buildGrid_Inr)
  have "g_PassRates g = fold (add_rate (g_Runs g) (g_Matrix g)) (g_Tests g) []"
    using g by (rule buildGrid_Inr)
  then have look: "gm_lookup (g_PassRates g) test =
      (if ?d \<noteq> [] then Some (pass_rate (length ?p) (length ?d)) else None)"
    using t by (simp add: rate_fold [OF grid_rows_columns_distinct [OF g]] del: length_filter_map map_map)
  have le: "length ?p \<le> length ?d" by (subst filter_pass_decided) (rule length_filter_le)
  have eq: "length ?p = length ?d \<longleftrightarrow> (\<forall>r \<in> set ?rs. decided r \<longrightarrow> r = ResultPass)"
    by (subst filter_pass_decided) (auto simp only: length_filter_all set_filter)
  show ?thesis
  proof (cases "?d = []")
    case True
    then show ?thesis using look by (auto simp: filter_empty_conv simp del: length_filter_map)
  next
    case False
    then have "0 < length ?d" "length ?d \<le> 2 ^ 53"
      using n length_filter_le [of decided ?rs] by (simp_all del: length_filter_map)
    note facts = pass_rate_facts [OF this(1) le this(2)]
    moreover have "\<exists>r \<in> set ?rs. decided r" using False by (metis filter_empty_conv)
    ultimately show ?thesis
      using look False eq by (simp add: filter_empty_conv del: length_filter_map)
  qed
qed

section \<open>Identifiers\<close>

text \<open>The test identifiers: a prefix, a number, and further numbers after slashes.\<close>

definition number :: "string \<Rightarrow> bool" where
  "number ds \<longleftrightarrow> ds \<noteq> [] \<and> (\<forall>c \<in> set ds. digit c)"

definition test_id :: "string \<Rightarrow> bool" where
  "test_id i \<longleftrightarrow> (\<exists>p ds dss. p \<in> set id_prefixes \<and> number ds \<and> (\<forall>d \<in> set dss. number d) \<and>
     i = p @ ''-'' @ ds @ concat (map (\<lambda>d. CHR ''/'' # d) dss))"

lemma number_takeWhile: "takeWhile digit s \<noteq> [] \<Longrightarrow> number (takeWhile digit s)"
  by (auto simp: number_def dest: set_takeWhileD)

lemma slash_groups_sound:
  "\<exists>dss post. (\<forall>d \<in> set dss. number d) \<and> slash_groups s = concat (map (\<lambda>d. CHR ''/'' # d) dss) \<and>
     s = slash_groups s @ post"
proof (induction s rule: slash_groups.induct)
  case (1 s)
  show ?case
  proof (cases "\<exists>t. s = CHR ''/'' # t \<and> takeWhile digit t \<noteq> []")
    case True
    then obtain t where t: "s = CHR ''/'' # t" "takeWhile digit t \<noteq> []" by blast
    let ?ds = "takeWhile digit t"
    obtain dss post where ih: "\<forall>d \<in> set dss. number d"
      "slash_groups (drop (length ?ds) t) = concat (map (\<lambda>d. CHR ''/'' # d) dss)"
      "drop (length ?ds) t = slash_groups (drop (length ?ds) t) @ post"
      using 1 [OF t(1) refl] t(2) by blast
    have eq: "slash_groups s = CHR ''/'' # ?ds @ slash_groups (drop (length ?ds) t)"
      using t by (simp add: slash_groups.simps [of "CHR ''/'' # t"] Let_def)
    have "t = ?ds @ drop (length ?ds) t" by (metis takeWhile_eq_take append_take_drop_id length_takeWhile_le take_all min.absorb1 length_take)
    then have "s = slash_groups s @ post" using ih(3) eq t(1) by (metis append_Cons append_assoc)
    moreover have "slash_groups s = concat (map (\<lambda>d. CHR ''/'' # d) (?ds # dss))" using eq ih(2) by simp
    moreover have "\<forall>d \<in> set (?ds # dss). number d" using ih(1) number_takeWhile [OF t(2)] by simp
    ultimately show ?thesis by blast
  next
    case False
    then have "slash_groups s = []"
      by (auto simp: slash_groups.simps [of s] Let_def split: list.splits)
    then show ?thesis by (intro exI [of _ "[]"] exI [of _ s]) simp
  qed
qed

lemma match_id_sound:
  "match_id_with ps s = Some m \<Longrightarrow> set ps \<subseteq> set id_prefixes \<Longrightarrow> test_id m \<and> (\<exists>post. s = m @ post)"
proof (induction ps s rule: match_id_with.induct)
  case (2 p ps s)
  let ?rest = "drop (length p) s" and ?ds = "takeWhile digit (drop 1 (drop (length p) s))"
  show ?case
  proof (cases "HasPrefix s p \<and> HasPrefix ?rest ''-'' \<and> ?ds \<noteq> []")
    case True
    then obtain u where u: "s = p @ ''-'' @ u" by (auto simp: HasPrefix_iff)
    then have ds: "?ds = takeWhile digit u" by simp
    let ?v = "drop (length (takeWhile digit u)) u"
    have m: "m = p @ ''-'' @ takeWhile digit u @ slash_groups ?v"
      using 2(2) True u by (simp add: Let_def)
    obtain dss post where g: "\<forall>d \<in> set dss. number d"
      "slash_groups ?v = concat (map (\<lambda>d. CHR ''/'' # d) dss)" "?v = slash_groups ?v @ post"
      using slash_groups_sound by blast
    have "u = takeWhile digit u @ ?v" by (metis append_take_drop_id takeWhile_eq_take)
    then have "s = m @ post" using u m g(3) by (metis append_assoc)
    moreover have "test_id m"
      unfolding test_id_def using m g(1,2) number_takeWhile [of u] True ds 2(3) by (intro exI) auto
    ultimately show ?thesis by blast
  next
    case False
    then have "match_id_with (p # ps) s = match_id_with ps s" unfolding match_id_with.simps Let_def by (rule if_not_P)
    then show ?thesis using 2(1) [OF refl refl] 2(2,3) False by auto
  qed
qed simp

lemma find_id_sound: "find_id prev s \<noteq> '''' \<Longrightarrow> test_id (find_id prev s) \<and> (\<exists>pre post. s = pre @ find_id prev s @ post)"
proof (induction prev s rule: find_id.induct)
  case (2 prev x s)
  show ?case
  proof (cases "if prev then None else match_id_with id_prefixes (x # s)")
    case None
    then have eq: "find_id prev (x # s) = find_id (word_char x) s" by simp
    with 2 None obtain pre post where "s = pre @ find_id (word_char x) s @ post" "test_id (find_id (word_char x) s)"
      by auto
    then have "x # s = (x # pre) @ find_id (word_char x) s @ post" by simp
    with \<open>test_id (find_id (word_char x) s)\<close> show ?thesis unfolding eq by blast
  next
    case (Some m)
    then have "match_id_with id_prefixes (x # s) = Some m" by (simp split: if_splits)
    then have "test_id m" "\<exists>post. x # s = [] @ m @ post"
      using match_id_sound by auto
    with Some show ?thesis by (auto intro: exI [of _ "[]"])
  qed
qed simp

text \<open>What is taken for the identifier of a test is a test identifier that occurs in its name, and
  the link made from it names an existing file directly in the directory \<open>docs/tests\<close>.\<close>

theorem doc_links_sound:
  assumes "gm_lookup (resolveDocLinks env tests) test = Some url"
  shows "test \<in> set tests \<and> test_id (extractTestID test) \<and>
    (\<exists>pre post. test = pre @ extractTestID test @ post) \<and>
    url = gitRepoBaseURL env @ ''/docs/tests/'' @ testIDToDocFile (extractTestID test) \<and>
    CHR ''/'' \<notin> set (testIDToDocFile (extractTestID test)) \<and>
    ju_exists env (path_join ''docs/tests'' (testIDToDocFile (extractTestID test)))"
proof -
  let ?u = "gitRepoBaseURL env"
  have fold: "gm_lookup (fold (\<lambda>test links. case doc_link env ?u test of
        None \<Rightarrow> links | Some l \<Rightarrow> gm_put test l links) tests links) test = Some url \<Longrightarrow>
      gm_lookup links test = Some url \<or> test \<in> set tests \<and> doc_link env ?u test = Some url" for links
    by (induction tests arbitrary: links) (fastforce simp: gm_lookup_put split: option.splits if_splits)+
  have link: "test \<in> set tests" "doc_link env ?u test = Some url"
    using assms fold [of "[]"] by (auto simp: resolveDocLinks_def Let_def split: if_splits)
  then have i: "extractTestID test \<noteq> ''''" by (auto simp: doc_link_def Let_def)
  have "CHR ''/'' \<notin> set (testIDToDocFile x)" for x
    by (auto simp: testIDToDocFile_def ReplaceAll_def)
  with link i find_id_sound [of False test] show ?thesis
    by (auto simp: doc_link_def Let_def extractTestID_def split: if_splits)
qed

end
