(* ===== verification/GoFormat.thy ===== *)
theory GoFormat
  imports GoStrings Float64
begin

text \<open>
  The formatting verbs the reports use: integers, fixed-point numbers, and padding to a width.
  Strings are lists of bytes; the width of a verb counts characters, so a sequence of bytes that is
  one character of UTF-8 counts once and every other byte counts as one.
\<close>

section \<open>Characters\<close>

definition byte :: "char \<Rightarrow> nat" where
  "byte c = of_char c"

text \<open>Whether the string starts with bytes in the given ranges.\<close>

fun starts_in :: "(nat \<times> nat) list \<Rightarrow> string \<Rightarrow> bool" where
  "starts_in [] s = True"
| "starts_in (r # rs) [] = False"
| "starts_in ((lo, hi) # rs) (c # s) = (lo \<le> byte c \<and> byte c \<le> hi \<and> starts_in rs s)"

text \<open>The ranges of the bytes that may follow a first byte; the table of \<open>unicode/utf8\<close>.\<close>

definition followers :: "nat \<Rightarrow> (nat \<times> nat) list" where
  "followers n =
     (if n < 0xC2 then []
      else if n \<le> 0xDF then [(0x80, 0xBF)]
      else if n = 0xE0 then [(0xA0, 0xBF), (0x80, 0xBF)]
      else if n = 0xED then [(0x80, 0x9F), (0x80, 0xBF)]
      else if n \<le> 0xEF then [(0x80, 0xBF), (0x80, 0xBF)]
      else if n = 0xF0 then [(0x90, 0xBF), (0x80, 0xBF), (0x80, 0xBF)]
      else if n \<le> 0xF3 then [(0x80, 0xBF), (0x80, 0xBF), (0x80, 0xBF)]
      else if n = 0xF4 then [(0x80, 0x8F), (0x80, 0xBF), (0x80, 0xBF)]
      else [])"

text \<open>How many bytes of the rest belong to the character that \<open>c\<close> starts.\<close>

definition rest_len :: "char \<Rightarrow> string \<Rightarrow> nat" where
  "rest_len c s = (if starts_in (followers (byte c)) s then length (followers (byte c)) else 0)"

function RuneCount :: "string \<Rightarrow> nat" where
  "RuneCount [] = 0"
| "RuneCount (c # s) = Suc (RuneCount (drop (rest_len c s) s))"
  by pat_completeness auto
termination
  by (relation "measure length") auto

definition ascii :: "string \<Rightarrow> bool" where
  "ascii s \<longleftrightarrow> list_all (\<lambda>c. byte c < 0x80) s"

lemma ascii_simps [simp]: "ascii []" "ascii (c # s) \<longleftrightarrow> byte c < 0x80 \<and> ascii s"
  "ascii (s @ t) \<longleftrightarrow> ascii s \<and> ascii t"
  by (simp_all add: ascii_def)

lemma RuneCount_ascii [simp]: "ascii s \<Longrightarrow> RuneCount s = length s"
  by (induction s) (simp_all add: rest_len_def followers_def)

lemma starts_in_ascii:
  "ascii t \<Longrightarrow> \<forall>(lo, hi) \<in> set rs. 0x80 \<le> lo \<Longrightarrow> starts_in rs (s @ t) = starts_in rs s"
proof (induction rs s rule: starts_in.induct)
  case (2 r rs)
  then show ?case by (cases r; cases t) auto
qed auto

text \<open>ASCII text after any other counts byte by byte: it completes no character.\<close>

lemma RuneCount_append_ascii: "ascii t \<Longrightarrow> RuneCount (s @ t) = RuneCount s + length t"
proof (induction s rule: RuneCount.induct)
  case (2 c s)
  have f: "\<forall>(lo, hi) \<in> set (followers n). 0x80 \<le> lo" for n by (auto simp: followers_def)
  have "starts_in rs u \<Longrightarrow> length rs \<le> length u" for rs u
    by (induction rs u rule: starts_in.induct) auto
  then have "rest_len c s \<le> length s" by (simp add: rest_len_def)
  moreover have "rest_len c (s @ t) = rest_len c s" using 2(2) f by (simp add: rest_len_def starts_in_ascii)
  ultimately show ?case using 2 by simp
qed simp


lemma RuneCount_le: "RuneCount s \<le> length s"
proof (induction s rule: RuneCount.induct)
  case (2 c s)
  have "length (drop (rest_len c s) s) \<le> length s" by simp
  with 2 show ?case by simp
qed simp

section \<open>Widths\<close>

definition pad_right :: "nat \<Rightarrow> string \<Rightarrow> string" where
  "pad_right w s = s @ replicate (w - RuneCount s) CHR '' ''"

definition pad_left :: "nat \<Rightarrow> string \<Rightarrow> string" where
  "pad_left w s = replicate (w - RuneCount s) CHR '' '' @ s"

lemma ascii_replicate [simp]: "ascii (replicate n c) \<longleftrightarrow> n = 0 \<or> byte c < 0x80"
  by (induction n) auto

lemma byte_space [simp]: "byte CHR '' '' < 128"
  by (simp add: byte_def)

lemma ascii_pad [simp]: "ascii (pad_left w s) \<longleftrightarrow> ascii s" "ascii (pad_right w s) \<longleftrightarrow> ascii s"
  by (auto simp: pad_left_def pad_right_def)

lemma pad_left_length: "ascii s \<Longrightarrow> length s \<le> w \<Longrightarrow> length (pad_left w s) = w"
  by (simp add: pad_left_def)

section \<open>Numbers\<close>

fun digits :: "nat \<Rightarrow> string" where
  "digits n = (if n < 10 then [char_of (48 + n)] else digits (n div 10) @ [char_of (48 + n mod 10)])"

declare digits.simps [simp del]

definition Itoa :: "int \<Rightarrow> string" where
  "Itoa i = (if i < 0 then ''-'' @ digits (nat (- i)) else digits (nat i))"

text \<open>Digits with leading zeros up to a width.\<close>

definition zero_pad :: "nat \<Rightarrow> string \<Rightarrow> string" where
  "zero_pad w s = replicate (w - length s) CHR ''0'' @ s"

text \<open>The verb \<open>%.<prec>f\<close>: the exact decimal value is rounded to nearest, ties to even.\<close>

definition Fixed :: "nat \<Rightarrow> rat \<Rightarrow> string" where
  "Fixed prec r =
     (let n = nat (round_half_even (\<bar>r\<bar> * 10 ^ prec)) in
      (if r < 0 then ''-'' else '''') @ digits (n div 10 ^ prec) @
      (if prec = 0 then '''' else ''.'' @ zero_pad prec (digits (n mod 10 ^ prec))))"

text \<open>The decimal digits, read back.\<close>

definition digit_value :: "char \<Rightarrow> nat" where
  "digit_value c = byte c - 48"

definition decimal_digit :: "char \<Rightarrow> bool" where
  "decimal_digit c \<longleftrightarrow> 48 \<le> byte c \<and> byte c \<le> 57"

definition digits_value :: "string \<Rightarrow> nat" where
  "digits_value s = foldl (\<lambda>n c. 10 * n + digit_value c) 0 s"

lemma byte_digit: "n < 10 \<Longrightarrow> byte (char_of (48 + n)) = 48 + n"
  by (simp add: byte_def)

lemma digits_decimal: "list_all decimal_digit (digits n)"
proof (induction n rule: digits.induct)
  case (1 n)
  then show ?case
    by (cases "n < 10") (auto simp: digits.simps [of n] decimal_digit_def byte_digit)
qed

lemma digits_nonempty [simp]: "digits n \<noteq> []"
  by (simp add: digits.simps [of n])

text \<open>What is printed is read back.\<close>

lemma digits_roundtrip: "digits_value (digits n) = n"
proof (induction n rule: digits.induct)
  case (1 n)
  show ?case
  proof (cases "n < 10")
    case True
    then show ?thesis
      by (simp add: digits.simps [of n] digits_value_def digit_value_def byte_digit)
  next
    case False
    then have "digits_value (digits n) = 10 * digits_value (digits (n div 10)) + n mod 10"
      by (simp add: digits.simps [of n] digits_value_def digit_value_def byte_digit)
    with 1 False show ?thesis by simp
  qed
qed

lemma ascii_digits: "ascii (digits n)"
  using digits_decimal [of n] by (auto simp: ascii_def decimal_digit_def list_all_iff)

lemma ascii_Itoa [simp]: "ascii (Itoa i)"
  by (simp add: Itoa_def ascii_digits byte_def)

lemma ascii_Fixed [simp]: "ascii (Fixed prec r)"
  by (simp add: Fixed_def Let_def ascii_digits byte_def zero_pad_def)

lemma digits_small: "n < 10 \<Longrightarrow> length (digits n) = 1"
  by (simp add: digits.simps [of n])

lemma digits_two: "n < 100 \<Longrightarrow> length (digits n) \<le> 2"
proof -
  assume "n < 100"
  then have "n div 10 < 10" by linarith
  then show ?thesis by (simp add: digits.simps [of n] digits.simps [of "n div 10"])
qed

section \<open>Padded text\<close>

text \<open>Text that neither starts nor ends with a byte of white space.\<close>

definition edge_ok :: "string \<Rightarrow> bool" where
  "edge_ok s \<longleftrightarrow> s \<noteq> [] \<and> plain_char (hd s) \<and> last s \<notin> set (map last ws_seqs)"

lemma strip_spaces:
  assumes "[CHR 0x20] \<in> set seqs" "\<forall>w \<in> set seqs. w \<noteq> [] \<and> (hd w = CHR 0x20 \<longrightarrow> w = [CHR 0x20])"
    and "t \<noteq> []" "hd t \<notin> hd ` set seqs"
  shows "strip_with seqs (replicate n CHR 0x20 @ t) = t"
proof (induction n)
  case 0
  have "\<not> HasPrefix t w" if "w \<in> set seqs" for w
    using that assms(2-4) by (cases w) (force simp: HasPrefix_iff)+
  then show ?case by (simp add: strip_with_fixed ws_prefix_None)
next
  case (Suc n)
  have "ws_prefix seqs (CHR 0x20 # replicate n CHR 0x20 @ t) = Some [CHR 0x20]"
  proof (cases "ws_prefix seqs (CHR 0x20 # replicate n CHR 0x20 @ t)")
    case None
    then show ?thesis using assms(1) by (force simp: ws_prefix_None HasPrefix_iff)
  next
    case (Some w)
    then have "w \<in> set seqs" "hd w = CHR 0x20" using ws_prefix_Some [OF Some] by (auto simp: Cons_eq_append_conv)
    with assms(2) Some show ?thesis by simp
  qed
  with Suc show ?case by (simp add: strip_with.simps [of seqs "CHR 0x20 # replicate n CHR 0x20 @ t"])
qed

lemma TrimSpace_padded:
  assumes "edge_ok s"
  shows "TrimSpace (replicate a CHR 0x20 @ s @ replicate b CHR 0x20) = s"
proof -
  have "strip_with ws_seqs (replicate a CHR 0x20 @ (s @ replicate b CHR 0x20)) = s @ replicate b CHR 0x20"
    using assms by (intro strip_spaces) (auto simp: edge_ok_def ws_seqs_def plain_char_def)
  moreover have "strip_with (map rev ws_seqs) (replicate b CHR 0x20 @ rev s) = rev s"
    using assms by (intro strip_spaces) (auto simp: edge_ok_def ws_seqs_def hd_rev)
  ultimately show ?thesis by (simp add: TrimSpace_def)
qed

end
