(* ===== verification/GridReport.thy ===== *)
theory GridReport
  imports JUnitGrid GoFormat
begin

text \<open>
  \<open>cmd/aggregate-junit/main.go\<close>: the Markdown table of a grid.  A slice expression that is out of
  range is a panic, the result \<open>None\<close>.
\<close>

section \<open>The table\<close>

abbreviation newline :: char where
  "newline \<equiv> CHR 0x0A"

text \<open>\<open>maxNameLen\<close>: the longest short name in bytes, at least 40 and at most 70.\<close>

definition name_width :: "string list \<Rightarrow> nat" where
  "name_width tests =
     (let m = fold (\<lambda>t w. if length (shortName t) > w then length (shortName t) else w) tests 40
      in if m > 70 then 70 else m)"

text \<open>\<open>run[len("run-"):]\<close>.\<close>

definition run_label :: "string \<Rightarrow> string option" where
  "run_label run = (if length run < 4 then None else Some (drop 4 run))"

fun run_labels :: "string list \<Rightarrow> string list option" where
  "run_labels [] = Some []"
| "run_labels (run # runs) =
     (case run_label run of
        None \<Rightarrow> None
      | Some l \<Rightarrow> (case run_labels runs of None \<Rightarrow> None | Some ls \<Rightarrow> Some (l # ls)))"

definition header_line :: "nat \<Rightarrow> string list \<Rightarrow> string" where
  "header_line w labels =
     ''| '' @ pad_right w ''Test Case'' @ '' |'' @ concat (map (\<lambda>l. '' '' @ pad_right 6 l @ '' |'') labels) @
     '' Rate   |''"

definition rule_line :: "nat \<Rightarrow> string list \<Rightarrow> string" where
  "rule_line w runs =
     ''|-'' @ replicate w CHR ''-'' @ ''-|'' @ concat (map (\<lambda>_. ''--------|'') runs) @ ''--------|''"

definition shown_name :: "nat \<Rightarrow> string \<Rightarrow> string" where
  "shown_name w test =
     (let name = shortName test in if length name > w then take (w - 3) name @ ''...'' else name)"

definition shown_rate :: "GridData \<Rightarrow> string \<Rightarrow> string" where
  "shown_rate grid test =
     pad_left 5 (Fixed 1 (case gm_lookup (g_PassRates grid) test of None \<Rightarrow> 0 | Some r \<Rightarrow> r))"

definition test_line :: "nat \<Rightarrow> GridData \<Rightarrow> string \<Rightarrow> string" where
  "test_line w grid test =
     ''| '' @ pad_right w (shown_name w test) @ '' |'' @
     concat (map (\<lambda>run. '' '' @ pad_right 6 (Result_String (cell (g_Matrix grid) test run)) @ '' |'')
       (g_Runs grid)) @
     '' '' @ shown_rate grid test @ ''% |''"

definition no_results :: RunSummary where
  "no_results = \<lparr>rs_Pass = 0, rs_Fail = 0, rs_Skip = 0, rs_Error = 0, rs_Missing = 0, rs_Total = 0\<rparr>"

definition totals_line :: "nat \<Rightarrow> GridData \<Rightarrow> string" where
  "totals_line w grid =
     ''| '' @ pad_right w ''TOTALS (pass/fail/skip)'' @ '' |'' @
     concat (map (\<lambda>run.
         let s = (case gm_lookup (g_RunTotals grid) run of None \<Rightarrow> no_results | Some s \<Rightarrow> s)
         in '' '' @ Itoa (rs_Pass s) @ ''/'' @ Itoa (rs_Fail s) @ ''/'' @ Itoa (rs_Skip s) @ '' |'')
       (g_Runs grid)) @
     ''        |''"

definition grid_lines :: "GridData \<Rightarrow> string list \<Rightarrow> string list" where
  "grid_lines grid labels =
     (let w = name_width (g_Tests grid) in
      [header_line w labels, rule_line w (g_Runs grid)] @ map (test_line w grid) (g_Tests grid) @
      [rule_line w (g_Runs grid), totals_line w grid])"

definition printMarkdownGrid :: "GridData \<Rightarrow> string option" where
  "printMarkdownGrid grid =
     map_option (\<lambda>labels. concat (map (\<lambda>line. line @ [newline]) (grid_lines grid labels)))
       (run_labels (g_Runs grid))"

section \<open>Lines and cells\<close>

text \<open>A line of a table with the given cells between its bars.\<close>

definition bar_line :: "string list \<Rightarrow> string" where
  "bar_line cells = ''|'' @ concat (map (\<lambda>c. c @ ''|'') cells)"

definition cell_text :: "string \<Rightarrow> bool" where
  "cell_text s \<longleftrightarrow> CHR ''|'' \<notin> set s \<and> newline \<notin> set s"

lemma cell_text_simps [simp]: "cell_text []" "cell_text (c # s) \<longleftrightarrow> c \<noteq> CHR ''|'' \<and> c \<noteq> newline \<and> cell_text s"
  "cell_text (s @ t) \<longleftrightarrow> cell_text s \<and> cell_text t"
  "cell_text (replicate n c) \<longleftrightarrow> n = 0 \<or> c \<noteq> CHR ''|'' \<and> c \<noteq> newline"
  by (auto simp: cell_text_def)

lemma cell_text_pad [simp]: "cell_text (pad_right w s) \<longleftrightarrow> cell_text s" "cell_text (pad_left w s) \<longleftrightarrow> cell_text s"
  by (auto simp: pad_right_def pad_left_def)

lemma cell_text_digits [simp]: "cell_text (digits n)"
  using digits_decimal [of n] by (auto simp: cell_text_def list_all_iff decimal_digit_def byte_def)

lemma cell_text_numbers [simp]: "cell_text (Itoa i)" "cell_text (Fixed prec r)"
  by (simp_all add: Itoa_def Fixed_def Let_def zero_pad_def)

lemma cell_text_Result [simp]: "cell_text (Result_String r)"
  by (cases r) simp_all

lemma cell_text_take: "cell_text s \<Longrightarrow> cell_text (take n s)"
  by (auto simp: cell_text_def dest: in_set_takeD)

lemma Split_bars: "\<forall>c \<in> set cells. cell_text c \<Longrightarrow> Split (concat (map (\<lambda>c. c @ ''|'') cells)) CHR ''|'' = cells @ [[]]"
  by (induction cells) (auto simp: Split_sep cell_text_def)

lemma Split_bar_line: "\<forall>c \<in> set cells. cell_text c \<Longrightarrow> Split (bar_line cells) CHR ''|'' = [] # cells @ [[]]"
  by (simp add: bar_line_def Split_bars)

lemma Split_lines: "\<forall>l \<in> set ls. newline \<notin> set l \<Longrightarrow> Split (concat (map (\<lambda>l. l @ [newline]) ls)) newline = ls @ [[]]"
  by (induction ls) (auto simp: Split_sep)

lemma bar_line_no_newline: "\<forall>c \<in> set cells. cell_text c \<Longrightarrow> newline \<notin> set (bar_line cells)"
  by (auto simp: bar_line_def cell_text_def)

definition test_cells :: "nat \<Rightarrow> GridData \<Rightarrow> string \<Rightarrow> string list" where
  "test_cells w grid test =
     ('' '' @ pad_right w (shown_name w test) @ '' '') #
     map (\<lambda>run. '' '' @ pad_right 6 (Result_String (cell (g_Matrix grid) test run)) @ '' '') (g_Runs grid) @
     ['' '' @ shown_rate grid test @ ''% '']"

lemma test_line_cells: "test_line w grid test = bar_line (test_cells w grid test)"
  by (simp add: test_line_def bar_line_def test_cells_def comp_def)

lemma header_line_cells: "header_line w labels =
    bar_line (('' '' @ pad_right w ''Test Case'' @ '' '') # map (\<lambda>l. '' '' @ pad_right 6 l @ '' '') labels @ ['' Rate   ''])"
  by (simp add: header_line_def bar_line_def comp_def)

lemma rule_line_cells: "rule_line w runs =
    bar_line ((''-'' @ replicate w CHR ''-'' @ ''-'') # map (\<lambda>_. ''--------'') runs @ [''--------''])"
  by (simp add: rule_line_def bar_line_def comp_def)

lemma totals_line_cells: "totals_line w grid =
    bar_line (('' '' @ pad_right w ''TOTALS (pass/fail/skip)'' @ '' '') # map (\<lambda>run.
         let s = (case gm_lookup (g_RunTotals grid) run of None \<Rightarrow> no_results | Some s \<Rightarrow> s)
         in '' '' @ Itoa (rs_Pass s) @ ''/'' @ Itoa (rs_Fail s) @ ''/'' @ Itoa (rs_Skip s) @ '' '') (g_Runs grid) @
       [''        ''])"
  by (simp add: totals_line_def bar_line_def comp_def Let_def)

lemma run_labels_ok: "\<forall>r \<in> set runs. HasPrefix r ''run-'' \<Longrightarrow> run_labels runs = Some (map (drop 4) runs)"
  by (induction runs) (auto simp: run_label_def HasPrefix_iff)

text \<open>A name that can stand in a table and is the same after trimming.\<close>

definition table_name :: "string \<Rightarrow> bool" where
  "table_name s \<longleftrightarrow> cell_text s \<and> edge_ok s"

lemma name_width_bounds: "40 \<le> name_width tests \<and> name_width tests \<le> 70"
proof -
  have "w \<le> fold (\<lambda>t w. if length (shortName t) > w then length (shortName t) else w) ts w" for ts w
  proof (induction ts arbitrary: w)
    case (Cons t ts)
    show ?case using Cons [of w] Cons [of "length (shortName t)"] by simp
  qed simp
  from this [of 40 tests] show ?thesis by (simp add: name_width_def Let_def)
qed

lemma shown_name_ok:
  assumes "table_name (shortName t)" "40 \<le> w"
  shows "table_name (shown_name w t)"
proof (cases "length (shortName t) > w")
  case True
  let ?n = "shortName t"
  have "?n \<noteq> []" "hd (take (w - 3) ?n @ ''...'') = hd ?n" using True assms(2) by (cases ?n; cases "w - 3"; simp)+
  then show ?thesis
    using True assms(1) by (auto simp: table_name_def shown_name_def edge_ok_def cell_text_take ws_seqs_def)
qed (use assms in \<open>simp add: shown_name_def\<close>)


lemma trim_cell: "edge_ok s \<Longrightarrow> TrimSpace ('' '' @ pad_right w s @ '' '') = s"
  using TrimSpace_padded [of s 1 "w - RuneCount s + 1"]
  by (simp add: pad_right_def replicate_append_same)

lemma edge_ok_Result [simp]: "edge_ok (Result_String r)"
  by (cases r) (simp_all add: edge_ok_def plain_char_def ws_seqs_def)

lemma plain_digit: "decimal_digit c \<Longrightarrow> plain_char c"
  by (auto simp: plain_char_def ws_seqs_def decimal_digit_def byte_def)

lemma Fixed_edge: "edge_ok (Fixed prec r @ ''%'')"
proof -
  have "plain_char (hd (digits n))" for n
    using digits_decimal [of n] by (cases "digits n") (simp_all add: plain_digit)
  moreover have "plain_char CHR ''-''" by (simp add: plain_char_def ws_seqs_def)
  ultimately show ?thesis by (simp add: edge_ok_def Fixed_def Let_def ws_seqs_def)
qed

lemma trim_rate: "TrimSpace ('' '' @ pad_left w (Fixed prec r) @ ''% '') = Fixed prec r @ ''%''"
  using TrimSpace_padded [OF Fixed_edge [of prec r], of "1 + (w - RuneCount (Fixed prec r))" 1]
  by (simp add: pad_left_def)

lemma test_cells_trimmed:
  assumes "table_name (shortName test)" "40 \<le> w"
  shows "map TrimSpace (test_cells w grid test) =
    shown_name w test # map (\<lambda>run. Result_String (cell (g_Matrix grid) test run)) (g_Runs grid) @
    [Fixed 1 (case gm_lookup (g_PassRates grid) test of None \<Rightarrow> 0 | Some r \<Rightarrow> r) @ ''%'']"
  using shown_name_ok [OF assms]
  by (simp only: test_cells_def shown_rate_def map_append list.map map_map comp_def trim_cell trim_rate
      edge_ok_Result table_name_def)

lemma test_cells_text:
  assumes "table_name (shortName test)" "40 \<le> w"
  shows "\<forall>c \<in> set (test_cells w grid test). cell_text c"
  using shown_name_ok [OF assms] by (auto simp: test_cells_def shown_rate_def table_name_def)

text \<open>Every line of the table has one cell for the name, one for each run and one for the rate.\<close>

lemma grid_lines_shape:
  assumes labels: "labels = map (drop 4) (g_Runs grid)" and runs: "\<forall>r \<in> set (g_Runs grid). cell_text r"
    and names: "\<forall>t \<in> set (g_Tests grid). table_name (shortName t)" and l: "l \<in> set (grid_lines grid labels)"
  shows "newline \<notin> set l \<and> length (Split l CHR ''|'') = length (g_Runs grid) + 4"
proof -
  have lab: "\<forall>x \<in> set labels. cell_text x"
    using runs by (auto simp: labels cell_text_def dest: in_set_dropD)
  have "\<exists>cells. l = bar_line cells \<and> (\<forall>c \<in> set cells. cell_text c) \<and> length cells = length (g_Runs grid) + 2"
  proof -
    let ?w = "name_width (g_Tests grid)"
    consider "l = header_line ?w labels" | "l = rule_line ?w (g_Runs grid)" | "l = totals_line ?w grid"
      | t where "t \<in> set (g_Tests grid)" "l = test_line ?w grid t"
      using l by (auto simp: grid_lines_def Let_def)
    then show ?thesis
    proof cases
      case 1
      then show ?thesis unfolding header_line_cells using lab labels by - (intro exI conjI, assumption, auto)
    next
      case 2
      then show ?thesis unfolding rule_line_cells by - (intro exI conjI, assumption, auto)
    next
      case 3
      then show ?thesis unfolding totals_line_cells by - (intro exI conjI, assumption, auto simp: Let_def)
    next
      case (4 t)
      then show ?thesis unfolding test_line_cells using test_cells_text [of t ?w grid] names name_width_bounds
        by - (intro exI conjI, assumption, auto simp: test_cells_def)
    qed
  qed
  then show ?thesis using Split_bar_line bar_line_no_newline by auto
qed

text \<open>What the cells of the first and the last line say.\<close>

lemma edge_ok_Itoa:
  assumes "0 \<le> n"
  shows "edge_ok (Itoa n @ s @ Itoa m)"
proof -
  have "plain_char (hd (digits k))" for k
    using digits_decimal [of k] by (cases "digits k") (simp_all add: plain_digit)
  moreover have "last (digits k) \<notin> set (map last ws_seqs)" for k
  proof -
    have "decimal_digit (last (digits k))" using digits_decimal [of k] by (simp add: list_all_iff)
    then show ?thesis by (auto simp: ws_seqs_def decimal_digit_def byte_def)
  qed
  ultimately show ?thesis using assms by (simp add: edge_ok_def Itoa_def)
qed

lemma header_trimmed:
  assumes "\<forall>l \<in> set labels. table_name l"
  shows "map TrimSpace (Split (header_line w labels) CHR ''|'') = ['''', ''Test Case''] @ labels @ [''Rate'', '''']"
proof -
  have "edge_ok ''Test Case''" by code_simp
  moreover have "TrimSpace '' Rate   '' = ''Rate''" by code_simp
  moreover have "map (\<lambda>l. TrimSpace ('' '' @ pad_right 6 l @ '' '')) labels = labels"
    using assms by (intro map_idI) (auto simp: table_name_def trim_cell simp del: append.simps)
  ultimately show ?thesis
    using assms trim_cell [of "''Test Case''" w] unfolding header_line_cells
    by (subst Split_bar_line) (auto simp: table_name_def comp_def simp del: edge_ok_def)
qed

text \<open>The totals of a run: how often each result occurs in its column.\<close>

definition column_totals :: "GridData \<Rightarrow> string \<Rightarrow> string" where
  "column_totals grid run =
     (let column = map (\<lambda>test. cell (g_Matrix grid) test run) (g_Tests grid)
      in Itoa (occurs ResultPass column) @ ''/'' @ Itoa (occurs ResultFail column) @ ''/'' @ Itoa (occurs ResultSkip column))"

lemma totals_trimmed:
  assumes "buildGrid env dir = Inr grid"
  shows "map TrimSpace (Split (totals_line w grid) CHR ''|'') =
    ['''', ''TOTALS (pass/fail/skip)''] @ map (column_totals grid) (g_Runs grid) @ ['''', '''']"
proof -
  have title: "edge_ok ''TOTALS (pass/fail/skip)''" and blank: "TrimSpace ''        '' = ''''" by code_simp+
  have run: "TrimSpace (let s = (case gm_lookup (g_RunTotals grid) run of None \<Rightarrow> no_results | Some s \<Rightarrow> s)
      in '' '' @ Itoa (rs_Pass s) @ ''/'' @ Itoa (rs_Fail s) @ ''/'' @ Itoa (rs_Skip s) @ '' '') = column_totals grid run"
    if "run \<in> set (g_Runs grid)" for run
  proof -
    have "edge_ok (column_totals grid run)"
      using edge_ok_Itoa [of _ "''/'' @ Itoa _ @ ''/''"] by (simp add: column_totals_def Let_def occurs_def)
    with run_totals_count [OF assms that] TrimSpace_padded [of "column_totals grid run" 1 1]
    show ?thesis by (auto simp: Let_def column_totals_def)
  qed
  show ?thesis
    using run trim_cell [OF title, of w] blank unfolding totals_line_cells
    by (subst Split_bar_line) (auto simp: Let_def comp_def)
qed

text \<open>The name in the table: at most 70 bytes of it.\<close>

lemma name_width_covers: "t \<in> set tests \<Longrightarrow> length (shortName t) \<le> name_width tests \<or> name_width tests = 70"
proof -
  have mono: "w \<le> fold (\<lambda>t w. if length (shortName t) > w then length (shortName t) else w) ts w" for ts w
  proof (induction ts arbitrary: w)
    case (Cons t ts)
    show ?case using Cons [of w] Cons [of "length (shortName t)"] by simp
  qed simp
  have "t \<in> set ts \<Longrightarrow>
      length (shortName t) \<le> fold (\<lambda>t w. if length (shortName t) > w then length (shortName t) else w) ts w" for ts w
  proof (induction ts arbitrary: w)
    case (Cons u ts)
    then show ?case using mono [of w ts] mono [of "length (shortName u)" ts] by auto
  qed simp
  then show "t \<in> set tests \<Longrightarrow> ?thesis" by (auto simp: name_width_def Let_def)
qed

lemma shown_name_eq:
  assumes "t \<in> set tests"
  shows "shown_name (name_width tests) t =
    (if length (shortName t) \<le> 70 then shortName t else take 67 (shortName t) @ ''...'')"
  using name_width_covers [OF assms] name_width_bounds [of tests] by (auto simp: shown_name_def Let_def)

text \<open>C34: the Markdown table of a grid is well formed and says what the grid says.  Printing it does not
  panic; the output is one line for each test and four more, every line has the same number of
  cells.  The cells, trimmed, are in the first line the labels of the runs, in the order of the runs,
  which is what follows \<open>run-\<close> in the name of the directory; in the line of a test its name, its result in each run and its
  rate; and in the last line for each run how many tests passed, failed and were skipped in it.  The name is the
  whole short name of the test if that has at most 70 bytes, and its first 67 bytes and three dots otherwise.  This needs
  the glob to return only run directories, and names and labels without bars, line breaks or
  white space at their ends.\<close>

theorem markdown_table:
  assumes g: "buildGrid env dir = Inr grid" and dirs: "ju_glob env (path_join dir ''run-*'') = Inr dirs"
    and runs: "\<forall>d \<in> set dirs. HasPrefix (Base d) ''run-'' \<and> table_name (drop 4 (Base d))"
    and names: "\<forall>t \<in> set (g_Tests grid). table_name (shortName t)"
  shows "\<exists>out lines. printMarkdownGrid grid = Some out \<and> Split out newline = lines @ [[]]
     \<and> length lines = length (g_Tests grid) + 4
     \<and> (\<forall>l \<in> set lines. length (Split l CHR ''|'') = length (g_Runs grid) + 4)
     \<and> map TrimSpace (Split (lines ! 0) CHR ''|'') =
          ['''', ''Test Case''] @ map (\<lambda>run. drop 4 run) (g_Runs grid) @ [''Rate'', '''']
     \<and> (\<forall>i < length (g_Tests grid). let test = g_Tests grid ! i; name = shortName test in
          map TrimSpace (Split (lines ! (i + 2)) CHR ''|'') =
            [''''] @ [if length name \<le> 70 then name else take 67 name @ ''...''] @
            map (\<lambda>run. Result_String (cell (g_Matrix grid) test run)) (g_Runs grid) @
            [Fixed 1 (case gm_lookup (g_PassRates grid) test of None \<Rightarrow> 0 | Some r \<Rightarrow> r) @ ''%''] @ [''''])
     \<and> map TrimSpace (Split (last lines) CHR ''|'') =
          ['''', ''TOTALS (pass/fail/skip)''] @
          map (\<lambda>run. let column = map (\<lambda>test. cell (g_Matrix grid) test run) (g_Tests grid) in
            Itoa (occurs ResultPass column) @ ''/'' @ Itoa (occurs ResultFail column) @ ''/'' @
            Itoa (occurs ResultSkip column)) (g_Runs grid) @ ['''', '''']"
proof -
  let ?labels = "map (drop 4) (g_Runs grid)" and ?w = "name_width (g_Tests grid)"
  let ?lines = "grid_lines grid ?labels"
  have r: "g_Runs grid = map Base (sort dirs)" using g dirs by (auto elim!: buildGrid_Inr)
  have "cell_text run" if "HasPrefix run ''run-''" "table_name (drop 4 run)" for run
    using that by (auto simp: HasPrefix_iff table_name_def)
  with r runs have rs: "\<forall>r \<in> set (g_Runs grid). cell_text r" and lt: "\<forall>l \<in> set ?labels. table_name l"
    and lab: "run_labels (g_Runs grid) = Some ?labels"
    using run_labels_ok [of "g_Runs grid"] by auto
  note shape = grid_lines_shape [OF refl rs names]
  have "Split (concat (map (\<lambda>l. l @ [newline]) ?lines)) newline = ?lines @ [[]]"
    using shape by (intro Split_lines) blast
  moreover have "map TrimSpace (Split (?lines ! (i + 2)) CHR ''|'') =
      [''''] @ map TrimSpace (test_cells ?w grid (g_Tests grid ! i)) @ ['''']"
    if "i < length (g_Tests grid)" for i
    using that names test_cells_text [of "g_Tests grid ! i" ?w grid] name_width_bounds
    by (simp add: grid_lines_def Let_def nth_append test_line_cells Split_bar_line)
  moreover have "map TrimSpace (test_cells ?w grid (g_Tests grid ! i)) =
      shown_name ?w (g_Tests grid ! i) #
      map (\<lambda>run. Result_String (cell (g_Matrix grid) (g_Tests grid ! i) run)) (g_Runs grid) @
      [Fixed 1 (case gm_lookup (g_PassRates grid) (g_Tests grid ! i) of None \<Rightarrow> 0 | Some r \<Rightarrow> r) @ ''%'']"
    if "i < length (g_Tests grid)" for i
    using that names name_width_bounds by (intro test_cells_trimmed) auto
  moreover have "?lines ! 0 = header_line ?w ?labels" "last ?lines = totals_line ?w grid"
    by (simp_all add: grid_lines_def Let_def)
  ultimately show ?thesis
    using lab shape header_trimmed [OF lt] totals_trimmed [OF g] shown_name_eq [of _ "g_Tests grid"]
    by (intro exI [of _ ?lines] exI conjI)
      (auto simp: printMarkdownGrid_def Let_def grid_lines_def column_totals_def)
qed

section \<open>What the table cannot tell\<close>

text \<open>A test that no run decided has no rate and is shown with the rate of one that never passed.\<close>

lemma undecided_looks_failed:
  assumes g: "buildGrid env dir = Inr grid" and n: "length (g_Runs grid) \<le> 2 ^ 53"
    and t: "t \<in> set (g_Tests grid)" "\<forall>run \<in> set (g_Runs grid). \<not> decided (cell (g_Matrix grid) t run)"
    and u: "u \<in> set (g_Tests grid)" "\<forall>run \<in> set (g_Runs grid). cell (g_Matrix grid) u run \<noteq> ResultPass"
  shows "shown_rate grid t = shown_rate grid u"
proof -
  have "gm_lookup (g_PassRates grid) t = None" using pass_rates [OF g t(1) n] t(2)
    by (auto simp: Let_def split: option.splits)
  moreover have "gm_lookup (g_PassRates grid) u \<in> {None, Some 0}" using pass_rates [OF g u(1) n] u(2)
    by (auto simp: Let_def split: option.splits)
  ultimately show ?thesis by (auto simp: shown_rate_def)
qed

end
