(* ===== verification/HtmlPage.thy ===== *)
theory HtmlPage
  imports GridReport
begin

text \<open>
  \<open>cmd/aggregate-junit/main.go\<close>: the HTML page \<open>grid.html\<close> and the program.

  The page is what the template \<open>htmlSource\<close> gives: its text with the white space that \<open>{{-\<close> and \<open>-}}\<close>
  trim left out, and the values of its actions, which \<open>html/template\<close> escapes with its table for
  text and quoted attributes, except the \<open>template.HTML\<close> that \<open>testNameHTML\<close> returns, which goes into
  the page as it is.  Executing the template stops, in the middle of the page, where \<open>slice . 4\<close> is
  out of range.  \<open>creates\<close> is the answer of \<open>os.Create\<close>; that a later write fails is not represented.

  The second half reads the page as a browser does, with a scanner for tags, quoted attribute
  values and entities.
\<close>

section \<open>Escaping\<close>

fun Emoji :: "Result \<Rightarrow> string" where
  "Emoji ResultPass = [CHR 0xE2, CHR 0x9C, CHR 0x85]"
| "Emoji ResultFail = [CHR 0xE2, CHR 0x9D, CHR 0x8C]"
| "Emoji ResultSkip = [CHR 0xE2, CHR 0x8F, CHR 0xAD]"
| "Emoji ResultError = [CHR 0xE2, CHR 0x9A, CHR 0xA0]"
| "Emoji ResultMissing = [CHR 0xE2, CHR 0x9E, CHR 0x96]"

text \<open>The tables of \<open>template.HTMLEscapeString\<close> and of the escaper that \<open>html/template\<close> adds.\<close>

definition entities :: "(char \<times> string) list" where
  "entities =
     [(CHR 0x22, ''&#34;''), (CHR 0x27, ''&#39;''), (CHR ''&'', ''&amp;''), (CHR ''<'', ''&lt;''),
      (CHR ''>'', ''&gt;'')]"

definition htmlReplacementTable :: "(char \<times> string) list" where
  "htmlReplacementTable = (CHR ''+'', ''&#43;'') # entities"

definition escape_char :: "(char \<times> string) list \<Rightarrow> char \<Rightarrow> string" where
  "escape_char table c =
     (if c = CHR 0x00 then [CHR 0xEF, CHR 0xBF, CHR 0xBD]
      else case map_of table c of None \<Rightarrow> [c] | Some e \<Rightarrow> e)"

definition HTMLEscapeString :: "string \<Rightarrow> string" where
  "HTMLEscapeString s = concat (map (escape_char entities) s)"

definition htmlReplacer :: "string \<Rightarrow> string" where
  "htmlReplacer s = concat (map (escape_char htmlReplacementTable) s)"

section \<open>The template\<close>

definition quoted :: "string \<Rightarrow> string" where
  "quoted s = [CHR 0x22] @ s @ [CHR 0x22]"

definition testNameHTML :: "string \<Rightarrow> string gomap \<Rightarrow> string" where
  "testNameHTML test links =
     (let name = HTMLEscapeString (shortName test) in
      case gm_lookup links test of
        Some url \<Rightarrow> ''<a href='' @ quoted (HTMLEscapeString url) @ ''>'' @ name @ ''</a>''
      | None \<Rightarrow> name)"

definition unlines :: "string list \<Rightarrow> string" where
  "unlines ls = concat (map (\<lambda>l. l @ [newline]) ls)"

definition style_lines :: "string list" where
  \<open>style_lines =
     [''  body { font-family: -apple-system, BlinkMacSystemFont, "Segoe UI", Helvetica, Arial, sans-serif; margin: 2rem; background: #fff; color: #1a1a1a; }'',
      ''  h1 { font-size: 1.5rem; margin-bottom: 0.5rem; }'',
      ''  .meta { color: #666; margin-bottom: 1.5rem; }'',
      ''  table { border-collapse: collapse; font-size: 0.85rem; }'',
      ''  th, td { border: 1px solid #d0d7de; padding: 6px 10px; text-align: center; white-space: nowrap; }'',
      ''  th { background: #f6f8fa; font-weight: 600; }'',
      ''  th.test-name, td.test-name { text-align: left; max-width: 500px; overflow: hidden; text-overflow: ellipsis; }'',
      ''  td.test-name a { color: #0969da; text-decoration: none; }'',
      ''  td.test-name a:hover { text-decoration: underline; }'',
      ''  td.pass { background: #dafbe1; }'',
      ''  td.fail { background: #ffcecb; }'',
      ''  td.skip { background: #fff8c5; }'',
      ''  td.error { background: #ffcecb; }'',
      ''  td.missing { background: #f6f8fa; color: #999; }'',
      ''  .rate-100 { font-weight: 600; color: #1a7f37; }'',
      ''  .rate-high { color: #1a7f37; }'',
      ''  .rate-med { color: #9a6700; }'',
      ''  .rate-low { color: #cf222e; }'',
      ''  .summary { margin-top: 1.5rem; }'',
      ''  .summary td { font-weight: 600; }'']\<close>

definition head_lines :: "string list" where
  \<open>head_lines =
     [''<!DOCTYPE html>'', ''<html>'', ''<head>'', ''<meta charset="utf-8">'', ''<title>Test Grid Results</title>'',
      ''<style>''] @ style_lines @
     [''</style>'', ''</head>'', ''<body>'',
      ''<h1>vSphere Multi-vCenter Day 2 '' @ [CHR 0xE2, CHR 0x80, CHR 0x94] @ '' Test Grid</h1>'']\<close>

definition counts_text :: "GridData \<Rightarrow> string" where
  "counts_text grid =
     Itoa (int (length (g_Runs grid))) @ '' runs, '' @ Itoa (int (length (g_Tests grid))) @ '' test cases''"

definition table_head :: "GridData \<Rightarrow> string" where
  \<open>table_head grid = ''<p class="meta">'' @ counts_text grid @ ''</p>'' @ [newline] @
     unlines [''<table>'', ''<thead>'', ''  <tr>'', ''    <th class="test-name">Test Case</th>''] @ ''    ''\<close>

text \<open>The cells of \<open>{{range .Runs}}<th>{{slice . 4}}</th>{{end}}\<close>, and whether all of them are there.\<close>

fun run_heads :: "string list \<Rightarrow> string \<times> bool" where
  "run_heads [] = ('''', True)"
| "run_heads (run # runs) =
     (case run_label run of
        None \<Rightarrow> (''<th>'', False)
      | Some l \<Rightarrow> map_prod (\<lambda>s. ''<th>'' @ htmlReplacer l @ ''</th>'' @ s) id (run_heads runs))"

definition result_cell :: "GridData \<Rightarrow> string \<Rightarrow> string \<Rightarrow> string" where
  "result_cell grid test run =
     (let r = cell (g_Matrix grid) test run in
      ''<td class='' @ quoted (htmlReplacer (CSSClass r)) @ ''>'' @ htmlReplacer (Emoji r) @ ''</td>'' @
      [newline] @ ''    '')"

definition rate_of :: "GridData \<Rightarrow> string \<Rightarrow> rat" where
  "rate_of grid test = (case gm_lookup (g_PassRates grid) test of None \<Rightarrow> 0 | Some r \<Rightarrow> r)"

definition test_row :: "GridData \<Rightarrow> string \<Rightarrow> string" where
  \<open>test_row grid test =
     [newline] @ ''  <tr>'' @ [newline] @
     ''    <td class="test-name" title='' @ quoted (htmlReplacer test) @ ''>'' @
     testNameHTML test (g_DocLinks grid) @ ''</td>'' @ [newline] @ ''    '' @
     concat (map (result_cell grid test) (g_Runs grid)) @ [newline] @
     ''    <td class='' @ quoted (htmlReplacer (rateClass (rate_of grid test))) @ ''>'' @
     htmlReplacer (Fixed 0 (rate_of grid test) @ ''%'') @ ''</td>'' @ [newline] @
     ''  </tr>'' @ [newline] @ ''  ''\<close>

definition total_text :: "GridData \<Rightarrow> string \<Rightarrow> string" where
  "total_text grid run =
     (let s = (case gm_lookup (g_RunTotals grid) run of None \<Rightarrow> no_results | Some s \<Rightarrow> s)
      in Itoa (rs_Pass s) @ ''/'' @ Itoa (rs_Fail s) @ ''/'' @ Itoa (rs_Skip s))"

definition total_cell :: "GridData \<Rightarrow> string \<Rightarrow> string" where
  "total_cell grid run = ''<td>'' @ total_text grid run @ ''</td>'' @ [newline] @ ''    ''"

definition table_body :: "GridData \<Rightarrow> string" where
  \<open>table_body grid =
     [newline] @ unlines [''    <th>Pass Rate</th>'', ''  </tr>'', ''</thead>'', ''<tbody>''] @ ''  '' @
     concat (map (test_row grid) (g_Tests grid)) @ [newline] @
     unlines [''</tbody>'', ''<tfoot class="summary">'', ''  <tr>'', ''    <td class="test-name">Totals</td>''] @ ''    '' @
     concat (map (total_cell grid) (g_Runs grid)) @ [newline] @
     unlines [''    <td></td>'', ''  </tr>'', ''</tfoot>'', ''</table>'', ''</body>'', ''</html>'']\<close>

text \<open>What executing the template writes, and whether it succeeds.\<close>

definition html_page :: "GridData \<Rightarrow> string \<times> bool" where
  "html_page grid =
     (case run_heads (g_Runs grid) of (heads, whole) \<Rightarrow>
        (unlines head_lines @ table_head grid @ heads @ (if whole then table_body grid else ''''), whole))"

text \<open>The error, and the file at \<open>path\<close> afterwards where it was created.\<close>

definition writeHTMLGrid :: "(string \<Rightarrow> unit res) \<Rightarrow> GridData \<Rightarrow> string \<Rightarrow> unit res \<times> string option" where
  "writeHTMLGrid creates grid path =
     (case creates path of
        Inl err \<Rightarrow> (Inl err, None)
      | Inr _ \<Rightarrow>
          (case html_page grid of (page, whole) \<Rightarrow>
             (if whole then Inr () else Inl (ForeignError ''error calling slice''), Some page)))"

section \<open>The program\<close>

record outcome_of_run =
  ro_code :: int
  ro_stdout :: string
  ro_page :: "(string \<times> string) option"

text \<open>\<open>args\<close> are the arguments after the program's name; \<open>None\<close> is a panic.  The page that is
  written is given with its path.\<close>

definition aggregate :: "junit_env \<Rightarrow> (string \<Rightarrow> unit res) \<Rightarrow> string list \<Rightarrow> outcome_of_run option" where
  "aggregate env creates args =
     (let failed = \<lparr>ro_code = 1, ro_stdout = '''', ro_page = None\<rparr> in
      case args of
        [] \<Rightarrow> Some failed
      | resultsDir # _ \<Rightarrow>
          (case buildGrid env resultsDir of
             Inl err \<Rightarrow> Some failed
           | Inr grid \<Rightarrow>
               if g_Tests grid = [] then Some failed
               else case printMarkdownGrid grid of
                 None \<Rightarrow> None
               | Some out \<Rightarrow>
                   let htmlPath = path_join resultsDir ''grid.html''
                   in Some \<lparr>ro_code = 0, ro_stdout = out,
                        ro_page = map_option (Pair htmlPath) (snd (writeHTMLGrid creates grid htmlPath))\<rparr>))"

lemma run_heads_labels: "snd (run_heads runs) \<longleftrightarrow> run_labels runs \<noteq> None"
  by (induction runs) (auto split: option.splits)

text \<open>Once the Markdown table has been printed, the page can be rendered.\<close>

lemma page_after_table: "snd (html_page grid) \<longleftrightarrow> printMarkdownGrid grid \<noteq> None"
  using run_heads_labels [of "g_Runs grid"]
  by (cases "run_heads (g_Runs grid)") (simp add: html_page_def printMarkdownGrid_def)

section \<open>Reading the page\<close>

datatype mode = InText | InTag | InValue

fun next_mode :: "mode \<Rightarrow> char \<Rightarrow> mode" where
  "next_mode InText c = (if c = CHR ''<'' then InTag else InText)"
| "next_mode InTag c = (if c = CHR ''>'' then InText else if c = CHR 0x22 then InValue else InTag)"
| "next_mode InValue c = (if c = CHR 0x22 then InTag else InValue)"

fun mode_after :: "mode \<Rightarrow> string \<Rightarrow> mode" where
  "mode_after m [] = m"
| "mode_after m (c # s) = mode_after (next_mode m c) s"

text \<open>The tags, without text and without the values of attributes.\<close>

fun markup :: "mode \<Rightarrow> string \<Rightarrow> string" where
  "markup m [] = []"
| "markup m (c # s) =
     (if m \<noteq> InTag \<and> next_mode m c = m then markup m s else c # markup (next_mode m c) s)"

text \<open>The texts before the tags: \<open>acc\<close> is the text read so far.\<close>

fun texts :: "mode \<Rightarrow> string \<Rightarrow> string \<Rightarrow> string list" where
  "texts m acc [] = []"
| "texts m acc (c # s) =
     (case m of
        InText \<Rightarrow> if c = CHR ''<'' then acc # texts InTag [] s else texts InText (acc @ [c]) s
      | _ \<Rightarrow> texts (next_mode m c) [] s)"

fun pending :: "mode \<Rightarrow> string \<Rightarrow> string \<Rightarrow> string" where
  "pending m acc [] = acc"
| "pending m acc (c # s) = pending (next_mode m c) (if m = InText \<and> c \<noteq> CHR ''<'' then acc @ [c] else []) s"

text \<open>What a browser makes of escaped text: an entity of the table is its character again.\<close>

function unescape :: "string \<Rightarrow> string" where
  "unescape s =
     (case s of
        [] \<Rightarrow> []
      | c # t \<Rightarrow>
          (case find_first (\<lambda>(_, e). HasPrefix s e) htmlReplacementTable of
             Some (d, e) \<Rightarrow> d # unescape (drop (length e - 1) t)
           | None \<Rightarrow> c # unescape t))"
  by pat_completeness auto
termination
  by (relation "measure length") auto

declare unescape.simps [simp del]

definition blank :: "string \<Rightarrow> bool" where
  "blank s \<longleftrightarrow> list_all (\<lambda>c. c = newline \<or> c = CHR '' '') s"

definition shown :: "string \<Rightarrow> string list" where
  "shown page = filter (\<lambda>s. \<not> blank s) (map unescape (texts InText [] page))"


section \<open>Escaped text is inert and shown as it was\<close>

definition no_markup :: "string \<Rightarrow> bool" where
  "no_markup s \<longleftrightarrow> CHR ''<'' \<notin> set s \<and> CHR 0x22 \<notin> set s"

text \<open>The zero byte cannot be written in HTML; it becomes the replacement character.\<close>

definition replace_nul :: "string \<Rightarrow> string" where
  "replace_nul s = concat (map (\<lambda>c. if c = CHR 0x00 then [CHR 0xEF, CHR 0xBF, CHR 0xBD] else [c]) s)"

lemma table_subset: "set entities \<subseteq> set htmlReplacementTable"
  by (auto simp: htmlReplacementTable_def)

lemma no_markup_char: "table \<in> {entities, htmlReplacementTable} \<Longrightarrow> no_markup (escape_char table c)"
proof (cases "map_of table c")
  case None
  moreover assume "table \<in> {entities, htmlReplacementTable}"
  ultimately show ?thesis
    by (auto simp: no_markup_def escape_char_def entities_def htmlReplacementTable_def split: if_splits)
next
  case (Some e)
  moreover assume "table \<in> {entities, htmlReplacementTable}"
  ultimately have "(c, e) \<in> set htmlReplacementTable" using table_subset map_of_SomeD by fastforce
  with Some show ?thesis by (auto simp: no_markup_def escape_char_def entities_def htmlReplacementTable_def)
qed

lemma no_markup_escape [simp]: "no_markup (HTMLEscapeString s)" "no_markup (htmlReplacer s)"
  using no_markup_char [of entities] no_markup_char [of htmlReplacementTable]
  by (auto simp: HTMLEscapeString_def htmlReplacer_def no_markup_def)

lemma unescape_entity: "(d, e) \<in> set htmlReplacementTable \<Longrightarrow> unescape (e @ s) = d # unescape s"
  by (auto simp: entities_def htmlReplacementTable_def unescape.simps [of "_ # _"] HasPrefix_def)

lemma unescape_plain: "c \<noteq> CHR ''&'' \<Longrightarrow> unescape (c # s) = c # unescape s"
  by (simp add: unescape.simps [of "c # s"] entities_def htmlReplacementTable_def HasPrefix_def)

lemma unescape_Nil [simp]: "unescape [] = []"
  by (simp add: unescape.simps [of "[]"])

lemma unescape_id: "CHR ''&'' \<notin> set s \<Longrightarrow> unescape s = s"
  by (induction s) (auto simp: unescape_plain)

lemma unescape_escape_char:
  assumes "table \<in> {entities, htmlReplacementTable}"
  shows "unescape (escape_char table c @ s) = replace_nul [c] @ unescape s"
proof (cases "map_of table c")
  case None
  then have "c \<noteq> CHR ''&''" using assms by (auto simp: entities_def htmlReplacementTable_def)
  then show ?thesis using None by (auto simp: escape_char_def replace_nul_def unescape_plain)
next
  case (Some e)
  then have c: "(c, e) \<in> set htmlReplacementTable" "c \<noteq> CHR 0x00"
    using assms table_subset map_of_SomeD [OF Some] by (auto simp: entities_def htmlReplacementTable_def)
  from unescape_entity [OF c(1), of s] c(2) Some show ?thesis by (simp add: escape_char_def replace_nul_def)
qed

lemma unescape_escape [simp]: "unescape (HTMLEscapeString s) = replace_nul s" "unescape (htmlReplacer s) = replace_nul s"
  by (induction s)
    (simp_all add: HTMLEscapeString_def htmlReplacer_def unescape_escape_char, simp_all add: replace_nul_def)

lemma replace_nul_id: "CHR 0x00 \<notin> set s \<Longrightarrow> replace_nul s = s"
  by (induction s) (auto simp: replace_nul_def)

section \<open>Reading piece by piece\<close>

lemma mode_after_append [simp]: "mode_after m (a @ b) = mode_after (mode_after m a) b"
  by (induction a arbitrary: m) auto

lemma markup_append [simp]: "markup m (a @ b) = markup m a @ markup (mode_after m a) b"
  by (induction a arbitrary: m) auto

lemma pending_append [simp]: "pending m acc (a @ b) = pending (mode_after m a) (pending m acc a) b"
  by (induction a arbitrary: m acc) auto

lemma texts_append [simp]: "texts m acc (a @ b) = texts m acc a @ texts (mode_after m a) (pending m acc a) b"
  by (induction a arbitrary: m acc) (auto split: mode.splits)

lemma read_text [simp]:
  assumes "CHR ''<'' \<notin> set s"
  shows "mode_after InText s = InText" "markup InText s = []" "texts InText acc s = []" "pending InText acc s = acc @ s"
  using assms by (induction s arbitrary: acc) auto

lemma read_value [simp]:
  assumes "CHR 0x22 \<notin> set s"
  shows "mode_after InValue s = InValue" "markup InValue s = []" "texts InValue acc s = []" "pending InValue [] s = []"
  using assms by (induction s arbitrary: acc) auto

text \<open>
  \<open>reads acc s mk vs acc'\<close>: after the text \<open>acc\<close>, the piece \<open>s\<close> of a page has the tags \<open>mk\<close>, shows the texts
  \<open>vs\<close> and ends with the text \<open>acc'\<close>.
\<close>

definition visible :: "string list \<Rightarrow> string list" where
  "visible ts = filter (\<lambda>s. \<not> blank s) ts"

definition reads :: "string \<Rightarrow> string \<Rightarrow> string \<Rightarrow> string list \<Rightarrow> string \<Rightarrow> bool" where
  "reads acc s mk vs acc' \<longleftrightarrow> mode_after InText s = InText \<and> markup InText s = mk \<and>
     visible (map unescape (texts InText acc s)) = vs \<and> pending InText acc s = acc'"

lemma visible_append [simp]: "visible (ss @ ts) = visible ss @ visible ts"
  by (simp add: visible_def)

lemma visible_Cons [simp]: "visible (s # ts) = (if blank s then visible ts else s # visible ts)"
  by (simp add: visible_def)

lemma visible_Nil [simp]: "visible [] = []"
  by (simp add: visible_def)

lemma reads_append: "reads acc a mk vs acc1 \<Longrightarrow> reads acc1 b mk' vs' acc2 \<Longrightarrow> reads acc (a @ b) (mk @ mk') (vs @ vs') acc2"
  by (simp add: reads_def)

lemma reads_concat:
  assumes "\<And>x. x \<in> set xs \<Longrightarrow> reads acc (f x) (mk x) (vs x) acc"
  shows "reads acc (concat (map f xs)) (concat (map mk xs)) (concat (map vs xs)) acc"
  using assms
proof (induction xs)
  case (Cons x xs)
  from reads_append [OF Cons.prems [of x] Cons.IH] Cons.prems show ?case by simp
qed (simp add: reads_def)

lemma blank_simps [simp]: "blank []" "blank (c # s) \<longleftrightarrow> (c = newline \<or> c = CHR '' '') \<and> blank s"
  "blank (s @ t) \<longleftrightarrow> blank s \<and> blank t"
  by (simp_all add: blank_def)

lemma blank_unescape [simp]: "blank s \<Longrightarrow> unescape s = s"
proof (rule unescape_id)
  show "blank s \<Longrightarrow> CHR ''&'' \<notin> set s" by (induction s) auto
qed

section \<open>What the page shows\<close>

definition cell_markup :: string where
  \<open>cell_markup = ''<td class=""></td>''\<close>

definition row_markup :: "nat \<Rightarrow> bool \<Rightarrow> string" where
  \<open>row_markup n linked =
     ''<tr><td class="" title="">'' @ (if linked then ''<a href=""></a>'' else '''') @ ''</td>'' @
     concat (replicate n cell_markup) @ cell_markup @ ''</tr>''\<close>

text \<open>The tags of a page for \<open>n\<close> runs and for tests with and without a link.\<close>

definition page_markup :: "nat \<Rightarrow> bool list \<Rightarrow> string" where
  \<open>page_markup n links =
     ''<!DOCTYPE html><html><head><meta charset=""><title></title><style></style></head><body><h1></h1>'' @
     ''<p class=""></p><table><thead><tr><th class=""></th>'' @ concat (replicate n ''<th></th>'') @
     ''<th></th></tr></thead><tbody>'' @ concat (map (row_markup n) links) @
     ''</tbody><tfoot class=""><tr><td class=""></td>'' @ concat (replicate n ''<td></td>'') @
     ''<td></td></tr></tfoot></table></body></html>''\<close>

definition row_texts :: "GridData \<Rightarrow> string \<Rightarrow> string list" where
  "row_texts grid test =
     replace_nul (shortName test) # map (\<lambda>run. Emoji (cell (g_Matrix grid) test run)) (g_Runs grid) @
     [Fixed 0 (rate_of grid test) @ ''%'']"

definition page_texts :: "GridData \<Rightarrow> string list" where
  "page_texts grid =
     [''Test Grid Results'', newline # unlines style_lines,
      ''vSphere Multi-vCenter Day 2 '' @ [CHR 0xE2, CHR 0x80, CHR 0x94] @ '' Test Grid''] @
     [counts_text grid, ''Test Case''] @
     map (\<lambda>run. replace_nul (drop 4 run)) (g_Runs grid) @ [''Pass Rate''] @
     concat (map (row_texts grid) (g_Tests grid)) @ [''Totals''] @ map (total_text grid) (g_Runs grid)"

lemma no_markup_chars [simp]:
  "CHR ''<'' \<notin> set (HTMLEscapeString s)" "CHR 0x22 \<notin> set (HTMLEscapeString s)"
  "CHR ''<'' \<notin> set (htmlReplacer s)" "CHR 0x22 \<notin> set (htmlReplacer s)"
  using no_markup_escape [of s] by (simp_all add: no_markup_def)

definition plain_text :: "string \<Rightarrow> bool" where
  "plain_text s \<longleftrightarrow> CHR ''<'' \<notin> set s \<and> CHR ''&'' \<notin> set s"

lemma plain_text_simps [simp]: "plain_text []" "plain_text (c # s) \<longleftrightarrow> c \<noteq> CHR ''<'' \<and> c \<noteq> CHR ''&'' \<and> plain_text s"
  "plain_text (s @ t) \<longleftrightarrow> plain_text s \<and> plain_text t"
  by (auto simp: plain_text_def)

lemma plain_text_digits [simp]: "plain_text (digits n)"
  using digits_decimal [of n] by (auto simp: plain_text_def list_all_iff decimal_digit_def byte_def)

lemma plain_text_replicate [simp]: "plain_text (replicate n c) \<longleftrightarrow> n = 0 \<or> c \<noteq> CHR ''<'' \<and> c \<noteq> CHR ''&''"
  by (auto simp: plain_text_def)

lemma plain_text_Itoa [simp]: "plain_text (Itoa i)"
  by (simp add: Itoa_def)

lemma plain_text_ok [simp]: "plain_text s \<Longrightarrow> CHR ''<'' \<notin> set s" "plain_text s \<Longrightarrow> unescape s = s"
  by (simp_all add: plain_text_def unescape_id)

lemma plain_text_counts [simp]: "plain_text (counts_text grid)" "plain_text (total_text grid run)"
  by (simp_all add: counts_text_def total_text_def Let_def)

lemma replace_nul_plain [simp]:
  "replace_nul (Emoji r) = Emoji r" "replace_nul (Fixed 0 q @ ''%'') = Fixed 0 q @ ''%''"
proof -
  show "replace_nul (Emoji r) = Emoji r" by (cases r) (simp_all add: replace_nul_def)
  have "CHR 0x00 \<notin> set (digits n)" for n
    using digits_decimal [of n] by (auto simp: list_all_iff decimal_digit_def byte_def)
  then show "replace_nul (Fixed 0 q @ ''%'') = Fixed 0 q @ ''%''"
    by (intro replace_nul_id) (auto simp: Fixed_def Let_def zero_pad_def)
qed

lemma not_blank [simp]: "\<not> blank (Emoji r)" "\<not> blank (s @ ''%'')" "\<not> blank (total_text grid run)"
  "\<not> blank (counts_text grid)"
  by (cases r) (simp_all add: total_text_def counts_text_def Let_def)


text \<open>The pieces, each after a text of white space.\<close>

abbreviation indent :: string where
  "indent \<equiv> newline # ''    ''"

lemma unlines_append: "unlines (as @ bs) = unlines as @ unlines bs"
  by (simp add: unlines_def)

lemma style_plain [simp]: "plain_text (unlines style_lines)" "\<not> blank (unlines style_lines)"
  by code_simp+

lemma reads_head: \<open>reads [] (unlines head_lines)
    ''<!DOCTYPE html><html><head><meta charset=""><title></title><style></style></head><body><h1></h1>''
    [''Test Grid Results'', newline # unlines style_lines,
     ''vSphere Multi-vCenter Day 2 '' @ [CHR 0xE2, CHR 0x80, CHR 0x94] @ '' Test Grid''] [newline]\<close>
  unfolding head_lines_def unlines_append by (simp add: reads_def unlines_def [of "_ # _"] unlines_def [of "[]"])

lemma reads_table_head: \<open>reads [newline] (table_head grid)
    ''<p class=""></p><table><thead><tr><th class=""></th>'' [counts_text grid, ''Test Case''] indent\<close>
  by (simp add: reads_def table_head_def unlines_def)

lemma reads_run_heads:
  assumes "run_heads runs = (heads, True)" "blank acc"
  shows "\<exists>acc'. blank acc' \<and> reads acc heads (concat (replicate (length runs) ''<th></th>''))
    (visible (map (\<lambda>run. replace_nul (drop 4 run)) runs)) acc'"
  using assms
proof (induction runs arbitrary: heads acc)
  case (Cons run runs)
  then obtain l s where l: "run_label run = Some l" and s: "run_heads runs = (s, True)"
    and h: "heads = (''<th>'' @ htmlReplacer l @ ''</th>'') @ s"
    by (auto simp: map_prod_def split: option.splits prod.splits)
  have "l = drop 4 run" using l by (simp add: run_label_def split: if_splits)
  then have "reads acc (''<th>'' @ htmlReplacer l @ ''</th>'') ''<th></th>'' (visible [replace_nul (drop 4 run)]) []"
    using Cons.prems(2) by (simp add: reads_def)
  moreover obtain acc' where "blank acc'" "reads [] s (concat (replicate (length runs) ''<th></th>''))
      (visible (map (\<lambda>run. replace_nul (drop 4 run)) runs)) acc'"
    using Cons.IH [OF s, of "[]"] by auto
  ultimately show ?case
    unfolding h by (intro exI [of _ acc'] conjI) (use reads_append in fastforce)+
qed (auto simp: reads_def)

lemma reads_result_cell: "reads indent (result_cell grid test run) cell_markup [Emoji (cell (g_Matrix grid) test run)] indent"
  by (simp add: reads_def result_cell_def quoted_def Let_def cell_markup_def)

lemma reads_total_cell: "reads indent (total_cell grid run) ''<td></td>'' [total_text grid run] indent"
  by (simp add: reads_def total_cell_def)

lemma reads_name: \<open>reads (newline # ''  '') ([newline] @ ''  <tr>'' @ [newline] @
     ''    <td class="test-name" title='' @ quoted (htmlReplacer test) @ ''>'' @
     testNameHTML test links @ ''</td>'' @ [newline] @ ''    '')
   (''<tr><td class="" title="">'' @ (if gm_lookup links test \<noteq> None then ''<a href=""></a>'' else '''') @ ''</td>'')
   (visible [replace_nul (shortName test)]) indent\<close>
  by (cases "gm_lookup links test") (simp_all add: reads_def testNameHTML_def Let_def quoted_def)

lemma reads_rate: \<open>reads indent ([newline] @ ''    <td class='' @ quoted (htmlReplacer (rateClass rate)) @ ''>'' @
     htmlReplacer (Fixed 0 rate @ ''%'') @ ''</td>'' @ [newline] @ ''  </tr>'' @ [newline] @ ''  '')
     (cell_markup @ ''</tr>'') [Fixed 0 rate @ ''%''] (newline # ''  '')\<close>
  by (simp add: reads_def quoted_def cell_markup_def)

lemma concat_const: "concat (map (\<lambda>_. x) xs) = concat (replicate (length xs) x)"
  by (induction xs) auto

lemma reads_test_row:
  "reads (newline # ''  '') (test_row grid test)
     (row_markup (length (g_Runs grid)) (gm_lookup (g_DocLinks grid) test \<noteq> None)) (visible (row_texts grid test))
     (newline # ''  '')"
proof -
  have cells: "reads indent (concat (map (result_cell grid test) (g_Runs grid)))
     (concat (map (\<lambda>_. cell_markup) (g_Runs grid)))
     (concat (map (\<lambda>run. [Emoji (cell (g_Matrix grid) test run)]) (g_Runs grid))) indent"
    by (rule reads_concat) (rule reads_result_cell)
  have vs: "visible (row_texts grid test) = visible [replace_nul (shortName test)] @
      concat (map (\<lambda>run. [Emoji (cell (g_Matrix grid) test run)]) (g_Runs grid)) @ [Fixed 0 (rate_of grid test) @ ''%'']"
    by (induction "g_Runs grid") (simp_all add: row_texts_def visible_def)

  from reads_append [OF reads_name [of test "g_DocLinks grid"] reads_append [OF cells reads_rate [of "rate_of grid test"]]]
  show ?thesis unfolding vs row_markup_def test_row_def concat_const by (simp only: append_assoc)
qed


lemma reads_body_start: \<open>blank acc \<Longrightarrow>
   reads acc ([newline] @ unlines [''    <th>Pass Rate</th>'', ''  </tr>'', ''</thead>'', ''<tbody>''] @ ''  '')
     ''<th></th></tr></thead><tbody>'' [''Pass Rate''] (newline # ''  '')\<close>
  by (simp add: reads_def unlines_def unescape_id)

lemma reads_foot: \<open>reads (newline # ''  '') ([newline] @
     unlines [''</tbody>'', ''<tfoot class="summary">'', ''  <tr>'', ''    <td class="test-name">Totals</td>''] @ ''    '')
     ''</tbody><tfoot class=""><tr><td class=""></td>'' [''Totals''] indent\<close>
  by (simp add: reads_def unlines_def unescape_id)

lemma reads_end: "reads indent ([newline] @
     unlines [''    <td></td>'', ''  </tr>'', ''</tfoot>'', ''</table>'', ''</body>'', ''</html>''])
     ''<td></td></tr></tfoot></table></body></html>'' [] [newline]"
  by (simp add: reads_def unlines_def)

lemma visible_concat: "concat (map (\<lambda>x. visible (f x)) xs) = visible (concat (map f xs))"
  by (induction xs) auto

lemma concat_singles: "(\<And>x. \<not> blank (f x)) \<Longrightarrow> concat (map (\<lambda>x. [f x]) xs) = visible (map f xs)"
  by (induction xs) auto

lemma reads_table_body:
  assumes "blank acc"
  shows \<open>reads acc (table_body grid)
    (''<th></th></tr></thead><tbody>'' @
       concat (map (\<lambda>t. row_markup (length (g_Runs grid)) (gm_lookup (g_DocLinks grid) t \<noteq> None)) (g_Tests grid)) @
       ''</tbody><tfoot class=""><tr><td class=""></td>'' @
       concat (replicate (length (g_Runs grid)) ''<td></td>'') @ ''<td></td></tr></tfoot></table></body></html>'')
    (visible ([''Pass Rate''] @ concat (map (row_texts grid) (g_Tests grid)) @ [''Totals''] @
       map (total_text grid) (g_Runs grid))) [newline]\<close>
proof -
  have rows: "reads (newline # ''  '') (concat (map (test_row grid) (g_Tests grid)))
      (concat (map (\<lambda>t. row_markup (length (g_Runs grid)) (gm_lookup (g_DocLinks grid) t \<noteq> None)) (g_Tests grid)))
      (concat (map (\<lambda>t. visible (row_texts grid t)) (g_Tests grid))) (newline # ''  '')"
    by (rule reads_concat) (rule reads_test_row)
  have totals: "reads indent (concat (map (total_cell grid) (g_Runs grid)))
      (concat (map (\<lambda>_. ''<td></td>'') (g_Runs grid))) (concat (map (\<lambda>run. [total_text grid run]) (g_Runs grid))) indent"
    by (rule reads_concat) (rule reads_total_cell)
  note parts = reads_append [OF reads_body_start [OF assms] reads_append [OF rows
      reads_append [OF reads_foot reads_append [OF totals reads_end]]]]
  have "visible [''Pass Rate''] = [''Pass Rate'']" "visible [''Totals''] = [''Totals'']" by simp_all
  with parts show ?thesis
    unfolding table_body_def concat_const visible_concat
    by (simp only: append_assoc visible_append append_Nil2 concat_singles not_blank not_False_eq_True)
qed

lemma reads_page:
  assumes "html_page grid = (page, True)"
  shows "reads [] page
      (page_markup (length (g_Runs grid)) (map (\<lambda>t. gm_lookup (g_DocLinks grid) t \<noteq> None) (g_Tests grid)))
      (visible (page_texts grid)) [newline]"
proof -
  obtain heads where h: "run_heads (g_Runs grid) = (heads, True)"
    and page: "page = unlines head_lines @ table_head grid @ heads @ table_body grid"
    using assms by (auto simp: html_page_def split: prod.splits)
  obtain acc where acc: "blank acc" and heads: "reads indent heads
      (concat (replicate (length (g_Runs grid)) ''<th></th>''))
      (visible (map (\<lambda>run. replace_nul (drop 4 run)) (g_Runs grid))) acc"
    using reads_run_heads [OF h, of indent] by auto
  have vs: "visible [''Test Grid Results'', newline # unlines style_lines,
       ''vSphere Multi-vCenter Day 2 '' @ [CHR 0xE2, CHR 0x80, CHR 0x94] @ '' Test Grid''] =
      [''Test Grid Results'', newline # unlines style_lines,
       ''vSphere Multi-vCenter Day 2 '' @ [CHR 0xE2, CHR 0x80, CHR 0x94] @ '' Test Grid'']"
    "visible [counts_text grid, ''Test Case''] = [counts_text grid, ''Test Case'']" by simp_all
  note parts = reads_append [OF reads_head reads_append [OF reads_table_head [of grid]
      reads_append [OF heads reads_table_body [OF acc, of grid]]]]
  have texts: "visible (page_texts grid) =
      visible [''Test Grid Results'', newline # unlines style_lines,
       ''vSphere Multi-vCenter Day 2 '' @ [CHR 0xE2, CHR 0x80, CHR 0x94] @ '' Test Grid''] @
      visible [counts_text grid, ''Test Case''] @ visible (map (\<lambda>run. replace_nul (drop 4 run)) (g_Runs grid)) @
      visible ([''Pass Rate''] @ concat (map (row_texts grid) (g_Tests grid)) @ [''Totals''] @
       map (total_text grid) (g_Runs grid))"
    by (simp only: page_texts_def visible_append append_assoc)
  from parts show ?thesis
    unfolding page texts vs page_markup_def by (simp only: append_assoc map_map comp_def)
qed

text \<open>C35: the HTML page is the grid and nothing else.  When the program writes \<open>grid.html\<close> it has printed the
  Markdown table and succeeds; the tags of the page, attributes included, depend only on the number
  of runs and on which tests have a link to their documentation, so that no test name, run name or
  link can put markup into it; and the texts a browser shows between them, the blank ones left out, are the heading,
  the counts, for each test its short name, the sign of its result in each run and its rate, and
  the totals of each run, with every character as it was but the zero byte.\<close>
theorem html_page_safe:
  assumes "aggregate env creates (dir # rest) = Some r" "ro_page r = Some (path, page)"
  shows "\<exists>grid. buildGrid env dir = Inr grid \<and> ro_code r = 0 \<and> printMarkdownGrid grid = Some (ro_stdout r)
     \<and> path = path_join dir ''grid.html''
     \<and> markup InText page =
         page_markup (length (g_Runs grid)) (map (\<lambda>t. gm_lookup (g_DocLinks grid) t \<noteq> None) (g_Tests grid))
     \<and> shown page = visible (page_texts grid)"
proof -
  from assms obtain grid where g: "buildGrid env dir = Inr grid"
    by (cases "buildGrid env dir") (simp_all add: aggregate_def, fastforce)
  with assms(1) obtain out where m: "printMarkdownGrid grid = Some out" "g_Tests grid \<noteq> []"
    using assms(2) by (cases "printMarkdownGrid grid") (fastforce simp: aggregate_def split: if_splits)+
  with g assms have r: "ro_code r = 0" "ro_stdout r = out" "path = path_join dir ''grid.html''"
    "snd (writeHTMLGrid creates grid (path_join dir ''grid.html'')) = Some page"
    by (auto simp: aggregate_def Let_def)
  from r(4) have "fst (html_page grid) = page"
    by (auto simp: writeHTMLGrid_def split: sum.splits prod.splits)
  with page_after_table [of grid] m(1) have "html_page grid = (page, True)" by (cases "html_page grid") auto
  from reads_page [OF this] g m r show ?thesis
    by (intro exI [of _ grid]) (simp add: reads_def shown_def visible_def)
qed

end
