(* ===== verification/Metrics.thy ===== *)
theory Metrics
  imports World
begin

text \<open>
  \<open>pkg/framework/metrics.go\<close>: querying Thanos, rendering the answer in the Prometheus text format,
  and reading a metric from such a text.  HTTP, the cluster calls and the JSON decoders are the
  fields of \<open>metrics_api\<close>.  \<open>strconv.ParseFloat\<close> is a parameter too: the number it gives is
  returned and not computed with.
\<close>

section \<open>Reading a metric\<close>

definition splitMetricLine :: "string \<Rightarrow> (string \<times> string) option" where
  "splitMetricLine line =
     (case Index line ''}'' of
        Some idx \<Rightarrow>
          let rest = TrimSpace (drop (idx + 1) line); parts = Fields rest in
          if length parts = 0 then None else Some (take (idx + 1) line, parts ! 0)
      | None \<Rightarrow>
          let parts = Fields line in
          if length parts < 2 then None else Some (parts ! 0, parts ! 1))"

definition splitNameAndLabels :: "string \<Rightarrow> string \<times> string" where
  "splitNameAndLabels name =
     (case Index name ''{'' of
        Some idx \<Rightarrow> (take idx name, TrimSuffix (drop (idx + 1) name) ''}'')
      | None \<Rightarrow> (name, ''''))"

definition add_pair :: "string \<Rightarrow> string gomap \<Rightarrow> string gomap" where
  "add_pair pair result =
     (let pair = TrimSpace pair in
      case Index pair ''='' of
        None \<Rightarrow> result
      | Some eqIdx \<Rightarrow>
          gm_put (take eqIdx pair) (TrimChar (drop (eqIdx + 1) pair) (CHR 0x22)) result)"

definition parseLabelBlock :: "string \<Rightarrow> string gomap" where
  "parseLabelBlock block =
     (if block = '''' then [] else fold add_pair (Split block (CHR '','')) [])"

definition labelsMatch :: "string \<Rightarrow> string gomap \<Rightarrow> bool" where
  "labelsMatch labelBlock required =
     (let parsed = parseLabelBlock labelBlock in list_all (\<lambda>(k, v). gm_get parsed k = v) required)"

text \<open>The loop over the lines; a nil label map is \<open>None\<close>.\<close>

fun parse_lines ::
  "(string \<Rightarrow> 'f res) \<Rightarrow> string \<Rightarrow> string gomap option \<Rightarrow> string list \<Rightarrow> 'f res" where
  "parse_lines parseFloat metricName labels [] = Inl (Errorf ''metric %q not found'' [AStr metricName])"
| "parse_lines parseFloat metricName labels (line # lines) =
     (let line = TrimSpace line in
      if line = '''' \<or> HasPrefix line ''#'' then parse_lines parseFloat metricName labels lines
      else
        case splitMetricLine line of
          None \<Rightarrow> parse_lines parseFloat metricName labels lines
        | Some (name, value) \<Rightarrow>
            (case splitNameAndLabels name of (bareName, labelBlock) \<Rightarrow>
               if bareName \<noteq> metricName then parse_lines parseFloat metricName labels lines
               else if (case labels of None \<Rightarrow> False | Some required \<Rightarrow> \<not> labelsMatch labelBlock required)
               then parse_lines parseFloat metricName labels lines
               else
                 (case parseFloat value of
                    Inl err \<Rightarrow> Inl (Wrapf ''parse value %q for metric %s: %w'' [AStr value, AStr metricName] err)
                  | Inr v \<Rightarrow> Inr v)))"

definition ParseMetricValue ::
  "(string \<Rightarrow> 'f res) \<Rightarrow> string \<Rightarrow> string \<Rightarrow> string gomap option \<Rightarrow> 'f res" where
  "ParseMetricValue parseFloat metricsText metricName labels =
     parse_lines parseFloat metricName labels (Split metricsText (CHR 0x0A))"

section \<open>Rendering a vector\<close>

text \<open>
  One element of a query result: the labels, in the order in which a range over the map visits
  them, and the two elements of the value.
\<close>

record vector_sample =
  vs_Metric :: "string gomap"
  vs_Value :: "any \<times> any"

definition render_label :: "string \<times> string \<Rightarrow> string" where
  "render_label kv = fst kv @ ''='' @ [CHR 0x22] @ snd kv @ [CHR 0x22]"

definition render_value :: "vector_sample \<Rightarrow> string" where
  "render_value r = (case snd (vs_Value r) of AnyString s \<Rightarrow> s | AnyValue _ \<Rightarrow> ''0'')"

definition render_sample :: "vector_sample \<Rightarrow> string" where
  "render_sample r =
     (let name = gm_get (vs_Metric r) ''__name__'';
          metric = filter (\<lambda>(k, v). k \<noteq> ''__name__'') (vs_Metric r);
          labels = map render_label metric;
          val = render_value r
      in if length labels > 0
         then name @ ''{'' @ Join labels '','' @ ''} '' @ val @ [CHR 0x0A]
         else name @ '' '' @ val @ [CHR 0x0A])"

definition vectorToText :: "('d \<Rightarrow> vector_sample list res) \<Rightarrow> 'd \<Rightarrow> string res" where
  "vectorToText decode data =
     (case decode data of
        Inl err \<Rightarrow> Inl (Wrapf ''decode vector: %w'' [] err)
      | Inr result \<Rightarrow> Inr (concat (map render_sample result)))"

section \<open>Querying\<close>

text \<open>The dynamic values of an unstructured object.\<close>

datatype json = JString string | JMap "(string \<times> json) list" | JOther

fun unstructuredString :: "(string \<times> json) list \<Rightarrow> string list \<Rightarrow> (string \<times> bool) res" where
  "unstructuredString cur [] = Inr ('''', False)"
| "unstructuredString cur (f # fs) =
     (case gm_lookup cur f of
        None \<Rightarrow> Inr ('''', False)
      | Some v \<Rightarrow>
          if fs = [] then
            (case v of JString s \<Rightarrow> Inr (s, True) | _ \<Rightarrow> Inr ('''', False))
          else
            (case v of
               JMap next \<Rightarrow> unstructuredString next fs
             | _ \<Rightarrow> Inl (Errorf ''field %q is not a map'' [AStr f])))"

record ('c, 'd) metrics_api =
  in_cluster_config :: "'c res"
  load_rest_config :: "'c res"
  dynamic_client :: "'c \<Rightarrow> 'd res"
  get_route :: "'d \<Rightarrow> string \<Rightarrow> string \<Rightarrow> (string \<times> json) list res"
  create_token :: "string \<Rightarrow> string \<Rightarrow> int \<Rightarrow> string res"
  new_request :: "string \<Rightarrow> string \<Rightarrow> unit res"
  http_do :: "string \<Rightarrow> string \<Rightarrow> string \<Rightarrow> (int \<times> string res) res"
  decode_response :: "string \<Rightarrow> (string \<times> string) res"
  decode_vector :: "string \<Rightarrow> vector_sample list res"

definition thanosQuerierHost :: "('c, 'd) metrics_api \<Rightarrow> 'c \<Rightarrow> string res" where
  "thanosQuerierHost api cfg =
     (case dynamic_client api cfg of
        Inl err \<Rightarrow> Inl (Wrapf ''dynamic client: %w'' [] err)
      | Inr dyn \<Rightarrow>
          (case get_route api dyn ''openshift-monitoring'' ''thanos-querier'' of
             Inl err \<Rightarrow> Inl (Wrapf ''get thanos-querier route: %w'' [] err)
           | Inr obj \<Rightarrow>
               (case unstructuredString obj [''spec'', ''host''] of
                  Inl err \<Rightarrow> Inl (Errorf ''thanos-querier route has no spec.host'' [])
                | Inr (host, found) \<Rightarrow>
                    if \<not> found \<or> host = ''''
                    then Inl (Errorf ''thanos-querier route has no spec.host'' [])
                    else Inr host)))"

definition prometheusToken :: "('c, 'd) metrics_api \<Rightarrow> string res" where
  "prometheusToken api =
     (case create_token api ''openshift-monitoring'' ''prometheus-k8s'' 600 of
        Inl err \<Rightarrow> Inl (Wrapf ''create prometheus-k8s token: %w'' [] err)
      | Inr token \<Rightarrow> Inr token)"

definition jobNameFromLabelSelector :: "string \<Rightarrow> string" where
  "jobNameFromLabelSelector selector =
     (let parts = SplitN2 selector (CHR ''='');
          name = (if length parts = 2 then parts ! 1 else selector)
      in name @ ''-metrics'')"

text \<open>The arguments of \<open>http_do\<close> are the URL, the token and the query of the request.\<close>

definition queryThanos :: "('c, 'd) metrics_api \<Rightarrow> string \<Rightarrow> string \<Rightarrow> string \<Rightarrow> string res" where
  "queryThanos api host token query =
     (let u = ''https://'' @ host @ ''/api/v1/query'' in
      case new_request api u query of
        Inl err \<Rightarrow> Inl err
      | Inr _ \<Rightarrow>
          (case http_do api u token query of
             Inl err \<Rightarrow> Inl (Wrapf ''thanos query: %w'' [] err)
           | Inr (statusCode, read) \<Rightarrow>
               (case read of
                  Inl err \<Rightarrow> Inl (Wrapf ''read thanos response: %w'' [] err)
                | Inr body \<Rightarrow>
                    if statusCode \<noteq> 200
                    then Inl (Errorf ''thanos returned %d: %s'' [AInt statusCode, AStr body])
                    else
                      (case decode_response api body of
                         Inl err \<Rightarrow> Inl (Wrapf ''decode thanos response: %w'' [] err)
                       | Inr (status, data) \<Rightarrow>
                           if status \<noteq> ''success''
                           then Inl (Errorf ''thanos query status: %s'' [AStr status])
                           else Inr data))))"

text \<open>\<open>QueryPromQL\<close> and \<open>ScrapeOperatorMetrics\<close> differ in the query and in the text \<open>what\<close> of their errors.\<close>

definition query_text ::
  "('c, 'd) metrics_api \<Rightarrow> string \<Rightarrow> string \<Rightarrow> string res" where
  "query_text api what query =
     (case (case in_cluster_config api of Inr cfg \<Rightarrow> Inr cfg | Inl _ \<Rightarrow> load_rest_config api) of
        Inl err \<Rightarrow> Inl (Wrapf (what @ '': build rest config: %w'') [] err)
      | Inr cfg \<Rightarrow>
          (case thanosQuerierHost api cfg of
             Inl err \<Rightarrow> Inl (Wrapf (what @ '': %w'') [] err)
           | Inr thanosHost \<Rightarrow>
               (case prometheusToken api of
                  Inl err \<Rightarrow> Inl (Wrapf (what @ '': %w'') [] err)
                | Inr token \<Rightarrow>
                    (case queryThanos api thanosHost token query of
                       Inl err \<Rightarrow> Inl (Wrapf (what @ '': %w'') [] err)
                     | Inr raw \<Rightarrow>
                         (case vectorToText (decode_vector api) raw of
                            Inl err \<Rightarrow> Inl (Wrapf (what @ '': %w'') [] err)
                          | Inr text \<Rightarrow> Inr text)))))"

definition QueryPromQL :: "('c, 'd) metrics_api \<Rightarrow> string \<Rightarrow> string res" where
  "QueryPromQL api query = query_text api ''query promql'' query"

definition ScrapeOperatorMetrics :: "('c, 'd) metrics_api \<Rightarrow> string \<Rightarrow> string res" where
  "ScrapeOperatorMetrics api labelSelector =
     (let job = jobNameFromLabelSelector labelSelector;
          query = ''{job='' @ [CHR 0x22] @ job @ [CHR 0x22] @ ''}''
      in query_text api ''scrape metrics'' query)"

section \<open>Clean samples\<close>

text \<open>
  A token consists of graphic ASCII characters.  A clean sample has a name and label keys that are
  tokens without the characters of the format, label values without a comma, a quote, a closing
  brace or a newline, and a number for its value.
\<close>

definition graphic :: "char \<Rightarrow> bool" where
  "graphic c \<longleftrightarrow> (let n = (of_char c :: nat) in 33 \<le> n \<and> n \<le> 126)"

definition bare :: "string \<Rightarrow> bool" where
  "bare s \<longleftrightarrow> s \<noteq> '''' \<and> list_all (\<lambda>c. graphic c \<and> c \<notin> set ''{},=#'' \<and> c \<noteq> CHR 0x22) s"

definition clean_value :: "string \<Rightarrow> bool" where
  "clean_value s \<longleftrightarrow> list_all (\<lambda>c. c \<notin> {CHR '','', CHR ''}'', CHR 0x22, CHR 0x0A}) s"

definition sample_labels :: "vector_sample \<Rightarrow> string gomap" where
  "sample_labels r = filter (\<lambda>(k, v). k \<noteq> ''__name__'') (vs_Metric r)"

definition sample_name :: "vector_sample \<Rightarrow> string" where
  "sample_name r = gm_get (vs_Metric r) ''__name__''"

definition clean_sample :: "vector_sample \<Rightarrow> bool" where
  "clean_sample r \<longleftrightarrow> gm_ok (vs_Metric r) \<and> bare (sample_name r) \<and> bare (render_value r) \<and>
     (\<forall>(k, v) \<in> set (sample_labels r). bare k \<and> clean_value v)"

section \<open>Clean text goes through\<close>

lemma graphic_edges:
  assumes "s \<noteq> ''''" "graphic (hd s)" "graphic (last s)"
  shows "TrimSpace s = s"
proof (rule TrimSpace_plain_edges)
  have "list_all (\<lambda>w. \<not> graphic (hd w)) ws_seqs" by code_simp
  then show "plain_char (hd s)" using assms(2) by (auto simp: plain_char_def list_all_iff)
  have rev: "list_all (\<lambda>w. w \<noteq> [] \<and> \<not> graphic (hd w)) (map rev ws_seqs)" by code_simp
  have hd: "hd (rev s) = last s" by (simp add: hd_rev)
  { fix w t assume w: "w \<in> set (map rev ws_seqs)" "w \<noteq> []" "rev s = w @ t"
    then have "graphic (hd w)" using hd assms(3) by (metis hd_append2)
    with w(1) rev have False by (auto simp: list_all_iff) }
  then show "ws_prefix (map rev ws_seqs) (rev s) = None"
    unfolding ws_prefix_None HasPrefix_iff by blast
qed (rule assms(1))

lemma graphic_plain: "graphic c \<Longrightarrow> plain_char c"
proof -
  have "list_all (\<lambda>w. \<not> graphic (hd w)) ws_seqs" by code_simp
  then show "graphic c \<Longrightarrow> plain_char c" by (auto simp: plain_char_def list_all_iff)
qed

lemma bare_facts:
  assumes "bare s"
  shows "s \<noteq> ''''" "plain s" "graphic (hd s)" "graphic (last s)" "c \<in> set ''{},=#'' \<Longrightarrow> c \<notin> set s"
    "CHR 0x22 \<notin> set s" "CHR 0x0A \<notin> set s" "CHR '' '' \<notin> set s"
proof -
  have g: "\<forall>c \<in> set s. graphic c \<and> c \<notin> set ''{},=#'' \<and> c \<noteq> CHR 0x22" "s \<noteq> ''''"
    using assms unfolding bare_def list_all_iff by blast+
  then show "s \<noteq> ''''" "graphic (hd s)" "graphic (last s)" "CHR 0x22 \<notin> set s" by auto
  show "plain s" using g graphic_plain by (auto simp: plain_def)
  show "c \<in> set ''{},=#'' \<Longrightarrow> c \<notin> set s" using g by blast
  have "\<not> graphic (CHR 0x0A)" "\<not> graphic (CHR '' '')" by code_simp+
  then show "CHR 0x0A \<notin> set s" "CHR '' '' \<notin> set s" using g by blast+
qed

lemma TrimSpace_bare: "bare s \<Longrightarrow> TrimSpace s = s"
  by (simp add: graphic_edges bare_facts)

lemma TrimSpace_space: "bare s \<Longrightarrow> TrimSpace (CHR '' '' # s) = s"
proof -
  assume s: "bare s"
  have "strip_with ws_seqs (CHR '' '' # s) = strip_with ws_seqs s"
    by (subst strip_with.simps) (simp add: ws_prefix_space)
  then have "TrimSpace (CHR '' '' # s) = TrimSpace s" by (simp add: TrimSpace_def)
  with s show ?thesis by (simp add: TrimSpace_bare)
qed

lemma TrimChar_quoted:
  assumes "CHR 0x22 \<notin> set v"
  shows "TrimChar (CHR 0x22 # v @ [CHR 0x22]) (CHR 0x22) = v"
proof -
  have *: "dropWhile (\<lambda>x. x = CHR 0x22) (u @ [CHR 0x22]) = (if u = [] then [] else u @ [CHR 0x22])"
    if "CHR 0x22 \<notin> set u" for u :: string
    using that by (cases u) auto
  have "dropWhile (\<lambda>x. x = CHR 0x22) w = w" if "CHR 0x22 \<notin> set w" for w :: string
    using that by (cases w) auto
  from this [of "rev v"] assms show ?thesis by (simp add: TrimChar_def *)
qed

section \<open>Labels\<close>

lemma render_label_trim: "bare k \<Longrightarrow> TrimSpace (render_label (k, v)) = render_label (k, v)"
proof (rule graphic_edges)
  show "bare k \<Longrightarrow> graphic (hd (render_label (k, v)))"
    by (simp add: render_label_def bare_facts hd_append)
  have "graphic (CHR 0x22)" by code_simp
  then show "graphic (last (render_label (k, v)))" by (simp add: render_label_def)
qed (simp add: render_label_def)

lemma add_pair_render:
  assumes "bare k" "clean_value v"
  shows "add_pair (render_label (k, v)) acc = gm_put k v acc"
proof -
  have v: "CHR 0x22 \<notin> set v" using assms(2) by (auto simp: clean_value_def list_all_iff)
  have "CHR ''='' \<notin> set k" using assms(1) by (intro bare_facts(5)) simp_all
  then have "Index (render_label (k, v)) ''='' = Some (length k)"
    using Index_char_append [of "CHR ''=''" k] by (simp add: render_label_def)
  then show ?thesis
    using TrimChar_quoted [OF v] by (simp add: add_pair_def render_label_trim assms(1)) (simp add: render_label_def)
qed

lemma fold_add_pair:
  "\<forall>(k, v) \<in> set kvs. bare k \<and> clean_value v \<Longrightarrow>
     fold add_pair (map render_label kvs) acc = fold (\<lambda>(k, v) out. gm_put k v out) kvs acc"
  by (induction kvs arbitrary: acc) (auto simp: add_pair_render)

lemma render_label_chars:
  assumes "bare k" "clean_value v"
  shows "CHR '','' \<notin> set (render_label (k, v))" "CHR ''}'' \<notin> set (render_label (k, v))"
    "CHR 0x0A \<notin> set (render_label (k, v))"
  using assms bare_facts(5) [OF assms(1), of "CHR '',''"] bare_facts(5) [OF assms(1), of "CHR ''}''"]
    bare_facts(7) [OF assms(1)]
  by (auto simp: render_label_def clean_value_def list_all_iff)

lemma parse_render_labels:
  assumes ok: "gm_ok kvs" and clean: "\<forall>(k, v) \<in> set kvs. bare k \<and> clean_value v"
  shows "parseLabelBlock (Join (map render_label kvs) '','') = kvs"
proof (cases "kvs = []")
  case True
  then show ?thesis by (simp add: parseLabelBlock_def)
next
  case False
  have "\<forall>p \<in> set (map render_label kvs). CHR '','' \<notin> set p"
    using clean render_label_chars(1) by auto
  then have split: "Split (Join (map render_label kvs) '','') (CHR '','') = map render_label kvs"
    using False by (intro Split_Join) auto
  have "Join (map render_label kvs) '','' \<noteq> ''''"
  proof
    assume "Join (map render_label kvs) '','' = ''''"
    with split have "map render_label kvs = [[]]" by simp
    then show False by (auto simp: render_label_def)
  qed
  then show ?thesis
    using fold_add_pair [OF clean, of "[]"] gm_copy_id [OF ok] split
    by (simp add: parseLabelBlock_def gm_copy_def)
qed

section \<open>Lines\<close>

definition sample_line :: "vector_sample \<Rightarrow> string" where
  "sample_line r =
     (if sample_labels r \<noteq> []
      then sample_name r @ ''{'' @ Join (map render_label (sample_labels r)) '','' @ ''} '' @ render_value r
      else sample_name r @ '' '' @ render_value r)"

lemma render_sample_line: "render_sample r = sample_line r @ [CHR 0x0A]"
  by (simp add: render_sample_def sample_line_def sample_labels_def sample_name_def Let_def)

lemma Join_chars: "x \<in> set (Join ps sep) \<Longrightarrow> x \<in> set sep \<or> (\<exists>p \<in> set ps. x \<in> set p)"
  by (induction ps sep rule: Join.induct) auto

lemma clean_labels_chars:
  assumes "clean_sample r" "c = CHR ''}'' \<or> c = CHR 0x0A"
  shows "c \<notin> set (Join (map render_label (sample_labels r)) '','')"
proof
  assume "c \<in> set (Join (map render_label (sample_labels r)) '','')"
  then have "c \<in> set '','' \<or> (\<exists>p \<in> set (map render_label (sample_labels r)). c \<in> set p)" by (rule Join_chars)
  then obtain k v where "(k, v) \<in> set (sample_labels r)" "c \<in> set (render_label (k, v))"
    using assms(2) by auto
  with assms render_label_chars show False by (fastforce simp: clean_sample_def)
qed

lemma sample_line_newline:
  assumes "clean_sample r"
  shows "CHR 0x0A \<notin> set (sample_line r)"
  using assms clean_labels_chars [OF assms] bare_facts(7) [of "sample_name r"] bare_facts(7) [of "render_value r"]
  by (auto simp: sample_line_def clean_sample_def)

lemma sample_line_trim:
  assumes "clean_sample r"
  shows "TrimSpace (sample_line r) = sample_line r" "sample_line r \<noteq> ''''" "\<not> HasPrefix (sample_line r) ''#''"
proof -
  have n: "bare (sample_name r)" and v: "bare (render_value r)" using assms by (simp_all add: clean_sample_def)
  have hd: "hd (sample_line r) = hd (sample_name r)" using bare_facts(1) [OF n]
    by (simp add: sample_line_def hd_append)
  have last: "last (sample_line r) = last (render_value r)" using bare_facts(1) [OF v]
    by (simp add: sample_line_def)
  show ne: "sample_line r \<noteq> ''''" by (simp add: sample_line_def)
  show "TrimSpace (sample_line r) = sample_line r"
    by (rule graphic_edges) (simp_all add: ne hd last bare_facts [OF n] bare_facts [OF v])
  have "CHR ''#'' \<notin> set (sample_name r)" by (rule bare_facts(5) [OF n]) simp
  then have "hd (sample_line r) \<noteq> CHR ''#''" using hd bare_facts(1) [OF n] by (metis hd_in_set)
  then show "\<not> HasPrefix (sample_line r) ''#''" by (auto simp: HasPrefix_iff)
qed

lemma split_sample_line:
  assumes "clean_sample r"
  shows "\<exists>name block. splitMetricLine (sample_line r) = Some (name, render_value r) \<and>
    splitNameAndLabels name = (sample_name r, block) \<and> parseLabelBlock block = sample_labels r"
proof -
  have n: "bare (sample_name r)" and v: "bare (render_value r)" using assms by (simp_all add: clean_sample_def)
  have ok: "gm_ok (sample_labels r)" using assms
    by (simp add: clean_sample_def sample_labels_def gm_ok_def distinct_map_filter)
  have clean: "\<forall>(k, v) \<in> set (sample_labels r). bare k \<and> clean_value v" using assms by (simp add: clean_sample_def)
  have br: "CHR ''{'' \<notin> set (sample_name r)" "CHR ''}'' \<notin> set (sample_name r)" "CHR ''}'' \<notin> set (render_value r)"
    by (simp_all add: bare_facts(5) [OF n] bare_facts(5) [OF v])
  let ?J = "Join (map render_label (sample_labels r)) '',''"
  let ?pre = "sample_name r @ ''{'' @ ?J"
  show ?thesis
  proof (cases "sample_labels r = []")
    case True
    have "Index (sample_line r) ''}'' = None"
      unfolding Index_char_None using True br by (simp add: sample_line_def)
    then have "splitMetricLine (sample_line r) = Some (sample_name r, render_value r)"
      using Fields_two [of "sample_name r" "render_value r"] True bare_facts [OF n] bare_facts [OF v]
      by (simp add: splitMetricLine_def sample_line_def)
    moreover have "splitNameAndLabels (sample_name r) = (sample_name r, '''')"
      using br(1) by (simp add: splitNameAndLabels_def Index_char_None [THEN iffD2])
    ultimately show ?thesis using True by (auto simp: parseLabelBlock_def)
  next
    case False
    have line: "sample_line r = ?pre @ CHR ''}'' # CHR '' '' # render_value r"
      using False by (simp add: sample_line_def)
    have "CHR ''}'' \<notin> set ?pre" using br clean_labels_chars [OF assms] by simp
    then have "Index (sample_line r) ''}'' = Some (length ?pre)"
      unfolding line by (rule Index_char_append)
    then have "splitMetricLine (sample_line r) = Some (?pre @ ''}'', render_value r)"
      using TrimSpace_space [OF v] Fields_single [of "render_value r"] bare_facts [OF v]
      by (simp add: splitMetricLine_def line)
    moreover have "Index (?pre @ ''}'') ''{'' = Some (length (sample_name r))"
      using Index_char_append [OF br(1)] by simp
    then have "splitNameAndLabels (?pre @ ''}'') = (sample_name r, ?J)"
      using TrimSuffix_append [of ?J "''}''"] by (simp add: splitNameAndLabels_def)
    ultimately show ?thesis using parse_render_labels [OF ok clean] by blast
  qed
qed

text \<open>The sample a caller asks for: it has the name, and every required pair is among its labels.\<close>

definition wanted :: "string \<Rightarrow> string gomap option \<Rightarrow> vector_sample \<Rightarrow> bool" where
  "wanted metricName labels r \<longleftrightarrow> sample_name r = metricName \<and>
     (case labels of None \<Rightarrow> True
      | Some required \<Rightarrow> list_all (\<lambda>(k, v). gm_lookup (sample_labels r) k = Some v) required)"

text \<open>No required value is empty; the code takes an absent label for one with an empty value.\<close>

definition asks_for_values :: "string gomap option \<Rightarrow> bool" where
  "asks_for_values labels \<longleftrightarrow>
     (case labels of None \<Rightarrow> True | Some required \<Rightarrow> list_all (\<lambda>(k, v). v \<noteq> '''') required)"

lemma gm_get_iff: "v \<noteq> '''' \<Longrightarrow> gm_get m k = v \<longleftrightarrow> gm_lookup m k = Some v"
  by (auto simp: gm_get_def split: option.splits)

lemma labelsMatch_iff:
  assumes "asks_for_values (Some required)"
  shows "labelsMatch block required \<longleftrightarrow>
    list_all (\<lambda>(k, v). gm_lookup (parseLabelBlock block) k = Some v) required"
  using assms unfolding labelsMatch_def asks_for_values_def Let_def
  by (induction required) (auto simp flip: gm_get_iff)

lemma parse_sample_line:
  assumes "clean_sample r" "asks_for_values labels"
  shows "parse_lines pf n labels (sample_line r # lines) =
    (if wanted n labels r then
       (case pf (render_value r) of
          Inl err \<Rightarrow> Inl (Wrapf ''parse value %q for metric %s: %w'' [AStr (render_value r), AStr n] err)
        | Inr v \<Rightarrow> Inr v)
     else parse_lines pf n labels lines)"
proof -
  obtain name block where s: "splitMetricLine (sample_line r) = Some (name, render_value r)"
    "splitNameAndLabels name = (sample_name r, block)" "parseLabelBlock block = sample_labels r"
    using split_sample_line [OF assms(1)] by blast
  then show ?thesis
    using sample_line_trim [OF assms(1)] assms(2)
    by (cases labels) (auto simp: wanted_def labelsMatch_iff)
qed

lemma parse_sample_lines:
  "\<forall>r \<in> set rs. clean_sample r \<Longrightarrow> asks_for_values labels \<Longrightarrow> parse_lines pf n labels (map sample_line rs @ [[]]) =
     (case find_first (wanted n labels) rs of
        None \<Rightarrow> Inl (Errorf ''metric %q not found'' [AStr n])
      | Some r \<Rightarrow>
          (case pf (render_value r) of
             Inl err \<Rightarrow> Inl (Wrapf ''parse value %q for metric %s: %w'' [AStr (render_value r), AStr n] err)
           | Inr v \<Rightarrow> Inr v))"
  by (induction rs) (simp_all add: parse_sample_line del: parse_lines.simps(2), simp)

lemma split_text:
  "\<forall>r \<in> set rs. clean_sample r \<Longrightarrow>
     Split (concat (map render_sample rs)) (CHR 0x0A) = map sample_line rs @ [[]]"
  by (induction rs) (simp_all add: render_sample_line Split_sep sample_line_newline)

text \<open>C31: What \<open>vectorToText\<close> writes, \<open>ParseMetricValue\<close> reads: on the text of a query result whose
  samples are clean, asked for labels with values that are not empty, it finds the value of the first sample with the name
  and with every pair asked for among its labels, reports a number it cannot parse, and says that the metric is not found
  exactly when no sample of the result has the name and all the pairs.\<close>

theorem metric_text_roundtrip:
  assumes "decode data = Inr rs" and "\<forall>r \<in> set rs. clean_sample r" and "asks_for_values labels"
  shows "\<exists>text. vectorToText decode data = Inr text \<and>
    ParseMetricValue pf text metricName labels =
      (case find_first (wanted metricName labels) rs of
         None \<Rightarrow> Inl (Errorf ''metric %q not found'' [AStr metricName])
       | Some r \<Rightarrow>
           (case pf (render_value r) of
              Inl err \<Rightarrow> Inl (Wrapf ''parse value %q for metric %s: %w''
                [AStr (render_value r), AStr metricName] err)
            | Inr v \<Rightarrow> Inr v))"
  using parse_sample_lines [OF assms(2,3)] split_text [OF assms(2)] assms(1)
  by (simp add: vectorToText_def ParseMetricValue_def)

section \<open>Where the text format breaks\<close>

text \<open>
  Outside the clean samples the round trip fails: a comma in a label value cuts the value, and a
  label that is asked for with an empty value counts as present when it is absent.
\<close>

lemma comma_label_lost:
  "let sample = \<lparr>vs_Metric = [(''__name__'', ''m''), (''k'', ''a,b'')], vs_Value = (AnyValue ''1'', AnyString ''5'')\<rparr> in
   ParseMetricValue Inr (render_sample sample) ''m'' (Some [(''k'', ''a,b'')]) =
     Inl (Errorf ''metric %q not found'' [AStr ''m''])"
  by code_simp

lemma empty_label_matches_absent: "labelsMatch '''' [(k, '''')]"
  by (simp add: labelsMatch_def parseLabelBlock_def gm_get_def)

end
