(* ===== verification/PerfCompare.thy ===== *)
theory PerfCompare
  imports MachineTiming Float64
begin

text \<open>
  The computations of \<open>cmd/perf-compare/main.go\<close>: latency statistics of a benchmark result and
  the rendering of durations.  The program declares its own copies of the result structs; they have
  the fields of those of \<open>pkg/framework/machine.go\<close>, whose records are used here.  Durations are
  in nanoseconds.  The comparison table itself is in \<open>PerfReport\<close>.
\<close>

section \<open>Percentiles\<close>

text \<open>
  The index of a percentile is computed in \<open>float64\<close>: the length is converted, multiplied by the
  fraction, and the product is cut off to an integer.  The fractions are the constants 0.50, 0.90 and
  0.99 as \<open>float64\<close> numbers; the product is not negative.
\<close>

definition p50 :: rat where "p50 = fl (1 / 2)"
definition p90 :: rat where "p90 = fl (9 / 10)"
definition p99 :: rat where "p99 = fl (99 / 100)"

definition percentile_index :: "nat \<Rightarrow> rat \<Rightarrow> nat" where
  "percentile_index len p = nat \<lfloor>fl (fl (of_nat (len - 1)) * p)\<rfloor>"

definition percentile :: "int list \<Rightarrow> rat \<Rightarrow> int" where
  "percentile durations p =
     (let sorted = sort durations in sorted ! percentile_index (length sorted) p)"

section \<open>Statistics\<close>

record newMLStats =
  nm_backgroundMachines :: int
  nm_newMachineCount :: int
  nm_pendingToProvisionP50 :: int
  nm_provisionToReadyP50 :: int
  nm_provisionedToRunningP50 :: int
  nm_totalP50 :: int

record stats =
  st_totalTime :: int
  st_throughput :: rat
  st_machineCount :: nat
  st_totalP50 :: int
  st_totalP90 :: int
  st_totalP99 :: int
  st_pendingToProvisionP50 :: int
  st_provisionToReadyP50 :: int
  st_provisionedToRunningP50 :: int
  st_steadyState :: "SteadyStateResult option"
  st_newML :: "newMLStats option"

text \<open>The four lists of durations the loop over the machines collects.\<close>

record latencies =
  lt_totals :: "int list"
  lt_pendingToProvisioning :: "int list"
  lt_provisioningToProvisioned :: "int list"
  lt_provisionedToRunning :: "int list"

definition add_latency :: "MachineTimingRecord \<Rightarrow> latencies \<Rightarrow> latencies" where
  "add_latency m l =
     (if IsZero (tr_Running m) then l
      else
        let l = l\<lparr>lt_totals := lt_totals l @ [Sub (tr_Running m) (tr_Created m)]\<rparr>;
            l = (if \<not> IsZero (tr_Provisioning m)
                 then l\<lparr>lt_pendingToProvisioning :=
                          lt_pendingToProvisioning l @ [Sub (tr_Provisioning m) (tr_Created m)]\<rparr>
                 else l);
            l = (if \<not> IsZero (tr_Provisioning m) \<and> \<not> IsZero (tr_Provisioned m)
                 then l\<lparr>lt_provisioningToProvisioned :=
                          lt_provisioningToProvisioned l @ [Sub (tr_Provisioned m) (tr_Provisioning m)]\<rparr>
                 else l)
        in if \<not> IsZero (tr_Provisioned m)
           then l\<lparr>lt_provisionedToRunning :=
                    lt_provisionedToRunning l @ [Sub (tr_Running m) (tr_Provisioned m)]\<rparr>
           else l)"

definition latencies_of :: "MachineTimingRecord list \<Rightarrow> latencies" where
  "latencies_of ms =
     fold add_latency ms
       \<lparr>lt_totals = [], lt_pendingToProvisioning = [], lt_provisioningToProvisioned = [],
        lt_provisionedToRunning = []\<rparr>"

text \<open>A percentile that stays zero when there is nothing to compute it from.\<close>

definition percentile_or_zero :: "int list \<Rightarrow> rat \<Rightarrow> int" where
  "percentile_or_zero ds p = (if length ds > 0 then percentile ds p else 0)"

definition computeNewMLStats :: "NewMachineLatencyResult \<Rightarrow> newMLStats option" where
  "computeNewMLStats nml =
     (let l = latencies_of (nl_Machines nml) in
      if length (lt_totals l) = 0 then None
      else Some \<lparr>nm_backgroundMachines = nl_BackgroundMachines nml,
             nm_newMachineCount = nl_NewMachineCount nml,
             nm_pendingToProvisionP50 = percentile_or_zero (lt_pendingToProvisioning l) p50,
             nm_provisionToReadyP50 = percentile_or_zero (lt_provisioningToProvisioned l) p50,
             nm_provisionedToRunningP50 = percentile_or_zero (lt_provisionedToRunning l) p50,
             nm_totalP50 = percentile (lt_totals l) p50\<rparr>)"

text \<open>\<open>Duration.Minutes\<close>, of a duration that is not negative.\<close>

definition Minutes :: "int \<Rightarrow> rat" where
  "Minutes d = fl (fl (of_int (d div Minute)) + fl (fl (of_int (d mod Minute)) / of_int Minute))"

definition computeStats :: "PerfBenchmarkResult \<Rightarrow> stats" where
  "computeStats r =
     (let l = latencies_of (pb_Machines r);
          totalTime = Sub (pb_AllRunningTime r) (pb_ScaleRequestTime r)
      in \<lparr>st_totalTime = totalTime,
          st_throughput = (if totalTime > 0
            then fl (fl (of_nat (length (lt_totals l))) / Minutes totalTime) else 0),
          st_machineCount = length (lt_totals l),
          st_totalP50 = percentile_or_zero (lt_totals l) p50,
          st_totalP90 = percentile_or_zero (lt_totals l) p90,
          st_totalP99 = percentile_or_zero (lt_totals l) p99,
          st_pendingToProvisionP50 = percentile_or_zero (lt_pendingToProvisioning l) p50,
          st_provisionToReadyP50 = percentile_or_zero (lt_provisioningToProvisioned l) p50,
          st_provisionedToRunningP50 = percentile_or_zero (lt_provisionedToRunning l) p50,
          st_steadyState = pb_SteadyState r,
          st_newML = (case pb_NewMachineLatency r of
            None \<Rightarrow> None | Some nml \<Rightarrow> computeNewMLStats nml)\<rparr>)"

section \<open>Percentiles are order statistics\<close>

lemma percentile_fractions:
  "0 \<le> p50" "p50 \<le> p90" "p90 \<le> p99" "p99 \<le> 1" "p50 \<le> 1" "p90 \<le> 1" "p50 = 1 / 2"
proof -
  show "0 \<le> p50" by (simp add: p50_def fl_nonneg)
  show le: "p50 \<le> p90" "p90 \<le> p99" by (simp_all add: p50_def p90_def p99_def fl_mono)
  have "fl (99 / 100) \<le> fl (of_int 1)" by (rule fl_mono) simp
  also have "\<dots> = 1" by (subst fl_of_int) simp_all
  finally show "p99 \<le> 1" by (simp add: p99_def)
  then show "p50 \<le> 1" "p90 \<le> 1" using le by linarith+
  show "p50 = 1 / 2" using fl_exact [of 1 "- 1"] by (simp add: p50_def pow2_def)
qed

lemma percentile_index_bound:
  assumes "0 < len" "len \<le> 2 ^ 53" "p \<le> 1"
  shows "percentile_index len p < len"
proof -
  have n: "fl (of_nat (len - 1)) = of_nat (len - 1)" using assms by (intro fl_of_nat) simp
  have "fl (of_nat (len - 1) * p) \<le> fl (of_nat (len - 1))"
    using assms(3) by (intro fl_mono) (simp add: mult_left_le)
  then have "\<lfloor>fl (of_nat (len - 1) * p)\<rfloor> \<le> int (len - 1)" unfolding n by (simp add: floor_le_iff)
  then have "nat \<lfloor>fl (of_nat (len - 1) * p)\<rfloor> \<le> len - 1" by linarith
  then show ?thesis using assms(1) unfolding percentile_index_def n by linarith
qed

lemma percentile_index_mono: "len \<le> 2 ^ 53 \<Longrightarrow> p \<le> q \<Longrightarrow> percentile_index len p \<le> percentile_index len q"
  by (auto simp: percentile_index_def intro!: nat_mono floor_mono fl_mono mult_left_mono)

lemma percentile_index_half:
  assumes "len \<le> 2 ^ 53"
  shows "percentile_index len p50 = (len - 1) div 2"
proof -
  have n: "fl (of_nat (len - 1)) = of_nat (len - 1)" using assms by (intro fl_of_nat) simp
  have "fl (of_nat (len - 1) * (1 / 2)) = of_nat (len - 1) * (1 / 2)"
    using fl_exact [of "int (len - 1)" "- 1"] assms by (simp add: pow2_def)
  then have "percentile_index len p50 = nat \<lfloor>(of_nat (len - 1) / 2 :: rat)\<rfloor>"
    by (simp only: percentile_index_def n percentile_fractions) simp
  also have "\<dots> = (len - 1) div 2" using floor_divide_of_nat_eq [of "len - 1" 2, where ?'a = rat] by simp
  finally show ?thesis .
qed

lemma sorted_rank:
  assumes "sorted xs" "i < length xs"
  shows "i < length (filter (\<lambda>x. x \<le> xs ! i) xs)" "length xs - i \<le> length (filter (\<lambda>x. xs ! i \<le> x) xs)"
proof -
  have "filter (\<lambda>x. x \<le> xs ! i) (take (Suc i) xs) = take (Suc i) xs"
    using assms by (auto simp: filter_id_conv in_set_conv_nth intro!: sorted_nth_mono)
  then have "Suc i \<le> length (filter (\<lambda>x. x \<le> xs ! i) (take (Suc i) xs))" using assms(2) by simp
  also have "\<dots> \<le> length (filter (\<lambda>x. x \<le> xs ! i) (take (Suc i) xs @ drop (Suc i) xs))"
    by (simp only: filter_append length_append)
  finally show "i < length (filter (\<lambda>x. x \<le> xs ! i) xs)" by simp
  have "filter (\<lambda>x. xs ! i \<le> x) (drop i xs) = drop i xs"
    using assms by (auto simp: filter_id_conv in_set_conv_nth intro!: sorted_nth_mono)
  then have "length xs - i \<le> length (filter (\<lambda>x. xs ! i \<le> x) (drop i xs))" by simp
  also have "\<dots> \<le> length (filter (\<lambda>x. xs ! i \<le> x) (take i xs @ drop i xs))"
    by (simp only: filter_append length_append)
  finally show "length xs - i \<le> length (filter (\<lambda>x. xs ! i \<le> x) xs)" by simp
qed

lemma filter_sort_length: "length (filter P (sort xs)) = length (filter P (xs :: int list))"
  by (metis mset_filter mset_sort size_mset)

lemma percentile_mem:
  assumes "xs \<noteq> []" "length xs \<le> 2 ^ 53" "p \<le> 1"
  shows "percentile xs p \<in> set xs"
  using percentile_index_bound [of "length xs" p] assms nth_mem [of "percentile_index (length xs) p" "sort xs"]
  by (simp add: percentile_def)

text \<open>C32: The percentile of a non-empty list never indexes out of bounds, for every fraction between zero and one:
  also after both roundings to \<open>float64\<close> the index is below the length.  The value is one of the
  durations, more durations than the index are at most it, and as many as remain are at least it.\<close>

theorem percentile_in_bounds:
  assumes "xs \<noteq> []" "length xs \<le> 2 ^ 53" "0 \<le> p" "p \<le> 1"
  shows "percentile_index (length xs) p < length xs \<and> percentile xs p \<in> set xs \<and>
    percentile_index (length xs) p < length (filter (\<lambda>x. x \<le> percentile xs p) xs) \<and>
    length xs - percentile_index (length xs) p \<le> length (filter (\<lambda>x. percentile xs p \<le> x) xs)"
proof -
  let ?i = "percentile_index (length xs) p"
  have i: "?i < length xs" using assms by (intro percentile_index_bound) simp_all
  have "percentile xs p = sort xs ! ?i" by (simp add: percentile_def)
  then show ?thesis
    using i sorted_rank [OF sorted_sort, of ?i xs] nth_mem [of ?i "sort xs"]
    by (simp add: filter_sort_length)
qed

text \<open>The median is the lower middle element, the three percentiles are in order, and none depends
  on the order in which the durations were collected.\<close>

theorem percentiles_ordered:
  assumes "xs \<noteq> []" "length xs \<le> 2 ^ 53"
  shows "percentile xs p50 = sort xs ! ((length xs - 1) div 2) \<and>
    percentile xs p50 \<le> percentile xs p90 \<and> percentile xs p90 \<le> percentile xs p99 \<and>
    (\<forall>ys. mset ys = mset xs \<longrightarrow> percentile ys p = percentile xs p)"
proof -
  note le = percentile_fractions(2,3,6,4)
  have b: "percentile_index (length xs) p90 < length (sort xs)" "percentile_index (length xs) p99 < length (sort xs)"
    using assms le(3,4) by (simp_all add: percentile_index_bound)
  have "percentile xs p50 \<le> percentile xs p90" "percentile xs p90 \<le> percentile xs p99"
    using b percentile_index_mono [OF assms(2) le(1)] percentile_index_mono [OF assms(2) le(2)]
    by (auto simp: percentile_def intro!: sorted_nth_mono)
  moreover have "percentile ys p = percentile xs p" if "mset ys = mset xs" for ys
  proof -
    have "sort ys = sort xs" by (rule properties_for_sort) (simp_all add: that)
    then show ?thesis by (simp add: percentile_def)
  qed
  moreover have "percentile xs p50 = sort xs ! ((length xs - 1) div 2)"
  proof -
    have "percentile_index (length xs) p50 = (length xs - 1) div 2"
      using assms by (intro percentile_index_half) simp_all
    then show ?thesis by (simp only: percentile_def Let_def length_sort)
  qed
  ultimately show ?thesis by blast
qed

section \<open>The statistics of a watch\<close>

lemma latencies_fold:
  "lt_totals (fold add_latency ms l) =
     lt_totals l @ map (\<lambda>m. Sub (tr_Running m) (tr_Created m)) (filter (\<lambda>m. tr_Running m \<noteq> 0) ms)"
  "lt_provisioningToProvisioned (fold add_latency ms l) =
     lt_provisioningToProvisioned l @ map (\<lambda>m. Sub (tr_Provisioned m) (tr_Provisioning m))
       (filter (\<lambda>m. tr_Running m \<noteq> 0 \<and> tr_Provisioning m \<noteq> 0 \<and> tr_Provisioned m \<noteq> 0) ms)"
  "lt_provisionedToRunning (fold add_latency ms l) =
     lt_provisionedToRunning l @ map (\<lambda>m. Sub (tr_Running m) (tr_Provisioned m))
       (filter (\<lambda>m. tr_Running m \<noteq> 0 \<and> tr_Provisioned m \<noteq> 0) ms)"
  by (induction ms arbitrary: l) (auto simp: add_latency_def IsZero_def Let_def)

lemma latencies_of_facts:
  "lt_totals (latencies_of ms) =
     map (\<lambda>m. Sub (tr_Running m) (tr_Created m)) (filter (\<lambda>m. tr_Running m \<noteq> 0) ms)"
  "lt_provisioningToProvisioned (latencies_of ms) = map (\<lambda>m. Sub (tr_Provisioned m) (tr_Provisioning m))
     (filter (\<lambda>m. tr_Running m \<noteq> 0 \<and> tr_Provisioning m \<noteq> 0 \<and> tr_Provisioned m \<noteq> 0) ms)"
  "lt_provisionedToRunning (latencies_of ms) = map (\<lambda>m. Sub (tr_Running m) (tr_Provisioned m))
     (filter (\<lambda>m. tr_Running m \<noteq> 0 \<and> tr_Provisioned m \<noteq> 0) ms)"
  by (simp_all add: latencies_of_def latencies_fold)

lemma percentile_or_zero_within:
  assumes "\<forall>x \<in> set xs. 0 \<le> x \<and> x \<le> T" "length xs \<le> 2 ^ 53" "p \<le> 1" "0 \<le> T"
  shows "0 \<le> percentile_or_zero xs p \<and> percentile_or_zero xs p \<le> T"
proof (cases "xs = []")
  case False
  then have "percentile xs p \<in> set xs" using percentile_mem assms(2,3) by blast
  then show ?thesis using assms(1) False by (auto simp: percentile_or_zero_def)
qed (simp add: percentile_or_zero_def assms)

lemma Sub_within: "u \<le> t \<Longrightarrow> t - u \<le> T \<Longrightarrow> 0 \<le> Sub t u \<and> Sub t u \<le> T"
  by (simp add: Sub_def)

text \<open>The statistics of a benchmark that the watch has measured to its end: they count at least the
  machines that were wanted, and the medians of the two phases it times itself are not negative and
  not longer than the watch.\<close>

theorem stats_of_watch:
  assumes ok: "poller_ok pollw" and ck: "clock_ok time env" and dis: "names_distinct env"
    and start: "0 < time (world s)"
    and run: "WatchMachinePhaseTimestamps env pollw msName target timeout s = ((result, None), s')"
    and len: "length (pb_Machines result) \<le> 2 ^ 53"
  shows "let st = computeStats (result\<lparr>pb_ScaleRequestTime := requested\<rparr>);
             T = max 0 (time (world s') - time (world s)) in
    target \<le> int (st_machineCount st) \<and>
    0 \<le> st_provisionToReadyP50 st \<and> st_provisionToReadyP50 st \<le> T \<and>
    0 \<le> st_provisionedToRunningP50 st \<and> st_provisionedToRunningP50 st \<le> T"
proof -
  let ?T = "max 0 (time (world s') - time (world s))" and ?ms = "pb_Machines result"
  note w = watch_benchmark [OF ok ck dis start run, unfolded benchmark_ok_def]
  have timed: "timed (time (world s)) (time (world s')) r" if "r \<in> set ?ms" for r using w that by blast
  have short: "length (filter P ?ms) \<le> 2 ^ 53" for P using len length_filter_le [of P ?ms] by linarith
  note p = percentile_fractions(5)
  have 1: "\<forall>x \<in> set (lt_provisioningToProvisioned (latencies_of ?ms)). 0 \<le> x \<and> x \<le> ?T"
    using timed by (force simp: latencies_of_facts timed_def intro!: Sub_within)
  have 2: "\<forall>x \<in> set (lt_provisionedToRunning (latencies_of ?ms)). 0 \<le> x \<and> x \<le> ?T"
    using timed by (force simp: latencies_of_facts timed_def intro!: Sub_within)
  have "0 \<le> ?T" by simp
  note b1 = percentile_or_zero_within [OF 1 _ p this] and b2 = percentile_or_zero_within [OF 2 _ p this]
  have "target \<le> int (length (lt_totals (latencies_of ?ms)))" using w by (simp add: latencies_of_facts)
  moreover have "length (lt_provisioningToProvisioned (latencies_of ?ms)) \<le> 2 ^ 53"
    "length (lt_provisionedToRunning (latencies_of ?ms)) \<le> 2 ^ 53"
    by (simp_all only: latencies_of_facts length_map short)
  ultimately show ?thesis using b1 b2 by (simp add: computeStats_def Let_def)
qed

end
