(* ===== verification/PerfReport.thy ===== *)
theory PerfReport
  imports PerfCompare GoFormat
begin

text \<open>
  \<open>cmd/perf-compare/main.go\<close>: the comparison report and the program around it.  Durations are
  64-bit integers of nanoseconds and wrap around; \<open>float64\<close> operations are rounded.  Reading a
  result file, with its JSON decoding, and writing the report are parameters.
\<close>

section \<open>Durations as text\<close>

definition wrap64 :: "int \<Rightarrow> int" where
  "wrap64 x = (x + 2 ^ 63) mod 2 ^ 64 - 2 ^ 63"

text \<open>\<open>Duration.Seconds\<close>, of a duration that is not negative.\<close>

definition Seconds :: "int \<Rightarrow> rat" where
  "Seconds d = fl (fl (of_int (d div Second)) + fl (fl (of_int (d mod Second)) / of_int Second))"

text \<open>
  \<open>d.Round(time.Second).String()\<close> of a duration below a minute: halves are rounded up.  The only
  negative duration that gets here is the least one, whose negation is itself.
\<close>

definition second_text :: "int \<Rightarrow> string" where
  "second_text d =
     (if d < 0 then ''-2562047h47m16.854775808s''
      else let r = d mod Second; n = (if r + r < Second then d - r else d + Second - r) div Second
           in if n = 60 then ''1m0s'' else Itoa n @ ''s'')"

definition fmtDuration :: "int \<Rightarrow> string" where
  "fmtDuration d =
     (if d = 0 then ''-''
      else
        let neg = d < 0;
            d = (if neg then wrap64 (- d) else d);
            prefix = (if neg then ''-'' else '''')
        in if d < Minute then prefix @ second_text d
           else
             let m = \<lfloor>Minutes d\<rfloor>; s = \<lfloor>Seconds d\<rfloor> mod 60
             in prefix @ Itoa m @ ''m'' @ zero_pad 2 (Itoa s) @ ''s'')"

section \<open>Rows\<close>

definition fmtRow :: "string \<Rightarrow> int \<Rightarrow> int \<Rightarrow> string" where
  "fmtRow label base pr =
     (let delta = wrap64 (pr - base);
          pct = (if base > 0 then fl (fl (fl (of_int delta) / fl (of_int base)) * 100) else 0);
          sign = (if delta > 0 then ''+'' else '''')
      in pad_right 32 label @ '' '' @ pad_left 14 (fmtDuration base) @ '' '' @ pad_left 14 (fmtDuration pr) @
         '' '' @ pad_left 13 sign @ fmtDuration delta @ '' '' @ pad_left 9 (Fixed 1 pct) @ ''%'' @ [CHR 0x0A])"

definition fmtRowFloat :: "string \<Rightarrow> rat \<Rightarrow> rat \<Rightarrow> string" where
  "fmtRowFloat label base pr =
     (let delta = fl (pr - base);
          pct = (if \<bar>base\<bar> > fl (1 / 1000) then fl (fl (delta / base) * 100) else 0);
          sign = (if delta > 0 then ''+'' else '''')
      in pad_right 32 label @ '' '' @ pad_left 14 (Fixed 2 base) @ '' '' @ pad_left 14 (Fixed 2 pr) @
         '' '' @ pad_left 13 sign @ Fixed 2 delta @ '' '' @ pad_left 9 (Fixed 1 pct) @ ''%'' @ [CHR 0x0A])"

section \<open>The report\<close>

definition arrow :: string where
  [go_defs]: "arrow = [CHR 0xE2, CHR 0x86, CHR 0x92]"

definition column_header :: string where
  "column_header =
     pad_right 32 '''' @ '' '' @ pad_left 14 ''Baseline'' @ '' '' @ pad_left 14 ''PR'' @ '' '' @
     pad_left 14 ''Delta'' @ '' '' @ pad_left 10 ''Change'' @ [CHR 0x0A]"

definition phase_rows :: "int \<times> int \<times> int \<Rightarrow> int \<times> int \<times> int \<Rightarrow> string" where
  "phase_rows base pr =
     (case (base, pr) of ((b1, b2, b3), (p1, p2, p3)) \<Rightarrow>
        fmtRow (''  Pending '' @ arrow @ '' Provisioning'') b1 p1 @
        fmtRow (''  Provisioning '' @ arrow @ '' Provisioned'') b2 p2 @
        fmtRow (''  Provisioned '' @ arrow @ '' Running'') b3 p3)"

text \<open>The zero value of the struct stands for a missing one.\<close>

definition steady_or_zero :: "SteadyStateResult option \<Rightarrow> SteadyStateResult" where
  "steady_or_zero x =
     (case x of
        None \<Rightarrow> \<lparr>ss_WindowDuration = '''', ss_ReconcileDelta = 0, ss_ReconcileRate = 0, ss_QueueAddsDelta = 0,
          ss_QueueDepthEnd = 0, ss_ResourceVersionDeltas = 0, ss_MachineCount = 0\<rparr>
      | Some r \<Rightarrow> r)"

definition steady_section :: "SteadyStateResult option \<Rightarrow> SteadyStateResult option \<Rightarrow> string" where
  "steady_section base pr =
     (if base = None \<and> pr = None then ''''
      else
        let bss = steady_or_zero base; pss = steady_or_zero pr;
            window = (if ss_WindowDuration bss = '''' then ss_WindowDuration pss else ss_WindowDuration bss)
        in [CHR 0x0A] @ ''Steady-state ('' @ window @ '' window):'' @ [CHR 0x0A] @
           fmtRowFloat ''  Reconcile delta'' (ss_ReconcileDelta bss) (ss_ReconcileDelta pss) @
           fmtRowFloat ''  Reconcile rate (/min)'' (ss_ReconcileRate bss) (ss_ReconcileRate pss) @
           fmtRowFloat ''  Queue adds delta'' (ss_QueueAddsDelta bss) (ss_QueueAddsDelta pss) @
           fmtRowFloat ''  Queue depth at end'' (ss_QueueDepthEnd bss) (ss_QueueDepthEnd pss) @
           pad_right 32 ''  Machine RV changes'' @ '' '' @
           pad_left 10 (Itoa (ss_ResourceVersionDeltas bss)) @ ''/'' @ pad_right 4 (Itoa (ss_MachineCount bss)) @ '' '' @
           pad_left 10 (Itoa (ss_ResourceVersionDeltas pss)) @ ''/'' @ pad_right 4 (Itoa (ss_MachineCount pss)) @
           [CHR 0x0A])"

definition newML_or_zero :: "newMLStats option \<Rightarrow> newMLStats" where
  "newML_or_zero x =
     (case x of
        None \<Rightarrow> \<lparr>nm_backgroundMachines = 0, nm_newMachineCount = 0, nm_pendingToProvisionP50 = 0,
          nm_provisionToReadyP50 = 0, nm_provisionedToRunningP50 = 0, nm_totalP50 = 0\<rparr>
      | Some r \<Rightarrow> r)"

definition newML_section :: "newMLStats option \<Rightarrow> newMLStats option \<Rightarrow> string" where
  "newML_section base pr =
     (if base = None \<and> pr = None then ''''
      else
        let b = newML_or_zero base; p = newML_or_zero pr;
            bgCount = (if nm_backgroundMachines b = 0 then nm_backgroundMachines p else nm_backgroundMachines b);
            newCount = (if nm_newMachineCount b = 0 then nm_newMachineCount p else nm_newMachineCount b)
        in [CHR 0x0A] @ ''New-machine latency ('' @ Itoa newCount @ '' new under '' @ Itoa bgCount @
           ''-machine load, p50):'' @ [CHR 0x0A] @
           phase_rows (nm_pendingToProvisionP50 b, nm_provisionToReadyP50 b, nm_provisionedToRunningP50 b)
             (nm_pendingToProvisionP50 p, nm_provisionToReadyP50 p, nm_provisionedToRunningP50 p) @
           fmtRow ''  Total'' (nm_totalP50 b) (nm_totalP50 p))"

definition formatComparison :: "stats \<Rightarrow> stats \<Rightarrow> string" where
  "formatComparison base pr =
     ''=== MAO Provisioning Performance Comparison ==='' @ [CHR 0x0A, CHR 0x0A] @
     column_header @ replicate 92 CHR ''-'' @ [CHR 0x0A] @
     fmtRow ''Total time'' (st_totalTime base) (st_totalTime pr) @
     fmtRowFloat ''Throughput (machines/min)'' (st_throughput base) (st_throughput pr) @ [CHR 0x0A] @
     ''Per-machine latency:'' @ [CHR 0x0A] @
     fmtRow ''  p50'' (st_totalP50 base) (st_totalP50 pr) @
     fmtRow ''  p90'' (st_totalP90 base) (st_totalP90 pr) @
     fmtRow ''  p99'' (st_totalP99 base) (st_totalP99 pr) @ [CHR 0x0A] @
     ''Phase breakdown (p50):'' @ [CHR 0x0A] @
     phase_rows (st_pendingToProvisionP50 base, st_provisionToReadyP50 base, st_provisionedToRunningP50 base)
       (st_pendingToProvisionP50 pr, st_provisionToReadyP50 pr, st_provisionedToRunningP50 pr) @ [CHR 0x0A] @
     pad_right 32 ''Machines provisioned'' @ '' '' @ pad_left 14 (Itoa (int (st_machineCount base))) @ '' '' @
       pad_left 14 (Itoa (int (st_machineCount pr))) @ [CHR 0x0A] @
     steady_section (st_steadyState base) (st_steadyState pr) @
     newML_section (st_newML base) (st_newML pr)"

section \<open>The program\<close>

fun output_flag :: "string list \<Rightarrow> string \<Rightarrow> string" where
  "output_flag (a # b # rest) outputFile =
     (if a = ''--output'' then output_flag rest b else output_flag (b # rest) outputFile)"
| "output_flag args outputFile = outputFile"

record perf_env =
  pe_read :: "string \<Rightarrow> string res"
  pe_unmarshal :: "string \<Rightarrow> PerfBenchmarkResult res"
  pe_write :: "string \<Rightarrow> string \<Rightarrow> unit res"

definition loadResult :: "perf_env \<Rightarrow> string \<Rightarrow> PerfBenchmarkResult res" where
  "loadResult env path =
     (case pe_read env path of Inl err \<Rightarrow> Inl err | Inr data \<Rightarrow> pe_unmarshal env data)"

text \<open>Exit status, the file written and its contents, and standard output; \<open>args\<close> are the arguments
  after the program's name.\<close>

definition perf_compare :: "perf_env \<Rightarrow> string list \<Rightarrow> int \<times> (string \<times> string) option \<times> string" where
  "perf_compare env args =
     (case args of
        baselineFile # prFile # rest \<Rightarrow>
          let outputFile = output_flag rest '''' in
          (case loadResult env baselineFile of
             Inl err \<Rightarrow> (1, None, '''')
           | Inr baseline \<Rightarrow>
               (case loadResult env prFile of
                  Inl err \<Rightarrow> (1, None, '''')
                | Inr pr \<Rightarrow>
                    let report = formatComparison (computeStats baseline) (computeStats pr) in
                    if outputFile \<noteq> '''' then
                      (case pe_write env outputFile report of
                         Inl err \<Rightarrow> (1, None, '''')
                       | Inr _ \<Rightarrow> (0, Some (outputFile, report),
                           ''Comparison written to '' @ outputFile @ [CHR 0x0A] @ report))
                    else (0, None, report)))
      | _ \<Rightarrow> (1, None, ''''))"

section \<open>How durations are shown\<close>

lemma fl_sum_floor:
  assumes k: "0 \<le> k" "k < 2 ^ 17" and r: "0 \<le> r" "r < n" and n: "0 < n" "n < 2 ^ 36"
  shows "\<lfloor>fl (fl (of_int k) + fl (fl (of_int r) / of_int n))\<rfloor> = k"
proof -
  have kr: "fl (of_int k) = of_int k" "fl (of_int r) = of_int r" using k r n by (auto intro!: fl_of_int)
  let ?f = "fl (of_int r / of_int n) :: rat"
  have "of_int r / of_int n \<le> (of_int (2 ^ 36 - 1) * pow2 (- 36) :: rat)"
  proof -
    have "of_int r + 1 \<le> (of_int n :: rat)" using r by (metis of_int_1 of_int_add of_int_le_iff zless_imp_add1_zle)
    moreover have "(of_int n :: rat) \<le> 2 ^ 36" using n(2) by (metis less_imp_le of_int_le_iff of_int_numeral of_int_power)
    ultimately show ?thesis using n(1) by (simp add: pow2_def field_simps)
  qed
  from fl_mono [OF this] have f: "?f \<le> of_int (2 ^ 36 - 1) * pow2 (- 36)" by (subst (asm) fl_exact) simp_all
  have f0: "0 \<le> ?f" using r n by (intro fl_nonneg) simp
  have "of_int k + ?f \<le> of_int ((k + 1) * 2 ^ 36 - 1) * pow2 (- 36)" using f by (simp add: pow2_def field_simps)
  from fl_mono [OF this] have "fl (of_int k + ?f) \<le> of_int ((k + 1) * 2 ^ 36 - 1) * pow2 (- 36)"
    using k by (subst (asm) fl_exact) simp_all
  then have hi: "fl (of_int k + ?f) < of_int (k + 1)" by (simp add: pow2_def field_simps)
  have "fl (of_int k) \<le> fl (of_int k + ?f)" using f0 by (intro fl_mono) simp
  then have "of_int k \<le> fl (of_int k + ?f)" by (simp only: kr)
  with hi show ?thesis unfolding kr by (simp add: floor_eq_iff)
qed

lemma wrap64_small: "\<bar>x\<bar> < 2 ^ 63 \<Longrightarrow> wrap64 x = x"
  by (simp add: wrap64_def)

lemma div_below: "0 < n \<Longrightarrow> d < k * n \<Longrightarrow> d div n < (k :: int)"
proof (rule ccontr)
  assume n: "0 < n" "d < k * n" and "\<not> d div n < k"
  then have "k * n \<le> d div n * n" by (intro mult_right_mono) simp_all
  also have "\<dots> \<le> d" using n(1) by (metis div_mult_mod_eq le_add_same_cancel1 pos_mod_sign)
  finally show False using n(2) by simp
qed

lemma div_mod_range: "0 < (n :: int) \<Longrightarrow> 0 \<le> d mod n \<and> d mod n < n"
  by simp

lemma Minutes_floor:
  assumes "0 \<le> d" "d < 2 ^ 17 * Minute"
  shows "\<lfloor>Minutes d\<rfloor> = d div Minute"
  unfolding Minutes_def
proof (rule fl_sum_floor)
  show "0 \<le> d div Minute" "d div Minute < 2 ^ 17"
    using assms by (auto simp: pos_imp_zdiv_nonneg_iff go_defs intro!: div_below)
qed (simp_all add: go_defs)

lemma Seconds_floor:
  assumes "0 \<le> d" "d < 2 ^ 17 * Second"
  shows "\<lfloor>Seconds d\<rfloor> = d div Second"
  unfolding Seconds_def
proof (rule fl_sum_floor)
  show "0 \<le> d div Second" "d div Second < 2 ^ 17"
    using assms by (auto simp: pos_imp_zdiv_nonneg_iff go_defs intro!: div_below)
qed (simp_all add: go_defs)

lemma second_text_near:
  assumes "0 \<le> d"
  shows "\<exists>n. second_text d = (if n = 60 then ''1m0s'' else Itoa n @ ''s'') \<and> 2 * \<bar>n * Second - d\<bar> \<le> Second"
proof -
  let ?r = "d mod Second"
  obtain q where q: "d = q * Second + ?r" by (metis div_mult_mod_eq)
  have r: "0 \<le> ?r" "?r < Second" by (simp_all add: go_defs)
  define n where "n = (if ?r + ?r < Second then q else q + 1)"
  have "(if ?r + ?r < Second then d - ?r else d + Second - ?r) = n * Second"
    using q by (auto simp: n_def algebra_simps)
  then have "second_text d = (if n = 60 then ''1m0s'' else Itoa n @ ''s'')"
    using assms r by (simp add: second_text_def Let_def)
  moreover have "n * Second - d = (if ?r + ?r < Second then - ?r else Second - ?r)"
    using q by (auto simp: n_def algebra_simps)
  then have "2 * \<bar>n * Second - d\<bar> \<le> Second" using r by auto
  ultimately show ?thesis by blast
qed

text \<open>C36: durations of up to 36 hours are shown truly, although the program computes minutes and seconds
  in \<open>float64\<close>: a duration of a minute or more as its whole minutes and seconds, cut off, a shorter
  one to the nearest second; and with its sign.\<close>

theorem durations_shown:
  assumes "d \<noteq> 0" "\<bar>d\<bar> < 36 * 60 * Minute"
  shows "let sign = (if d < 0 then ''-'' else '''') in
    if \<bar>d\<bar> < Minute
    then \<exists>n. fmtDuration d = sign @ (if n = 60 then ''1m0s'' else Itoa n @ ''s'') \<and> 2 * \<bar>n * Second - \<bar>d\<bar>\<bar> \<le> Second
    else \<exists>m s. fmtDuration d = sign @ Itoa m @ ''m'' @ zero_pad 2 (Itoa s) @ ''s'' \<and> 0 \<le> s \<and> s < 60
      \<and> (60 * m + s) * Second \<le> \<bar>d\<bar> \<and> \<bar>d\<bar> < (60 * m + s + 1) * Second"
proof -
  let ?a = "\<bar>d\<bar>" and ?sign = "if d < 0 then ''-'' else ''''"
  have "wrap64 (- d) = - d" using assms(2) by (intro wrap64_small) (simp add: go_defs)
  then have fmt: "fmtDuration d =
      (if ?a < Minute then ?sign @ second_text ?a
       else ?sign @ Itoa \<lfloor>Minutes ?a\<rfloor> @ ''m'' @ zero_pad 2 (Itoa (\<lfloor>Seconds ?a\<rfloor> mod 60)) @ ''s'')"
    using assms(1) by (auto simp: fmtDuration_def Let_def)
  show ?thesis
  proof (cases "?a < Minute")
    case True
    then show ?thesis using fmt second_text_near [of ?a] by (simp add: Let_def)
  next
    case False
    let ?m = "?a div Minute" and ?s = "?a div Second mod 60"
    have m: "\<lfloor>Minutes ?a\<rfloor> = ?m" "\<lfloor>Seconds ?a\<rfloor> = ?a div Second"
      using assms(2) by (intro Minutes_floor Seconds_floor; simp add: go_defs)+
    have "?a div Minute = ?a div Second div 60" by (simp add: go_defs div_mult2_eq flip: zdiv_zmult2_eq)
    then have "60 * ?m + ?s = ?a div Second" by simp
    moreover have "?a div Second * Second \<le> ?a" "?a < (?a div Second + 1) * Second"
      using div_mult_mod_eq [of ?a Second] div_mod_range [of Second ?a] by (simp_all add: go_defs algebra_simps)
    ultimately have "\<exists>m s. fmtDuration d = ?sign @ Itoa m @ ''m'' @ zero_pad 2 (Itoa s) @ ''s'' \<and> 0 \<le> s \<and> s < 60
      \<and> (60 * m + s) * Second \<le> ?a \<and> ?a < (60 * m + s + 1) * Second"
      using fmt False m by (intro exI [of _ ?m] exI [of _ ?s]) simp
    then show ?thesis using False by (simp add: Let_def)
  qed
qed

section \<open>Columns\<close>

lemma ascii_fmtDuration: "ascii (fmtDuration d)"
proof -
  have "ascii (second_text x)" for x by (auto simp: second_text_def Let_def byte_def)
  then show ?thesis by (auto simp: fmtDuration_def Let_def zero_pad_def byte_def)
qed

lemma column_header_width: "RuneCount column_header = 89"
  by code_simp

definition shown_change :: "int \<Rightarrow> int \<Rightarrow> string" where
  "shown_change base pr =
     Fixed 1 (if base > 0 then fl (fl (fl (of_int (wrap64 (pr - base))) / fl (of_int base)) * 100) else 0)"

text \<open>The rows of the report line up with its header only where the difference is shown as one
  character, a dash for no difference: the sign of the difference is padded to the width of the
  column and the difference is put after it.\<close>

theorem delta_column_shifted:
  assumes "RuneCount label \<le> 32" "length (fmtDuration base) \<le> 14" "length (fmtDuration pr) \<le> 14"
    and "length (shown_change base pr) \<le> 9"
  shows "RuneCount (fmtRow label base pr) + 1 =
    RuneCount column_header + length (fmtDuration (wrap64 (pr - base)))"
proof -
  let ?d = "wrap64 (pr - base)"
  let ?rest = "replicate (32 - RuneCount label) CHR '' '' @ '' '' @ pad_left 14 (fmtDuration base) @ '' '' @
    pad_left 14 (fmtDuration pr) @ '' '' @ pad_left 13 (if ?d > 0 then ''+'' else '''') @ fmtDuration ?d @
    '' '' @ pad_left 9 (shown_change base pr) @ ''%'' @ [CHR 0x0A]"
  have row: "fmtRow label base pr = label @ ?rest"
    by (simp add: fmtRow_def Let_def pad_right_def shown_change_def)
  have "ascii ?rest" by (simp add: ascii_fmtDuration shown_change_def byte_def)
  then have "RuneCount (fmtRow label base pr) = RuneCount label + length ?rest"
    unfolding row by (rule RuneCount_append_ascii)
  moreover have "length ?rest = (32 - RuneCount label) + 56 + length (fmtDuration ?d)"
    using assms(2-4) by (simp add: pad_left_length ascii_fmtDuration shown_change_def byte_def)
  ultimately show ?thesis using assms(1) by (simp add: column_header_width)
qed

end
