(* ===== verification/DemoReports.thy ===== *)
theory DemoReports
  imports DemoMachines HtmlPage Metrics PerfReport
begin

text \<open>
  Concrete inputs at which the properties of the reporting theories are applied: a results
  directory with one run, a query result with two samples, and a watched machine.
\<close>

section \<open>A grid\<close>

definition demo_test :: string where
  "demo_test = ''N-MS-01: scales''"

definition demo_case :: JUnitTestCase where
  "demo_case = \<lparr>jc_Name = demo_test, jc_ClassName = '''', jc_Time = 1, jc_Failure = None, jc_Skipped = None,
     jc_Error = None\<rparr>"

definition demo_failed :: JUnitTestCase where
  "demo_failed = demo_case\<lparr>jc_Failure := Some \<lparr>jf_Message = ''no'', jf_Body = ''''\<rparr>\<rparr>"

definition demo_junit :: junit_env where
  "demo_junit = \<lparr>
     ju_glob = (\<lambda>p. Inr (if HasSuffix p ''.xml'' then [''a.xml''] else [''results/run-1''])),
     ju_read = (\<lambda>_. Inr ''<xml>''),
     ju_suites = (\<lambda>_. Inr \<lparr>jss_Suites = [\<lparr>js_Name = ''e2e'', js_Tests = 2, js_Failures = 1, js_Errors = 0,
       js_Skipped = 0, js_Time = 2, js_TestCases = [demo_case, demo_failed]\<rparr>]\<rparr>),
     ju_suite = (\<lambda>_. Inl (ForeignError ''xml'')),
     ju_remote = Inr ''git@github.com:o/r.git'',
     ju_exists = (\<lambda>_. True)\<rparr>"

lemma report_paths:
  "path_join ''results'' ''run-*'' = ''results/run-*''" "path_join ''results/run-1'' ''*.xml'' = ''results/run-1/*.xml''"
  "HasSuffix ''results/run-*'' ''.xml'' = False" "HasSuffix ''results/run-1/*.xml'' ''.xml'' = True"
  "Base ''results/run-1'' = ''run-1''"
  by code_simp+

lemma demo_glob: "ju_glob demo_junit (path_join ''results'' ''run-*'') = Inr [''results/run-1'']"
  by (simp add: demo_junit_def report_paths)

lemma demo_run_cases: "run_cases demo_junit ''results/run-1'' = [demo_case, demo_failed]"
  by (simp add: run_cases_def demo_junit_def report_paths file_cases_def parseJUnitFile_def)

lemma demo_grid: "\<exists>g. buildGrid demo_junit ''results'' = Inr g"
  unfolding buildGrid_def demo_glob by (simp add: Let_def split: prod.splits)

definition demo_g :: GridData where
  "demo_g = (case buildGrid demo_junit ''results'' of Inr g \<Rightarrow> g)"

lemma demo_g: "buildGrid demo_junit ''results'' = Inr demo_g"
  using demo_grid by (auto simp: demo_g_def)

theorem grid_cell_is_worst_witness: "cell (g_Matrix demo_g) demo_test ''run-1'' = ResultFail"
proof -
  have "results_of demo_junit [''results/run-1''] demo_test ''run-1'' =
      classifyResult ` {demo_case, demo_failed}"
    unfolding results_of_def image_def
    by (simp add: report_paths demo_run_cases) (auto simp: demo_case_def demo_failed_def)
  also have "\<dots> = {ResultPass, ResultFail}" by (simp add: classifyResult_def demo_case_def demo_failed_def)
  finally have "results_of demo_junit [''results/run-1''] demo_test ''run-1'' = {ResultPass, ResultFail}" .
  then show ?thesis
    using grid_cell_is_worst [OF demo_g demo_glob, of demo_test "''run-1''"]
    by (simp add: max_def less_eq_Result_def)
qed

theorem grid_rows_columns_witness: "g_Tests demo_g = [demo_test] \<and> g_Runs demo_g = [''run-1'']"
proof -
  have "set (g_Tests demo_g) = {demo_test}" "distinct (g_Tests demo_g)" "g_Runs demo_g = [''run-1'']"
    using grid_rows_columns [OF demo_g demo_glob] by (simp_all add: demo_run_cases demo_case_def demo_failed_def report_paths)
  moreover from this have "length (g_Tests demo_g) = 1" by (metis card.empty card_insert_disjoint
        distinct_card empty_iff finite.emptyI One_nat_def)
  ultimately show ?thesis by (cases "g_Tests demo_g") auto
qed

lemma demo_g_rows: "demo_test \<in> set (g_Tests demo_g)" "''run-1'' \<in> set (g_Runs demo_g)"
proof -
  obtain dirs where d: "ju_glob demo_junit (path_join ''results'' ''run-*'') = Inr dirs"
    "g_Runs demo_g = map Base (sort dirs)"
    "g_Tests demo_g = sort (map fst (fst (fold (add_run demo_junit) (sort dirs) ([], []))))"
    using demo_g by (rule buildGrid_Inr)
  then have dirs: "dirs = [''results/run-1'']" by (simp add: demo_glob)
  show "demo_test \<in> set (g_Tests demo_g)"
    using tests_fold_run(1) [of demo_junit "[''results/run-1'']" "([], [])"]
    by (simp add: d(3) dirs demo_run_cases demo_case_def demo_failed_def)
  show "''run-1'' \<in> set (g_Runs demo_g)" by (simp add: d(2) dirs report_paths)
qed

theorem run_totals_count_witness:
  "\<exists>s. gm_lookup (g_RunTotals demo_g) ''run-1'' = Some s \<and> rs_Total s = int (length (g_Tests demo_g))"
  using run_totals_count [OF demo_g demo_g_rows(2)] by blast

lemma demo_g_cell: "map (cell (g_Matrix demo_g) demo_test) (g_Runs demo_g) = [ResultFail]"
proof -
  obtain dirs where d: "ju_glob demo_junit (path_join ''results'' ''run-*'') = Inr dirs"
    "g_Runs demo_g = map Base (sort dirs)"
    "g_Matrix demo_g = snd (fold (add_run demo_junit) (sort dirs) ([], []))"
    using demo_g by (rule buildGrid_Inr)
  then have dirs: "dirs = [''results/run-1'']" by (simp add: demo_glob)
  have "cell (snd (fold (add_run demo_junit) [''results/run-1''] ([], []))) demo_test ''run-1'' = ResultFail"
    unfolding cell_fold_run
    by (simp add: report_paths demo_run_cases classifyResult_def demo_case_def demo_failed_def max_def less_eq_Result_def)
  then show ?thesis by (simp add: d(2,3) dirs report_paths)
qed

theorem pass_rates_witness:
  "\<exists>rate. gm_lookup (g_PassRates demo_g) demo_test = Some rate \<and> 0 \<le> rate \<and> rate \<le> 100"
proof -
  have "length (g_Runs demo_g) \<le> 2 ^ 53" using arg_cong [OF demo_g_cell, of length] by simp
  from pass_rates [OF demo_g demo_g_rows(1) this] show ?thesis
    by (auto simp: demo_g_cell decided_def split: option.splits)
qed

theorem doc_links_sound_witness:
  "\<exists>pre post. demo_test = pre @ extractTestID demo_test @ post \<and> test_id (extractTestID demo_test)"
proof -
  have "gitRepoBaseURL demo_junit \<noteq> ''''"
    by (simp add: gitRepoBaseURL_def demo_junit_def Let_def)
  moreover have "extractTestID demo_test \<noteq> ''''" unfolding demo_test_def by code_simp
  ultimately have "\<exists>url. gm_lookup (resolveDocLinks demo_junit [demo_test]) demo_test = Some url"
    by (simp add: resolveDocLinks_def doc_link_def Let_def demo_junit_def)
  then obtain url where "gm_lookup (resolveDocLinks demo_junit [demo_test]) demo_test = Some url" ..
  from doc_links_sound [OF this] show ?thesis by blast
qed

lemma demo_aggregate:
  "\<exists>out page. aggregate demo_junit (\<lambda>_. Inr ()) [''results''] =
     Some \<lparr>ro_code = 0, ro_stdout = out, ro_page = Some (path_join ''results'' ''grid.html'', page)\<rparr>"
proof -
  have "set (g_Runs demo_g) \<subseteq> {''run-1''}"
    using demo_g demo_glob by (auto elim!: buildGrid_Inr simp: report_paths)
  then have "\<forall>r \<in> set (g_Runs demo_g). HasPrefix r ''run-''" by (auto simp: HasPrefix_def)
  from run_labels_ok [OF this] obtain out where out: "printMarkdownGrid demo_g = Some out"
    by (simp add: printMarkdownGrid_def)
  then have "snd (html_page demo_g)" using page_after_table by simp
  then obtain page where "html_page demo_g = (page, True)" by (cases "html_page demo_g") simp
  moreover have "g_Tests demo_g \<noteq> []" using demo_g_rows(1) by auto
  ultimately show ?thesis using out by (simp add: aggregate_def demo_g Let_def writeHTMLGrid_def)
qed

theorem html_page_safe_witness:
  "\<exists>r path page. aggregate demo_junit (\<lambda>_. Inr ()) [''results''] = Some r \<and> ro_page r = Some (path, page) \<and>
     markup InText page = page_markup (length (g_Runs demo_g))
       (map (\<lambda>t. gm_lookup (g_DocLinks demo_g) t \<noteq> None) (g_Tests demo_g))"
proof -
  obtain out page where a: "aggregate demo_junit (\<lambda>_. Inr ()) [''results''] =
     Some \<lparr>ro_code = 0, ro_stdout = out, ro_page = Some (path_join ''results'' ''grid.html'', page)\<rparr>"
    using demo_aggregate by blast
  from html_page_safe [OF a, of "path_join ''results'' ''grid.html''" page] a demo_g show ?thesis by auto
qed

section \<open>A query result\<close>

definition demo_samples :: "vector_sample list" where
  "demo_samples =
     [\<lparr>vs_Metric = [(''__name__'', ''vsphere_csi_tag_operations_total''), (''operation'', ''create'')],
       vs_Value = (AnyValue ''1'', AnyString ''7'')\<rparr>,
      \<lparr>vs_Metric = [(''__name__'', ''vsphere_csi_tag_operations_total''), (''operation'', ''delete'')],
       vs_Value = (AnyValue ''1'', AnyString ''42'')\<rparr>]"

lemma demo_clean: "\<forall>r \<in> set demo_samples. clean_sample r"
proof -
  have "list_all clean_sample demo_samples" by code_simp
  then show ?thesis by (simp add: list_all_iff)
qed

theorem metric_text_roundtrip_witness:
  "\<exists>text. vectorToText Inr demo_samples = Inr text \<and>
     ParseMetricValue Inr text ''vsphere_csi_tag_operations_total'' (Some [(''operation'', ''delete'')]) = Inr ''42''"
proof -
  have "find_first (wanted ''vsphere_csi_tag_operations_total'' (Some [(''operation'', ''delete'')])) demo_samples =
      Some (demo_samples ! 1)"
    by (simp add: demo_samples_def wanted_def sample_name_def sample_labels_def gm_get_def)
  moreover have "asks_for_values (Some [(''operation'', ''delete'')])" by (simp add: asks_for_values_def)
  moreover have "render_value (demo_samples ! 1) = ''42''" by (simp add: demo_samples_def render_value_def)
  ultimately show ?thesis
    using metric_text_roundtrip [of Inr demo_samples demo_samples "Some [(''operation'', ''delete'')]" Inr
        "''vsphere_csi_tag_operations_total''"] demo_clean by simp
qed

section \<open>Statistics\<close>

theorem percentile_in_bounds_witness: "percentile [5, 3, 9] p90 \<in> {5, 3, 9}"
  using percentile_in_bounds [of "[5, 3, 9]" p90] percentile_fractions by simp

theorem percentiles_ordered_witness: "percentile [5, 3, 9] p50 = 5 \<and> percentile [9, 5, 3] p99 = percentile [5, 3, 9] p99"
proof -
  have m: "mset [9, 5, 3] = mset [5, 3, 9 :: int]" by simp
  have "length [5, 3, 9 :: int] \<le> 2 ^ 53" by simp
  note percentiles_ordered [OF _ this, of p99]
  then have "percentile [5, 3, 9] p50 = sort [5, 3, 9] ! ((length [5, 3, 9 :: int] - 1) div 2)"
    and perm: "\<forall>ys. mset ys = mset [5, 3, 9] \<longrightarrow> percentile ys p99 = percentile [5, 3, 9] p99"
    by blast+
  from this(1) have "percentile [5, 3, 9] p50 = 5" by simp
  with perm m show ?thesis by blast
qed

theorem stats_of_watch_witness:
  "\<exists>result s'. WatchMachinePhaseTimestamps watch_env (\<lambda>i t. poll_upto 2) ''workers'' 1 60 mem_st =
      ((result, None), s') \<and> 1 \<le> st_machineCount (computeStats (result\<lparr>pb_ScaleRequestTime := 2\<rparr>))"
proof -
  obtain result s' where run: "WatchMachinePhaseTimestamps watch_env (\<lambda>i t. poll_upto 2) ''workers'' 1 60 mem_st =
      ((result, None), s')" and len: "length (pb_Machines result) = 1"
    using watch_run by blast
  then have "length (pb_Machines result) \<le> 2 ^ 53" by simp
  from stats_of_watch [OF watch_env_facts _ run this, of 2] run show ?thesis by (auto simp: Let_def)
qed

section \<open>Reports\<close>

theorem markdown_table_witness:
  "\<exists>out lines. printMarkdownGrid demo_g = Some out \<and> Split out newline = lines @ [[]] \<and> length lines = 5 \<and>
     map TrimSpace (Split (lines ! 0) CHR ''|'') = ['''', ''Test Case'', ''1'', ''Rate'', '''']"
proof -
  have runs: "\<forall>d \<in> set [''results/run-1'']. HasPrefix (Base d) ''run-'' \<and> table_name (drop 4 (Base d))"
  proof -
    have "table_name ''1''" by code_simp
    then show ?thesis by (simp add: report_paths HasPrefix_def)
  qed
  have t: "g_Tests demo_g = [demo_test]" and r: "g_Runs demo_g = [''run-1'']" using grid_rows_columns_witness by blast+
  have "table_name (shortName demo_test)" unfolding demo_test_def by code_simp
  then have "\<forall>t \<in> set (g_Tests demo_g). table_name (shortName t)" by (simp add: t)
  from markdown_table [OF demo_g demo_glob runs this] show ?thesis unfolding t r by fastforce
qed

theorem durations_shown_witness:
  "\<exists>m s. fmtDuration (- 90 * Second) = ''-'' @ Itoa m @ ''m'' @ zero_pad 2 (Itoa s) @ ''s'' \<and> 60 * m + s = 90"
proof -
  have "- 90 * Second \<noteq> 0" "\<bar>- 90 * Second\<bar> < 36 * 60 * Minute" "- 90 * Second < 0" "\<not> \<bar>- 90 * Second\<bar> < Minute"
    by (simp_all add: go_defs)
  with durations_shown [OF this(1,2)] obtain m s
    where m: "fmtDuration (- 90 * Second) = ''-'' @ Itoa m @ ''m'' @ zero_pad 2 (Itoa s) @ ''s''"
      and b: "(60 * m + s) * Second \<le> \<bar>- 90 * Second\<bar>" "\<bar>- 90 * Second\<bar> < (60 * m + s + 1) * Second"
    by (auto simp: Let_def)
  from b have "60 * m + s = 90" by (simp add: go_defs)
  with m show ?thesis by blast
qed

theorem delta_column_shifted_witness:
  "RuneCount (fmtRow ''  p50'' 0 (2 * Second)) = RuneCount column_header + 1"
proof -
  have "RuneCount ''  p50'' \<le> 32" "length (fmtDuration 0) \<le> 14" "length (fmtDuration (2 * Second)) \<le> 14"
    "length (shown_change 0 (2 * Second)) \<le> 9" "length (fmtDuration (wrap64 (2 * Second - 0))) = 2"
    by code_simp+
  with delta_column_shifted [OF this(1-4)] show ?thesis by simp
qed

end
