(* ===== verification/Sessions.thy ===== *)
theory Sessions
  imports World
begin

text \<open>
  \<open>pkg/vsphere/session.go\<close>: connecting to a vCenter, the session cache, and the VM folder.

  The vSphere client libraries are the fields of \<open>vc_api\<close>, over a world \<open>'w\<close>; \<open>'h\<close> is the type of
  their client objects.  A session has the SOAP client and the REST client; the finder and the tag
  manager are made from these and the datacenter and have no state of their own.  The cache is a
  package variable guarded by a mutex that each operation holds from start to end, so concurrent
  callers act one after the other: an execution is a sequence of operations.  Logging is left out.
\<close>

section \<open>Sessions\<close>

record 'h Session =
  sn_Client :: "'h option"
  sn_restClient :: "'h option"
  sn_Datacenter :: string

record Params =
  pr_Server :: string
  pr_Datacenter :: string
  pr_Username :: string
  pr_Password :: string
  pr_Insecure :: bool

record ('w, 'h) vc_api =
  vim_client :: "string \<Rightarrow> bool \<Rightarrow> 'w \<Rightarrow> 'h res \<times> 'w"
  vc_login :: "'h \<Rightarrow> string \<Rightarrow> string \<Rightarrow> 'w \<Rightarrow> unit res \<times> 'w"
  vc_logout :: "'h \<Rightarrow> 'w \<Rightarrow> unit res \<times> 'w"
  find_datacenter :: "'h \<Rightarrow> string \<Rightarrow> 'w \<Rightarrow> string res \<times> 'w"
  rest_client :: "'h \<Rightarrow> 'h"
  rest_login :: "'h \<Rightarrow> string \<Rightarrow> string \<Rightarrow> 'w \<Rightarrow> unit res \<times> 'w"
  rest_logout :: "'h \<Rightarrow> 'w \<Rightarrow> unit res \<times> 'w"
  vm_folder :: "string \<Rightarrow> 'w \<Rightarrow> string res \<times> 'w"
  find_folder :: "string \<Rightarrow> 'w \<Rightarrow> string res \<times> 'w"
  create_folder :: "string \<Rightarrow> string \<Rightarrow> 'w \<Rightarrow> unit res \<times> 'w"
  destroy_folder :: "string \<Rightarrow> 'w \<Rightarrow> string res \<times> 'w"
  wait_task :: "string \<Rightarrow> 'w \<Rightarrow> unit res \<times> 'w"
  error_text :: "goerror \<Rightarrow> string"

definition strip_scheme :: "string \<Rightarrow> string" where
  "strip_scheme server =
     (case find_first (\<lambda>prefix. HasPrefix (ToLower server) prefix) [''https://'', ''http://''] of
        Some prefix \<Rightarrow> drop (length prefix) server
      | None \<Rightarrow> server)"

definition SanitizeServer :: "string \<Rightarrow> string" where
  "SanitizeServer server =
     (let server = strip_scheme (TrimSpace server) in
      case Index server ''/'' of Some idx \<Rightarrow> take idx server | None \<Rightarrow> server)"

definition cacheKey :: "Params \<Rightarrow> string" where
  "cacheKey p = pr_Server p @ ''#'' @ pr_Datacenter p @ ''#'' @ pr_Username p"

definition NewSession :: "('w, 'h) vc_api \<Rightarrow> Params \<Rightarrow> 'w \<Rightarrow> 'h Session res \<times> 'w" where
  "NewSession api p =
     (let host = SanitizeServer (pr_Server p) in
      bindM (wrapM ''creating vim25 client for %s: %w'' [AStr host]
               (vim_client api host (pr_Insecure p))) (\<lambda>client.
      bindM (wrapM ''logging in to %s: %w'' [AStr (pr_Server p)]
               (vc_login api client (pr_Username p) (pr_Password p))) (\<lambda>_.
      bindM (wrapM ''finding datacenter %q: %w'' [AStr (pr_Datacenter p)]
               (find_datacenter api client (pr_Datacenter p))) (\<lambda>dc.
      let rc = rest_client api client in
      bindM (wrapM ''REST login to %s: %w'' [AStr (pr_Server p)]
               (rest_login api rc (pr_Username p) (pr_Password p))) (\<lambda>_.
        ret \<lparr>sn_Client = Some client, sn_restClient = Some rc, sn_Datacenter = pr_Datacenter p\<rparr>)))))"

text \<open>Both logouts are attempted; their errors are only logged.\<close>

definition Close :: "('w, 'h) vc_api \<Rightarrow> 'h Session \<Rightarrow> 'w \<Rightarrow> 'w" where
  "Close api s w =
     (let w = (case sn_restClient s of None \<Rightarrow> w | Some rc \<Rightarrow> snd (rest_logout api rc w))
      in case sn_Client s of None \<Rightarrow> w | Some client \<Rightarrow> snd (vc_logout api client w))"

section \<open>The cache\<close>

record ('w, 'h) vc_state =
  sessionCache :: "'h Session gomap"
  outside :: 'w

definition GetOrCreate ::
  "('w, 'h) vc_api \<Rightarrow> Params \<Rightarrow> ('w, 'h) vc_state \<Rightarrow> 'h Session res \<times> ('w, 'h) vc_state" where
  "GetOrCreate api p st =
     (let key = cacheKey p in
      case gm_lookup (sessionCache st) key of
        Some s \<Rightarrow> (Inr s, st)
      | None \<Rightarrow>
          (case NewSession api p (outside st) of
             (Inl err, w) \<Rightarrow> (Inl err, st\<lparr>outside := w\<rparr>)
           | (Inr s, w) \<Rightarrow> (Inr s, \<lparr>sessionCache = gm_put key s (sessionCache st), outside = w\<rparr>)))"

definition ClearSessions :: "('w, 'h) vc_api \<Rightarrow> ('w, 'h) vc_state \<Rightarrow> ('w, 'h) vc_state" where
  "ClearSessions api st =
     fold (\<lambda>(key, s) st.
             \<lparr>sessionCache = AList.delete key (sessionCache st), outside = Close api s (outside st)\<rparr>)
       (sessionCache st) st"

section \<open>The VM folder\<close>

definition folder_path :: "'h Session \<Rightarrow> string \<Rightarrow> string" where
  "folder_path s folderName = ''/'' @ sn_Datacenter s @ ''/vm/'' @ folderName"

text \<open>\<open>vm_folder\<close> is the root folder for virtual machines that \<open>dc.Folders\<close> returns.\<close>

definition create_vm_folder :: "('w, 'h) vc_api \<Rightarrow> string \<Rightarrow> string \<Rightarrow> 'w \<Rightarrow> unit res \<times> 'w" where
  "create_vm_folder api vmFolder folderName =
     bindM (tryM (create_folder api vmFolder folderName)) (\<lambda>created.
       case created of
         Inr _ \<Rightarrow> ret ()
       | Inl err \<Rightarrow>
           if Contains (error_text api err) ''already exists'' then ret ()
           else throw (Wrapf ''creating VM folder %q: %w'' [AStr folderName] err))"

definition EnsureVMFolder ::
  "('w, 'h) vc_api \<Rightarrow> 'h Session \<Rightarrow> string \<Rightarrow> 'w \<Rightarrow> unit res \<times> 'w" where
  "EnsureVMFolder api s folderName =
     bindM (wrapM ''finding datacenter %q: %w'' [AStr (sn_Datacenter s)]
              (case sn_Client s of
                 None \<Rightarrow> throw (ForeignError ''nil client'')
               | Some client \<Rightarrow> find_datacenter api client (sn_Datacenter s))) (\<lambda>dc.
     bindM (wrapM ''getting datacenter folders: %w'' [] (vm_folder api dc)) (\<lambda>vmFolder.
     bindM (tryM (find_folder api (folder_path s folderName))) (\<lambda>found.
       case found of
         Inr _ \<Rightarrow> ret ()
       | Inl _ \<Rightarrow> create_vm_folder api vmFolder folderName)))"

definition DeleteVMFolder ::
  "('w, 'h) vc_api \<Rightarrow> 'h Session \<Rightarrow> string \<Rightarrow> 'w \<Rightarrow> unit res \<times> 'w" where
  "DeleteVMFolder api s folderName =
     (let path = folder_path s folderName in
      bindM (tryM (find_folder api path)) (\<lambda>found.
        case found of
          Inl err \<Rightarrow>
            if err = NotFoundError then ret ()
            else throw (Wrapf ''finding VM folder %q: %w'' [AStr path] err)
        | Inr folder \<Rightarrow>
            bindM (wrapM ''destroying VM folder %q: %w'' [AStr path] (destroy_folder api folder)) (\<lambda>task.
              wrapM ''waiting for VM folder %q destruction: %w'' [AStr path] (wait_task api task))))"

section \<open>Host names\<close>

text \<open>A host name, with a port or without: no slash, and not cut off after a colon.\<close>

definition host :: "string \<Rightarrow> bool" where
  "host h \<longleftrightarrow> h \<noteq> [] \<and> CHR ''/'' \<notin> set h \<and> last h \<noteq> CHR '':''"

definition url_tail :: "string \<Rightarrow> bool" where
  "url_tail path \<longleftrightarrow> path = [] \<or> hd path = CHR ''/''"

definition url_schemes :: "string list" where
  "url_schemes = [[], ''https://'', ''http://'']"

lemma ascii_lower_fixed: "ascii_lower c = d \<Longrightarrow> d \<in> {CHR ''/'', CHR '':''} \<Longrightarrow> c = d"
proof -
  assume c: "ascii_lower c = d" and d: "d \<in> {CHR ''/'', CHR '':''}"
  show "c = d"
  proof (cases "65 \<le> (of_char c :: nat) \<and> (of_char c :: nat) \<le> 90")
    case True
    with c have "of_char d = ((of_char c :: nat) + 32) mod 256" by (auto simp: ascii_lower_def)
    with True have "(of_char d :: nat) \<ge> 97" by simp
    with d show ?thesis by auto
  next
    case False
    with c show ?thesis by (auto simp: ascii_lower_def Let_def)
  qed
qed

lemma ToLower_append: "ToLower (s @ t) = ToLower s @ ToLower t"
  by (simp add: ToLower_def)

lemma length_ToLower [simp]: "length (ToLower s) = length s"
  by (simp add: ToLower_def)

lemma no_scheme:
  assumes h: "host h" and path: "url_tail path" and p: "CHR ''/'' \<notin> set p"
  shows "\<not> HasPrefix (ToLower (h @ path)) (p @ '':'' @ CHR ''/'' # r)"
proof
  assume "HasPrefix (ToLower (h @ path)) (p @ '':'' @ CHR ''/'' # r)"
  then obtain t where t: "ToLower h @ ToLower path = (p @ '':'') @ CHR ''/'' # t"
    by (auto simp: HasPrefix_iff ToLower_append)
  have sl: "CHR ''/'' \<notin> set (ToLower h)"
    using h ascii_lower_fixed by (force simp: host_def ToLower_def)
  show False
  proof (cases path)
    case Nil
    with t have "ToLower h = (p @ '':'') @ CHR ''/'' # t" by (simp add: ToLower_def)
    with sl show False by simp
  next
    case (Cons c q)
    with path have "ToLower path = CHR ''/'' # ToLower q"
      by (simp add: ToLower_def ascii_lower_def url_tail_def)
    with t have "ToLower h @ CHR ''/'' # ToLower q = (p @ '':'') @ CHR ''/'' # t" by simp
    from sep_inj [OF this sl] p have "ToLower h = p @ '':''" by simp
    then have "last (ToLower h) = CHR '':''" by simp
    with h have "ascii_lower (last h) = CHR '':''" by (simp add: ToLower_def host_def last_map)
    with h ascii_lower_fixed show False by (auto simp: host_def)
  qed
qed

lemma strip_scheme_host:
  assumes "host h" "url_tail path" "ToLower scheme \<in> set url_schemes"
  shows "strip_scheme (scheme @ h @ path) = h @ path"
proof -
  have no: "\<not> HasPrefix (ToLower (h @ path)) ''https://''" "\<not> HasPrefix (ToLower (h @ path)) ''http://''"
    using no_scheme [OF assms(1,2), of "''https''" "''/''"] no_scheme [OF assms(1,2), of "''http''" "''/''"]
    by simp_all
  from assms(3) consider "scheme = []" | "ToLower scheme = ''https://''" | "ToLower scheme = ''http://''"
    by (auto simp: url_schemes_def ToLower_def)
  then show ?thesis
  proof cases
    case 1
    with no show ?thesis by (simp add: strip_scheme_def)
  next
    case 2
    then have "length (ToLower scheme) = 8" by simp
    then have "length scheme = 8" by simp
    with 2 show ?thesis by (simp add: strip_scheme_def ToLower_append HasPrefix_def)
  next
    case 3
    then have "length (ToLower scheme) = 7" by simp
    then have "length scheme = 7" by simp
    with 3 show ?thesis by (simp add: strip_scheme_def ToLower_append HasPrefix_def)
  qed
qed

lemma SanitizeServer_no_slash: "CHR ''/'' \<notin> set (SanitizeServer server)"
  using Index_char_before [of _ "CHR ''/''"] Index_char_None [of _ "CHR ''/''"]
  by (auto simp: SanitizeServer_def Let_def split: option.splits)

text \<open>Whatever white space, scheme and path surround a host name in the configuration, the
  connection goes to that host name, and what it goes to never contains a slash; so a sanitized
  host name stays as it is.\<close>
theorem sanitize_gives_host:
  assumes "TrimSpace server = scheme @ h @ path" "host h" "url_tail path"
    and "ToLower scheme \<in> set url_schemes"
  shows "SanitizeServer server = h \<and> CHR ''/'' \<notin> set (SanitizeServer other)"
proof
  have h: "CHR ''/'' \<notin> set h" using assms(2) by (simp add: host_def)
  have "SanitizeServer server =
      (case Index (h @ path) ''/'' of Some idx \<Rightarrow> take idx (h @ path) | None \<Rightarrow> h @ path)"
    using strip_scheme_host [OF assms(2-4)] by (simp add: SanitizeServer_def Let_def assms(1))
  also have "\<dots> = h"
  proof (cases path)
    case Nil
    with h show ?thesis using Index_char_None [of h "CHR ''/''"] by simp
  next
    case (Cons c q)
    with assms(3) h show ?thesis by (simp add: url_tail_def Index_char_append)
  qed
  finally show "SanitizeServer server = h" .
qed (rule SanitizeServer_no_slash)

theorem sanitize_gives_host_witness:
  "SanitizeServer '' HTTPS://vc1.example.com:443/sdk '' = ''vc1.example.com:443''"
proof -
  have "TrimSpace '' HTTPS://vc1.example.com:443/sdk '' = ''HTTPS://'' @ ''vc1.example.com:443'' @ ''/sdk''"
    by code_simp
  moreover have "host ''vc1.example.com:443'' \<and> url_tail ''/sdk'' \<and> ToLower ''HTTPS://'' \<in> set url_schemes"
    by code_simp
  ultimately show ?thesis using sanitize_gives_host by blast
qed

section \<open>The VM folder\<close>

text \<open>
  What is used of the inventory: \<open>folders\<close> are the paths of the VM folders of a world.  A folder
  that is found is there and one that is reported as not found is not; a search changes nothing;
  the root of a datacenter's VM folders is \<open>/dc/vm\<close>; a created folder is there, and one that
  cannot be created because it \<open>already exists\<close> is there; once the destruction of a folder is
  complete it is gone.
\<close>

definition inventory_ok :: "('w, 'h) vc_api \<Rightarrow> ('w \<Rightarrow> string set) \<Rightarrow> string \<Rightarrow> bool" where
  "inventory_ok api folders dc \<longleftrightarrow>
     (\<forall>path w r w'. find_folder api path w = (r, w') \<longrightarrow> folders w' = folders w \<and>
        (case r of Inr f \<Rightarrow> path \<in> folders w \<and> f = path
         | Inl e \<Rightarrow> e = NotFoundError \<longrightarrow> path \<notin> folders w)) \<and>
     (\<forall>c w r w'. find_datacenter api c dc w = (r, w') \<longrightarrow> folders w' = folders w) \<and>
     (\<forall>d w r w'. vm_folder api d w = (r, w') \<longrightarrow> folders w' = folders w) \<and>
     (\<forall>c w d w' v root v'. find_datacenter api c dc w = (Inr d, w') \<longrightarrow>
        vm_folder api d v = (Inr root, v') \<longrightarrow> root = ''/'' @ dc @ ''/vm'') \<and>
     (\<forall>root name w r w'. create_folder api root name w = (r, w') \<longrightarrow>
        (case r of Inr _ \<Rightarrow> folders w' = insert (root @ ''/'' @ name) (folders w)
         | Inl e \<Rightarrow> folders w' = folders w \<and>
             (Contains (error_text api e) ''already exists'' \<longrightarrow> root @ ''/'' @ name \<in> folders w))) \<and>
     (\<forall>f w task w' w''. destroy_folder api f w = (Inr task, w') \<longrightarrow>
        wait_task api task w' = (Inr (), w'') \<longrightarrow> f \<notin> folders w'')"

lemma create_vm_folder_ok:
  assumes "create_vm_folder api root name w = (Inr (), w')"
  obtains created where "create_folder api root name w = (created, w')"
    and "case created of Inr _ \<Rightarrow> True | Inl e \<Rightarrow> Contains (error_text api e) ''already exists''"
proof -
  obtain r v where mk: "create_folder api root name w = (r, v)" by force
  show thesis
  proof (cases r)
    case (Inl e)
    with assms mk show thesis
      by (intro that [of r]) (auto simp: create_vm_folder_def comp_Inr split: if_splits)
  next
    case (Inr x)
    with assms mk show thesis by (intro that [of r]) (auto simp: create_vm_folder_def comp_Inr)
  qed
qed

lemma EnsureVMFolder_present:
  assumes inv: "inventory_ok api folders (sn_Datacenter s)"
    and run: "EnsureVMFolder api s name w = (Inr (), w')"
  shows "folders w' = insert (folder_path s name) (folders w)"
proof -
  let ?dc = "sn_Datacenter s" and ?path = "folder_path s name"
  from run obtain client d w1 root w2 found w3 where
    dc: "find_datacenter api client ?dc w = (Inr d, w1)" and vm: "vm_folder api d w1 = (Inr root, w2)"
    and found: "find_folder api ?path w2 = (found, w3)"
    and rest: "(case found of Inr _ \<Rightarrow> ret () | Inl _ \<Rightarrow> create_vm_folder api root name) w3 = (Inr (), w')"
    by (auto simp: EnsureVMFolder_def comp_Inr split: option.splits)
  have same: "folders w2 = folders w" "folders w3 = folders w" "root = ''/'' @ ?dc @ ''/vm''"
    using inv dc vm found unfolding inventory_ok_def by metis+
  then have path: "root @ ''/'' @ name = ?path" by (simp add: folder_path_def)
  show ?thesis
  proof (cases found)
    case (Inr f)
    with inv found same have "?path \<in> folders w" unfolding inventory_ok_def by fastforce
    with Inr rest same show ?thesis by (auto simp: comp_Inr)
  next
    case (Inl e)
    with rest have "create_vm_folder api root name w3 = (Inr (), w')" by simp
    then obtain created where mk: "create_folder api root name w3 = (created, w')"
      and res: "case created of Inr _ \<Rightarrow> True | Inl e \<Rightarrow> Contains (error_text api e) ''already exists''"
      by (rule create_vm_folder_ok)
    from inv mk have "case created of Inr _ \<Rightarrow> folders w' = insert (root @ ''/'' @ name) (folders w3)
       | Inl e \<Rightarrow> folders w' = folders w3 \<and>
           (Contains (error_text api e) ''already exists'' \<longrightarrow> root @ ''/'' @ name \<in> folders w3)"
      unfolding inventory_ok_def by blast
    with res path same show ?thesis by (auto split: sum.splits)
  qed
qed

lemma DeleteVMFolder_absent:
  assumes inv: "inventory_ok api folders (sn_Datacenter s)"
    and run: "DeleteVMFolder api s name w = (Inr (), w')"
  shows "folder_path s name \<notin> folders w'"
proof -
  let ?path = "folder_path s name"
  obtain found w1 where found: "find_folder api ?path w = (found, w1)" by force
  show ?thesis
  proof (cases found)
    case (Inl e)
    with run found have "e = NotFoundError" "w' = w1"
      by (auto simp: DeleteVMFolder_def Let_def comp_Inr split: if_splits)
    with inv found Inl show ?thesis unfolding inventory_ok_def by fastforce
  next
    case (Inr f)
    with inv found have "f = ?path" unfolding inventory_ok_def by fastforce
    moreover from run found Inr obtain task w2 where
      "destroy_folder api f w1 = (Inr task, w2)" "wait_task api task w2 = (Inr (), w')"
      by (auto simp: DeleteVMFolder_def Let_def comp_Inr)
    ultimately show ?thesis using inv unfolding inventory_ok_def by blast
  qed
qed

text \<open>After a successful \<open>EnsureVMFolder\<close> the folder is in the inventory, and nothing else has
  changed in it, whether the folder was there before, was created, or was created by somebody else
  in between; after a successful \<open>DeleteVMFolder\<close> it is not in the inventory.\<close>
theorem vm_folder_ensured_deleted:
  assumes "inventory_ok api folders (sn_Datacenter s)"
    and "EnsureVMFolder api s name w = (Inr (), w1)" "DeleteVMFolder api s name w2 = (Inr (), w3)"
  shows "folders w1 = insert (folder_path s name) (folders w) \<and> folder_path s name \<notin> folders w3"
  using EnsureVMFolder_present [OF assms(1,2)] DeleteVMFolder_absent [OF assms(1,3)] by simp

end
