(* ===== verification/SessionCache.thy ===== *)
theory SessionCache
  imports Sessions
begin

text \<open>
  The session cache of \<open>pkg/vsphere/session.go\<close> against its specification, and its executions.

  The specification is a partial function from (server, datacenter, user) to sessions.  The code
  keys its map with the three joined by \<open>#\<close>, which is faithful while neither server nor datacenter
  has a \<open>#\<close>.  An execution is a sequence of \<open>GetOrCreate\<close> and \<open>ClearSessions\<close> steps; what is tracked
  along it are the logins that are open at the vCenter.
\<close>

section \<open>The specification of the cache\<close>

type_synonym 'h cache_spec = "string \<times> string \<times> string \<rightharpoonup> 'h Session"

definition params_key :: "Params \<Rightarrow> string \<times> string \<times> string" where
  "params_key p = (pr_Server p, pr_Datacenter p, pr_Username p)"

definition key_ok :: "Params \<Rightarrow> bool" where
  "key_ok p \<longleftrightarrow> CHR ''#'' \<notin> set (pr_Server p) \<and> CHR ''#'' \<notin> set (pr_Datacenter p)"

definition spec_get ::
  "('w, 'h) vc_api \<Rightarrow> Params \<Rightarrow> 'h cache_spec \<times> 'w \<Rightarrow> 'h Session res \<times> ('h cache_spec \<times> 'w)" where
  "spec_get api p = (\<lambda>(m, w).
     case m (params_key p) of
       Some s \<Rightarrow> (Inr s, (m, w))
     | None \<Rightarrow>
         (case NewSession api p w of
            (Inl e, w) \<Rightarrow> (Inl e, (m, w))
          | (Inr s, w) \<Rightarrow> (Inr s, (m(params_key p \<mapsto> s), w))))"

text \<open>The abstraction: read the code's map at the joined key.\<close>

definition cache_of :: "'h Session gomap \<Rightarrow> 'h cache_spec" where
  "cache_of m = (\<lambda>(server, dc, user).
     if CHR ''#'' \<in> set server \<or> CHR ''#'' \<in> set dc then None
     else gm_lookup m (server @ ''#'' @ dc @ ''#'' @ user))"

definition abs_state :: "('w, 'h) vc_state \<Rightarrow> 'h cache_spec \<times> 'w" where
  "abs_state st = (cache_of (sessionCache st), outside st)"

lemma joined_key_inj:
  assumes "CHR ''#'' \<notin> set a" "CHR ''#'' \<notin> set b" "CHR ''#'' \<notin> set a'" "CHR ''#'' \<notin> set b'"
    and "a @ ''#'' @ b @ ''#'' @ c = a' @ ''#'' @ b' @ ''#'' @ c'"
  shows "(a, b, c) = (a', b', c')"
proof -
  from assms(5) have "a @ CHR ''#'' # (b @ CHR ''#'' # c) = a' @ CHR ''#'' # (b' @ CHR ''#'' # c')" by simp
  from sep_inj [OF this assms(1,3)] have "a = a'" and bc: "b @ CHR ''#'' # c = b' @ CHR ''#'' # c'" by simp_all
  from sep_inj [OF bc assms(2,4)] \<open>a = a'\<close> show ?thesis by simp
qed

lemma cache_of_key: "key_ok p \<Longrightarrow> cache_of m (params_key p) = gm_lookup m (cacheKey p)"
  by (simp add: cache_of_def params_key_def key_ok_def cacheKey_def)

lemma cache_of_put:
  assumes "key_ok p"
  shows "cache_of (gm_put (cacheKey p) s m) = (cache_of m)(params_key p \<mapsto> s)"
proof
  fix t :: "string \<times> string \<times> string"
  obtain a b c where t: "t = (a, b, c)" by (cases t)
  show "cache_of (gm_put (cacheKey p) s m) t = ((cache_of m)(params_key p \<mapsto> s)) t"
  proof (cases "CHR ''#'' \<in> set a \<or> CHR ''#'' \<in> set b")
    case True
    with assms t show ?thesis by (auto simp: cache_of_def params_key_def key_ok_def)
  next
    case False
    then have "a @ ''#'' @ b @ ''#'' @ c = cacheKey p \<longleftrightarrow> t = params_key p"
      using assms joined_key_inj [of a b "pr_Server p" "pr_Datacenter p" c "pr_Username p"] t
      by (auto simp: cacheKey_def params_key_def key_ok_def)
    with False t show ?thesis by (simp add: cache_of_def gm_lookup_put)
  qed
qed

lemma close_all_cache:
  "fold (\<lambda>(key, s) st. \<lparr>sessionCache = AList.delete key (sessionCache st), outside = Close api s (outside st)\<rparr>)
     xs st = \<lparr>sessionCache = filter (\<lambda>(k, _). k \<notin> fst ` set xs) (sessionCache st),
              outside = fold (\<lambda>(_, s) w. Close api s w) xs (outside st)\<rparr>"
proof (induction xs arbitrary: st)
  case Nil
  then show ?case by simp
next
  case (Cons x xs)
  obtain k s where x: "x = (k, s)" by force
  have "filter (\<lambda>(k', _). k' \<notin> fst ` set xs) (AList.delete k (sessionCache st)) =
      filter (\<lambda>(k', _). k' \<notin> fst ` set (x # xs)) (sessionCache st)"
    by (auto simp: x AList.delete_eq intro!: filter_cong)
  with Cons x show ?case by simp
qed

lemma ClearSessions_eq:
  "ClearSessions api st =
     \<lparr>sessionCache = [], outside = fold (\<lambda>(_, s) w. Close api s w) (sessionCache st) (outside st)\<rparr>"
  by (force simp: ClearSessions_def close_all_cache filter_empty_conv)

text \<open>C21: the cache refines its specification: \<open>GetOrCreate\<close> does on the code's map, keyed by joined
  strings, what the specification does on a partial function keyed by server, datacenter and user,
  result, cache and outside world alike, and \<open>ClearSessions\<close> leaves the empty function, having
  closed every session.\<close>
theorem session_cache_refines:
  assumes "key_ok p"
  shows "map_prod id abs_state (GetOrCreate api p st) = spec_get api p (abs_state st)
     \<and> abs_state (ClearSessions api st) =
         (Map.empty, fold (\<lambda>(_, s) w. Close api s w) (sessionCache st) (outside st))"
proof
  show "map_prod id abs_state (GetOrCreate api p st) = spec_get api p (abs_state st)"
    using assms
    by (auto simp: GetOrCreate_def spec_get_def abs_state_def Let_def cache_of_key cache_of_put
        split: option.splits prod.splits sum.splits)
  have "cache_of [] = Map.empty" by (auto simp: cache_of_def)
  then show "abs_state (ClearSessions api st) =
         (Map.empty, fold (\<lambda>(_, s) w. Close api s w) (sessionCache st) (outside st))"
    by (simp add: abs_state_def ClearSessions_eq)
qed

text \<open>Without the condition it does not: two targets with one key share a session.\<close>

lemma shared_key:
  "\<exists>p q. params_key p \<noteq> params_key q \<and> cacheKey p = cacheKey q"
proof -
  let ?p = "\<lparr>pr_Server = ''vc'', pr_Datacenter = ''dc#1'', pr_Username = ''u'', pr_Password = [], pr_Insecure = True\<rparr>"
  let ?q = "\<lparr>pr_Server = ''vc'', pr_Datacenter = ''dc'', pr_Username = ''1#u'', pr_Password = [], pr_Insecure = True\<rparr>"
  have "params_key ?p \<noteq> params_key ?q \<and> cacheKey ?p = cacheKey ?q"
    by (simp add: params_key_def cacheKey_def)
  then show ?thesis by blast
qed

section \<open>Reuse\<close>

lemma GetOrCreate_keeps:
  "gm_lookup (sessionCache st) k = Some s \<Longrightarrow>
     gm_lookup (sessionCache (snd (GetOrCreate api q st))) k = Some s"
  by (auto simp: GetOrCreate_def Let_def gm_lookup_put split: option.splits prod.splits sum.splits)

lemma GetOrCreate_stores:
  "GetOrCreate api p st = (Inr s, st') \<Longrightarrow> gm_lookup (sessionCache st') (cacheKey p) = Some s"
  by (auto simp: GetOrCreate_def Let_def gm_lookup_put split: option.splits prod.splits sum.splits)

lemma GetOrCreate_hit:
  "gm_lookup (sessionCache st) (cacheKey p) = Some s \<Longrightarrow> GetOrCreate api p st = (Inr s, st)"
  by (simp add: GetOrCreate_def)

text \<open>A session, once created, is what every later \<open>GetOrCreate\<close> with the same key returns,
  without any call to the outside, whatever other sessions are asked for in between and whether
  those calls succeed.\<close>
theorem session_reused:
  assumes "GetOrCreate api p st = (Inr s, st1)" "cacheKey p' = cacheKey p"
    and "st2 = fold (\<lambda>q st. snd (GetOrCreate api q st)) qs st1"
  shows "GetOrCreate api p' st2 = (Inr s, st2)"
proof -
  have "gm_lookup (sessionCache (fold (\<lambda>q st. snd (GetOrCreate api q st)) qs st1)) (cacheKey p) = Some s"
    using GetOrCreate_stores [OF assms(1)] by (induction qs arbitrary: st1) (simp_all add: GetOrCreate_keeps)
  with assms(2,3) show ?thesis by (simp add: GetOrCreate_hit)
qed

section \<open>Open logins\<close>

text \<open>
  \<open>live w\<close> is the set of clients that are logged in.  A new client is a new one; logging in and
  out do what they say when they succeed and nothing when they fail; the other calls neither open
  nor close a login.
\<close>

definition logins_ok :: "('w, 'h) vc_api \<Rightarrow> ('w \<Rightarrow> 'h set) \<Rightarrow> bool" where
  "logins_ok api live \<longleftrightarrow>
     (\<forall>h i w r w'. vim_client api h i w = (r, w') \<longrightarrow>
        live w' = live w \<and> (\<forall>c. r = Inr c \<longrightarrow> c \<notin> live w)) \<and>
     (\<forall>c u p w r w'. vc_login api c u p w = (r, w') \<longrightarrow>
        live w' = (if is_ok r then insert c (live w) else live w)) \<and>
     (\<forall>c w r w'. vc_logout api c w = (r, w') \<longrightarrow>
        live w' = (if is_ok r then live w - {c} else live w)) \<and>
     (\<forall>c d w r w'. find_datacenter api c d w = (r, w') \<longrightarrow> live w' = live w) \<and>
     (\<forall>c u p w r w'. rest_login api c u p w = (r, w') \<longrightarrow> live w' = live w) \<and>
     (\<forall>c w r w'. rest_logout api c w = (r, w') \<longrightarrow> live w' = live w)"

text \<open>Once the login has succeeded nothing else fails: the datacenter is there, the REST login
  works, and so do the logouts.\<close>

definition reliable :: "('w, 'h) vc_api \<Rightarrow> bool" where
  "reliable api \<longleftrightarrow>
     (\<forall>c d w. is_ok (fst (find_datacenter api c d w))) \<and>
     (\<forall>c u p w. is_ok (fst (rest_login api c u p w))) \<and>
     (\<forall>c w. is_ok (fst (vc_logout api c w)))"

definition open_clients :: "'h Session gomap \<Rightarrow> 'h list" where
  "open_clients m = map (\<lambda>(_, s). the (sn_Client s)) m"

lemma open_clients_simps [simp]:
  "open_clients [] = []" "open_clients (m @ [(k, s)]) = open_clients m @ [the (sn_Client s)]"
  "open_clients ((k, s) # m) = the (sn_Client s) # open_clients m"
  by (simp_all add: open_clients_def)

text \<open>The executions from a state with an empty cache; \<open>other\<close> is whatever else happens, here or
  in other processes, as long as no login is opened or closed.\<close>

inductive execution :: "('w, 'h) vc_api \<Rightarrow> ('w \<Rightarrow> 'h set) \<Rightarrow> 'w \<Rightarrow> ('w, 'h) vc_state \<Rightarrow> bool"
  for api live w0 where
  start: "execution api live w0 \<lparr>sessionCache = [], outside = w0\<rparr>"
| get: "execution api live w0 st \<Longrightarrow> execution api live w0 (snd (GetOrCreate api p st))"
| clear: "execution api live w0 st \<Longrightarrow> execution api live w0 (ClearSessions api st)"
| other: "execution api live w0 st \<Longrightarrow> live w' = live (outside st) \<Longrightarrow>
    execution api live w0 (st\<lparr>outside := w'\<rparr>)"

lemma logins_okD:
  assumes "logins_ok api live"
  shows "vim_client api h i w = (r, w') \<Longrightarrow> live w' = live w \<and> (\<forall>c. r = Inr c \<longrightarrow> c \<notin> live w)"
    and "vc_login api c u p w = (r', w') \<Longrightarrow> live w' = (if is_ok r' then insert c (live w) else live w)"
    and "vc_logout api c w = (r', w') \<Longrightarrow> live w' = (if is_ok r' then live w - {c} else live w)"
    and "find_datacenter api c d w = (r'', w') \<Longrightarrow> live w' = live w"
    and "rest_login api c u p w = (r', w') \<Longrightarrow> live w' = live w"
    and "rest_logout api c w = (r', w') \<Longrightarrow> live w' = live w"
  using assms unfolding logins_ok_def by metis+

lemma NewSession_ok:
  assumes ok: "logins_ok api live" and run: "NewSession api p w = (Inr s, w')"
  obtains c where "sn_Client s = Some c" "c \<notin> live w" "live w' = insert c (live w)"
proof -
  from run obtain c w1 w2 d w3 where
    vim: "vim_client api (SanitizeServer (pr_Server p)) (pr_Insecure p) w = (Inr c, w1)"
    and login: "vc_login api c (pr_Username p) (pr_Password p) w1 = (Inr (), w2)"
    and dc: "find_datacenter api c (pr_Datacenter p) w2 = (Inr d, w3)"
    and rest: "rest_login api (rest_client api c) (pr_Username p) (pr_Password p) w3 = (Inr (), w')"
    and s: "sn_Client s = Some c"
    by (auto simp: NewSession_def Let_def comp_Inr)
  have "c \<notin> live w" "live w1 = live w" "live w2 = insert c (live w1)" "live w3 = live w2" "live w' = live w3"
    using logins_okD(1) [OF ok vim] logins_okD(2) [OF ok login] logins_okD(4) [OF ok dc]
      logins_okD(5) [OF ok rest] by simp_all
  then show thesis using that s by simp
qed

lemma NewSession_err:
  assumes ok: "logins_ok api live" and run: "NewSession api p w = (Inl e, w')"
  shows "live w \<subseteq> live w' \<and> (reliable api \<longrightarrow> live w' = live w)"
proof -
  let ?h = "SanitizeServer (pr_Server p)" and ?u = "pr_Username p" and ?p = "pr_Password p"
  obtain r1 w1 where 1: "vim_client api ?h (pr_Insecure p) w = (r1, w1)" by force
  have l1: "live w1 = live w" using logins_okD(1) [OF ok 1] by simp
  show ?thesis
  proof (cases r1)
    case (Inl e1)
    with 1 l1 run show ?thesis by (simp add: NewSession_def Let_def bindM_def wrapM_def)
  next
    case (Inr c)
    obtain r2 w2 where 2: "vc_login api c ?u ?p w1 = (r2, w2)" by force
    have l2: "live w2 = (if is_ok r2 then insert c (live w1) else live w1)" by (rule logins_okD(2) [OF ok 2])
    show ?thesis
    proof (cases r2)
      case (Inl e2)
      with 1 2 l1 l2 Inr run show ?thesis by (simp add: NewSession_def Let_def bindM_def wrapM_def)
    next
      case (Inr u)
      obtain r3 w3 where 3: "find_datacenter api c (pr_Datacenter p) w2 = (r3, w3)" by force
      obtain r4 w4 where 4: "rest_login api (rest_client api c) ?u ?p w3 = (r4, w4)" by force
      have l34: "live w3 = live w2" "live w4 = live w3" using logins_okD(4) [OF ok 3] logins_okD(5) [OF ok 4] by simp_all
      from run 1 2 3 4 \<open>r1 = Inr c\<close> Inr have "w' = (if is_ok r3 then w4 else w3)" "\<not> (is_ok r3 \<and> is_ok r4)"
        by (auto simp: NewSession_def Let_def bindM_def wrapM_def ret_def split: sum.splits)
      moreover have "reliable api \<Longrightarrow> is_ok r3 \<and> is_ok r4"
        using 3 4 unfolding reliable_def by (metis fst_conv)
      ultimately show ?thesis using l1 l2 l34 by auto
    qed
  qed
qed

lemma Close_logs_out:
  assumes ok: "logins_ok api live" and s: "sn_Client s = Some c"
  shows "live w - {c} \<subseteq> live (Close api s w) \<and> live (Close api s w) \<subseteq> live w \<and>
    (reliable api \<longrightarrow> live (Close api s w) = live w - {c})"
proof -
  let ?w1 = "case sn_restClient s of None \<Rightarrow> w | Some rc \<Rightarrow> snd (rest_logout api rc w)"
  have 1: "live ?w1 = live w"
    using logins_okD(6) [OF ok] by (auto split: option.splits) (metis prod.collapse)+
  obtain r w2 where 2: "vc_logout api c ?w1 = (r, w2)" by force
  have "live w2 = (if is_ok r then live ?w1 - {c} else live ?w1)" by (rule logins_okD(3) [OF ok 2])
  moreover have "Close api s w = w2" using s 2 by (simp add: Close_def)
  moreover have "reliable api \<Longrightarrow> is_ok r" using 2 unfolding reliable_def by (metis fst_conv)
  ultimately show ?thesis using 1 by auto
qed

lemma close_all_logs_out:
  assumes ok: "logins_ok api live"
  shows "\<forall>(k, s) \<in> set m. sn_Client s \<noteq> None \<Longrightarrow>
    live w - set (open_clients m) \<subseteq> live (fold (\<lambda>(_, s) w. Close api s w) m w) \<and>
    (reliable api \<longrightarrow> live (fold (\<lambda>(_, s) w. Close api s w) m w) = live w - set (open_clients m))"
proof (induction m arbitrary: w)
  case Nil
  then show ?case by (simp add: open_clients_def)
next
  case (Cons x m)
  obtain k s where x: "x = (k, s)" by force
  with Cons.prems obtain c where s: "sn_Client s = Some c" by auto
  have "\<forall>(k, s) \<in> set m. sn_Client s \<noteq> None" using Cons.prems by simp
  from Cons.IH [OF this, of "Close api s w"] Close_logs_out [OF ok s, of w]
  show ?case by (auto simp: x s open_clients_def)
qed

definition session_inv :: "('w, 'h) vc_api \<Rightarrow> ('w \<Rightarrow> 'h set) \<Rightarrow> 'w \<Rightarrow> ('w, 'h) vc_state \<Rightarrow> bool" where
  "session_inv api live w0 st \<longleftrightarrow>
     (let cs = open_clients (sessionCache st) in
      gm_ok (sessionCache st) \<and> (\<forall>(k, s) \<in> set (sessionCache st). sn_Client s \<noteq> None) \<and>
      distinct cs \<and> set cs \<inter> live w0 = {} \<and> live w0 \<union> set cs \<subseteq> live (outside st) \<and>
      (reliable api \<longrightarrow> live (outside st) = live w0 \<union> set cs))"

lemma session_inv_get:
  assumes ok: "logins_ok api live" and inv: "session_inv api live w0 st"
  shows "session_inv api live w0 (snd (GetOrCreate api p st))"
proof (cases "gm_lookup (sessionCache st) (cacheKey p)")
  case (Some s)
  with inv show ?thesis by (simp add: GetOrCreate_hit)
next
  case None
  obtain r w' where new: "NewSession api p (outside st) = (r, w')" by force
  show ?thesis
  proof (cases r)
    case (Inl e)
    with NewSession_err [OF ok] new
    have "live (outside st) \<subseteq> live w' \<and> (reliable api \<longrightarrow> live w' = live (outside st))" by blast
    with inv None new Inl show ?thesis by (auto simp: GetOrCreate_def session_inv_def Let_def)
  next
    case (Inr s)
    with NewSession_ok [OF ok] new obtain c where
      c: "sn_Client s = Some c" "c \<notin> live (outside st)" "live w' = insert c (live (outside st))" by metis
    from None have fresh: "cacheKey p \<notin> fst ` set (sessionCache st)" by (simp add: map_of_eq_None_iff)
    then have put: "gm_put (cacheKey p) s (sessionCache st) = sessionCache st @ [(cacheKey p, s)]"
      by (rule gm_put_fresh)
    have st': "snd (GetOrCreate api p st) =
        \<lparr>sessionCache = sessionCache st @ [(cacheKey p, s)], outside = w'\<rparr>"
      using None new Inr by (simp add: GetOrCreate_def Let_def put)
    have "gm_ok (sessionCache st @ [(cacheKey p, s)])"
      using inv fresh by (simp add: session_inv_def Let_def gm_ok_def)
    with inv c show ?thesis unfolding st' by (auto simp: session_inv_def Let_def)
  qed
qed

lemma session_inv_clear:
  assumes ok: "logins_ok api live" and inv: "session_inv api live w0 st"
  shows "session_inv api live w0 (ClearSessions api st)"
proof -
  have "\<forall>(k, s) \<in> set (sessionCache st). sn_Client s \<noteq> None" using inv by (simp add: session_inv_def Let_def)
  note logs_out = close_all_logs_out [OF ok this, of "outside st"]
  let ?cs = "set (open_clients (sessionCache st))"
  have "?cs \<inter> live w0 = {}" "live w0 \<union> ?cs \<subseteq> live (outside st)"
    "reliable api \<longrightarrow> live (outside st) = live w0 \<union> ?cs"
    using inv by (simp_all add: session_inv_def Let_def)
  with logs_out have "live w0 \<subseteq> live (outside (ClearSessions api st))"
    "reliable api \<longrightarrow> live (outside (ClearSessions api st)) = live w0"
    by (auto simp: ClearSessions_eq)
  then show ?thesis by (simp add: session_inv_def ClearSessions_eq)
qed

lemma execution_inv:
  assumes "execution api live w0 st" "logins_ok api live"
  shows "session_inv api live w0 st"
  using assms
proof (induction rule: execution.induct)
  case start
  show ?case by (simp add: session_inv_def open_clients_def)
next
  case (get st p)
  then show ?case by (simp add: session_inv_get)
next
  case (clear st)
  then show ?case by (simp add: session_inv_clear)
next
  case (other st w')
  then show ?case by (simp add: session_inv_def Let_def)
qed


text \<open>What \<open>NewSession\<close> still has to do after the login fails, in the world the login left: the datacenter is not found, or it
  is found and the REST login fails.\<close>

definition fails_after_login :: "('w, 'h) vc_api \<Rightarrow> 'h \<Rightarrow> Params \<Rightarrow> 'w \<Rightarrow> bool" where
  "fails_after_login api c p w \<longleftrightarrow>
     (case find_datacenter api c (pr_Datacenter p) w of
        (Inl _, _) \<Rightarrow> True
      | (Inr _, w') \<Rightarrow> \<not> is_ok (fst (rest_login api (rest_client api c) (pr_Username p) (pr_Password p) w')))"

lemma NewSession_fails_late:
  assumes ok: "logins_ok api live"
    and vim: "vim_client api (SanitizeServer (pr_Server p)) (pr_Insecure p) w = (Inr c, w1)"
    and login: "vc_login api c (pr_Username p) (pr_Password p) w1 = (Inr (), w2)"
    and late: "fails_after_login api c p w2"
    and run: "NewSession api p w = (r, w')"
  shows "\<not> is_ok r \<and> live w' = insert c (live w)"
proof -
  obtain r3 w3 where 3: "find_datacenter api c (pr_Datacenter p) w2 = (r3, w3)" by force
  obtain r4 w4 where 4: "rest_login api (rest_client api c) (pr_Username p) (pr_Password p) w3 = (r4, w4)" by force
  have "live w1 = live w" "live w2 = insert c (live w1)" "live w3 = live w2" "live w4 = live w3"
    using logins_okD(1) [OF ok vim] logins_okD(2) [OF ok login] logins_okD(4) [OF ok 3] logins_okD(5) [OF ok 4]
    by simp_all
  moreover have "\<not> is_ok r \<and> (w' = w3 \<or> w' = w4)"
    using run vim login late 3 4
    by (cases r3; cases r4) (auto simp: NewSession_def Let_def bindM_def wrapM_def fails_after_login_def)
  ultimately show ?thesis by auto
qed

text \<open>C39: a session whose creation fails after the login, because the datacenter is not found or the
  REST login fails, is returned as an error and not cached, and its login stays open, also after
  \<open>ClearSessions\<close>: nobody has a handle to close it.\<close>
theorem failed_session_leaks:
  assumes "execution api live w0 st" "logins_ok api live"
    and "gm_lookup (sessionCache st) (cacheKey p) = None"
    and "vim_client api (SanitizeServer (pr_Server p)) (pr_Insecure p) (outside st) = (Inr c, w1)"
    and "vc_login api c (pr_Username p) (pr_Password p) w1 = (Inr (), w2)"
    and "fails_after_login api c p w2"
    and "GetOrCreate api p st = (r, st')"
  shows "\<not> is_ok r \<and> sessionCache st' = sessionCache st \<and> c \<notin> live (outside st)
     \<and> c \<in> live (outside (ClearSessions api st'))"
proof -
  note inv = execution_inv [OF assms(1,2)]
  then have some: "\<forall>(k, s) \<in> set (sessionCache st). sn_Client s \<noteq> None"
    by (simp add: session_inv_def Let_def)
  obtain q w3 where new: "NewSession api p (outside st) = (q, w3)" by force
  note late = NewSession_fails_late [OF assms(2,4,5,6) new]
  with new assms(3,7) have st': "\<not> is_ok r" "sessionCache st' = sessionCache st" "outside st' = w3"
    by (auto simp: GetOrCreate_def Let_def split: sum.splits)
  have fresh: "c \<notin> live (outside st)" using logins_okD(1) [OF assms(2,4)] by simp
  have "set (open_clients (sessionCache st)) \<subseteq> live (outside st)"
    using inv by (simp add: session_inv_def Let_def)
  with late fresh have "c \<in> live w3 - set (open_clients (sessionCache st))" by auto
  with close_all_logs_out [OF assms(2) some, of w3] st' fresh show ?thesis
    by (auto simp: ClearSessions_eq)
qed

end
