(* ===== verification/OvaCache.thy ===== *)
theory OvaCache
  imports LabState
begin

text \<open>
  The OVA download cache of \<open>pkg/vsphere/image.go\<close>: \<open>DownloadOVAToDir\<close> and \<open>hashFile\<close>.

  The disk is a map from cleaned paths to contents, with the file locks the process holds and the
  requests it has sent.  Every call of the operating system takes the next entry of \<open>dk_faults\<close>:
  \<open>Some k\<close> makes it fail, a write after \<open>k\<close> bytes; when the list is used up nothing fails any more.
  \<open>dk_temps\<close> are the random suffixes \<open>os.CreateTemp\<close> tries.  Directories are not represented: that
  \<open>os.MkdirAll\<close> worked is all that is used of them.  A lock that another process holds makes
  \<open>syscall.Flock\<close> wait, and what that process does to the disk has then happened before.  SHA-256
  and the remote server are parameters; what the server answers may depend on the requests sent to it before.
\<close>

record disk =
  dk_files :: "string \<rightharpoonup> string"
  dk_locks :: "string list"
  dk_requests :: "string list"
  dk_faults :: "nat option list"
  dk_temps :: "string list"

record response =
  rs_StatusCode :: int
  rs_Status :: string
  rs_Body :: string
  rs_err :: "goerror option"

record fetch_api =
  hex_sha256 :: "string \<Rightarrow> string"
  new_request :: "string \<Rightarrow> unit res"
  http_do :: "string list \<Rightarrow> string \<Rightarrow> response res"

section \<open>The operating system\<close>

definition next_fault :: "disk \<Rightarrow> nat option \<times> disk" where
  "next_fault d =
     (case dk_faults d of [] \<Rightarrow> (None, d) | x # xs \<Rightarrow> (x, d\<lparr>dk_faults := xs\<rparr>))"

definition faulty :: "(disk \<Rightarrow> 'a res \<times> disk) \<Rightarrow> disk \<Rightarrow> 'a res \<times> disk" where
  "faulty f d =
     (case next_fault d of (None, d) \<Rightarrow> f d | (Some _, d) \<Rightarrow> (Inl (ForeignError ''I/O error''), d))"

definition MkdirAll :: "string \<Rightarrow> disk \<Rightarrow> unit res \<times> disk" where
  "MkdirAll path = faulty (ret ())"

definition OpenCreate :: "string \<Rightarrow> disk \<Rightarrow> unit res \<times> disk" where
  "OpenCreate path = faulty (\<lambda>d.
     (Inr (), if dk_files d path = None then d\<lparr>dk_files := (dk_files d)(path \<mapsto> '''')\<rparr> else d))"

definition Flock :: "string \<Rightarrow> disk \<Rightarrow> unit res \<times> disk" where
  "Flock path = faulty (\<lambda>d. (Inr (), d\<lparr>dk_locks := path # dk_locks d\<rparr>))"

text \<open>Closing the lock file releases the lock even where the explicit unlock fails.\<close>

definition Unlock :: "string \<Rightarrow> disk \<Rightarrow> disk" where
  "Unlock path d = d\<lparr>dk_locks := remove1 path (dk_locks d)\<rparr>"

definition Open :: "string \<Rightarrow> disk \<Rightarrow> string res \<times> disk" where
  "Open path = faulty (\<lambda>d.
     (case dk_files d path of None \<Rightarrow> Inl (ForeignError ''no such file'') | Some c \<Rightarrow> Inr c, d))"

definition temp_path :: "string \<Rightarrow> string \<Rightarrow> string" where
  "temp_path dir t = path_join dir (''ova-download-'' @ t)"

definition CreateTemp :: "string \<Rightarrow> disk \<Rightarrow> string res \<times> disk" where
  "CreateTemp dir = faulty (\<lambda>d.
     (case dropWhile (\<lambda>t. dk_files d (temp_path dir t) \<noteq> None) (dk_temps d) of
        [] \<Rightarrow> (Inl (ForeignError ''file exists''), d\<lparr>dk_temps := []\<rparr>)
      | t # ts \<Rightarrow> (Inr (temp_path dir t),
          d\<lparr>dk_files := (dk_files d)(temp_path dir t \<mapsto> ''''), dk_temps := ts\<rparr>)))"

text \<open>\<open>io.Copy\<close> of a response body to a file.\<close>

definition CopyBody :: "string \<Rightarrow> response \<Rightarrow> disk \<Rightarrow> unit res \<times> disk" where
  "CopyBody path resp d =
     (case next_fault d of
        (Some k, d) \<Rightarrow> (Inl (ForeignError ''I/O error''), d\<lparr>dk_files := (dk_files d)(path \<mapsto> take k (rs_Body resp))\<rparr>)
      | (None, d) \<Rightarrow>
          (case rs_err resp of None \<Rightarrow> Inr () | Some err \<Rightarrow> Inl err,
           d\<lparr>dk_files := (dk_files d)(path \<mapsto> rs_Body resp)\<rparr>))"

definition CloseFile :: "string \<Rightarrow> disk \<Rightarrow> unit res \<times> disk" where
  "CloseFile path = faulty (ret ())"

definition Rename :: "string \<Rightarrow> string \<Rightarrow> disk \<Rightarrow> unit res \<times> disk" where
  "Rename old new = faulty (\<lambda>d.
     (case dk_files d old of
        None \<Rightarrow> (Inl (ForeignError ''no such file''), d)
      | Some c \<Rightarrow> (Inr (), d\<lparr>dk_files := (dk_files d)(old := None, new \<mapsto> c)\<rparr>)))"

definition Remove :: "string \<Rightarrow> disk \<Rightarrow> unit res \<times> disk" where
  "Remove path = faulty (\<lambda>d. (Inr (), d\<lparr>dk_files := (dk_files d)(path := None)\<rparr>))"

text \<open>A deferred call.\<close>

definition deferM :: "(disk \<Rightarrow> disk) \<Rightarrow> (disk \<Rightarrow> 'a res \<times> disk) \<Rightarrow> disk \<Rightarrow> 'a res \<times> disk" where
  "deferM cleanup m d = (case m d of (r, d) \<Rightarrow> (r, cleanup d))"

section \<open>Names in the cache\<close>

definition ova_filename :: "string \<Rightarrow> string" where
  "ova_filename ovaURL =
     (let urlPath = (case Index ovaURL ''?'' of Some idx \<Rightarrow> take idx ovaURL | None \<Rightarrow> ovaURL);
          filename = Base urlPath
      in if filename = '''' \<or> filename = ''.'' \<or> filename = ''/'' then ''rhcos.ova'' else filename)"

definition ova_path :: "string \<Rightarrow> string \<Rightarrow> string" where
  "ova_path cacheDir ovaURL = path_join cacheDir (ova_filename ovaURL)"

definition defaultCacheDir :: string where
  "defaultCacheDir = ''/tmp/ova-scratch/image_cache''"

section \<open>Hashing\<close>

definition hashFile :: "fetch_api \<Rightarrow> string \<Rightarrow> disk \<Rightarrow> string res \<times> disk" where
  "hashFile api path = bindM (Open path) (\<lambda>content. faulty (ret (hex_sha256 api content)))"

section \<open>Downloading\<close>

definition ova_cached :: "fetch_api \<Rightarrow> string \<Rightarrow> string \<Rightarrow> disk \<Rightarrow> bool res \<times> disk" where
  "ova_cached api localPath sha256Expected =
     (if sha256Expected \<noteq> ''''
      then bindM (tryM (hashFile api localPath)) (\<lambda>hash. ret (hash = Inr sha256Expected))
      else bindM (tryM (Open localPath)) (\<lambda>found. ret (is_ok found)))"

definition request_ova :: "fetch_api \<Rightarrow> string \<Rightarrow> disk \<Rightarrow> response res \<times> disk" where
  "request_ova api ovaURL d =
     (case new_request api ovaURL of
        Inl err \<Rightarrow> (Inl (Wrapf ''creating download request: %w'' [] err), d)
      | Inr _ \<Rightarrow>
          (let d = d\<lparr>dk_requests := dk_requests d @ [ovaURL]\<rparr> in
           case http_do api (dk_requests d) ovaURL of
             Inl err \<Rightarrow> (Inl (Wrapf ''downloading OVA from %s: %w'' [AStr ovaURL] err), d)
           | Inr resp \<Rightarrow>
               (if rs_StatusCode resp \<noteq> 200
                then (Inl (Errorf ''downloading OVA from %s: HTTP %d %s''
                        [AStr ovaURL, AInt (rs_StatusCode resp), AStr (rs_Status resp)]), d)
                else (Inr resp, d))))"

definition store_ova ::
  "fetch_api \<Rightarrow> response \<Rightarrow> string \<Rightarrow> string \<Rightarrow> string \<Rightarrow> disk \<Rightarrow> string res \<times> disk" where
  "store_ova api resp sha256Expected localPath tmpPath =
     bindM (wrapM ''writing OVA to %s: %w'' [AStr tmpPath] (CopyBody tmpPath resp)) (\<lambda>_.
     bindM (wrapM ''closing temp file %s: %w'' [AStr tmpPath] (CloseFile tmpPath)) (\<lambda>_.
       let actualHash = hex_sha256 api (rs_Body resp) in
       if sha256Expected \<noteq> '''' \<and> actualHash \<noteq> sha256Expected
       then throw (Errorf ''OVA SHA256 mismatch: expected %s, got %s'' [AStr sha256Expected, AStr actualHash])
       else bindM (wrapM ''moving downloaded OVA to %s: %w'' [AStr localPath] (Rename tmpPath localPath)) (\<lambda>_.
         ret localPath)))"

definition fetch_ova ::
  "fetch_api \<Rightarrow> string \<Rightarrow> string \<Rightarrow> string \<Rightarrow> string \<Rightarrow> disk \<Rightarrow> string res \<times> disk" where
  "fetch_ova api ovaURL sha256Expected cacheDir localPath =
     bindM (request_ova api ovaURL) (\<lambda>resp.
     bindM (wrapM ''creating temp file for download: %w'' [] (CreateTemp cacheDir)) (\<lambda>tmpPath.
       deferM (\<lambda>d. snd (Remove tmpPath d)) (store_ova api resp sha256Expected localPath tmpPath)))"

definition DownloadOVAToDir ::
  "fetch_api \<Rightarrow> string \<Rightarrow> string \<Rightarrow> string \<Rightarrow> disk \<Rightarrow> string res \<times> disk" where
  "DownloadOVAToDir api ovaURL sha256Expected cacheDir =
     bindM (wrapM ''creating cache directory %s: %w'' [AStr cacheDir] (MkdirAll cacheDir)) (\<lambda>_.
       let localPath = ova_path cacheDir ovaURL; lockPath = localPath @ ''.lock'' in
       bindM (wrapM ''creating lock file %s: %w'' [AStr lockPath] (OpenCreate lockPath)) (\<lambda>_.
       bindM (wrapM ''acquiring flock on %s: %w'' [AStr lockPath] (Flock lockPath)) (\<lambda>_.
         deferM (Unlock lockPath)
           (bindM (ova_cached api localPath sha256Expected) (\<lambda>cached.
              if cached then ret localPath
              else fetch_ova api ovaURL sha256Expected cacheDir localPath)))))"

definition DownloadOVA :: "fetch_api \<Rightarrow> string \<Rightarrow> string \<Rightarrow> disk \<Rightarrow> string res \<times> disk" where
  "DownloadOVA api ovaURL sha256Expected = DownloadOVAToDir api ovaURL sha256Expected defaultCacheDir"

section \<open>What the calls of the operating system do\<close>

text \<open>
  \<open>frame A d d'\<close>: only the files of \<open>A\<close> have changed, no lock is taken or left, no request is sent.
\<close>

definition frame :: "string set \<Rightarrow> disk \<Rightarrow> disk \<Rightarrow> bool" where
  "frame A d d' \<longleftrightarrow> (\<forall>q. q \<notin> A \<longrightarrow> dk_files d' q = dk_files d q) \<and> dk_locks d' = dk_locks d
     \<and> dk_requests d' = dk_requests d \<and> set (dk_temps d') \<subseteq> set (dk_temps d)"

interpretation fr: state_rel "frame A" for A
  by unfold_locales (auto simp: frame_def)

definition temp_paths :: "string \<Rightarrow> disk \<Rightarrow> string set" where
  "temp_paths dir d = temp_path dir ` set (dk_temps d)"

lemma frame_temps: "frame A d d' \<Longrightarrow> temp_paths dir d' \<subseteq> temp_paths dir d"
  by (auto simp: frame_def temp_paths_def)

lemma frame_mono: "frame A d d' \<Longrightarrow> A \<subseteq> B \<Longrightarrow> frame B d d'"
  by (auto simp: frame_def)

lemma next_fault_frame: "next_fault d = (x, d') \<Longrightarrow> frame A d d' \<and> dk_files d' = dk_files d"
  by (auto simp: next_fault_def frame_def split: list.splits)

lemma faulty_cases:
  assumes "faulty f d = (r, d')"
  obtains (fault) e where "r = Inl e" "frame {} d d'" "dk_files d' = dk_files d"
  | (works) d1 where "frame {} d d1" "dk_files d1 = dk_files d" "f d1 = (r, d')"
proof -
  obtain x d1 where n: "next_fault d = (x, d1)" by force
  with assms that next_fault_frame [OF n, of "{}"] show thesis
    by (cases x) (auto simp: faulty_def)
qed

lemma faulty_frame:
  assumes "within (frame A) f"
  shows "within (frame A) (faulty f)"
  unfolding within_def
proof
  fix d
  obtain r d' where run: "faulty f d = (r, d')" by force
  then have "frame A d d'"
  proof (cases rule: faulty_cases)
    case fault
    then show ?thesis by (auto intro: frame_mono)
  next
    case (works d1)
    have "frame A d1 d'" using assms works(3) unfolding within_def by (metis snd_conv)
    with works(1) show ?thesis by (meson fr.trans frame_mono empty_subsetI)
  qed
  with run show "frame A d (snd (faulty f d))" by simp
qed

lemma Open_frame: "within (frame A) (Open path)"
  unfolding Open_def by (rule faulty_frame) (simp add: within_def fr.refl)

lemma hashFile_frame: "within (frame A) (hashFile api path)"
  unfolding hashFile_def by (intro fr.within_bind Open_frame faulty_frame fr.within_ret)

lemma MkdirAll_frame: "within (frame A) (MkdirAll path)"
  unfolding MkdirAll_def by (intro faulty_frame fr.within_ret)

lemma CloseFile_frame: "within (frame A) (CloseFile path)"
  unfolding CloseFile_def by (intro faulty_frame fr.within_ret)

lemma OpenCreate_frame: "path \<in> A \<Longrightarrow> within (frame A) (OpenCreate path)"
  unfolding OpenCreate_def by (rule faulty_frame) (auto simp: within_def frame_def)

lemma Rename_frame: "old \<in> A \<Longrightarrow> new \<in> A \<Longrightarrow> within (frame A) (Rename old new)"
  unfolding Rename_def by (rule faulty_frame) (auto simp: within_def frame_def split: option.splits)

lemma Remove_frame: "path \<in> A \<Longrightarrow> within (frame A) (Remove path)"
  unfolding Remove_def by (rule faulty_frame) (auto simp: within_def frame_def)

lemma CopyBody_frame: "path \<in> A \<Longrightarrow> within (frame A) (CopyBody path resp)"
  unfolding within_def
proof
  fix d assume p: "path \<in> A"
  obtain x d1 where n: "next_fault d = (x, d1)" by force
  from next_fault_frame [OF n, of A] n p show "frame A d (snd (CopyBody path resp d))"
    by (cases x) (auto simp: CopyBody_def frame_def)
qed

lemma ova_cached_frame: "within (frame A) (ova_cached api path h)"
  unfolding ova_cached_def
  by (auto intro!: fr.within_bind fr.within_try fr.within_ret hashFile_frame Open_frame)

lemma Open_ok: "Open path d = (Inr c, d') \<Longrightarrow> dk_files d path = Some c"
  unfolding Open_def by (erule faulty_cases) (auto split: option.splits)

lemma ova_cached_hit:
  assumes "ova_cached api path h d = (Inr True, d')"
  shows "\<exists>c. dk_files d path = Some c \<and> (h \<noteq> '''' \<longrightarrow> hex_sha256 api c = h)"
proof (cases "h = ''''")
  case True
  with assms obtain r where "Open path d = (r, d')" "is_ok r"
    by (auto simp: ova_cached_def comp_Inr)
  with True show ?thesis by (cases r) (auto dest: Open_ok)
next
  case False
  with assms have "hashFile api path d = (Inr h, d')" by (auto simp: ova_cached_def comp_Inr)
  then obtain c d1 where o: "Open path d = (Inr c, d1)" and "faulty (ret (hex_sha256 api c)) d1 = (Inr h, d')"
    by (auto simp: hashFile_def comp_Inr)
  then have "hex_sha256 api c = h" by (auto simp: ret_def elim: faulty_cases)
  with Open_ok [OF o] show ?thesis by auto
qed

lemma ova_cached_total: "\<exists>b d'. ova_cached api path h d = (Inr b, d')"
proof -
  obtain r1 d1 where "hashFile api path d = (r1, d1)" by force
  moreover obtain r2 d2 where "Open path d = (r2, d2)" by force
  ultimately show ?thesis by (simp add: ova_cached_def bindM_def tryM_def ret_def)
qed

lemma Rename_ok: "Rename old new d = (Inr u, d') \<Longrightarrow>
    dk_files d' = (dk_files d)(old := None, new := dk_files d old)"
  unfolding Rename_def by (erule faulty_cases) (auto split: option.splits)

lemma Rename_err: "Rename old new d = (Inl e, d') \<Longrightarrow> dk_files d' = dk_files d"
  unfolding Rename_def by (erule faulty_cases) (auto split: option.splits)

lemma CopyBody_ok: "CopyBody path resp d = (Inr u, d') \<Longrightarrow>
    rs_err resp = None \<and> dk_files d' = (dk_files d)(path \<mapsto> rs_Body resp)"
  by (auto simp: CopyBody_def next_fault_def split: prod.splits option.splits list.splits)

lemma CloseFile_files: "CloseFile path d = (r, d') \<Longrightarrow> dk_files d' = dk_files d"
  unfolding CloseFile_def by (erule faulty_cases) (auto simp: ret_def)

lemma CreateTemp_ok:
  assumes "CreateTemp dir d = (Inr path, d')"
  shows "dk_files d path = None \<and> path \<in> temp_paths dir d
    \<and> dk_files d' = (dk_files d)(path \<mapsto> '''') \<and> frame {path} d d'"
  using assms unfolding CreateTemp_def
proof (cases rule: faulty_cases)
  case (works d1)
  then obtain t ts where dw: "dropWhile (\<lambda>t. dk_files d1 (temp_path dir t) \<noteq> None) (dk_temps d1) = t # ts"
    and p: "path = temp_path dir t" and d': "d' = d1\<lparr>dk_files := (dk_files d1)(path \<mapsto> ''''), dk_temps := ts\<rparr>"
    by (auto split: list.splits)
  have "dk_files d1 path = None" using dw unfolding p dropWhile_eq_Cons_conv by simp
  moreover have sub: "set (t # ts) \<subseteq> set (dk_temps d1)" using dw by (metis set_dropWhileD subsetI)
  ultimately show ?thesis using works p d' by (auto simp: frame_def temp_paths_def)
qed simp

lemma CreateTemp_err: "CreateTemp dir d = (Inl e, d') \<Longrightarrow> frame {} d d'"
  unfolding CreateTemp_def
  by (erule faulty_cases) (simp, auto simp: frame_def split: list.split_asm)

section \<open>All or nothing\<close>

text \<open>What the file at \<open>localPath\<close> may be after a download: what it was, or a complete and verified one.\<close>

definition good_body :: "fetch_api \<Rightarrow> string \<Rightarrow> string \<Rightarrow> string \<Rightarrow> bool" where
  "good_body api ovaURL h c \<longleftrightarrow>
     (\<exists>requests resp. http_do api requests ovaURL = Inr resp \<and> rs_StatusCode resp = 200 \<and>
        rs_err resp = None \<and> c = rs_Body resp \<and> h \<in> {'''', hex_sha256 api c})"

lemma store_ova_frame: "within (frame {localPath, tmpPath}) (store_ova api resp h localPath tmpPath)"
  unfolding store_ova_def Let_def
  by (auto intro!: fr.within_bind fr.within_wrap fr.within_ret fr.within_throw CopyBody_frame CloseFile_frame
      Rename_frame)

lemma store_ova_ok:
  assumes "store_ova api resp h localPath tmpPath d = (Inr p, d')"
  shows "p = localPath \<and> rs_err resp = None \<and> h \<in> {'''', hex_sha256 api (rs_Body resp)}
    \<and> dk_files d' localPath = Some (rs_Body resp)"
proof -
  let ?sum = "hex_sha256 api (rs_Body resp)"
  from assms obtain d1 d2 where c: "CopyBody tmpPath resp d = (Inr (), d1)"
    and cl: "CloseFile tmpPath d1 = (Inr (), d2)" and h: "\<not> (h \<noteq> '''' \<and> ?sum \<noteq> h)"
    and mv: "Rename tmpPath localPath d2 = (Inr (), d')" and p: "p = localPath"
    by (auto simp: store_ova_def Let_def comp_Inr split: if_splits)
  from CopyBody_ok [OF c] CloseFile_files [OF cl] Rename_ok [OF mv] h p show ?thesis by auto
qed

lemma store_ova_err:
  assumes "store_ova api resp h localPath tmpPath d = (Inl e, d')" "tmpPath \<noteq> localPath"
  shows "dk_files d' localPath = dk_files d localPath"
proof -
  obtain r1 d1 where 1: "CopyBody tmpPath resp d = (r1, d1)" by force
  obtain r2 d2 where 2: "CloseFile tmpPath d1 = (r2, d2)" by force
  obtain r3 d3 where 3: "Rename tmpPath localPath d2 = (r3, d3)" by force
  have d1: "dk_files d1 localPath = dk_files d localPath"
    using CopyBody_frame [of tmpPath "{tmpPath}" resp] 1 assms(2) unfolding within_def frame_def
    by (metis singletonD singletonI snd_conv)
  have d2: "dk_files d2 = dk_files d1" by (rule CloseFile_files [OF 2])
  have d3: "dk_files d3 = dk_files d2" if "r3 = Inl x" for x using Rename_err 3 that by blast
  from assms(1) 1 2 3 have "d' = d1 \<or> d' = d2 \<or> d' = d3 \<and> (\<exists>x. r3 = Inl x)"
    by (auto simp: store_ova_def Let_def bindM_def wrapM_def throw_def ret_def split: sum.splits if_splits)
  with d1 d2 d3 show ?thesis by auto
qed

lemma request_ova_files: "dk_files (snd (request_ova api url d)) = dk_files d
    \<and> dk_locks (snd (request_ova api url d)) = dk_locks d \<and> dk_temps (snd (request_ova api url d)) = dk_temps d"
  by (auto simp: request_ova_def Let_def split: sum.splits)

lemma request_ova_ok: "request_ova api url d = (Inr resp, d') \<Longrightarrow>
    (\<exists>requests. http_do api requests url = Inr resp) \<and> rs_StatusCode resp = 200"
  by (auto simp: request_ova_def Let_def split: sum.splits if_splits)


lemma fetch_ova_spec:
  assumes run: "fetch_ova api url h dir localPath d = (r, d')" and tmp: "localPath \<notin> temp_paths dir d"
  shows "(case r of
      Inr p \<Rightarrow> p = localPath \<and> (\<exists>c. dk_files d' localPath = Some c \<and> good_body api url h c)
    | Inl _ \<Rightarrow> dk_files d' localPath = dk_files d localPath)
    \<and> dk_locks d' = dk_locks d \<and> (\<forall>q. q \<notin> insert localPath (temp_paths dir d) \<longrightarrow> dk_files d' q = dk_files d q)"
proof -
  obtain r1 d1 where 1: "request_ova api url d = (r1, d1)" by force
  with request_ova_files [of api url d]
  have d1: "dk_files d1 = dk_files d" "dk_locks d1 = dk_locks d" "dk_temps d1 = dk_temps d" by simp_all
  obtain r2 d2 where 2: "CreateTemp dir d1 = (r2, d2)" by force
  show ?thesis
  proof (cases "is_ok r1 \<and> is_ok r2")
    case False
    have "frame {} d1 d2" if "r2 = Inl e" for e using CreateTemp_err 2 that by blast
    with False 1 2 d1 run show ?thesis
      by (cases r1; cases r2) (auto simp: fetch_ova_def bindM_def wrapM_def frame_def)
  next
    case True
    then obtain resp t where rt: "r1 = Inr resp" "r2 = Inr t" by (cases r1; cases r2) auto
    from CreateTemp_ok [OF 2 [unfolded rt]] d1 have t: "t \<in> temp_paths dir d" "frame {t} d1 d2"
      by (simp_all add: temp_paths_def)
    with tmp have ne: "t \<noteq> localPath" by auto
    obtain r3 d3 where 3: "store_ova api resp h localPath t d2 = (r3, d3)" by force
    with run 1 2 rt have d': "r = r3" "d' = snd (Remove t d3)"
      by (simp_all add: fetch_ova_def bindM_def wrapM_def deferM_def)
    have f3: "frame {localPath, t} d2 d3"
      using store_ova_frame [of localPath t api resp h] 3 unfolding within_def by (metis snd_conv)
    have f4: "frame {t} d3 d'"
      using Remove_frame [of t "{t}"] d' unfolding within_def by simp
    have out: "dk_locks d' = dk_locks d"
      "\<forall>q. q \<notin> insert localPath (temp_paths dir d) \<longrightarrow> dk_files d' q = dk_files d q"
      using t f3 f4 d1 unfolding frame_def by (simp, metis insert_iff singletonD)
    have l4: "dk_files d' localPath = dk_files d3 localPath" using f4 ne by (simp add: frame_def)
    show ?thesis
    proof (cases r3)
      case (Inl e)
      with store_ova_err [OF 3 [unfolded Inl] ne] l4 t(2) ne d1 out d' show ?thesis by (simp add: frame_def)
    next
      case (Inr p)
      with store_ova_ok [OF 3 [unfolded Inr]] request_ova_ok [OF 1 [unfolded rt]] l4 out d' show ?thesis
        by (auto simp: good_body_def)
    qed
  qed
qed

text \<open>What the program does while it holds the lock.\<close>

lemma cached_or_fetched:
  assumes run: "bindM (ova_cached api localPath h)
        (\<lambda>cached. if cached then ret localPath else fetch_ova api url h dir localPath) d = (r, d')"
    and tmp: "localPath \<notin> temp_paths dir d"
  shows "(case r of
      Inr p \<Rightarrow> p = localPath \<and> (\<exists>c. dk_files d' p = Some c \<and> h \<in> {[], hex_sha256 api c}
        \<and> (dk_files d p = Some c \<or> good_body api url h c))
    | Inl _ \<Rightarrow> dk_files d' localPath = dk_files d localPath)
    \<and> dk_locks d' = dk_locks d \<and> (\<forall>q. q \<notin> insert localPath (temp_paths dir d) \<longrightarrow> dk_files d' q = dk_files d q)"
proof -
  obtain b d1 where 1: "ova_cached api localPath h d = (Inr b, d1)" using ova_cached_total by metis
  have f1: "frame {} d d1" using ova_cached_frame 1 unfolding within_def by (metis snd_conv)
  then have same: "dk_files d1 q = dk_files d q" "dk_locks d1 = dk_locks d" for q by (simp_all add: frame_def)
  have sub: "temp_paths dir d1 \<subseteq> temp_paths dir d" by (rule frame_temps [OF f1])
  show ?thesis
  proof (cases b)
    case True
    with run 1 have "r = Inr localPath" "d' = d1" by (simp_all add: bindM_def ret_def)
    moreover obtain c where "dk_files d localPath = Some c" "h \<in> {[], hex_sha256 api c}"
      using ova_cached_hit 1 True by force
    ultimately show ?thesis using same by auto
  next
    case False
    with run 1 have "fetch_ova api url h dir localPath d1 = (r, d')" by (simp add: bindM_def)
    from sub tmp have "localPath \<notin> temp_paths dir d1" by blast
    note spec = fetch_ova_spec [OF \<open>fetch_ova _ _ _ _ _ _ = _\<close> this, unfolded same]
    then have *: "(case r of
        Inr p \<Rightarrow> p = localPath \<and> (\<exists>c. dk_files d' localPath = Some c \<and> good_body api url h c)
      | Inl _ \<Rightarrow> dk_files d' localPath = dk_files d localPath)
      \<and> dk_locks d' = dk_locks d \<and> (\<forall>q. q \<notin> insert localPath (temp_paths dir d) \<longrightarrow> dk_files d' q = dk_files d q)"
      using sub by (cases r) auto
    have "h \<in> {[], hex_sha256 api c}" if "good_body api url h c" for c
      using that by (auto simp: good_body_def split: sum.splits)
    with * show ?thesis by (cases r) auto
  qed
qed

lemma download_spec:
  assumes "DownloadOVAToDir api url h dir d = (r, d')" "ova_path dir url \<notin> temp_paths dir d"
  shows "(case r of
      Inr p \<Rightarrow> p = ova_path dir url \<and> (\<exists>c. dk_files d' p = Some c \<and> h \<in> {'''', hex_sha256 api c}
        \<and> (dk_files d p = Some c \<or> good_body api url h c))
    | Inl _ \<Rightarrow> dk_files d' (ova_path dir url) = dk_files d (ova_path dir url))
    \<and> dk_locks d' = dk_locks d
    \<and> (\<forall>q. q \<in> {ova_path dir url, ova_path dir url @ ''.lock''} \<union> temp_paths dir d \<or> dk_files d' q = dk_files d q)"
proof -
  let ?local = "ova_path dir url" and ?lock = "ova_path dir url @ ''.lock''"
  let ?crit = "bindM (ova_cached api ?local h)
      (\<lambda>cached. if cached then ret ?local else fetch_ova api url h dir ?local)"
  obtain r1 d1 where 1: "MkdirAll dir d = (r1, d1)" by force
  obtain r2 d2 where 2: "OpenCreate ?lock d1 = (r2, d2)" by force
  obtain r3 d3 where 3: "Flock ?lock d2 = (r3, d3)" by force
  obtain r4 d4 where 4: "?crit d3 = (r4, d4)" by force
  have f1: "frame {} d d1" using MkdirAll_frame 1 unfolding within_def by (metis snd_conv)
  have f2: "frame {?lock} d1 d2" using OpenCreate_frame 2 unfolding within_def by (metis singletonI snd_conv)
  have f3: "dk_files d3 = dk_files d2 \<and> set (dk_temps d3) \<subseteq> set (dk_temps d2) \<and>
      dk_locks d3 = (if is_ok r3 then ?lock # dk_locks d2 else dk_locks d2)"
    using 3 unfolding Flock_def by (rule faulty_cases) (auto simp: frame_def)
  have same: "dk_files d3 ?local = dk_files d ?local" "temp_paths dir d3 \<subseteq> temp_paths dir d"
    using f1 f2 f3 unfolding temp_paths_def by (simp add: frame_def) (meson f1 f2 f3 frame_def image_mono order_trans)
  have "\<not> is_ok r \<and> (d' = d1 \<or> d' = d2 \<or> d' = d3 \<and> \<not> is_ok r3) \<or> is_ok r3 \<and> r = r4 \<and> d' = Unlock ?lock d4"
    using assms(1) 1 2 3 4 unfolding DownloadOVAToDir_def Let_def
    by (cases r1; cases r2; cases r3) (auto simp: bindM_def [of "wrapM _ _ _"] wrapM_def deferM_def)
  then show ?thesis
  proof (rule disjE)
    assume "\<not> is_ok r \<and> (d' = d1 \<or> d' = d2 \<or> d' = d3 \<and> \<not> is_ok r3)"
    then have err: "\<not> is_ok r" and "dk_locks d' = dk_locks d" "\<And>q. q \<noteq> ?lock \<Longrightarrow> dk_files d' q = dk_files d q"
      using f1 f2 f3 by (auto simp: frame_def)
    with err show ?thesis by (cases r) auto
  next
    assume "is_ok r3 \<and> r = r4 \<and> d' = Unlock ?lock d4"
    then have eqs: "is_ok r3" "r = r4" "d' = Unlock ?lock d4" by simp_all
    from same assms(2) have "?local \<notin> temp_paths dir d3" by blast
    from cached_or_fetched [OF 4 this] eqs same f1 f2 f3 show ?thesis
      by (cases r) (auto simp: Unlock_def frame_def)
  qed
qed

text \<open>C15: a download is all or nothing.  When \<open>DownloadOVAToDir\<close> succeeds, the file at the path it
  returns exists and has the expected hash, if one is expected, and is what was there before or the
  whole body of a response with status 200; when it fails, at whatever call, the cached file is what it was before.
  The lock is released on every path, and no file but the cached one, the lock file and the
  temporary ones is touched.\<close>
theorem download_all_or_nothing:
  assumes "DownloadOVAToDir api url h dir d = (r, d')" "ova_path dir url \<notin> temp_paths dir d"
  shows "(case r of
      Inr p \<Rightarrow> p = ova_path dir url \<and> (\<exists>c. dk_files d' p = Some c \<and> h \<in> {'''', hex_sha256 api c}
        \<and> (dk_files d p = Some c \<or> good_body api url h c))
    | Inl _ \<Rightarrow> dk_files d' (ova_path dir url) = dk_files d (ova_path dir url))
    \<and> dk_locks d' = dk_locks d
    \<and> (\<forall>q. q \<in> {ova_path dir url, ova_path dir url @ ''.lock''} \<union> temp_paths dir d \<or> dk_files d' q = dk_files d q)"
  using assms by (rule download_spec)

text \<open>An OVA that is there, with the right hash, is not downloaded again.\<close>

lemma faultless: "dk_faults d = [] \<Longrightarrow> faulty f d = f d"
  by (simp add: faulty_def next_fault_def)

lemma download_hit:
  assumes "dk_faults d = []" "dk_files d (ova_path dir url) = Some c" "h \<in> {'''', hex_sha256 api c}"
  shows "\<exists>d'. DownloadOVAToDir api url h dir d = (Inr (ova_path dir url), d') \<and> dk_requests d' = dk_requests d
     \<and> dk_files d' (ova_path dir url) = Some c"
proof -
  let ?local = "ova_path dir url" and ?lock = "ova_path dir url @ ''.lock''"
  let ?d1 = "if dk_files d ?lock = None then d\<lparr>dk_files := (dk_files d)(?lock \<mapsto> '''')\<rparr> else d"
  let ?d2 = "?d1\<lparr>dk_locks := ?lock # dk_locks d\<rparr>"
  have calls: "MkdirAll dir d = (Inr (), d)" "OpenCreate ?lock d = (Inr (), ?d1)" "Flock ?lock ?d1 = (Inr (), ?d2)"
    using assms(1) by (simp_all add: MkdirAll_def OpenCreate_def Flock_def faultless ret_def)
  have "dk_faults ?d2 = []" "dk_files ?d2 ?local = Some c" using assms by simp_all
  then have "ova_cached api ?local h ?d2 = (Inr True, ?d2)"
    using assms(3) by (auto simp: ova_cached_def hashFile_def Open_def faultless bindM_def tryM_def ret_def)
  with calls have "DownloadOVAToDir api url h dir d = (Inr ?local, Unlock ?lock ?d2)"
    by (simp add: DownloadOVAToDir_def Let_def bindM_def wrapM_def deferM_def ret_def)
  with assms(2) show ?thesis by (simp add: Unlock_def)
qed

text \<open>A download that succeeded is a cache entry: asked for the same OVA again, on the disk it
  left, \<open>DownloadOVAToDir\<close> returns the same path with the same contents and sends no request, as long as
  the operating system does its part.\<close>
theorem download_once:
  assumes "DownloadOVAToDir api url h dir d = (Inr p, d')" "ova_path dir url \<notin> temp_paths dir d"
  shows "\<exists>d''. DownloadOVAToDir api url h dir (d'\<lparr>dk_faults := []\<rparr>) = (Inr p, d'')
     \<and> dk_requests d'' = dk_requests d' \<and> dk_files d'' p = dk_files d' p"
proof -
  from download_spec [OF assms] obtain c where p: "p = ova_path dir url" and "dk_files d' p = Some c"
    and "h \<in> {'''', hex_sha256 api c}" by auto
  then show ?thesis using download_hit [of "d'\<lparr>dk_faults := []\<rparr>" dir url c h api] by auto
qed

end
