(* ===== verification/OvaConcurrent.thy ===== *)
theory OvaConcurrent
  imports OvaCache
begin

text \<open>
  Several downloads at once: \<open>DownloadOVAToDir\<close> of \<open>pkg/vsphere/image.go\<close>, run by any number of
  processes or goroutines on one cache directory, one system call at a time.

  \<open>job_step\<close> cuts the function into its calls of the operating system: a \<open>stage\<close> is the place a
  call has reached with the variables that are live there, deferred calls included.  Running a job
  on its own is \<open>DownloadOVAToDir\<close>.  \<open>farm_step\<close> interleaves the jobs: a job that waits in
  \<open>syscall.Flock\<close> goes on only when no other job holds its lock file, and a job may be killed at any
  point, in the middle of a write too, which makes the operating system close its files and so
  release its lock.  Hashing the cached file is one step: the file it has open does not change.
\<close>

section \<open>One download, step by step\<close>

datatype stage =
    Starting
  | Opening
  | Locking
  | Checking
  | Requesting
  | Creating response
  | Copying response string
  | Closing response string
  | Moving string
  | Removing string "string res"
  | Unlocking "string res"
  | Returned "string res"
  | Killed

record job =
  jb_ovaURL :: string
  jb_sha256Expected :: string

definition job_path :: "string \<Rightarrow> job \<Rightarrow> string" where
  "job_path dir jb = ova_path dir (jb_ovaURL jb)"

definition job_lock :: "string \<Rightarrow> job \<Rightarrow> string" where
  "job_lock dir jb = job_path dir jb @ ''.lock''"

text \<open>The stage after a call: the error of the call goes to \<open>bad\<close>, its value to \<open>good\<close>.\<close>

definition call_then ::
  "(goerror \<Rightarrow> stage) \<Rightarrow> ('a \<Rightarrow> stage) \<Rightarrow> (disk \<Rightarrow> 'a res \<times> disk) \<Rightarrow> disk \<Rightarrow> stage \<times> disk" where
  "call_then bad good m d = map_prod (case_sum bad good) id (m d)"

fun job_step :: "fetch_api \<Rightarrow> string \<Rightarrow> job \<Rightarrow> stage \<Rightarrow> disk \<Rightarrow> stage \<times> disk" where
  "job_step api dir jb Starting =
     call_then (\<lambda>err. Returned (Inl err)) (\<lambda>_. Opening)
       (wrapM ''creating cache directory %s: %w'' [AStr dir] (MkdirAll dir))"
| "job_step api dir jb Opening =
     call_then (\<lambda>err. Returned (Inl err)) (\<lambda>_. Locking)
       (wrapM ''creating lock file %s: %w'' [AStr (job_lock dir jb)] (OpenCreate (job_lock dir jb)))"
| "job_step api dir jb Locking =
     call_then (\<lambda>err. Returned (Inl err)) (\<lambda>_. Checking)
       (wrapM ''acquiring flock on %s: %w'' [AStr (job_lock dir jb)] (Flock (job_lock dir jb)))"
| "job_step api dir jb Checking =
     call_then (\<lambda>err. Unlocking (Inl err))
       (\<lambda>cached. if cached then Unlocking (Inr (job_path dir jb)) else Requesting)
       (ova_cached api (job_path dir jb) (jb_sha256Expected jb))"
| "job_step api dir jb Requesting =
     call_then (\<lambda>err. Unlocking (Inl err)) Creating (request_ova api (jb_ovaURL jb))"
| "job_step api dir jb (Creating resp) =
     call_then (\<lambda>err. Unlocking (Inl err)) (Copying resp)
       (wrapM ''creating temp file for download: %w'' [] (CreateTemp dir))"
| "job_step api dir jb (Copying resp tmpPath) =
     call_then (\<lambda>err. Removing tmpPath (Inl err)) (\<lambda>_. Closing resp tmpPath)
       (wrapM ''writing OVA to %s: %w'' [AStr tmpPath] (CopyBody tmpPath resp))"
| "job_step api dir jb (Closing resp tmpPath) =
     call_then (\<lambda>err. Removing tmpPath (Inl err))
       (\<lambda>_. let actualHash = hex_sha256 api (rs_Body resp) in
          if jb_sha256Expected jb \<noteq> '''' \<and> actualHash \<noteq> jb_sha256Expected jb
          then Removing tmpPath (Inl (Errorf ''OVA SHA256 mismatch: expected %s, got %s''
            [AStr (jb_sha256Expected jb), AStr actualHash]))
          else Moving tmpPath)
       (wrapM ''closing temp file %s: %w'' [AStr tmpPath] (CloseFile tmpPath))"
| "job_step api dir jb (Moving tmpPath) =
     call_then (\<lambda>err. Removing tmpPath (Inl err)) (\<lambda>_. Removing tmpPath (Inr (job_path dir jb)))
       (wrapM ''moving downloaded OVA to %s: %w'' [AStr (job_path dir jb)] (Rename tmpPath (job_path dir jb)))"
| "job_step api dir jb (Removing tmpPath r) = (\<lambda>d. (Unlocking r, snd (Remove tmpPath d)))"
| "job_step api dir jb (Unlocking r) = (\<lambda>d. (Returned r, Unlock (job_lock dir jb) d))"
| "job_step api dir jb (Returned r) = Pair (Returned r)"
| "job_step api dir jb Killed = Pair Killed"

fun steps_left :: "stage \<Rightarrow> nat" where
  "steps_left Starting = 11"
| "steps_left Opening = 10"
| "steps_left Locking = 9"
| "steps_left Checking = 8"
| "steps_left Requesting = 7"
| "steps_left (Creating resp) = 6"
| "steps_left (Copying resp t) = 5"
| "steps_left (Closing resp t) = 4"
| "steps_left (Moving t) = 3"
| "steps_left (Removing t r) = 2"
| "steps_left (Unlocking r) = 1"
| "steps_left (Returned r) = 0"
| "steps_left Killed = 0"

abbreviation finished :: "stage \<Rightarrow> bool" where
  "finished s \<equiv> steps_left s = 0"

definition job_run :: "fetch_api \<Rightarrow> string \<Rightarrow> job \<Rightarrow> nat \<Rightarrow> stage \<times> disk \<Rightarrow> stage \<times> disk" where
  "job_run api dir jb n = (\<lambda>(s, d). job_step api dir jb s d) ^^ n"

section \<open>A job on its own is the function\<close>

lemma job_step_finished: "finished s \<Longrightarrow> job_step api dir jb s d = (s, d)"
  by (cases s) auto

lemma steps_left_decreases: "job_step api dir jb s d = (s', d') \<Longrightarrow> finished s \<or> steps_left s' < steps_left s"
  by (cases s) (auto simp: call_then_def map_prod_def Let_def split: prod.splits sum.splits if_splits)

lemma job_run_0 [simp]: "job_run api dir jb 0 sd = sd"
  by (simp add: job_run_def)

lemma job_run_Suc [simp]: "job_run api dir jb (Suc n) (s, d) = job_run api dir jb n (job_step api dir jb s d)"
  unfolding job_run_def funpow_Suc_right by simp

lemma job_run_finished: "finished s \<Longrightarrow> job_run api dir jb n (s, d) = (s, d)"
  by (induction n) (simp_all add: job_step_finished)

lemma job_run_enough: "steps_left s \<le> n \<Longrightarrow> job_run api dir jb n (s, d) = job_run api dir jb (steps_left s) (s, d)"
proof (induction n arbitrary: s d rule: less_induct)
  case (less n)
  show ?case
  proof (cases "finished s")
    case False
    then obtain k m where k: "steps_left s = Suc k" and m: "n = Suc m" "k \<le> m"
      using less.prems by (metis Suc_le_D Suc_le_mono not0_implies_Suc)
    obtain s' d' where st: "job_step api dir jb s d = (s', d')" by force
    with steps_left_decreases [OF st] False k have le: "steps_left s' \<le> k" by simp
    have "job_run api dir jb m (s', d') = job_run api dir jb (steps_left s') (s', d')"
      "job_run api dir jb k (s', d') = job_run api dir jb (steps_left s') (s', d')"
      using le m k less.prems by (auto intro!: less.IH)
    with st k m show ?thesis by simp
  qed (simp add: job_run_finished)
qed

definition outcome :: "fetch_api \<Rightarrow> string \<Rightarrow> job \<Rightarrow> stage \<Rightarrow> disk \<Rightarrow> stage \<times> disk" where
  "outcome api dir jb s d = job_run api dir jb (steps_left s) (s, d)"

lemma outcome_step:
  assumes "\<not> finished s"
  shows "outcome api dir jb s d = case_prod (outcome api dir jb) (job_step api dir jb s d)"
proof -
  obtain s' d' where st: "job_step api dir jb s d = (s', d')" by force
  from assms obtain k where k: "steps_left s = Suc k" by (metis not0_implies_Suc)
  with steps_left_decreases [OF st] assms have "steps_left s' \<le> k" by simp
  with k st job_run_enough [OF this, of api dir jb d'] show ?thesis by (simp add: outcome_def)
qed

lemma outcome_call:
  assumes "\<not> finished s" "job_step api dir jb s = call_then bad good m"
  shows "outcome api dir jb s d = (case m d of (r, d) \<Rightarrow> outcome api dir jb (case_sum bad good r) d)"
  using assms outcome_step [OF assms(1), of api dir jb d]
  by (simp add: call_then_def map_prod_def split: prod.splits)

definition returned :: "string res \<times> disk \<Rightarrow> stage \<times> disk" where
  "returned = map_prod Returned id"

lemma outcome_end:
  "outcome api dir jb (Returned r) d = returned (r, d)"
  "outcome api dir jb (Unlocking r) d = returned (r, Unlock (job_lock dir jb) d)"
  "outcome api dir jb (Removing t r) d = returned (r, Unlock (job_lock dir jb) (snd (Remove t d)))"
  by (simp_all add: outcome_step returned_def) (simp_all add: outcome_def)

lemma outcome_store:
  "outcome api dir jb (Copying resp t) d =
     returned (deferM (Unlock (job_lock dir jb)) (deferM (\<lambda>d. snd (Remove t d))
       (store_ova api resp (jb_sha256Expected jb) (job_path dir jb) t)) d)"
  by (auto simp: outcome_call outcome_end store_ova_def deferM_def bindM_def wrapM_def ret_def throw_def Let_def
      split: prod.splits sum.splits)

lemma outcome_fetch:
  "outcome api dir jb Requesting d =
     returned (deferM (Unlock (job_lock dir jb))
       (fetch_ova api (jb_ovaURL jb) (jb_sha256Expected jb) dir (job_path dir jb)) d)"
  by (auto simp: outcome_call outcome_end outcome_store fetch_ova_def deferM_def bindM_def wrapM_def
      split: prod.splits sum.splits)

lemma outcome_start:
  "outcome api dir jb Starting d =
     returned (DownloadOVAToDir api (jb_ovaURL jb) (jb_sha256Expected jb) dir d)"
  by (auto simp: outcome_call outcome_end outcome_fetch DownloadOVAToDir_def Let_def deferM_def bindM_def wrapM_def
      ret_def job_path_def [symmetric] job_lock_def [symmetric] split: prod.splits sum.splits)


text \<open>The steps the interleavings below are made of add up to the function.  A job that runs with
  nobody between its steps has returned after eleven of them, whatever faults the disk has in store,
  with the result and the disk of \<open>DownloadOVAToDir\<close>, its deferred calls included.\<close>
theorem job_alone:
  "job_run api dir jb (11 + n) (Starting, d) =
     map_prod Returned id (DownloadOVAToDir api (jb_ovaURL jb) (jb_sha256Expected jb) dir d)"
  using job_run_enough [of Starting "11 + n" api dir jb d] outcome_start [of api dir jb d]
  by (simp add: outcome_def returned_def)

section \<open>Many downloads\<close>

fun holds_lock :: "stage \<Rightarrow> bool" where
  "holds_lock Starting = False"
| "holds_lock Opening = False"
| "holds_lock Locking = False"
| "holds_lock (Returned r) = False"
| "holds_lock Killed = False"
| "holds_lock s = True"

fun temp_of :: "stage \<Rightarrow> string option" where
  "temp_of (Copying resp t) = Some t"
| "temp_of (Closing resp t) = Some t"
| "temp_of (Moving t) = Some t"
| "temp_of (Removing t r) = Some t"
| "temp_of s = None"

text \<open>A job can go on unless it is at the lock and the lock is taken.\<close>

definition ready :: "string \<Rightarrow> job \<Rightarrow> stage \<Rightarrow> disk \<Rightarrow> bool" where
  "ready dir jb s d \<longleftrightarrow> \<not> finished s \<and> (s = Locking \<longrightarrow> job_lock dir jb \<notin> set (dk_locks d))"

text \<open>What a killed process leaves: no lock, but the temporary file, and of a copy in progress the
  first \<open>k\<close> bytes.\<close>

definition kill_job :: "string \<Rightarrow> job \<Rightarrow> nat \<Rightarrow> stage \<Rightarrow> disk \<Rightarrow> disk" where
  "kill_job dir jb k s d =
     (let d = (case s of Copying resp t \<Rightarrow> d\<lparr>dk_files := (dk_files d)(t \<mapsto> take k (rs_Body resp))\<rparr> | _ \<Rightarrow> d)
      in if holds_lock s then Unlock (job_lock dir jb) d else d)"

record farm =
  fm_disk :: disk
  fm_stages :: "stage list"

inductive farm_step :: "fetch_api \<Rightarrow> string \<Rightarrow> job list \<Rightarrow> farm \<Rightarrow> farm \<Rightarrow> bool"
  for api :: fetch_api and dir :: string and js :: "job list"
where
  goes_on: "i < length js \<Longrightarrow> ready dir (js ! i) (fm_stages fm ! i) (fm_disk fm) \<Longrightarrow>
     job_step api dir (js ! i) (fm_stages fm ! i) (fm_disk fm) = (s', d') \<Longrightarrow>
     farm_step api dir js fm \<lparr>fm_disk = d', fm_stages = (fm_stages fm)[i := s']\<rparr>"
| is_killed: "i < length js \<Longrightarrow> \<not> finished (fm_stages fm ! i) \<Longrightarrow>
     farm_step api dir js fm
       \<lparr>fm_disk = kill_job dir (js ! i) k (fm_stages fm ! i) (fm_disk fm), fm_stages = (fm_stages fm)[i := Killed]\<rparr>"

inductive_cases farm_stepE: "farm_step api dir js fm fm'"

definition farm_start :: "job list \<Rightarrow> disk \<Rightarrow> farm" where
  "farm_start js d = \<lparr>fm_disk = d, fm_stages = replicate (length js) Starting\<rparr>"

text \<open>The names of the jobs do not get in each other's way.\<close>

definition names_ok :: "string \<Rightarrow> job list \<Rightarrow> disk \<Rightarrow> bool" where
  "names_ok dir js d \<longleftrightarrow> distinct (map (temp_path dir) (dk_temps d)) \<and>
     (\<forall>jb \<in> set js. job_path dir jb \<notin> temp_paths dir d \<and> job_lock dir jb \<notin> temp_paths dir d
        \<and> (\<forall>jb' \<in> set js. job_lock dir jb \<noteq> job_path dir jb'))"

text \<open>A schedule, for running a farm: which job goes on, or is killed in which byte of its write.\<close>

datatype choice = GoOn nat | Kill nat nat

fun farm_do :: "fetch_api \<Rightarrow> string \<Rightarrow> job list \<Rightarrow> choice \<Rightarrow> farm \<Rightarrow> farm" where
  "farm_do api dir js (GoOn i) fm =
     (if i < length js \<and> ready dir (js ! i) (fm_stages fm ! i) (fm_disk fm)
      then case job_step api dir (js ! i) (fm_stages fm ! i) (fm_disk fm) of
        (s, d) \<Rightarrow> \<lparr>fm_disk = d, fm_stages = (fm_stages fm)[i := s]\<rparr>
      else fm)"
| "farm_do api dir js (Kill i k) fm =
     (if i < length js \<and> \<not> finished (fm_stages fm ! i)
      then \<lparr>fm_disk = kill_job dir (js ! i) k (fm_stages fm ! i) (fm_disk fm), fm_stages = (fm_stages fm)[i := Killed]\<rparr>
      else fm)"

definition farm_run :: "fetch_api \<Rightarrow> string \<Rightarrow> job list \<Rightarrow> choice list \<Rightarrow> farm \<Rightarrow> farm" where
  "farm_run api dir js cs fm = fold (farm_do api dir js) cs fm"

lemma farm_do_step: "farm_do api dir js c fm = fm \<or> farm_step api dir js fm (farm_do api dir js c fm)"
  by (cases c) (auto split: prod.splits intro: farm_step.intros)

lemma farm_run_reaches: "(farm_step api dir js)\<^sup>*\<^sup>* fm (farm_run api dir js cs fm)"
proof (induction cs arbitrary: fm)
  case (Cons c cs)
  from farm_do_step [of api dir js c fm] have "(farm_step api dir js)\<^sup>*\<^sup>* fm (farm_do api dir js c fm)" by auto
  with Cons [of "farm_do api dir js c fm"] show ?case by (simp add: farm_run_def)
qed (simp add: farm_run_def)

lemma farm_step_run:
  assumes "farm_step api dir js fm fm'"
  shows "\<exists>c. fm' = farm_do api dir js c fm"
  using assms
proof (cases rule: farm_step.cases)
  case (goes_on i s' d')
  then show ?thesis by (intro exI [of _ "GoOn i"]) simp
next
  case (is_killed i k)
  then show ?thesis by (intro exI [of _ "Kill i k"]) simp
qed


lemma farm_reaches_iff: "(farm_step api dir js)\<^sup>*\<^sup>* fm fm' \<longleftrightarrow> (\<exists>cs. fm' = farm_run api dir js cs fm)"
proof
  show "(farm_step api dir js)\<^sup>*\<^sup>* fm fm' \<Longrightarrow> \<exists>cs. fm' = farm_run api dir js cs fm"
  proof (induction rule: rtranclp_induct)
    case base
    show ?case by (intro exI [of _ "[]"]) (simp add: farm_run_def)
  next
    case (step fm1 fm2)
    then obtain cs c where "fm1 = farm_run api dir js cs fm" "fm2 = farm_do api dir js c fm1"
      using farm_step_run by blast
    then show ?case by (intro exI [of _ "cs @ [c]"]) (simp add: farm_run_def)
  qed
qed (use farm_run_reaches in blast)

section \<open>What one step does\<close>

definition fetched :: "fetch_api \<Rightarrow> job \<Rightarrow> response \<Rightarrow> bool" where
  "fetched api jb resp \<longleftrightarrow>
     (\<exists>requests. http_do api requests (jb_ovaURL jb) = Inr resp) \<and> rs_StatusCode resp = 200"

definition result_ok :: "fetch_api \<Rightarrow> string \<Rightarrow> job \<Rightarrow> disk \<Rightarrow> string res \<Rightarrow> bool" where
  "result_ok api dir jb d r \<longleftrightarrow> (\<forall>p. r = Inr p \<longrightarrow> p = job_path dir jb \<and>
     (\<exists>c. dk_files d p = Some c \<and> jb_sha256Expected jb \<in> {'''', hex_sha256 api c}))"

text \<open>What holds of the files while a job is at a stage.\<close>

fun stage_ok :: "fetch_api \<Rightarrow> string \<Rightarrow> job \<Rightarrow> disk \<Rightarrow> stage \<Rightarrow> bool" where
  "stage_ok api dir jb d (Creating resp) = fetched api jb resp"
| "stage_ok api dir jb d (Copying resp t) = fetched api jb resp"
| "stage_ok api dir jb d (Closing resp t) =
     (fetched api jb resp \<and> rs_err resp = None \<and> dk_files d t = Some (rs_Body resp))"
| "stage_ok api dir jb d (Moving t) =
     (\<exists>c. dk_files d t = Some c \<and> good_body api (jb_ovaURL jb) (jb_sha256Expected jb) c)"
| "stage_ok api dir jb d (Removing t r) = result_ok api dir jb d r"
| "stage_ok api dir jb d (Unlocking r) = result_ok api dir jb d r"
| "stage_ok api dir jb d s = True"

lemmas step_defs = call_then_def wrapM_def MkdirAll_def OpenCreate_def Flock_def Unlock_def CreateTemp_def
  CopyBody_def CloseFile_def Rename_def Remove_def faulty_def next_fault_def ret_def Let_def

lemmas step_splits = if_splits option.splits list.splits

lemma ova_cached_keeps:
  assumes "ova_cached api path h d = (r, d')"
  shows "dk_files d' = dk_files d \<and> dk_locks d' = dk_locks d \<and> dk_temps d' = dk_temps d"
  using assms
  by (auto simp: ova_cached_def hashFile_def Open_def faulty_def next_fault_def bindM_def tryM_def ret_def
      split: step_splits sum.splits prod.splits)

lemma fetched_good:
  "fetched api jb resp \<Longrightarrow> rs_err resp = None \<Longrightarrow> h = '''' \<or> hex_sha256 api (rs_Body resp) = h \<Longrightarrow>
     good_body api (jb_ovaURL jb) h (rs_Body resp)"
  unfolding fetched_def good_body_def by blast

lemma good_body_hash: "good_body api url h c \<Longrightarrow> h \<in> {'''', hex_sha256 api c}"
  by (auto simp: good_body_def split: sum.splits)

lemma step_locks:
  assumes "job_step api dir jb s d = (s', d')"
  shows "holds_lock s' = holds_lock s \<and> dk_locks d' = dk_locks d
    \<or> s = Locking \<and> holds_lock s' \<and> dk_locks d' = job_lock dir jb # dk_locks d
    \<or> holds_lock s \<and> \<not> holds_lock s' \<and> dk_locks d' = remove1 (job_lock dir jb) (dk_locks d)"
proof (cases s)
  case Checking
  with assms ova_cached_keeps [of api "job_path dir jb" "jb_sha256Expected jb" d] show ?thesis
    by (auto simp: call_then_def map_prod_def split: prod.splits sum.splits if_splits)
next
  case Requesting
  with assms request_ova_files [of api "jb_ovaURL jb" d] show ?thesis
    by (auto simp: call_then_def map_prod_def split: prod.splits sum.splits)
qed (use assms in \<open>auto simp: step_defs split: step_splits\<close>)

lemma dropWhile_ConsD: "dropWhile P xs = y # ys \<Longrightarrow> \<exists>us. xs = us @ y # ys"
  by (metis takeWhile_dropWhile_id)

lemma CreateTemp_temps:
  "CreateTemp dir d = (Inr p, d') \<Longrightarrow> \<exists>us t. dk_temps d = us @ t # dk_temps d' \<and> p = temp_path dir t"
  "CreateTemp dir d = (Inl e, d') \<Longrightarrow> dk_temps d' \<in> {dk_temps d, []}"
  by (auto simp: step_defs split: step_splits dest!: dropWhile_ConsD)

lemma step_temps:
  assumes "job_step api dir jb s d = (s', d')"
  shows "dk_temps d' \<in> {dk_temps d, []} \<and> temp_of s' \<in> {None, temp_of s}
    \<or> (\<exists>us t. dk_temps d = us @ t # dk_temps d' \<and> temp_of s = None \<and> temp_of s' = Some (temp_path dir t))"
proof (cases s)
  case Checking
  with assms ova_cached_keeps [of api "job_path dir jb" "jb_sha256Expected jb" d] show ?thesis
    by (auto simp: call_then_def map_prod_def split: prod.splits sum.splits if_splits)
next
  case Requesting
  with assms request_ova_files [of api "jb_ovaURL jb" d] show ?thesis
    by (auto simp: call_then_def map_prod_def split: prod.splits sum.splits)
next
  case (Creating resp)
  with assms CreateTemp_temps [of dir d] show ?thesis
    by (auto simp: call_then_def wrapM_def map_prod_def split: prod.splits sum.splits)
qed (use assms in \<open>auto simp: step_defs split: step_splits\<close>)

lemma step_files:
  assumes "job_step api dir jb s d = (s', d')"
  shows "dk_files d' q = dk_files d q \<or> s = Opening \<and> q = job_lock dir jb \<or> Some q \<in> {temp_of s, temp_of s'}
    \<or> (\<exists>t. s = Moving t \<and> q = job_path dir jb \<and> dk_files d' q = dk_files d t \<and> dk_files d t \<noteq> None)"
proof (cases s)
  case Checking
  with assms ova_cached_keeps [of api "job_path dir jb" "jb_sha256Expected jb" d] show ?thesis
    by (auto simp: call_then_def map_prod_def split: prod.splits sum.splits if_splits)
next
  case Requesting
  with assms request_ova_files [of api "jb_ovaURL jb" d] show ?thesis
    by (auto simp: call_then_def map_prod_def split: prod.splits sum.splits)
qed (use assms in \<open>auto simp: step_defs split: step_splits\<close>)


lemma Moving_done:
  assumes "job_step api dir jb (Moving t) d = (Removing t r, d')"
  shows "(\<exists>e. r = Inl e) \<or> r = Inr (job_path dir jb) \<and> dk_files d' = (dk_files d)(t := None, job_path dir jb := dk_files d t)"
  using assms by (auto simp: step_defs split: step_splits)

lemma step_stage_ok:
  assumes step: "job_step api dir jb s d = (s', d')" and ok: "stage_ok api dir jb d s"
    and tmp: "temp_of s \<noteq> Some (job_path dir jb)"
  shows "stage_ok api dir jb d' s'"
proof (cases s)
  case Checking
  obtain b d1 where c: "ova_cached api (job_path dir jb) (jb_sha256Expected jb) d = (Inr b, d1)"
    using ova_cached_total by metis
  have "\<exists>c. dk_files d (job_path dir jb) = Some c \<and> jb_sha256Expected jb \<in> {'''', hex_sha256 api c}" if b
    using ova_cached_hit [of api _ _ d d1] c that by force
  with c step Checking ova_cached_keeps [OF c] show ?thesis
    by (auto simp: call_then_def result_ok_def)
next
  case Requesting
  with step request_ova_ok [of api "jb_ovaURL jb" d] show ?thesis
    by (auto simp: call_then_def map_prod_def fetched_def result_ok_def split: prod.splits sum.splits)
next
  case (Closing resp t)
  with step ok show ?thesis
    by (auto simp: step_defs result_ok_def intro: fetched_good split: step_splits)
next
  case (Moving t)
  with step ok tmp show ?thesis
    by (auto simp: step_defs result_ok_def dest: good_body_hash split: step_splits)
qed (use step ok tmp in \<open>auto simp: step_defs fetched_def result_ok_def split: step_splits\<close>)

lemma stage_ok_frame:
  assumes "stage_ok api dir jb d s" "\<And>t. temp_of s = Some t \<Longrightarrow> dk_files d' t = dk_files d t"
    "holds_lock s \<Longrightarrow> dk_files d' (job_path dir jb) = dk_files d (job_path dir jb)"
  shows "stage_ok api dir jb d' s"
  using assms by (cases s) (auto simp: result_ok_def)

section \<open>The locks exclude each other\<close>

text \<open>
  The taken locks are those of the jobs between \<open>Flock\<close> and the deferred unlock, and no two jobs
  with the same lock file are there.
\<close>

definition lock_inv :: "string \<Rightarrow> job list \<Rightarrow> farm \<Rightarrow> bool" where
  "lock_inv dir js fm \<longleftrightarrow> length (fm_stages fm) = length js \<and> distinct (dk_locks (fm_disk fm)) \<and>
     set (dk_locks (fm_disk fm)) = {job_lock dir (js ! i) | i. i < length js \<and> holds_lock (fm_stages fm ! i)} \<and>
     (\<forall>i j. i < length js \<and> j < length js \<and> i \<noteq> j \<and> holds_lock (fm_stages fm ! i) \<and> holds_lock (fm_stages fm ! j)
        \<longrightarrow> job_lock dir (js ! i) \<noteq> job_lock dir (js ! j))"

lemma lock_inv_start: "dk_locks d = [] \<Longrightarrow> lock_inv dir js (farm_start js d)"
  by (auto simp: lock_inv_def farm_start_def)

lemma lock_inv_change:
  assumes inv: "lock_inv dir js fm" and i: "i < length js"
    and locks: "holds_lock s' = holds_lock (fm_stages fm ! i) \<and> dk_locks d' = dk_locks (fm_disk fm)
      \<or> \<not> holds_lock (fm_stages fm ! i) \<and> holds_lock s' \<and> job_lock dir (js ! i) \<notin> set (dk_locks (fm_disk fm))
          \<and> dk_locks d' = job_lock dir (js ! i) # dk_locks (fm_disk fm)
      \<or> holds_lock (fm_stages fm ! i) \<and> \<not> holds_lock s' \<and> dk_locks d' = remove1 (job_lock dir (js ! i)) (dk_locks (fm_disk fm))"
  shows "lock_inv dir js \<lparr>fm_disk = d', fm_stages = (fm_stages fm)[i := s']\<rparr>"
  using locks
proof (elim disjE)
  assume "holds_lock s' = holds_lock (fm_stages fm ! i) \<and> dk_locks d' = dk_locks (fm_disk fm)"
  moreover have "holds_lock ((fm_stages fm)[i := s'] ! j) = holds_lock (fm_stages fm ! j)" if "j < length js" for j
    using inv i calculation by (cases "j = i") (auto simp: lock_inv_def)
  ultimately show ?thesis using inv i unfolding lock_inv_def by (auto simp del: nth_list_update)
next
  assume *: "\<not> holds_lock (fm_stages fm ! i) \<and> holds_lock s' \<and> job_lock dir (js ! i) \<notin> set (dk_locks (fm_disk fm))
          \<and> dk_locks d' = job_lock dir (js ! i) # dk_locks (fm_disk fm)"
  with inv i show ?thesis unfolding lock_inv_def by (auto simp: nth_list_update)
next
  assume *: "holds_lock (fm_stages fm ! i) \<and> \<not> holds_lock s' \<and> dk_locks d' = remove1 (job_lock dir (js ! i)) (dk_locks (fm_disk fm))"
  with inv i show ?thesis unfolding lock_inv_def by (auto simp: nth_list_update)
qed


lemma kill_locks:
  "dk_locks (kill_job dir jb k s d) = (if holds_lock s then remove1 (job_lock dir jb) (dk_locks d) else dk_locks d)"
  by (cases s) (simp_all add: kill_job_def Unlock_def)

lemma lock_inv_step:
  assumes "farm_step api dir js fm fm'" "lock_inv dir js fm"
  shows "lock_inv dir js fm'"
  using assms(1)
proof (cases rule: farm_step.cases)
  case (goes_on i s' d')
  from step_locks [OF goes_on(4)] goes_on(3) have "holds_lock s' = holds_lock (fm_stages fm ! i)
        \<and> dk_locks d' = dk_locks (fm_disk fm)
      \<or> \<not> holds_lock (fm_stages fm ! i) \<and> holds_lock s' \<and> job_lock dir (js ! i) \<notin> set (dk_locks (fm_disk fm))
          \<and> dk_locks d' = job_lock dir (js ! i) # dk_locks (fm_disk fm)
      \<or> holds_lock (fm_stages fm ! i) \<and> \<not> holds_lock s'
          \<and> dk_locks d' = remove1 (job_lock dir (js ! i)) (dk_locks (fm_disk fm))"
    by (auto simp: ready_def)
  from lock_inv_change [OF assms(2) goes_on(2) this] goes_on(1) show ?thesis by simp
next
  case (is_killed i k)
  show ?thesis unfolding is_killed(1)
    by (rule lock_inv_change [OF assms(2) is_killed(2)]) (auto simp: kill_locks)
qed

section \<open>The temporary files are private\<close>

definition temp_inv :: "string \<Rightarrow> job list \<Rightarrow> disk \<Rightarrow> farm \<Rightarrow> bool" where
  "temp_inv dir js d0 fm \<longleftrightarrow> length (fm_stages fm) = length js \<and>
     distinct (map (temp_path dir) (dk_temps (fm_disk fm))) \<and> temp_paths dir (fm_disk fm) \<subseteq> temp_paths dir d0 \<and>
     (\<forall>i < length js. \<forall>t. temp_of (fm_stages fm ! i) = Some t \<longrightarrow> t \<in> temp_paths dir d0 - temp_paths dir (fm_disk fm)) \<and>
     (\<forall>i j t. i < length js \<and> j < length js \<and> i \<noteq> j \<and> temp_of (fm_stages fm ! i) = Some t
        \<longrightarrow> temp_of (fm_stages fm ! j) \<noteq> Some t)"

lemma temp_inv_start: "names_ok dir js d \<Longrightarrow> temp_inv dir js d (farm_start js d)"
  by (auto simp: temp_inv_def farm_start_def names_ok_def)

lemma temp_inv_keep:
  assumes inv: "temp_inv dir js d0 fm" and i: "i < length js" and tmp: "temp_of s' \<in> {None, temp_of (fm_stages fm ! i)}"
    and temps: "dk_temps d' \<in> {dk_temps (fm_disk fm), []}"
  shows "temp_inv dir js d0 \<lparr>fm_disk = d', fm_stages = (fm_stages fm)[i := s']\<rparr>"
proof -
  have "temp_of ((fm_stages fm)[i := s'] ! j) = Some t \<Longrightarrow> temp_of (fm_stages fm ! j) = Some t" for j t
    using inv i tmp by (cases "j = i") (auto simp: temp_inv_def)
  moreover have "temp_paths dir d' \<subseteq> temp_paths dir (fm_disk fm)" "distinct (map (temp_path dir) (dk_temps d'))"
    using temps inv by (auto simp: temp_paths_def temp_inv_def)
  ultimately show ?thesis using inv unfolding temp_inv_def by (simp del: nth_list_update) blast
qed

lemma temp_inv_new:
  assumes inv: "temp_inv dir js d0 fm" and i: "i < length js" and new: "temp_of s' = Some (temp_path dir t)"
    and temps: "dk_temps (fm_disk fm) = us @ t # dk_temps d'"
  shows "temp_inv dir js d0 \<lparr>fm_disk = d', fm_stages = (fm_stages fm)[i := s']\<rparr>"
proof -
  have t: "temp_path dir t \<in> temp_paths dir (fm_disk fm)" "temp_path dir t \<notin> temp_paths dir d'"
    and sub: "temp_paths dir d' \<subseteq> temp_paths dir (fm_disk fm)" and dis: "distinct (map (temp_path dir) (dk_temps d'))"
    using inv temps by (auto simp: temp_inv_def temp_paths_def)
  have other: "temp_of (fm_stages fm ! j) \<noteq> Some (temp_path dir t)" if "j < length js" for j
    using inv t that by (auto simp: temp_inv_def)
  show ?thesis using inv i new t sub dis other unfolding temp_inv_def by (auto simp: nth_list_update)
qed

lemma kill_temps: "dk_temps (kill_job dir jb k s d) = dk_temps d"
  by (cases s) (simp_all add: kill_job_def Unlock_def)

lemma temp_inv_step:
  assumes "farm_step api dir js fm fm'" "temp_inv dir js d0 fm"
  shows "temp_inv dir js d0 fm'"
  using assms(1)
proof (cases rule: farm_step.cases)
  case (goes_on i s' d')
  from step_temps [OF goes_on(4)] temp_inv_keep [OF assms(2) goes_on(2)] temp_inv_new [OF assms(2) goes_on(2)]
  show ?thesis unfolding goes_on(1) by blast
next
  case (is_killed i k)
  show ?thesis unfolding is_killed(1)
    by (rule temp_inv_keep [OF assms(2) is_killed(2)]) (simp_all add: kill_temps)
qed


section \<open>Every file is old or complete\<close>

definition has_good :: "fetch_api \<Rightarrow> string \<Rightarrow> job \<Rightarrow> disk \<Rightarrow> string \<Rightarrow> bool" where
  "has_good api dir jb d p \<longleftrightarrow> p = job_path dir jb \<and>
     (\<exists>c. dk_files d p = Some c \<and> good_body api (jb_ovaURL jb) (jb_sha256Expected jb) c)"

definition has_hash :: "fetch_api \<Rightarrow> string \<Rightarrow> job \<Rightarrow> disk \<Rightarrow> string \<Rightarrow> bool" where
  "has_hash api dir jb d p \<longleftrightarrow> p = job_path dir jb \<and>
     (\<exists>c. dk_files d p = Some c \<and> jb_sha256Expected jb \<in> {'''', hex_sha256 api c})"

definition file_inv :: "fetch_api \<Rightarrow> string \<Rightarrow> job list \<Rightarrow> disk \<Rightarrow> farm \<Rightarrow> bool" where
  "file_inv api dir js d0 fm \<longleftrightarrow>
     (\<forall>i < length js. stage_ok api dir (js ! i) (fm_disk fm) (fm_stages fm ! i)) \<and>
     (\<forall>p. p \<notin> temp_paths dir d0 \<union> job_lock dir ` set js \<longrightarrow>
        dk_files (fm_disk fm) p = dk_files d0 p \<or> (\<exists>jb \<in> set js. has_good api dir jb (fm_disk fm) p)) \<and>
     (\<forall>i < length js. \<forall>p. fm_stages fm ! i = Returned (Inr p) \<longrightarrow>
        p = job_path dir (js ! i) \<and> (\<exists>jb \<in> set js. has_hash api dir jb (fm_disk fm) p))"

lemma has_good_hash: "has_good api dir jb d p \<Longrightarrow> has_hash api dir jb d p"
  by (auto simp: has_good_def has_hash_def dest: good_body_hash)

lemma has_cong:
  assumes "dk_files d' p = dk_files d p"
  shows "has_good api dir jb d' p = has_good api dir jb d p" "has_hash api dir jb d' p = has_hash api dir jb d p"
  using assms by (simp_all add: has_good_def has_hash_def)

lemma job_lock_inj: "job_lock dir jb = job_lock dir jb' \<longleftrightarrow> job_path dir jb = job_path dir jb'"
  by (simp add: job_lock_def)

lemma file_inv_start: "file_inv api dir js d (farm_start js d)"
  by (simp add: file_inv_def farm_start_def)

lemma temp_in: "temp_inv dir js d0 fm \<Longrightarrow> i < length js \<Longrightarrow> temp_of (fm_stages fm ! i) = Some t \<Longrightarrow> t \<in> temp_paths dir d0"
  by (auto simp: temp_inv_def)

lemma temp_other: "temp_inv dir js d0 fm \<Longrightarrow> i < length js \<Longrightarrow> j < length js \<Longrightarrow> j \<noteq> i \<Longrightarrow>
    temp_of (fm_stages fm ! j) = Some t \<Longrightarrow> temp_of (fm_stages fm ! i) \<noteq> Some t"
  by (auto simp: temp_inv_def)

text \<open>Job \<open>i\<close> takes the farm to \<open>s'\<close> and \<open>d'\<close>, and changes only its own files.\<close>

definition own_files ::
  "fetch_api \<Rightarrow> string \<Rightarrow> job list \<Rightarrow> disk \<Rightarrow> farm \<Rightarrow> nat \<Rightarrow> stage \<Rightarrow> disk \<Rightarrow> bool" where
  "own_files api dir js d0 fm i s' d' \<longleftrightarrow> i < length js \<and> names_ok dir js d0 \<and> file_inv api dir js d0 fm \<and>
     lock_inv dir js fm \<and> temp_inv dir js d0 fm \<and>
     temp_inv dir js d0 \<lparr>fm_disk = d', fm_stages = (fm_stages fm)[i := s']\<rparr> \<and>
     (\<forall>q. dk_files d' q = dk_files (fm_disk fm) q \<or> Some q \<in> {temp_of (fm_stages fm ! i), temp_of s'}
       \<or> q = job_lock dir (js ! i) \<or> holds_lock (fm_stages fm ! i) \<and> has_good api dir (js ! i) d' q)"

lemma own_files_outside:
  assumes "own_files api dir js d0 fm i s' d'" "q \<notin> temp_paths dir d0 \<union> job_lock dir ` set js"
  shows "dk_files d' q = dk_files (fm_disk fm) q
    \<or> holds_lock (fm_stages fm ! i) \<and> has_good api dir (js ! i) d' q"
proof -
  from assms(1) have i: "i < length js" "i < length (fm_stages fm)" "js ! i \<in> set js"
    by (simp_all add: own_files_def lock_inv_def)
  have "q \<in> temp_paths dir d0" if "Some q \<in> {temp_of (fm_stages fm ! i), temp_of s'}"
    using assms(1) that i temp_in [of dir js d0 fm i q]
      temp_in [of dir js d0 "\<lparr>fm_disk = d', fm_stages = (fm_stages fm)[i := s']\<rparr>" i q]
    by (auto simp: own_files_def)
  with assms i(3) show ?thesis unfolding own_files_def by blast
qed

lemma own_files_path:
  assumes "own_files api dir js d0 fm i s' d'" "j < length js"
  shows "job_path dir (js ! j) \<notin> temp_paths dir d0 \<union> job_lock dir ` set js"
  using assms unfolding own_files_def names_ok_def by (fastforce dest: nth_mem)

lemma own_files_stage:
  assumes own: "own_files api dir js d0 fm i s' d'" and j: "j < length js" "j \<noteq> i"
  shows "stage_ok api dir (js ! j) d' (fm_stages fm ! j)"
proof (rule stage_ok_frame)
  let ?fm' = "\<lparr>fm_disk = d', fm_stages = (fm_stages fm)[i := s']\<rparr>"
  from own have i: "i < length js" "js ! i \<in> set js" and inv: "temp_inv dir js d0 fm" "temp_inv dir js d0 ?fm'"
    and len: "length (fm_stages fm) = length js" and names: "names_ok dir js d0"
    by (simp_all add: own_files_def lock_inv_def)
  show "stage_ok api dir (js ! j) (fm_disk fm) (fm_stages fm ! j)" using own j by (simp add: own_files_def file_inv_def)
  {
    fix t assume t: "temp_of (fm_stages fm ! j) = Some t"
    have "Some t \<notin> {temp_of (fm_stages fm ! i), temp_of s'}"
      using temp_other [OF inv(1) i(1) j t] temp_other [OF inv(2) i(1) j, of t] t j i len by auto
    moreover have "t \<noteq> job_lock dir (js ! i)" "\<not> has_good api dir (js ! i) d' t"
      using names i temp_in [OF inv(1) j(1) t] by (auto simp: names_ok_def has_good_def)
    ultimately show "dk_files d' t = dk_files (fm_disk fm) t" using own unfolding own_files_def by blast
  }
  assume "holds_lock (fm_stages fm ! j)"
  with own i j have "\<not> (holds_lock (fm_stages fm ! i) \<and> has_good api dir (js ! i) d' (job_path dir (js ! j)))"
    unfolding own_files_def lock_inv_def has_good_def job_lock_inj by metis
  with own_files_outside [OF own own_files_path [OF own j(1)]]
  show "dk_files d' (job_path dir (js ! j)) = dk_files (fm_disk fm) (job_path dir (js ! j))" by blast
qed

lemma own_files_kept:
  assumes own: "own_files api dir js d0 fm i s' d'" and p: "p \<notin> temp_paths dir d0 \<union> job_lock dir ` set js"
  shows "dk_files d' p = dk_files d0 p \<or> (\<exists>jb \<in> set js. has_good api dir jb d' p)"
proof -
  have "dk_files (fm_disk fm) p = dk_files d0 p \<or> (\<exists>jb \<in> set js. has_good api dir jb (fm_disk fm) p)"
    and "js ! i \<in> set js" using own p by (simp_all add: own_files_def file_inv_def)
  with own_files_outside [OF own p] show ?thesis using has_cong(1) [of d' p "fm_disk fm"] by metis
qed

lemma own_files_returned:
  assumes own: "own_files api dir js d0 fm i s' d'" and j: "j < length js"
    and r: "fm_stages fm ! j = Returned (Inr p)"
  shows "p = job_path dir (js ! j) \<and> (\<exists>jb \<in> set js. has_hash api dir jb d' p)"
proof -
  have p: "p = job_path dir (js ! j) \<and> (\<exists>jb \<in> set js. has_hash api dir jb (fm_disk fm) p)"
    and i: "js ! i \<in> set js" using own j r by (simp_all add: own_files_def file_inv_def)
  with own_files_outside [OF own own_files_path [OF own j]] has_good_hash
  have "dk_files d' p = dk_files (fm_disk fm) p \<or> has_hash api dir (js ! i) d' p" by blast
  with p i show ?thesis using has_cong(2) [of d' p "fm_disk fm"] by metis
qed

lemma file_inv_change:
  assumes own: "own_files api dir js d0 fm i s' d'" and ok: "stage_ok api dir (js ! i) d' s'"
    and ret: "\<And>p. s' = Returned (Inr p) \<Longrightarrow> has_hash api dir (js ! i) d' p"
  shows "file_inv api dir js d0 \<lparr>fm_disk = d', fm_stages = (fm_stages fm)[i := s']\<rparr>"
proof -
  from own have i: "i < length js" "i < length (fm_stages fm)" "js ! i \<in> set js"
    by (simp_all add: own_files_def lock_inv_def)
  have "stage_ok api dir (js ! j) d' ((fm_stages fm)[i := s'] ! j)" if "j < length js" for j
    using ok own_files_stage [OF own that] i by (cases "j = i") auto
  moreover have "p = job_path dir (js ! j) \<and> (\<exists>jb \<in> set js. has_hash api dir jb d' p)"
    if "j < length js" "(fm_stages fm)[i := s'] ! j = Returned (Inr p)" for j p
    using ret [of p] own_files_returned [OF own that(1), of p] that i by (cases "j = i") (auto simp: has_hash_def)
  ultimately show ?thesis using own_files_kept [OF own] unfolding file_inv_def by simp
qed

lemma step_Returned: "job_step api dir jb s d = (Returned (Inr p), d') \<Longrightarrow> \<not> finished s \<Longrightarrow>
    s = Unlocking (Inr p) \<and> dk_files d' = dk_files d"
  by (cases s) (auto simp: call_then_def map_prod_def Let_def Unlock_def split: prod.splits sum.splits if_splits)

lemma kill_files: "dk_files (kill_job dir jb k s d) q = dk_files d q \<or> Some q = temp_of s"
  by (cases s) (simp_all add: kill_job_def Unlock_def)

lemma file_inv_step:
  assumes step: "farm_step api dir js fm fm'" and inv: "file_inv api dir js d0 fm" "lock_inv dir js fm"
    "temp_inv dir js d0 fm" and names: "names_ok dir js d0"
  shows "file_inv api dir js d0 fm'"
  using step
proof (cases rule: farm_step.cases)
  case (goes_on i s' d')
  let ?s = "fm_stages fm ! i"
  have ok: "stage_ok api dir (js ! i) (fm_disk fm) ?s" using inv(1) goes_on(2) by (simp add: file_inv_def)
  have tmp: "temp_of ?s \<noteq> Some (job_path dir (js ! i))"
    using names temp_in [OF inv(3) goes_on(2)] goes_on(2) by (auto simp: names_ok_def)
  note ok' = step_stage_ok [OF goes_on(4) ok tmp]
  have "dk_files d' q = dk_files (fm_disk fm) q \<or> Some q \<in> {temp_of ?s, temp_of s'} \<or> q = job_lock dir (js ! i)
      \<or> holds_lock ?s \<and> has_good api dir (js ! i) d' q" for q
    using step_files [OF goes_on(4), of q] ok by (auto simp: has_good_def)
  with inv names goes_on temp_inv_step [OF step inv(3)] have "own_files api dir js d0 fm i s' d'"
    by (simp add: own_files_def)
  moreover have "has_hash api dir (js ! i) d' p" if "s' = Returned (Inr p)" for p
    using step_Returned [OF goes_on(4) [unfolded that]] goes_on(3) ok
    by (auto simp: ready_def result_ok_def has_hash_def)
  ultimately show ?thesis unfolding goes_on(1) using ok' by (blast intro: file_inv_change)
next
  case (is_killed i k)
  let ?d = "kill_job dir (js ! i) k (fm_stages fm ! i) (fm_disk fm)"
  have "own_files api dir js d0 fm i Killed ?d"
    using inv names is_killed temp_inv_step [OF step inv(3)] unfolding own_files_def
    by (metis (no_types, lifting) kill_files insertI1)
  from file_inv_change [OF this] show ?thesis unfolding is_killed(1) by simp
qed


lemma farm_invs:
  assumes "(farm_step api dir js)\<^sup>*\<^sup>* (farm_start js d) fm" "names_ok dir js d" "dk_locks d = []"
  shows "lock_inv dir js fm \<and> temp_inv dir js d fm \<and> file_inv api dir js d fm"
  using assms(1)
proof (induction rule: rtranclp_induct)
  case base
  show ?case by (simp add: lock_inv_start temp_inv_start file_inv_start assms(2,3))
next
  case (step fm1 fm2)
  then show ?case by (blast intro: lock_inv_step temp_inv_step file_inv_step assms(2))
qed

text \<open>C16: downloads that run at the same time on one cache directory do not spoil it, whatever the
  order of their calls, whatever calls fail and whichever jobs are killed.  No two jobs for one
  file are between \<open>Flock\<close> and the unlock together; at every moment every file but the temporary
  and the lock files is what it was in the beginning or the whole, verified body of an answer that
  some job got; and once a job has returned a path, a file is there, with the hash that a job for
  this file expects.  So concurrent calls that agree on the hash of a file all get that file.\<close>
theorem concurrent_downloads:
  assumes "(farm_step api dir js)\<^sup>*\<^sup>* (farm_start js d) fm" "names_ok dir js d" "dk_locks d = []"
  shows "(\<forall>i j. i < j \<and> j < length js \<and> holds_lock (fm_stages fm ! i) \<and> holds_lock (fm_stages fm ! j)
        \<longrightarrow> job_path dir (js ! i) \<noteq> job_path dir (js ! j))
    \<and> (\<forall>p. p \<notin> temp_paths dir d \<union> job_lock dir ` set js \<longrightarrow>
        dk_files (fm_disk fm) p = dk_files d p \<or> (\<exists>jb \<in> set js. has_good api dir jb (fm_disk fm) p))
    \<and> (\<forall>i < length js. \<forall>p. fm_stages fm ! i = Returned (Inr p) \<longrightarrow>
        p = job_path dir (js ! i) \<and> (\<exists>jb \<in> set js. has_hash api dir jb (fm_disk fm) p))"
proof -
  from farm_invs [OF assms] have lock: "lock_inv dir js fm" and files: "file_inv api dir js d fm" by simp_all
  have "job_path dir (js ! i) \<noteq> job_path dir (js ! j)"
    if "i < j" "j < length js" "holds_lock (fm_stages fm ! i)" "holds_lock (fm_stages fm ! j)" for i j
    using lock that less_trans [OF that(1,2)] unfolding lock_inv_def job_lock_inj
    by (metis (no_types) less_irrefl)
  with files show ?thesis unfolding file_inv_def by blast
qed

section \<open>The downloads come to an end\<close>

definition farm_left :: "farm \<Rightarrow> nat" where
  "farm_left fm = sum_list (map steps_left (fm_stages fm))"

lemma sum_list_update_less:
  "i < length xs \<Longrightarrow> f y < f (xs ! i) \<Longrightarrow> sum_list (map f (xs[i := y])) < (sum_list (map f xs) :: nat)"
  by (induction xs arbitrary: i) (auto split: nat.splits)

lemma farm_step_left:
  assumes "farm_step api dir js fm fm'" "length (fm_stages fm) = length js"
  shows "farm_left fm' < farm_left fm \<and> length (fm_stages fm') = length js"
  using assms(1)
proof (cases rule: farm_step.cases)
  case (goes_on i s' d')
  with steps_left_decreases [OF goes_on(4)] assms(2) show ?thesis
    by (auto simp: farm_left_def ready_def intro!: sum_list_update_less)
next
  case (is_killed i k)
  with assms(2) show ?thesis by (auto simp: farm_left_def intro!: sum_list_update_less)
qed

lemma farm_steps_left:
  assumes "(farm_step api dir js ^^ k) fm fm'" "length (fm_stages fm) = length js"
  shows "farm_left fm' + k \<le> farm_left fm \<and> length (fm_stages fm') = length js"
  using assms(1)
proof (induction k arbitrary: fm')
  case (Suc k)
  then obtain fm1 where "(farm_step api dir js ^^ k) fm fm1" "farm_step api dir js fm1 fm'" by auto
  with Suc.IH [of fm1] farm_step_left [of api dir js fm1 fm'] show ?case by auto
qed (use assms(2) in simp)

lemma lock_inv_reach:
  assumes "(farm_step api dir js)\<^sup>*\<^sup>* fm fm'" "lock_inv dir js fm"
  shows "lock_inv dir js fm'"
  using assms by (induction rule: rtranclp_induct) (auto intro: lock_inv_step)

lemma lock_inv_free:
  assumes "lock_inv dir js fm" "\<forall>i < length js. \<not> holds_lock (fm_stages fm ! i)"
  shows "dk_locks (fm_disk fm) = []"
proof -
  from assms(1) have "set (dk_locks (fm_disk fm)) =
      {job_lock dir (js ! i) | i. i < length js \<and> holds_lock (fm_stages fm ! i)}" by (simp add: lock_inv_def)
  also have "\<dots> = {}" using assms(2) by simp
  finally show ?thesis by simp
qed

lemma lock_inv_ready:
  assumes "lock_inv dir js fm" "i < length js" "\<not> finished (fm_stages fm ! i)"
  shows "\<exists>i < length js. ready dir (js ! i) (fm_stages fm ! i) (fm_disk fm)"
proof (cases "\<exists>j < length js. holds_lock (fm_stages fm ! j)")
  case True
  then obtain j where j: "j < length js" "holds_lock (fm_stages fm ! j)" by blast
  then have "ready dir (js ! j) (fm_stages fm ! j) (fm_disk fm)"
    by (cases "fm_stages fm ! j") (auto simp: ready_def)
  with j show ?thesis by blast
next
  case False
  with lock_inv_free [OF assms(1)] have "dk_locks (fm_disk fm) = []" by blast
  then have "ready dir (js ! i) (fm_stages fm ! i) (fm_disk fm)" using assms(3) by (simp add: ready_def)
  with assms(2) show ?thesis by blast
qed

text \<open>C17: concurrent downloads end.  However the calls are interleaved, there are at most eleven
  steps per job; as long as some job has not returned, some job can go on, so that no set of
  downloads waits for each other's locks for ever, not even after a job was killed while it held
  one; and in the end no lock is left.\<close>
theorem concurrent_downloads_end:
  assumes "(farm_step api dir js ^^ k) (farm_start js d) fm" "dk_locks d = []"
  shows "k \<le> 11 * length js \<and>
    (if \<forall>i < length js. finished (fm_stages fm ! i) then dk_locks (fm_disk fm) = []
     else \<exists>i < length js. ready dir (js ! i) (fm_stages fm ! i) (fm_disk fm))"
proof -
  from relpowp_imp_rtranclp [OF assms(1)] have inv: "lock_inv dir js fm"
    using lock_inv_reach lock_inv_start [OF assms(2)] by blast
  have "farm_left (farm_start js d) = 11 * length js"
    by (simp add: farm_left_def farm_start_def sum_list_replicate)
  with farm_steps_left [OF assms(1)] have "k \<le> 11 * length js" by (simp add: farm_start_def)
  moreover have "dk_locks (fm_disk fm) = []" if fin: "\<forall>i < length js. finished (fm_stages fm ! i)"
  proof -
    have "\<not> holds_lock (fm_stages fm ! i)" if "i < length js" for i
      using fin that by (cases "fm_stages fm ! i") auto
    with lock_inv_free [OF inv] show ?thesis by blast
  qed
  ultimately show ?thesis using lock_inv_ready [OF inv] by auto
qed

end
