(* ===== verification/Tags.thy ===== *)
theory Tags
  imports Sessions
begin

text \<open>
  \<open>pkg/vsphere/tags.go\<close> and \<open>spbm.go\<close>: tag categories, tags and their datastores, and storage
  profiles.

  The tag manager, the finder and the profile client of a session are the fields of \<open>tag_api\<close>; what
  a vCenter knows is seen through two views of the world, its list of tags and the set of (object,
  tag identifier) attachments.  Log messages are left out.
\<close>

record Category =
  ct_ID :: string
  ct_Name :: string

record Tag =
  tg_ID :: string
  tg_Name :: string
  tg_CategoryID :: string

record mo_ref =
  mo_Type :: string
  mo_Value :: string

record 'w tag_api =
  get_categories :: "'w \<Rightarrow> Category list res \<times> 'w"
  get_tags_for_category :: "string \<Rightarrow> 'w \<Rightarrow> Tag list res \<times> 'w"
  get_tags :: "'w \<Rightarrow> Tag list res \<times> 'w"
  find_datastore :: "string \<Rightarrow> 'w \<Rightarrow> mo_ref res \<times> 'w"
  list_datastores :: "string \<Rightarrow> 'w \<Rightarrow> string list res \<times> 'w"
  get_attached_tags :: "mo_ref \<Rightarrow> 'w \<Rightarrow> Tag list res \<times> 'w"
  list_attached_objects :: "string \<Rightarrow> 'w \<Rightarrow> mo_ref list res \<times> 'w"
  object_name :: "mo_ref \<Rightarrow> 'w \<Rightarrow> string res \<times> 'w"
  attach_tag :: "string \<Rightarrow> mo_ref \<Rightarrow> 'w \<Rightarrow> unit res \<times> 'w"
  detach_tag :: "string \<Rightarrow> mo_ref \<Rightarrow> 'w \<Rightarrow> unit res \<times> 'w"
  pbm_client :: "'w \<Rightarrow> unit res \<times> 'w"
  profile_id_by_name :: "string \<Rightarrow> 'w \<Rightarrow> string res \<times> 'w"
  tag_error_text :: "goerror \<Rightarrow> string"

section \<open>Names\<close>

definition GetClusterTagCategoryName :: "string \<Rightarrow> string" where
  "GetClusterTagCategoryName infraID = ''openshift-'' @ infraID"

definition GetClusterTagName :: "string \<Rightarrow> string" where
  "GetClusterTagName infraID = infraID"

definition GetStoragePolicyName :: "string \<Rightarrow> string" where
  "GetStoragePolicyName infraID = ''openshift-storage-policy-'' @ infraID"

section \<open>Searches\<close>

definition FindTagCategoryByName :: "'w tag_api \<Rightarrow> string \<Rightarrow> 'w \<Rightarrow> Category option res \<times> 'w" where
  "FindTagCategoryByName api name =
     bindM (wrapM ''listing tag categories: %w'' [] (get_categories api)) (\<lambda>categories.
       ret (find_first (\<lambda>c. ct_Name c = name) categories))"

definition FindTagByName :: "'w tag_api \<Rightarrow> string \<Rightarrow> string \<Rightarrow> 'w \<Rightarrow> Tag option res \<times> 'w" where
  "FindTagByName api categoryID name =
     bindM (wrapM ''listing tags for category %s: %w'' [AStr categoryID]
              (get_tags_for_category api categoryID)) (\<lambda>tagList.
       ret (find_first (\<lambda>t. tg_Name t = name) tagList))"

definition IsDatastoreTagged :: "'w tag_api \<Rightarrow> string \<Rightarrow> string \<Rightarrow> 'w \<Rightarrow> bool res \<times> 'w" where
  "IsDatastoreTagged api datastorePath tagName =
     bindM (wrapM ''finding datastore %q: %w'' [AStr datastorePath] (find_datastore api datastorePath)) (\<lambda>ds.
     bindM (wrapM ''getting attached tags for datastore %q: %w'' [AStr datastorePath]
              (get_attached_tags api ds)) (\<lambda>attachedTags.
       ret (list_ex (\<lambda>t. tg_Name t = tagName) attachedTags)))"

fun datastore_names :: "'w tag_api \<Rightarrow> mo_ref list \<Rightarrow> 'w \<Rightarrow> string list res \<times> 'w" where
  "datastore_names api [] = ret []"
| "datastore_names api (mor # refs) =
     (if mo_Type mor \<noteq> ''Datastore'' then datastore_names api refs
      else bindM (tryM (object_name api mor)) (\<lambda>name.
           bindM (datastore_names api refs) (\<lambda>names.
             ret (case name of Inl _ \<Rightarrow> names | Inr name \<Rightarrow> name # names))))"

definition ListTaggedDatastoreNames :: "'w tag_api \<Rightarrow> string \<Rightarrow> 'w \<Rightarrow> string list res \<times> 'w" where
  "ListTaggedDatastoreNames api tagID =
     bindM (wrapM ''listing objects attached to tag %s: %w'' [AStr tagID] (list_attached_objects api tagID))
       (datastore_names api)"

section \<open>Attaching and detaching\<close>

definition resolveTagIDByName :: "'w tag_api \<Rightarrow> string \<Rightarrow> 'w \<Rightarrow> string res \<times> 'w" where
  "resolveTagIDByName api tagName =
     bindM (wrapM ''listing tags: %w'' [] (get_tags api)) (\<lambda>tagList.
       case find_first (\<lambda>t. tg_Name t = tagName) tagList of
         Some t \<Rightarrow> ret (tg_ID t)
       | None \<Rightarrow> throw (Errorf ''tag %q not found'' [AStr tagName]))"

definition AttachTagToDatastore :: "'w tag_api \<Rightarrow> string \<Rightarrow> string \<Rightarrow> 'w \<Rightarrow> unit res \<times> 'w" where
  "AttachTagToDatastore api datastorePath tagName =
     bindM (wrapM ''finding datastore %q: %w'' [AStr datastorePath] (find_datastore api datastorePath)) (\<lambda>ds.
     bindM (resolveTagIDByName api tagName) (\<lambda>tagID.
       wrapM ''attaching tag %q to datastore %q: %w'' [AStr tagName, AStr datastorePath]
         (attach_tag api tagID ds)))"

definition DetachTagFromDatastore :: "'w tag_api \<Rightarrow> string \<Rightarrow> string \<Rightarrow> 'w \<Rightarrow> unit res \<times> 'w" where
  "DetachTagFromDatastore api datastorePath tagName =
     bindM (wrapM ''finding datastore %q: %w'' [AStr datastorePath] (find_datastore api datastorePath)) (\<lambda>ds.
     bindM (resolveTagIDByName api tagName) (\<lambda>tagID.
       wrapM ''detaching tag %q from datastore %q: %w'' [AStr tagName, AStr datastorePath]
         (detach_tag api tagID ds)))"

section \<open>A datastore outside every failure domain\<close>

definition FindNonFDDatastore ::
  "'w tag_api \<Rightarrow> string \<Rightarrow> failure_domain list \<Rightarrow> 'w \<Rightarrow> (string \<times> bool) res \<times> 'w" where
  "FindNonFDDatastore api datacenter fds =
     (let fdPaths = map (\<lambda>fd. tp_datastore (fd_topology fd)) fds in
      bindM (wrapM ''listing datastores in datacenter %q: %w'' [AStr datacenter] (list_datastores api ''*''))
        (\<lambda>datastores.
           case find_first (\<lambda>path. path \<notin> set fdPaths) datastores of
             Some path \<Rightarrow> ret (path, True)
           | None \<Rightarrow> ret ('''', False)))"

section \<open>Storage profiles\<close>

definition StorageProfileExists :: "'w tag_api \<Rightarrow> string \<Rightarrow> 'w \<Rightarrow> bool res \<times> 'w" where
  "StorageProfileExists api profileName =
     bindM (wrapM ''creating PBM client: %w'' [] (pbm_client api)) (\<lambda>_.
     bindM (tryM (profile_id_by_name api profileName)) (\<lambda>found.
       case found of
         Inr _ \<Rightarrow> ret True
       | Inl err \<Rightarrow>
           if Contains (tag_error_text api err) ''no pbm profile found with name'' then ret False
           else throw (Wrapf ''looking up storage profile %q: %w'' [AStr profileName] err)))"

section \<open>What is relied on\<close>

definition tags_on :: "Tag list \<Rightarrow> (mo_ref \<times> string) set \<Rightarrow> mo_ref \<Rightarrow> Tag set" where
  "tags_on all_tags att d = {t \<in> set all_tags. (d, tg_ID t) \<in> att}"

text \<open>
  The operations report and change the two views: \<open>all_tags\<close> never changes here, \<open>ds_ref\<close> is the
  object at an inventory path, attaching and detaching change one attachment when they succeed and
  none when they fail, and everything else only reads.
\<close>

definition tags_ok ::
  "'w tag_api \<Rightarrow> ('w \<Rightarrow> (mo_ref \<times> string) set) \<Rightarrow> Tag list \<Rightarrow> (string \<Rightarrow> mo_ref) \<Rightarrow> bool" where
  "tags_ok api attached all_tags ds_ref \<longleftrightarrow>
     (\<forall>w r w'. get_tags api w = (r, w') \<longrightarrow> attached w' = attached w \<and> (\<forall>l. r = Inr l \<longrightarrow> l = all_tags)) \<and>
     (\<forall>p w r w'. find_datastore api p w = (r, w') \<longrightarrow>
        attached w' = attached w \<and> (\<forall>d. r = Inr d \<longrightarrow> d = ds_ref p)) \<and>
     (\<forall>d w r w'. get_attached_tags api d w = (r, w') \<longrightarrow>
        attached w' = attached w \<and>
        (\<forall>l. r = Inr l \<longrightarrow> set l = tags_on all_tags (attached w) d)) \<and>
     (\<forall>i d w r w'. attach_tag api i d w = (r, w') \<longrightarrow>
        attached w' = (if is_ok r then insert (d, i) (attached w) else attached w)) \<and>
     (\<forall>i d w r w'. detach_tag api i d w = (r, w') \<longrightarrow>
        attached w' = (if is_ok r then attached w - {(d, i)} else attached w))"

lemma tags_okD:
  assumes "tags_ok api attached all_tags ds_ref"
  shows "get_tags api w = (r, w') \<Longrightarrow> attached w' = attached w \<and> (\<forall>l. r = Inr l \<longrightarrow> l = all_tags)"
    and "find_datastore api p w = (r1, w') \<Longrightarrow> attached w' = attached w \<and> (\<forall>d. r1 = Inr d \<longrightarrow> d = ds_ref p)"
    and "get_attached_tags api d w = (r2, w') \<Longrightarrow> attached w' = attached w \<and>
        (\<forall>l. r2 = Inr l \<longrightarrow> set l = tags_on all_tags (attached w) d)"
    and "attach_tag api i d w = (r3, w') \<Longrightarrow>
        attached w' = (if is_ok r3 then insert (d, i) (attached w) else attached w)"
    and "detach_tag api i d w = (r4, w') \<Longrightarrow>
        attached w' = (if is_ok r4 then attached w - {(d, i)} else attached w)"
  using assms unfolding tags_ok_def by metis+

lemma resolve_first:
  assumes ok: "tags_ok api attached all_tags ds_ref" and run: "resolveTagIDByName api n w = (Inr i, w')"
  obtains t where "find_first (\<lambda>t. tg_Name t = n) all_tags = Some t" "tg_ID t = i" "attached w' = attached w"
proof -
  from run obtain l where "get_tags api w = (Inr l, w')"
    and l: "find_first (\<lambda>t. tg_Name t = n) l \<noteq> None"
      "i = (case find_first (\<lambda>t. tg_Name t = n) l of Some t \<Rightarrow> tg_ID t)"
    by (auto simp: resolveTagIDByName_def comp_Inr split: option.splits)
  with tags_okD(1) [OF ok] have "l = all_tags" "attached w' = attached w" by blast+
  with l that show thesis by auto
qed

lemma Attach_effect:
  assumes ok: "tags_ok api attached all_tags ds_ref" and run: "AttachTagToDatastore api p n w = (Inr (), w')"
  obtains t where "find_first (\<lambda>t. tg_Name t = n) all_tags = Some t"
    "attached w' = insert (ds_ref p, tg_ID t) (attached w)"
proof -
  from run obtain d w1 i w2 where d: "find_datastore api p w = (Inr d, w1)"
    and i: "resolveTagIDByName api n w1 = (Inr i, w2)" and a: "attach_tag api i d w2 = (Inr (), w')"
    by (auto simp: AttachTagToDatastore_def comp_Inr)
  from i obtain t where "find_first (\<lambda>t. tg_Name t = n) all_tags = Some t" "tg_ID t = i" "attached w2 = attached w1"
    by (rule resolve_first [OF ok])
  with tags_okD(2) [OF ok d] tags_okD(4) [OF ok a] that show thesis by simp
qed

lemma Detach_effect:
  assumes ok: "tags_ok api attached all_tags ds_ref" and run: "DetachTagFromDatastore api p n w = (Inr (), w')"
  obtains t where "find_first (\<lambda>t. tg_Name t = n) all_tags = Some t"
    "attached w' = attached w - {(ds_ref p, tg_ID t)}"
proof -
  from run obtain d w1 i w2 where d: "find_datastore api p w = (Inr d, w1)"
    and i: "resolveTagIDByName api n w1 = (Inr i, w2)" and a: "detach_tag api i d w2 = (Inr (), w')"
    by (auto simp: DetachTagFromDatastore_def comp_Inr)
  from i obtain t where "find_first (\<lambda>t. tg_Name t = n) all_tags = Some t" "tg_ID t = i" "attached w2 = attached w1"
    by (rule resolve_first [OF ok])
  with tags_okD(2) [OF ok d] tags_okD(5) [OF ok a] that show thesis by simp
qed

lemma IsDatastoreTagged_iff:
  assumes ok: "tags_ok api attached all_tags ds_ref" and run: "IsDatastoreTagged api p n w = (Inr b, w')"
  shows "attached w' = attached w \<and> (b \<longleftrightarrow> (\<exists>t \<in> set all_tags. tg_Name t = n \<and> (ds_ref p, tg_ID t) \<in> attached w))"
proof -
  from run obtain d w1 l where d: "find_datastore api p w = (Inr d, w1)"
    and l: "get_attached_tags api d w1 = (Inr l, w')" "b \<longleftrightarrow> (\<exists>t \<in> set l. tg_Name t = n)"
    by (auto simp: IsDatastoreTagged_def comp_Inr list_ex_iff)
  with tags_okD(2) [OF ok d] tags_okD(3) [OF ok l(1)] show ?thesis by (auto simp: tags_on_def)
qed

text \<open>C24: A tag that \<open>AttachTagToDatastore\<close> attached is reported by \<open>IsDatastoreTagged\<close>; detaching it
  takes exactly that attachment away again; and when no two tags of the vCenter share the name, the
  datastore is then reported as not tagged.\<close>
theorem tag_attach_detach:
  assumes "tags_ok api attached all_tags ds_ref"
    and "AttachTagToDatastore api p n w0 = (Inr (), w1)" "IsDatastoreTagged api p n w1 = (Inr b, w2)"
    and "DetachTagFromDatastore api p n w2 = (Inr (), w3)" "IsDatastoreTagged api p n w3 = (Inr b', w4)"
  shows "b \<and> (\<exists>i. attached w2 = insert (ds_ref p, i) (attached w0) \<and> attached w4 = attached w0 - {(ds_ref p, i)})
     \<and> \<not> (b' \<and> distinct (map tg_Name all_tags))"
proof -
  from assms(2) obtain t where t: "find_first (\<lambda>t. tg_Name t = n) all_tags = Some t"
    and 1: "attached w1 = insert (ds_ref p, tg_ID t) (attached w0)" by (rule Attach_effect [OF assms(1)])
  from assms(4) t have 3: "attached w3 = attached w2 - {(ds_ref p, tg_ID t)}"
    by (auto elim: Detach_effect [OF assms(1)])
  have in_tags: "t \<in> set all_tags" "tg_Name t = n" using find_first_SomeD [OF t] by simp_all
  note 2 = IsDatastoreTagged_iff [OF assms(1,3)] and 4 = IsDatastoreTagged_iff [OF assms(1,5)]
  have "\<not> b'" if d: "distinct (map tg_Name all_tags)"
  proof -
    have "t' = t" if "t' \<in> set all_tags" "tg_Name t' = n" for t'
      using d that in_tags by (metis distinct_map inj_onD)
    with 4 3 show ?thesis by blast
  qed
  with 1 2 3 4 in_tags show ?thesis by auto
qed

lemma FindNonFDDatastore_cases:
  "FindNonFDDatastore api dc fds w = (Inr (path, found), w') \<Longrightarrow>
     \<exists>ds. list_datastores api ''*'' w = (Inr ds, w') \<and>
       find_first (\<lambda>path. path \<notin> set (map (\<lambda>fd. tp_datastore (fd_topology fd)) fds)) ds =
         (if found then Some path else None) \<and> (found \<or> path = '''')"
  by (auto simp: FindNonFDDatastore_def Let_def comp_Inr split: option.splits)

text \<open>\<open>FindNonFDDatastore\<close> gives the first datastore of the listing that no failure domain uses,
  and gives none only when every listed datastore belongs to a failure domain.\<close>
theorem non_fd_datastore:
  assumes "FindNonFDDatastore api dc fds w = (Inr (path, found), w')"
    and "list_datastores api ''*'' w = (Inr ds, w')"
  shows "if found
     then \<exists>before after. ds = before @ path # after \<and> path \<notin> set (map (\<lambda>fd. tp_datastore (fd_topology fd)) fds)
       \<and> set before \<subseteq> set (map (\<lambda>fd. tp_datastore (fd_topology fd)) fds)
     else path = '''' \<and> set ds \<subseteq> set (map (\<lambda>fd. tp_datastore (fd_topology fd)) fds)"
  using FindNonFDDatastore_cases [OF assms(1)] assms(2)
  by (cases found) (auto simp: find_first_Some_iff find_first_None_iff)

end
