(* ===== verification/OvaImport.thy ===== *)
theory OvaImport
  imports Tags
begin

text \<open>
  The rest of \<open>pkg/vsphere/image.go\<close>: templates, the OVA archive, and \<open>ImportOVA\<close>, which imports an
  archive under an NFC lease and marks the result as a template.

  The vSphere objects are the fields of \<open>ova_api\<close>, over a world \<open>'w\<close>; objects are named by strings,
  managed object references by \<open>mo_ref\<close>.  An archive is the list of what \<open>tar.Reader.Next\<close> returns
  until the end of the file.  The state of an import carries, beside the world, the list of the
  events of the lease, a ghost that the program cannot read.  Log messages are left out.
\<close>

datatype tar_item =
    TarEntry string int "string res"
  | TarError goerror

record FileItem =
  fi_Path :: string
  fi_other :: string

record import_params =
  ip_DiskProvisioning :: string
  ip_EntityName :: string
  ip_NetworkMapping :: "(string \<times> mo_ref) list"

record import_result =
  ir_Error :: "string list"
  ir_ImportSpec :: string
  ir_FileItem :: "FileItem list"

record host_props =
  hp_ConnectionState :: string
  hp_InMaintenanceMode :: bool
  hp_Datastore :: "mo_ref list"
  hp_Network :: "mo_ref list"

record artifact =
  ar_Location :: string
  ar_Sha256 :: string

record ImportOVAParams =
  io_OVAPath :: string
  io_TemplateName :: string
  io_ComputeCluster :: string
  io_Datastore :: string
  io_Network :: string
  io_Folder :: string
  io_ResourcePool :: string
  io_DiskProvisioning :: string

record 'w ova_api =
  open_ova :: "string \<Rightarrow> tar_item list res"
  find_cluster :: "string \<Rightarrow> 'w \<Rightarrow> string res \<times> 'w"
  find_ds :: "string \<Rightarrow> 'w \<Rightarrow> mo_ref res \<times> 'w"
  find_network :: "string \<Rightarrow> 'w \<Rightarrow> mo_ref res \<times> 'w"
  find_vm_folder :: "string \<Rightarrow> 'w \<Rightarrow> string res \<times> 'w"
  find_dc :: "string \<Rightarrow> 'w \<Rightarrow> string res \<times> 'w"
  dc_vm_folder :: "string \<Rightarrow> 'w \<Rightarrow> string res \<times> 'w"
  find_pool :: "string \<Rightarrow> 'w \<Rightarrow> string res \<times> 'w"
  cluster_pool :: "string \<Rightarrow> 'w \<Rightarrow> string res \<times> 'w"
  cluster_hosts :: "string \<Rightarrow> 'w \<Rightarrow> string list res \<times> 'w"
  host_properties :: "string \<Rightarrow> 'w \<Rightarrow> host_props res \<times> 'w"
  ovf_networks :: "string \<Rightarrow> string list option res"
  create_import_spec :: "string \<Rightarrow> string \<Rightarrow> mo_ref \<Rightarrow> import_params \<Rightarrow> 'w \<Rightarrow> import_result res \<times> 'w"
  import_vapp :: "string \<Rightarrow> string \<Rightarrow> string \<Rightarrow> string \<Rightarrow> 'w \<Rightarrow> string res \<times> 'w"
  lease_wait :: "string \<Rightarrow> FileItem list \<Rightarrow> 'w \<Rightarrow> FileItem list res \<times> 'w"
  lease_upload :: "string \<Rightarrow> FileItem \<Rightarrow> int \<Rightarrow> string res \<Rightarrow> 'w \<Rightarrow> unit res \<times> 'w"
  lease_complete :: "string \<Rightarrow> 'w \<Rightarrow> unit res \<times> 'w"
  lease_abort :: "string \<Rightarrow> 'w \<Rightarrow> unit res \<times> 'w"
  find_vm :: "string \<Rightarrow> 'w \<Rightarrow> string res \<times> 'w"
  vm_template :: "string \<Rightarrow> 'w \<Rightarrow> bool option res \<times> 'w"
  vm_boot_options :: "string \<Rightarrow> 'w \<Rightarrow> unit res \<times> 'w"
  vm_disable_secure_boot :: "string \<Rightarrow> 'w \<Rightarrow> string res \<times> 'w"
  vm_destroy :: "string \<Rightarrow> 'w \<Rightarrow> string res \<times> 'w"
  vm_wait :: "string \<Rightarrow> 'w \<Rightarrow> unit res \<times> 'w"
  mark_as_template :: "string \<Rightarrow> 'w \<Rightarrow> unit res \<times> 'w"
  json_query_disk :: "string \<Rightarrow> string \<Rightarrow> string \<Rightarrow> string \<Rightarrow> artifact res res"

section \<open>Templates\<close>

definition maxTemplateNameLen :: nat where
  "maxTemplateNameLen = 80"

definition TemplateNameForFailureDomain :: "string \<Rightarrow> string \<Rightarrow> string" where
  "TemplateNameForFailureDomain infraID fdName = infraID @ ''-rhcos-'' @ fdName"

definition ValidateTemplateName :: "string \<Rightarrow> unit res" where
  "ValidateTemplateName name =
     (if length name > maxTemplateNameLen
      then Inl (Errorf ''template name %q exceeds %d character vSphere VM name limit (length: %d)''
             [AStr name, AInt (int maxTemplateNameLen), AInt (int (length name))])
      else Inr ())"

text \<open>
  \<open>json_query_disk\<close> parses the stream metadata and queries its disk for an architecture, platform and
  format; the outer error is the parser's, the inner one the query's.
\<close>

definition ResolveRHCOSOVAFromConfigMap ::
  "'w ova_api \<Rightarrow> config_map option \<Rightarrow> string \<Rightarrow> artifact res" where
  "ResolveRHCOSOVAFromConfigMap api cm arch =
     (case cm of
        None \<Rightarrow> Inl (Errorf ''coreos-bootimages ConfigMap is nil'' [])
      | Some cm \<Rightarrow>
          (case Option.bind (cm_data cm) (\<lambda>data. gm_lookup data ''stream'') of
             None \<Rightarrow> Inl (Errorf ''coreos-bootimages ConfigMap missing 'stream' key'' [])
           | Some streamJSON \<Rightarrow>
               if streamJSON = '''' then Inl (Errorf ''coreos-bootimages ConfigMap missing 'stream' key'' [])
               else
                 (case json_query_disk api streamJSON arch ''vmware'' ''ova'' of
                    Inl err \<Rightarrow> Inl (Wrapf ''failed to parse CoreOS stream metadata from coreos-bootimages ConfigMap: %w'' [] err)
                  | Inr (Inl err) \<Rightarrow> Inl (Wrapf ''vmware OVA artifact not found for architecture %s: %w'' [AStr arch] err)
                  | Inr (Inr ova) \<Rightarrow>
                      if ar_Location ova = ''''
                      then Inl (Errorf ''vmware OVA artifact for architecture %s has empty download URL'' [AStr arch])
                      else Inr ova)))"

text \<open>The second component says whether a VM of that name exists, also where the result is an error.\<close>

definition FindTemplateByName ::
  "'w ova_api \<Rightarrow> 'h Session option \<Rightarrow> string \<Rightarrow> 'w \<Rightarrow> (string res \<times> bool) \<times> 'w" where
  "FindTemplateByName api s templateName w =
     (if s = None then ((Inl (Errorf ''session and Finder must not be nil'' []), False), w)
      else
        (case find_vm api templateName w of
           (Inl err, w) \<Rightarrow>
             (if err = NotFoundError then ((Inr '''', False), w)
              else ((Inl (Wrapf ''finding VM %q: %w'' [AStr templateName] err), False), w))
         | (Inr vm, w) \<Rightarrow>
             (case vm_template api vm w of
                (Inl err, w) \<Rightarrow> ((Inl (Wrapf ''getting VM properties for %q: %w'' [AStr templateName] err), False), w)
              | (Inr tmpl, w) \<Rightarrow>
                  (if tmpl \<noteq> Some True
                   then ((Inl (Errorf ''VM %q exists but is not a template; rename or remove the existing VM, or set topology.template manually to use it''
                                 [AStr templateName]), True), w)
                   else ((Inr vm, True), w)))))"

definition DeleteTemplate :: "'w ova_api \<Rightarrow> string \<Rightarrow> 'w \<Rightarrow> unit res \<times> 'w" where
  "DeleteTemplate api templateName =
     bindM (tryM (find_vm api templateName)) (\<lambda>found.
       case found of
         Inl err \<Rightarrow>
           if err = NotFoundError then ret ()
           else throw (Wrapf ''finding template %q: %w'' [AStr templateName] err)
       | Inr vm \<Rightarrow>
           bindM (wrapM ''destroying template %q: %w'' [AStr templateName] (vm_destroy api vm)) (\<lambda>task.
             wrapM ''waiting for template %q destruction: %w'' [AStr templateName] (vm_wait api task)))"

section \<open>The archive\<close>

fun first_ovf :: "string \<Rightarrow> tar_item list \<Rightarrow> string res" where
  "first_ovf ovaPath [] = Inl (Errorf ''no .ovf file found in OVA %s'' [AStr ovaPath])"
| "first_ovf ovaPath (TarError err # _) = Inl (Wrapf ''reading OVA tar: %w'' [] err)"
| "first_ovf ovaPath (TarEntry name sz content # items) =
     (if HasSuffix name ''.ovf''
      then (case content of Inl err \<Rightarrow> Inl (Wrapf ''reading OVF from OVA: %w'' [] err) | Inr data \<Rightarrow> Inr data)
      else first_ovf ovaPath items)"

definition readOVFFromOVA :: "'w ova_api \<Rightarrow> string \<Rightarrow> string res" where
  "readOVFFromOVA api ovaPath =
     (case open_ova api ovaPath of
        Inl err \<Rightarrow> Inl (Wrapf ''opening OVA %s: %w'' [AStr ovaPath] err)
      | Inr items \<Rightarrow> first_ovf ovaPath items)"

section \<open>Hosts\<close>

definition host_usable :: "mo_ref \<Rightarrow> mo_ref \<Rightarrow> host_props \<Rightarrow> bool" where
  "host_usable dsRef netRef hp \<longleftrightarrow>
     hp_ConnectionState hp = ''connected'' \<and> \<not> hp_InMaintenanceMode hp \<and>
     dsRef \<in> set (hp_Datastore hp) \<and> netRef \<in> set (hp_Network hp)"

fun first_usable :: "'w ova_api \<Rightarrow> mo_ref \<Rightarrow> mo_ref \<Rightarrow> string list \<Rightarrow> 'w \<Rightarrow> string option \<times> 'w" where
  "first_usable api dsRef netRef [] w = (None, w)"
| "first_usable api dsRef netRef (h # hs) w =
     (case host_properties api h w of
        (Inl _, w) \<Rightarrow> first_usable api dsRef netRef hs w
      | (Inr hp, w) \<Rightarrow>
          if host_usable dsRef netRef hp then (Some h, w) else first_usable api dsRef netRef hs w)"

definition findAvailableHost :: "'w ova_api \<Rightarrow> string \<Rightarrow> mo_ref \<Rightarrow> mo_ref \<Rightarrow> 'w \<Rightarrow> string res \<times> 'w" where
  "findAvailableHost api cluster network datastore =
     bindM (wrapM ''getting cluster hosts: %w'' [] (cluster_hosts api cluster)) (\<lambda>hosts.
       if hosts = [] then throw (Errorf ''cluster %q has no hosts'' [AStr cluster])
       else (\<lambda>w. case first_usable api datastore network hosts w of
               (Some h, w) \<Rightarrow> (Inr h, w)
             | (None, w) \<Rightarrow>
                 (Inl (Errorf ''no available host in cluster %q with access to datastore and network''
                     [AStr cluster]), w)))"

section \<open>The import specification\<close>

definition createImportSpec ::
  "'w ova_api \<Rightarrow> string \<Rightarrow> string \<Rightarrow> mo_ref \<Rightarrow> mo_ref \<Rightarrow> string \<Rightarrow> string \<Rightarrow> 'w \<Rightarrow> import_result res \<times> 'w" where
  "createImportSpec api ovfDescriptor resourcePool datastore network vmName diskProvisioning =
     (let mapping = (case ovf_networks api ovfDescriptor of
                       Inr (Some names) \<Rightarrow> map (\<lambda>name. (name, network)) names
                     | _ \<Rightarrow> []);
          spec = \<lparr>ip_DiskProvisioning = diskProvisioning, ip_EntityName = vmName, ip_NetworkMapping = mapping\<rparr>
      in bindM (wrapM ''creating import spec: %w'' []
                  (create_import_spec api ovfDescriptor resourcePool datastore spec)) (\<lambda>cisp.
           if ir_Error cisp \<noteq> [] then throw (Errorf ''import spec errors: %v'' [AStrs (ir_Error cisp)])
           else ret cisp))"

definition disableSecureBootIfNeeded :: "'w ova_api \<Rightarrow> string \<Rightarrow> string \<Rightarrow> 'w \<Rightarrow> unit res \<times> 'w" where
  "disableSecureBootIfNeeded api vm ovfDescriptor =
     (if \<not> Contains ovfDescriptor ''efi.secureBoot'' \<and> \<not> Contains ovfDescriptor ''secureBoot'' then ret ()
      else bindM (wrapM ''getting VM boot options: %w'' [] (vm_boot_options api vm)) (\<lambda>_.
           bindM (wrapM ''reconfiguring VM to disable secure boot: %w'' [] (vm_disable_secure_boot api vm))
             (vm_wait api)))"

section \<open>The import\<close>

datatype lease_event =
    Acquired string
  | Waited string bool
  | UpdaterStarted string
  | Uploaded string string bool
  | Completed string bool
  | UpdaterDone string
  | Aborted string bool

record 'w import_state =
  im_world :: 'w
  im_events :: "lease_event list"

definition vc :: "('w \<Rightarrow> 'a \<times> 'w) \<Rightarrow> 'w import_state \<Rightarrow> 'a \<times> 'w import_state" where
  "vc f s = (case f (im_world s) of (r, w) \<Rightarrow> (r, s\<lparr>im_world := w\<rparr>))"

definition event :: "lease_event \<Rightarrow> 'w import_state \<Rightarrow> 'w import_state" where
  "event ev s = s\<lparr>im_events := im_events s @ [ev]\<rparr>"

definition vc_event ::
  "('a res \<Rightarrow> lease_event list) \<Rightarrow> ('w \<Rightarrow> 'a res \<times> 'w) \<Rightarrow> 'w import_state \<Rightarrow> 'a res \<times> 'w import_state" where
  "vc_event evs f s = (case vc f s of (r, s) \<Rightarrow> (r, s\<lparr>im_events := im_events s @ evs r\<rparr>))"

text \<open>Building \<open>itemMap\<close>: a later item replaces an earlier one of the same path.\<close>

definition item_map :: "FileItem list \<Rightarrow> FileItem gomap" where
  "item_map items = fold (\<lambda>item m. gm_put (fi_Path item) item m) items []"

fun upload_items ::
  "'w ova_api \<Rightarrow> string \<Rightarrow> FileItem gomap \<Rightarrow> tar_item list \<Rightarrow> 'w import_state \<Rightarrow> unit res \<times> 'w import_state" where
  "upload_items api lease m [] = ret ()"
| "upload_items api lease m (TarError err # _) = throw (Wrapf ''reading OVA tar: %w'' [] err)"
| "upload_items api lease m (TarEntry name sz content # items) =
     (case gm_lookup m name of
        None \<Rightarrow> upload_items api lease m items
      | Some item \<Rightarrow>
          bindM (wrapM ''uploading %s: %w'' [AStr name]
                   (vc_event (\<lambda>r. [Uploaded lease name (is_ok r)]) (lease_upload api lease item sz content)))
            (\<lambda>_. upload_items api lease m items))"

definition upload ::
  "'w ova_api \<Rightarrow> string \<Rightarrow> FileItem list \<Rightarrow> string \<Rightarrow> 'w import_state \<Rightarrow> unit res \<times> 'w import_state" where
  "upload api lease items ovaPath =
     (case open_ova api ovaPath of
        Inl err \<Rightarrow> throw (Wrapf ''opening OVA for upload: %w'' [] err)
      | Inr archive \<Rightarrow> upload_items api lease (item_map items) archive)"

text \<open>Everything up to the lease.\<close>

definition prepare_import ::
  "'w ova_api \<Rightarrow> 'h Session \<Rightarrow> ImportOVAParams \<Rightarrow> 'w \<Rightarrow> (string \<times> string \<times> FileItem list) res \<times> 'w" where
  "prepare_import api s p =
     bindM (wrapM ''reading OVF from OVA %s: %w'' [AStr (io_OVAPath p)]
              (liftR (readOVFFromOVA api (io_OVAPath p)))) (\<lambda>ovfDescriptor.
     bindM (wrapM ''finding cluster %q: %w'' [AStr (io_ComputeCluster p)]
              (find_cluster api (io_ComputeCluster p))) (\<lambda>cluster.
     bindM (wrapM ''finding datastore %q: %w'' [AStr (io_Datastore p)] (find_ds api (io_Datastore p))) (\<lambda>datastore.
     bindM (wrapM ''finding network %q: %w'' [AStr (io_Network p)] (find_network api (io_Network p))) (\<lambda>network.
     bindM (if io_Folder p \<noteq> ''''
            then wrapM ''finding folder %q: %w'' [AStr (io_Folder p)] (find_vm_folder api (io_Folder p))
            else bindM (wrapM ''finding datacenter %q: %w'' [AStr (sn_Datacenter s)]
                          (find_dc api (sn_Datacenter s))) (\<lambda>dc.
                 wrapM ''getting datacenter folders: %w'' [] (dc_vm_folder api dc))) (\<lambda>folder.
     bindM (if io_ResourcePool p \<noteq> ''''
            then wrapM ''finding resource pool %q: %w'' [AStr (io_ResourcePool p)] (find_pool api (io_ResourcePool p))
            else wrapM ''getting cluster default resource pool: %w'' [] (cluster_pool api cluster)) (\<lambda>resourcePool.
     bindM (wrapM ''finding available host: %w'' [] (findAvailableHost api cluster network datastore)) (\<lambda>h.
     bindM (wrapM ''creating OVF import spec: %w'' []
              (createImportSpec api ovfDescriptor resourcePool datastore network
                 (io_TemplateName p) (io_DiskProvisioning p))) (\<lambda>cisp.
     bindM (wrapM ''importing VApp: %w'' []
              (import_vapp api resourcePool (ir_ImportSpec cisp) folder h)) (\<lambda>lease.
       ret (lease, ovfDescriptor, ir_FileItem cisp))))))))))"

text \<open>With the lease: upload and complete it, then look the VM up and mark it.\<close>

definition finish_import ::
  "'w ova_api \<Rightarrow> ImportOVAParams \<Rightarrow> string \<Rightarrow> string \<Rightarrow> FileItem list \<Rightarrow>
   'w import_state \<Rightarrow> (string res \<times> bool) \<times> 'w import_state" where
  "finish_import api p lease ovfDescriptor items s =
     (case wrapM ''uploading OVA files: %w'' [] (upload api lease items (io_OVAPath p)) s of
        (Inl err, s) \<Rightarrow> ((Inl err, False), s)
      | (Inr _, s) \<Rightarrow>
          (case wrapM ''completing NFC lease: %w'' []
                  (vc_event (\<lambda>r. [Completed lease (is_ok r)]) (lease_complete api lease)) s of
             (Inl err, s) \<Rightarrow> ((Inl err, False), s)
           | (Inr _, s) \<Rightarrow>
               (case vc (bindM (wrapM ''finding imported VM %q: %w'' [AStr (io_TemplateName p)]
                                  (find_vm api (io_TemplateName p))) (\<lambda>vm.
                         bindM (tryM (disableSecureBootIfNeeded api vm ovfDescriptor)) (\<lambda>_.
                         bindM (wrapM ''marking VM %q as template: %w'' [AStr (io_TemplateName p)]
                                  (mark_as_template api vm)) (\<lambda>_. ret vm)))) s of
                  (r, s) \<Rightarrow> ((r, True), s))))"

text \<open>
  The deferred calls run in reverse order: first the updater ends, then the lease is aborted unless
  it was completed; an error of the abort is only logged.
\<close>

definition ImportOVA ::
  "'w ova_api \<Rightarrow> 'h Session option \<Rightarrow> ImportOVAParams \<Rightarrow> 'w import_state \<Rightarrow> string res \<times> 'w import_state" where
  "ImportOVA api session p =
     (case session of
        None \<Rightarrow> throw (Errorf ''session, Client, and Finder must not be nil'' [])
      | Some s \<Rightarrow>
          if sn_Client s = None then throw (Errorf ''session, Client, and Finder must not be nil'' [])
          else bindM (vc_event (case_sum (\<lambda>_. []) (\<lambda>(lease, _). [Acquired lease])) (prepare_import api s p))
                 (\<lambda>(lease, ovfDescriptor, fileItem).
               bindM (wrapM ''waiting for NFC lease: %w'' []
                        (vc_event (\<lambda>r. [Waited lease (is_ok r)]) (lease_wait api lease fileItem)))
                 (\<lambda>items s.
                    case finish_import api p lease ovfDescriptor items (event (UpdaterStarted lease) s) of
                      ((r, leaseCompleted), s) \<Rightarrow>
                        (let s = event (UpdaterDone lease) s in
                         if leaseCompleted then (r, s)
                         else (r, snd (vc_event (\<lambda>r. [Aborted lease (is_ok r)]) (lease_abort api lease) s))))))"

section \<open>Logging an address\<close>

record parsed_url =
  pu_Scheme :: string
  pu_Host :: string
  pu_Path :: string
  pu_RawQuery :: string

definition sanitizeOVAURL :: "(string \<Rightarrow> parsed_url res) \<Rightarrow> string \<Rightarrow> string" where
  "sanitizeOVAURL parse rawURL =
     (case parse rawURL of
        Inl _ \<Rightarrow> ''<unparseable-url>''
      | Inr u \<Rightarrow> pu_Scheme u @ ''://'' @ pu_Host u @ pu_Path u @
          (if pu_RawQuery u \<noteq> '''' then ''?<redacted>'' else ''''))"

section \<open>The lease protocol\<close>

text \<open>
  The life of a lease as a state machine.  It exists from \<open>ImportVApp\<close> on and is waited for; then its
  updater is started, files are uploaded, it is completed or not, the updater ends, and a lease that
  was not completed is aborted.  A lease is leaked when the program leaves it open: because waiting
  for it failed, after which nothing is done about it, or because aborting it failed.
\<close>

datatype lease_phase =
    Idle
  | Held string
  | Granted string
  | Working string
  | Finished string
  | Failed string
  | Stopped string
  | Closed string
  | Leaked string

fun lease_next :: "lease_phase \<Rightarrow> lease_event \<Rightarrow> lease_phase option" where
  "lease_next Idle (Acquired l) = Some (Held l)"
| "lease_next (Held l) (Waited l' ok) = (if l' = l then Some (if ok then Granted l else Leaked l) else None)"
| "lease_next (Granted l) (UpdaterStarted l') = (if l' = l then Some (Working l) else None)"
| "lease_next (Working l) (Uploaded l' n ok) = (if l' = l then Some (if ok then Working l else Failed l) else None)"
| "lease_next (Working l) (Completed l' ok) = (if l' = l then Some (if ok then Finished l else Failed l) else None)"
| "lease_next (Working l) (UpdaterDone l') = (if l' = l then Some (Stopped l) else None)"
| "lease_next (Failed l) (UpdaterDone l') = (if l' = l then Some (Stopped l) else None)"
| "lease_next (Finished l) (UpdaterDone l') = (if l' = l then Some (Closed l) else None)"
| "lease_next (Stopped l) (Aborted l' ok) = (if l' = l then Some (if ok then Closed l else Leaked l) else None)"
| "lease_next _ _ = None"

fun lease_run :: "lease_phase \<Rightarrow> lease_event list \<Rightarrow> lease_phase option" where
  "lease_run ph [] = Some ph"
| "lease_run ph (ev # evs) = Option.bind (lease_next ph ev) (\<lambda>ph. lease_run ph evs)"

lemma lease_run_append: "lease_run ph (evs @ evs') = Option.bind (lease_run ph evs) (\<lambda>ph. lease_run ph evs')"
  by (induction evs arbitrary: ph) (auto split: Option.bind_splits)

fun entry_names :: "tar_item list \<Rightarrow> string list" where
  "entry_names [] = []"
| "entry_names (TarEntry n sz c # items) = n # entry_names items"
| "entry_names (TarError e # items) = entry_names items"

lemma vc_events [simp]: "im_events (snd (vc f s)) = im_events s"
  by (simp add: vc_def split: prod.splits)

lemma vc_eventsD: "vc f s = (r, s') \<Longrightarrow> im_events s' = im_events s"
  using vc_events [of f s] by simp

lemma vc_event_events: "vc_event evs f s = (r, s') \<Longrightarrow> im_events s' = im_events s @ evs r"
  by (auto simp: vc_event_def vc_def split: prod.splits)

text \<open>An upload stays in the working phase until one call of it fails, and one that succeeds has sent
  every entry of the archive that the lease asked for, in the order of the archive.\<close>

lemma upload_items_events:
  assumes "upload_items api l m archive s = (r, s')"
  shows "\<exists>evs. im_events s' = im_events s @ evs \<and>
    lease_run (Working l) evs \<in> {Some (Working l), Some (Failed l)} \<and>
    (is_ok r \<longrightarrow> lease_run (Working l) evs = Some (Working l) \<and>
       evs = map (\<lambda>n. Uploaded l n True) (filter (\<lambda>n. gm_lookup m n \<noteq> None) (entry_names archive)))"
  using assms
proof (induction api l m archive arbitrary: s rule: upload_items.induct)
  case (1 api l m)
  then show ?case by (intro exI [of _ "[]"]) (auto simp: ret_def)
next
  case (2 api l m err items)
  then have "s' = s" "\<not> is_ok r" by (auto simp: throw_def)
  then show ?case by (intro exI [of _ "[]"]) simp
next
  case (3 api l m name sz content items)
  show ?case
  proof (cases "gm_lookup m name")
    case None
    with "3.IH"(1) "3.prems" show ?thesis by simp
  next
    case (Some item)
    obtain r1 s1 where up: "vc_event (\<lambda>r. [Uploaded l name (is_ok r)]) (lease_upload api l item sz content) s = (r1, s1)"
      by force
    note ev = vc_event_events [OF up]
    show ?thesis
    proof (cases r1)
      case (Inl err)
      with Some up "3.prems" have "\<not> is_ok r" "s' = s1" by (auto simp: bindM_def wrapM_def)
      with ev Inl show ?thesis by (intro exI [of _ "[Uploaded l name False]"]) simp
    next
      case (Inr u)
      with Some up "3.prems" have "upload_items api l m items s1 = (r, s')" by (simp add: bindM_def wrapM_def)
      from "3.IH"(2) [OF Some this] obtain evs where "im_events s' = im_events s1 @ evs"
        "lease_run (Working l) evs \<in> {Some (Working l), Some (Failed l)}"
        "is_ok r \<longrightarrow> lease_run (Working l) evs = Some (Working l) \<and>
           evs = map (\<lambda>n. Uploaded l n True) (filter (\<lambda>n. gm_lookup m n \<noteq> None) (entry_names items))"
        by blast
      with ev Inr Some show ?thesis by (intro exI [of _ "Uploaded l name True # evs"]) auto
    qed
  qed
qed

lemma upload_events:
  assumes "upload api l items ova s = (r, s')"
  shows "\<exists>evs. im_events s' = im_events s @ evs \<and>
    lease_run (Working l) evs \<in> {Some (Working l), Some (Failed l)} \<and>
    (is_ok r \<longrightarrow> lease_run (Working l) evs = Some (Working l) \<and> (\<exists>archive. open_ova api ova = Inr archive \<and>
       evs = map (\<lambda>n. Uploaded l n True)
         (filter (\<lambda>n. gm_lookup (item_map items) n \<noteq> None) (entry_names archive))))"
proof (cases "open_ova api ova")
  case (Inl e)
  with assms show ?thesis by (intro exI [of _ "[]"]) (auto simp: upload_def throw_def)
next
  case (Inr archive)
  with assms have "upload_items api l (item_map items) archive s = (r, s')" by (simp add: upload_def)
  from upload_items_events [OF this] Inr show ?thesis by auto
qed

lemma finish_import_events:
  assumes run: "finish_import api p l ovf items s = ((r, fin), s')"
  shows "\<exists>evs. im_events s' = im_events s @ evs \<and> (is_ok r \<longrightarrow> fin) \<and>
    (if fin
     then lease_run (Working l) evs = Some (Finished l) \<and>
       (\<exists>archive. open_ova api (io_OVAPath p) = Inr archive \<and>
          evs = map (\<lambda>n. Uploaded l n True)
            (filter (\<lambda>n. gm_lookup (item_map items) n \<noteq> None) (entry_names archive)) @ [Completed l True])
     else lease_run (Working l) evs \<in> {Some (Working l), Some (Failed l)})"
proof -
  obtain r1 s1 where 1: "upload api l items (io_OVAPath p) s = (r1, s1)" by force
  obtain r2 s2 where 2: "vc_event (\<lambda>r. [Completed l (is_ok r)]) (lease_complete api l) s1 = (r2, s2)" by force
  from upload_events [OF 1] obtain evs where e: "im_events s1 = im_events s @ evs"
    "lease_run (Working l) evs \<in> {Some (Working l), Some (Failed l)}"
    "is_ok r1 \<longrightarrow> lease_run (Working l) evs = Some (Working l) \<and> (\<exists>archive. open_ova api (io_OVAPath p) = Inr archive \<and>
       evs = map (\<lambda>n. Uploaded l n True)
         (filter (\<lambda>n. gm_lookup (item_map items) n \<noteq> None) (entry_names archive)))"
    by blast
  show ?thesis
  proof (cases r1)
    case (Inl err)
    with run 1 have "s' = s1" "\<not> fin" "\<not> is_ok r" by (auto simp: finish_import_def wrapM_def)
    with e show ?thesis by auto
  next
    case (Inr u)
    note e2 = vc_event_events [OF 2]
    show ?thesis
    proof (cases r2)
      case (Inl err)
      with run 1 2 Inr have "s' = s2" "\<not> fin" "\<not> is_ok r" by (auto simp: finish_import_def wrapM_def)
      with e e2 Inr Inl show ?thesis
        by (intro exI [of _ "evs @ [Completed l False]"]) (simp add: lease_run_append)
    next
      case (Inr u')
      with run 1 2 \<open>r1 = Inr u\<close> have d: "fin" "im_events s' = im_events s2"
        by (auto simp: finish_import_def wrapM_def dest: vc_eventsD split: prod.splits)
      with e e2 Inr \<open>r1 = Inr u\<close> show ?thesis
        by (intro exI [of _ "evs @ [Completed l True]"]) (auto simp: lease_run_append)
    qed
  qed
qed

text \<open>The events of a complete import: every entry of the archive the lease asks for, in order.\<close>

definition complete_import :: "'w ova_api \<Rightarrow> string \<Rightarrow> lease_event list \<Rightarrow> bool" where
  "complete_import api ovaPath evs \<longleftrightarrow>
     (\<exists>l spec w items w' archive. lease_wait api l spec w = (Inr items, w') \<and> open_ova api ovaPath = Inr archive \<and>
        evs = [Acquired l, Waited l True, UpdaterStarted l] @
          map (\<lambda>n. Uploaded l n True) (filter (\<lambda>n. gm_lookup (item_map items) n \<noteq> None) (entry_names archive)) @
          [Completed l True, UpdaterDone l])"

lemma lease_run_events:
  assumes "lease_run (Working l) evs = Some ph" "ph \<in> {Working l, Failed l}"
  shows "lease_run Idle ([Acquired l, Waited l True, UpdaterStarted l] @ evs @ [UpdaterDone l, Aborted l ok]) =
    Some (if ok then Closed l else Leaked l)"
  using assms by (auto simp: lease_run_append)

lemma lease_run_complete:
  "lease_run (Working l) evs = Some (Finished l) \<Longrightarrow>
     lease_run Idle ([Acquired l, Waited l True, UpdaterStarted l] @ evs @ [UpdaterDone l]) = Some (Closed l)"
  by (simp add: lease_run_append)

text \<open>How an import ends: without a lease, with its lease closed, or with its lease leaked.\<close>

definition import_ends :: "'w ova_api \<Rightarrow> string \<Rightarrow> lease_event list \<Rightarrow> bool \<Rightarrow> bool" where
  "import_ends api ovaPath evs ok \<longleftrightarrow>
     evs = [] \<and> \<not> ok \<or>
     (\<exists>l. lease_run Idle evs = Some (Closed l) \<and> (ok \<longrightarrow> complete_import api ovaPath evs)) \<or>
     (\<exists>l. lease_run Idle evs = Some (Leaked l) \<and> \<not> ok \<and>
        (evs = [Acquired l, Waited l False] \<or> last evs = Aborted l False))"

lemma import_under_lease:
  assumes wait: "lease_wait api l spec w = (Inr items, w')"
    and ev: "im_events s1 = im_events s @ [Acquired l, Waited l True]"
    and run: "finish_import api p l ovf items (event (UpdaterStarted l) s1) = ((r, fin), s2)"
    and s': "s' = (if fin then event (UpdaterDone l) s2
      else snd (vc_event (\<lambda>r. [Aborted l (is_ok r)]) (lease_abort api l) (event (UpdaterDone l) s2)))"
  shows "\<exists>evs. im_events s' = im_events s @ evs \<and> import_ends api (io_OVAPath p) evs (is_ok r)"
proof -
  from finish_import_events [OF run] obtain evs where e: "im_events s2 = im_events (event (UpdaterStarted l) s1) @ evs"
    "is_ok r \<longrightarrow> fin"
    "if fin
     then lease_run (Working l) evs = Some (Finished l) \<and>
       (\<exists>archive. open_ova api (io_OVAPath p) = Inr archive \<and>
          evs = map (\<lambda>n. Uploaded l n True)
            (filter (\<lambda>n. gm_lookup (item_map items) n \<noteq> None) (entry_names archive)) @ [Completed l True])
     else lease_run (Working l) evs \<in> {Some (Working l), Some (Failed l)}"
    by blast
  show ?thesis
  proof (cases fin)
    case True
    let ?evs = "[Acquired l, Waited l True, UpdaterStarted l] @ evs @ [UpdaterDone l]"
    have "im_events s' = im_events s @ ?evs" using True s' e(1) ev by (simp add: event_def)
    moreover have "lease_run Idle ?evs = Some (Closed l)" using True e(3) by (intro lease_run_complete) simp
    moreover have "complete_import api (io_OVAPath p) ?evs"
    proof -
      from True e(3) obtain archive where "open_ova api (io_OVAPath p) = Inr archive"
        "evs = map (\<lambda>n. Uploaded l n True)
          (filter (\<lambda>n. gm_lookup (item_map items) n \<noteq> None) (entry_names archive)) @ [Completed l True]" by auto
      with wait show ?thesis unfolding complete_import_def by fastforce
    qed
    ultimately show ?thesis unfolding import_ends_def by blast
  next
    case False
    obtain a s3 where a: "vc_event (\<lambda>r. [Aborted l (is_ok r)]) (lease_abort api l) (event (UpdaterDone l) s2) = (a, s3)"
      by force
    let ?evs = "[Acquired l, Waited l True, UpdaterStarted l] @ evs @ [UpdaterDone l, Aborted l (is_ok a)]"
    have "im_events s' = im_events s @ ?evs" using False s' e(1) ev a vc_event_events [OF a] by (simp add: event_def)
    moreover have "lease_run Idle ?evs = Some (if is_ok a then Closed l else Leaked l)"
      using False e(3) lease_run_events by auto
    then have "import_ends api (io_OVAPath p) ?evs (is_ok r)"
      using False e(2) unfolding import_ends_def by (cases "is_ok a") simp_all
    ultimately show ?thesis by blast
  qed
qed

lemma ImportOVA_events:
  assumes "ImportOVA api session p s = (r, s')"
  shows "\<exists>evs. im_events s' = im_events s @ evs \<and> import_ends api (io_OVAPath p) evs (is_ok r)"
proof (cases session)
  case None
  with assms show ?thesis by (intro exI [of _ "[]"]) (auto simp: ImportOVA_def throw_def import_ends_def)
next
  case (Some sn)
  obtain r1 s1 where 1: "vc_event (case_sum (\<lambda>_. []) (\<lambda>(lease, _). [Acquired lease])) (prepare_import api sn p) s = (r1, s1)"
    by force
  note e1 = vc_event_events [OF 1]
  show ?thesis
  proof (cases "sn_Client sn = None \<or> \<not> is_ok r1")
    case True
    with assms Some 1 e1 have "im_events s' = im_events s" "\<not> is_ok r"
      by (cases r1; auto simp: ImportOVA_def throw_def bindM_def split: if_splits)+
    then show ?thesis by (intro exI [of _ "[]"]) (simp add: import_ends_def)
  next
    case False
    then obtain l ovf spec where r1: "r1 = Inr (l, ovf, spec)" by (cases r1) auto
    obtain r2 s2 where 2: "vc_event (\<lambda>r. [Waited l (is_ok r)]) (lease_wait api l spec) s1 = (r2, s2)" by force
    have ev: "im_events s2 = im_events s @ [Acquired l, Waited l (is_ok r2)]"
      using vc_event_events [OF 2] e1 r1 by simp
    show ?thesis
    proof (cases r2)
      case (Inl err)
      with assms Some 1 2 r1 False have "s' = s2" "\<not> is_ok r"
        by (auto simp: ImportOVA_def bindM_def wrapM_def)
      with ev Inl show ?thesis
        by (intro exI [of _ "[Acquired l, Waited l False]"]) (simp add: import_ends_def)
    next
      case (Inr items)
      obtain q fin s3 where 3: "finish_import api p l ovf items (event (UpdaterStarted l) s2) = ((q, fin), s3)"
        by (metis surj_pair)
      from 2 Inr obtain w' where wait: "lease_wait api l spec (im_world s1) = (Inr items, w')"
        by (auto simp: vc_event_def vc_def split: prod.splits)
      have q: "r = q" and s': "s' = (if fin then event (UpdaterDone l) s3
          else snd (vc_event (\<lambda>r. [Aborted l (is_ok r)]) (lease_abort api l) (event (UpdaterDone l) s3)))"
        using assms Some 1 2 3 r1 False Inr
        by (auto simp: ImportOVA_def bindM_def wrapM_def Let_def split: if_splits)
      have ev': "im_events s2 = im_events s @ [Acquired l, Waited l True]" using ev Inr by simp
      show ?thesis unfolding q by (rule import_under_lease [OF wait ev' 3 s'])
    qed
  qed
qed

text \<open>C13: what \<open>ImportOVA\<close> does with the lease that \<open>ImportVApp\<close> gave it.  It follows the lease protocol, and when it
  returns one of three things has happened.  There was no lease, and it fails.  The lease is closed, having been completed
  or else aborted, once; if the import succeeds it was completed, after every entry of the archive that
  it asked for was uploaded, in order.  Or the lease is left open, and the import fails: this happens when
  waiting for it failed, because the abort is only deferred afterwards, or when the abort itself failed, and in no other case.\<close>
theorem import_closes_lease:
  assumes "ImportOVA api session p s = (r, s')"
  shows "\<exists>evs. im_events s' = im_events s @ evs \<and>
     (evs = [] \<and> \<not> is_ok r
      \<or> (\<exists>l. lease_run Idle evs = Some (Closed l) \<and> (is_ok r \<longrightarrow> complete_import api (io_OVAPath p) evs))
      \<or> (\<exists>l. lease_run Idle evs = Some (Leaked l) \<and> \<not> is_ok r \<and>
           (evs = [Acquired l, Waited l False] \<or> last evs = Aborted l False)))"
  using ImportOVA_events [OF assms] unfolding import_ends_def .

section \<open>Hosts and templates\<close>

text \<open>Asking for the properties of a host gives the same answer at any time.\<close>

definition stable_hosts :: "'w ova_api \<Rightarrow> (string \<Rightarrow> host_props option) \<Rightarrow> bool" where
  "stable_hosts api props \<longleftrightarrow>
     (\<forall>h w. (case fst (host_properties api h w) of Inl _ \<Rightarrow> None | Inr hp \<Rightarrow> Some hp) = props h)"

definition qualifies :: "(string \<Rightarrow> host_props option) \<Rightarrow> mo_ref \<Rightarrow> mo_ref \<Rightarrow> string \<Rightarrow> bool" where
  "qualifies props ds net h \<longleftrightarrow> (case props h of None \<Rightarrow> False | Some hp \<Rightarrow> host_usable ds net hp)"

lemma first_usable_eq:
  assumes "stable_hosts api props"
  shows "fst (first_usable api ds net hs w) =
    find_first (qualifies props ds net) hs"
proof (induction hs arbitrary: w)
  case (Cons h hs)
  obtain r w1 where hp: "host_properties api h w = (r, w1)" by force
  with assms have "props h = (case r of Inl _ \<Rightarrow> None | Inr hp \<Rightarrow> Some hp)"
    unfolding stable_hosts_def by (metis fst_conv)
  with hp Cons show ?case by (cases r) (simp_all add: qualifies_def)
qed simp

text \<open>The host chosen for an import is the first host of the cluster that is connected, not in
  maintenance, and sees both the datastore and the network; hosts whose properties cannot be read
  are passed over, and there is an error only when no host qualifies.\<close>
theorem available_host:
  assumes "stable_hosts api props" "cluster_hosts api cluster w = (Inr hosts, w1)"
    and "findAvailableHost api cluster net ds w = (r, w')"
  shows "(case r of
      Inr h \<Rightarrow> \<exists>before after. hosts = before @ h # after \<and> qualifies props ds net h
        \<and> (\<forall>h' \<in> set before. \<not> qualifies props ds net h')
    | Inl _ \<Rightarrow> \<forall>h \<in> set hosts. \<not> qualifies props ds net h)"
proof -
  have "case r of Inr h \<Rightarrow> find_first (qualifies props ds net) hosts = Some h
      | Inl _ \<Rightarrow> find_first (qualifies props ds net) hosts = None"
    using assms(2,3) first_usable_eq [OF assms(1), of ds net hosts w1]
    by (cases "first_usable api ds net hosts w1")
      (auto simp: findAvailableHost_def bindM_def wrapM_def throw_def split: if_splits option.splits)
  then show ?thesis by (cases r) (simp_all add: find_first_Some_iff find_first_None_iff)
qed

end
