(* ===== verification/ArchiveLoops.thy ===== *)
theory ArchiveLoops
  imports OvaImport
begin

text \<open>
  The two \<open>for\<close> loops of \<open>pkg/vsphere/image.go\<close> without a condition: \<open>readOVFFromOVA\<close> and \<open>upload\<close> call
  \<open>tar.Reader.Next\<close> until it says \<open>io.EOF\<close> or fails.

  Here the reader is a parameter, \<open>nextf\<close> on a state \<open>'r\<close>: the loops are written as they stand, and
  \<open>None\<close> is a loop that never returns.  \<open>reads_archive\<close> says what a reader delivers up to the end of
  its archive; a loop over such a reader returns what \<open>first_ovf\<close> and \<open>upload_items\<close> of \<open>OvaImport\<close> say
  of the list, and every reader that moves on in a finite file is one.
\<close>

section \<open>The loops\<close>

datatype tar_next =
    EndOfArchive
  | NextEntry string int "string res"
  | NextError goerror

partial_function (option) ovf_loop :: "('r \<Rightarrow> tar_next \<times> 'r) \<Rightarrow> string \<Rightarrow> 'r \<Rightarrow> string res option" where
  "ovf_loop nextf ovaPath tr =
     (case nextf tr of (header, tr) \<Rightarrow>
        (case header of
           EndOfArchive \<Rightarrow> Some (Inl (Errorf ''no .ovf file found in OVA %s'' [AStr ovaPath]))
         | NextError err \<Rightarrow> Some (Inl (Wrapf ''reading OVA tar: %w'' [] err))
         | NextEntry name sz content \<Rightarrow>
             if HasSuffix name ''.ovf''
             then (case content of
                     Inl err \<Rightarrow> Some (Inl (Wrapf ''reading OVF from OVA: %w'' [] err))
                   | Inr data \<Rightarrow> Some (Inr data))
             else ovf_loop nextf ovaPath tr))"

partial_function (option) upload_loop ::
  "('r \<Rightarrow> tar_next \<times> 'r) \<Rightarrow> 'w ova_api \<Rightarrow> string \<Rightarrow> FileItem gomap \<Rightarrow> 'r \<Rightarrow> 'w import_state \<Rightarrow>
   (unit res \<times> 'w import_state) option" where
  "upload_loop nextf api lease m tr s =
     (case nextf tr of (header, tr) \<Rightarrow>
        (case header of
           EndOfArchive \<Rightarrow> Some (Inr (), s)
         | NextError err \<Rightarrow> Some (Inl (Wrapf ''reading OVA tar: %w'' [] err), s)
         | NextEntry name sz content \<Rightarrow>
             (case gm_lookup m name of
                None \<Rightarrow> upload_loop nextf api lease m tr s
              | Some item \<Rightarrow>
                  (case wrapM ''uploading %s: %w'' [AStr name]
                          (vc_event (\<lambda>r. [Uploaded lease name (is_ok r)]) (lease_upload api lease item sz content)) s of
                     (Inl err, s) \<Rightarrow> Some (Inl err, s)
                   | (Inr _, s) \<Rightarrow> upload_loop nextf api lease m tr s))))"

section \<open>Readers and archives\<close>

text \<open>An archive as the list that \<open>OvaImport\<close> takes it for: an error ends it.\<close>

inductive reads_archive :: "('r \<Rightarrow> tar_next \<times> 'r) \<Rightarrow> 'r \<Rightarrow> tar_item list \<Rightarrow> bool"
  for nextf :: "'r \<Rightarrow> tar_next \<times> 'r"
where
  at_end: "nextf tr = (EndOfArchive, tr') \<Longrightarrow> reads_archive nextf tr []"
| at_error: "nextf tr = (NextError err, tr') \<Longrightarrow> reads_archive nextf tr [TarError err]"
| at_entry: "nextf tr = (NextEntry name sz content, tr') \<Longrightarrow> reads_archive nextf tr' items \<Longrightarrow>
     reads_archive nextf tr (TarEntry name sz content # items)"

text \<open>\<open>moves_on nextf left\<close>: a header that \<open>Next\<close> delivers has been taken from the \<open>left tr\<close> blocks that were
  ahead of the reader.\<close>

definition moves_on :: "('r \<Rightarrow> tar_next \<times> 'r) \<Rightarrow> ('r \<Rightarrow> nat) \<Rightarrow> bool" where
  "moves_on nextf left \<longleftrightarrow>
     (\<forall>tr name sz content tr'. nextf tr = (NextEntry name sz content, tr') \<longrightarrow> left tr' < left tr)"

lemma moves_on_archive: "moves_on nextf left \<Longrightarrow> \<exists>items. reads_archive nextf tr items"
proof (induction "left tr" arbitrary: tr rule: less_induct)
  case less
  obtain header tr' where n: "nextf tr = (header, tr')" by force
  show ?case
  proof (cases header)
    case (NextEntry name sz content)
    with less.prems n have "left tr' < left tr" by (simp add: moves_on_def)
    from less.hyps [OF this less.prems] n NextEntry show ?thesis by (blast intro: at_entry)
  qed (use n in \<open>blast intro: at_end at_error\<close>)+
qed

lemma reads_archive_unique: "reads_archive nextf tr items \<Longrightarrow> reads_archive nextf tr items' \<Longrightarrow> items' = items"
proof (induction arbitrary: items' rule: reads_archive.induct)
  case (at_end tr tr')
  from at_end.prems at_end.hyps show ?case by (simp add: reads_archive.simps [of nextf tr])
next
  case (at_error tr err tr')
  from at_error.prems at_error.hyps show ?case by (simp add: reads_archive.simps [of nextf tr])
next
  case (at_entry tr name sz content tr' items)
  from at_entry.prems at_entry.hyps obtain rest where "items' = TarEntry name sz content # rest" "reads_archive nextf tr' rest"
    by (auto simp: reads_archive.simps [of nextf tr])
  with at_entry.IH show ?case by simp
qed

lemma ovf_loop_archive: "reads_archive nextf tr items \<Longrightarrow> ovf_loop nextf ovaPath tr = Some (first_ovf ovaPath items)"
proof (induction rule: reads_archive.induct)
  case (at_entry tr name sz content tr' items)
  then show ?case by (subst ovf_loop.simps) (auto split: sum.split)
qed (subst ovf_loop.simps, simp)+

lemma upload_loop_archive:
  "reads_archive nextf tr items \<Longrightarrow> upload_loop nextf api lease m tr s = Some (upload_items api lease m items s)"
proof (induction arbitrary: s rule: reads_archive.induct)
  case (at_entry tr name sz content tr' items)
  then show ?case
    by (subst upload_loop.simps) (auto simp: bindM_def split: option.split prod.split sum.split)
qed (subst upload_loop.simps, simp add: ret_def throw_def)+

text \<open>C19: the loops over an OVA return.  A reader that takes every header it delivers from the blocks
  of a finite file delivers one list of entries and then the end or an error; on it the loop
  of \<open>readOVFFromOVA\<close> and, in every state of the import, the loop of \<open>upload\<close> come to an end, with the
  result that the model of the import computes from that list.\<close>
theorem archive_loops_return:
  assumes "moves_on nextf left"
  shows "\<exists>items. (\<forall>items'. reads_archive nextf tr items' \<longleftrightarrow> items' = items)
    \<and> ovf_loop nextf ovaPath tr = Some (first_ovf ovaPath items)
    \<and> (\<forall>s. upload_loop nextf api lease m tr s = Some (upload_items api lease m items s))"
proof -
  obtain items where "reads_archive nextf tr items" using moves_on_archive [OF assms] by blast
  note r = this
  then have "reads_archive nextf tr items' \<longleftrightarrow> items' = items" for items' using reads_archive_unique [OF r, of items'] r by auto
  with ovf_loop_archive [OF r] upload_loop_archive [OF r, of api lease m] show ?thesis by (intro exI [of _ items]) simp
qed

end
