(* ===== verification/DemoVSphere.thy ===== *)
theory DemoVSphere
  imports SessionCache OvaConcurrent ArchiveLoops
begin

text \<open>
  A small vCenter that the properties of \<open>pkg/vsphere\<close> apply to: its clients are numbered, it
  remembers who is logged in and which VM folders there are, and it has one datacenter.
\<close>

record vw =
  vw_next :: nat
  vw_live :: "nat set"
  vw_folders :: "string set"

definition demo_vc_api :: "(vw, nat) vc_api" where
  "demo_vc_api =
     \<lparr>vim_client = (\<lambda>h i w. if vw_next w \<in> vw_live w then (Inl (ForeignError ''busy''), w)
        else (Inr (vw_next w), w\<lparr>vw_next := vw_next w + 1\<rparr>)),
      vc_login = (\<lambda>c u p w. (Inr (), w\<lparr>vw_live := insert c (vw_live w)\<rparr>)),
      vc_logout = (\<lambda>c w. (Inr (), w\<lparr>vw_live := vw_live w - {c}\<rparr>)),
      find_datacenter = (\<lambda>c d w. (if d = ''dc1'' then Inr d else Inl NotFoundError, w)),
      rest_client = id,
      rest_login = (\<lambda>c u p w. (Inr (), w)),
      rest_logout = (\<lambda>c w. (Inr (), w)),
      vm_folder = (\<lambda>d w. (Inr (''/'' @ d @ ''/vm''), w)),
      find_folder = (\<lambda>p w. (if p \<in> vw_folders w then Inr p else Inl NotFoundError, w)),
      create_folder = (\<lambda>r n w. (Inr (), w\<lparr>vw_folders := insert (r @ ''/'' @ n) (vw_folders w)\<rparr>)),
      destroy_folder = (\<lambda>f w. (Inr f, w)),
      wait_task = (\<lambda>f w. (Inr (), w\<lparr>vw_folders := vw_folders w - {f}\<rparr>)),
      error_text = (\<lambda>_. ''error'')\<rparr>"

definition demo_world :: vw where
  "demo_world = \<lparr>vw_next = 1, vw_live = {}, vw_folders = {}\<rparr>"

definition demo_params :: "string \<Rightarrow> Params" where
  "demo_params dc = \<lparr>pr_Server = ''vc1'', pr_Datacenter = dc, pr_Username = ''admin'',
     pr_Password = ''secret'', pr_Insecure = True\<rparr>"

definition demo_session :: "nat Session" where
  "demo_session = \<lparr>sn_Client = Some 1, sn_restClient = Some 1, sn_Datacenter = ''dc1''\<rparr>"

lemma demo_logins: "logins_ok demo_vc_api vw_live"
  by (auto simp: logins_ok_def demo_vc_api_def)

lemma demo_inventory: "inventory_ok demo_vc_api vw_folders ''dc1''"
  by (auto simp: inventory_ok_def demo_vc_api_def)

lemma demo_new_session:
  "NewSession demo_vc_api (demo_params ''dc1'') demo_world =
     (Inr demo_session, demo_world\<lparr>vw_next := 2, vw_live := {1}\<rparr>)"
  by (simp add: NewSession_def demo_vc_api_def demo_params_def demo_world_def demo_session_def Let_def
      bindM_def wrapM_def ret_def)

section \<open>Sessions\<close>

theorem vm_folder_ensured_deleted_witness:
  "vw_folders (snd (EnsureVMFolder demo_vc_api demo_session ''f'' demo_world)) = {''/dc1/vm/f''} \<and>
   ''/dc1/vm/f'' \<notin> vw_folders (snd (DeleteVMFolder demo_vc_api demo_session ''f''
     (snd (EnsureVMFolder demo_vc_api demo_session ''f'' demo_world))))"
proof -
  let ?path = "folder_path demo_session ''f''"
  let ?w1 = "demo_world\<lparr>vw_folders := {?path}\<rparr>"
  have p: "?path = ''/dc1/vm/f''" by (simp add: folder_path_def demo_session_def)
  have e: "EnsureVMFolder demo_vc_api demo_session ''f'' demo_world = (Inr (), ?w1)"
    by (simp add: EnsureVMFolder_def create_vm_folder_def demo_vc_api_def demo_session_def demo_world_def
        folder_path_def bindM_def wrapM_def tryM_def ret_def)
  have d: "DeleteVMFolder demo_vc_api demo_session ''f'' ?w1 = (Inr (), demo_world)"
    by (simp add: DeleteVMFolder_def demo_vc_api_def demo_session_def demo_world_def
        folder_path_def Let_def bindM_def wrapM_def tryM_def ret_def)
  have "inventory_ok demo_vc_api vw_folders (sn_Datacenter demo_session)"
    by (simp add: demo_session_def demo_inventory)
  from vm_folder_ensured_deleted [OF this e d] e d p show ?thesis by (simp add: demo_world_def)
qed

lemma demo_get:
  "GetOrCreate demo_vc_api (demo_params ''dc1'') \<lparr>sessionCache = [], outside = demo_world\<rparr> =
     (Inr demo_session, \<lparr>sessionCache = [(''vc1#dc1#admin'', demo_session)],
        outside = demo_world\<lparr>vw_next := 2, vw_live := {1}\<rparr>\<rparr>)"
  by (simp add: GetOrCreate_def demo_new_session Let_def) (simp add: cacheKey_def demo_params_def)

theorem session_cache_refines_witness:
  "fst (spec_get demo_vc_api (demo_params ''dc1'') (Map.empty, demo_world)) = Inr demo_session"
proof -
  have "key_ok (demo_params ''dc1'')" by (simp add: key_ok_def demo_params_def)
  from session_cache_refines [OF this, of demo_vc_api "\<lparr>sessionCache = [], outside = demo_world\<rparr>"]
  have "spec_get demo_vc_api (demo_params ''dc1'') (cache_of [], demo_world) =
      map_prod id abs_state (GetOrCreate demo_vc_api (demo_params ''dc1'') \<lparr>sessionCache = [], outside = demo_world\<rparr>)"
    by (simp add: abs_state_def)
  moreover have "cache_of [] = (Map.empty :: nat cache_spec)" by (auto simp: cache_of_def)
  ultimately show ?thesis by (simp add: demo_get)
qed

theorem session_reused_witness:
  "\<exists>st. GetOrCreate demo_vc_api (demo_params ''dc1'') st = (Inr demo_session, st)"
  using session_reused [OF demo_get refl refl, of "[demo_params ''dc2'']"] by blast


text \<open>The same vCenter without its REST interface.\<close>

definition no_rest :: "(vw, nat) vc_api" where
  "no_rest = demo_vc_api\<lparr>rest_login := (\<lambda>c u p w. (Inl (ForeignError ''503''), w))\<rparr>"

theorem failed_session_leaks_witness:
  "1 \<in> vw_live (outside (ClearSessions demo_vc_api (snd (GetOrCreate demo_vc_api (demo_params ''dc2'')
       \<lparr>sessionCache = [], outside = demo_world\<rparr>)))) \<and>
   1 \<in> vw_live (outside (ClearSessions no_rest (snd (GetOrCreate no_rest (demo_params ''dc1'')
       \<lparr>sessionCache = [], outside = demo_world\<rparr>))))"
proof -
  let ?st = "\<lparr>sessionCache = [], outside = demo_world\<rparr>"
  have leak: "1 \<in> vw_live (outside (ClearSessions api (snd (GetOrCreate api (demo_params dc) ?st))))"
    if api: "(api, dc) \<in> {(demo_vc_api, ''dc2''), (no_rest, ''dc1'')}" for api dc
  proof -
    let ?p = "demo_params dc"
    obtain r st' where g: "GetOrCreate api ?p ?st = (r, st')" by force
    have v: "vim_client api (SanitizeServer (pr_Server ?p)) (pr_Insecure ?p) (outside ?st) =
        (Inr 1, demo_world\<lparr>vw_next := 2\<rparr>)" using api by (auto simp: no_rest_def demo_vc_api_def demo_world_def)
    have l: "vc_login api 1 (pr_Username ?p) (pr_Password ?p) (demo_world\<lparr>vw_next := 2\<rparr>) =
        (Inr (), demo_world\<lparr>vw_next := 2, vw_live := {1}\<rparr>)"
      using api by (auto simp: no_rest_def demo_vc_api_def demo_world_def)
    have f: "fails_after_login api 1 ?p (demo_world\<lparr>vw_next := 2, vw_live := {1}\<rparr>)"
      using api by (auto simp: fails_after_login_def no_rest_def demo_vc_api_def demo_params_def)
    have ok: "logins_ok api vw_live" using api demo_logins by (auto simp: logins_ok_def no_rest_def)
    have n: "gm_lookup (sessionCache ?st) (cacheKey ?p) = None" by simp
    from failed_session_leaks [OF execution.start ok n v l f g] g show ?thesis by simp
  qed
  show ?thesis by (intro conjI leak) simp_all
qed

section \<open>Tags\<close>

definition demo_ref :: "string \<Rightarrow> mo_ref" where
  "demo_ref p = \<lparr>mo_Type = ''Datastore'', mo_Value = p\<rparr>"

definition demo_tag :: Tag where
  "demo_tag = \<lparr>tg_ID = ''urn:1'', tg_Name = ''infra'', tg_CategoryID = ''cat''\<rparr>"

definition demo_tags :: "(mo_ref \<times> string) list tag_api" where
  "demo_tags =
     \<lparr>get_categories = (\<lambda>w. (Inr [], w)),
      get_tags_for_category = (\<lambda>c w. (Inr [demo_tag], w)),
      get_tags = (\<lambda>w. (Inr [demo_tag], w)),
      find_datastore = (\<lambda>p w. (Inr (demo_ref p), w)),
      list_datastores = (\<lambda>_ w. (Inr [''/dc1/ds1'', ''/dc1/ds2''], w)),
      get_attached_tags = (\<lambda>d w. (Inr (if (d, ''urn:1'') \<in> set w then [demo_tag] else []), w)),
      list_attached_objects = (\<lambda>i w. (Inr (map fst (filter (\<lambda>x. snd x = i) w)), w)),
      object_name = (\<lambda>d w. (Inr (mo_Value d), w)),
      attach_tag = (\<lambda>i d w. (Inr (), (d, i) # w)),
      detach_tag = (\<lambda>i d w. (Inr (), filter (\<lambda>x. x \<noteq> (d, i)) w)),
      pbm_client = (\<lambda>w. (Inr (), w)),
      profile_id_by_name = (\<lambda>n w. (Inr n, w)),
      tag_error_text = (\<lambda>_. ''error'')\<rparr>"

lemma demo_tags_ok: "tags_ok demo_tags set [demo_tag] demo_ref"
  by (auto simp: tags_ok_def tags_on_def demo_tags_def demo_tag_def)

theorem tag_attach_detach_witness:
  "\<exists>b' w4. IsDatastoreTagged demo_tags ''ds1'' ''infra''
      (snd (DetachTagFromDatastore demo_tags ''ds1'' ''infra''
        (snd (AttachTagToDatastore demo_tags ''ds1'' ''infra'' [])))) = (Inr b', w4) \<and> \<not> b' \<and> w4 = []"
proof -
  let ?x = "(demo_ref ''ds1'', ''urn:1'')"
  have a: "AttachTagToDatastore demo_tags ''ds1'' ''infra'' [] = (Inr (), [?x])"
    and t: "IsDatastoreTagged demo_tags ''ds1'' ''infra'' [?x] = (Inr True, [?x])"
    and d: "DetachTagFromDatastore demo_tags ''ds1'' ''infra'' [?x] = (Inr (), [])"
    and t': "IsDatastoreTagged demo_tags ''ds1'' ''infra'' [] = (Inr False, [])"
    by (simp_all add: AttachTagToDatastore_def IsDatastoreTagged_def DetachTagFromDatastore_def
        resolveTagIDByName_def demo_tags_def demo_tag_def bindM_def wrapM_def ret_def)
  from tag_attach_detach [OF demo_tags_ok a t d t'] a d t' show ?thesis
    by (intro exI [of _ False] exI [of _ "[]"]) simp
qed

theorem non_fd_datastore_witness:
  "FindNonFDDatastore demo_tags ''dc1'' [] [] = (Inr (''/dc1/ds1'', True), []) \<and> ''/dc1/ds1'' \<notin> {}"
proof -
  have f: "FindNonFDDatastore demo_tags ''dc1'' [] [] = (Inr (''/dc1/ds1'', True), [])"
    and l: "list_datastores demo_tags ''*'' [] = (Inr [''/dc1/ds1'', ''/dc1/ds2''], [])"
    by (simp_all add: FindNonFDDatastore_def demo_tags_def bindM_def wrapM_def ret_def)
  from non_fd_datastore [OF f l] f show ?thesis by auto
qed

section \<open>The OVA cache\<close>

definition demo_fetch :: fetch_api where
  "demo_fetch = \<lparr>hex_sha256 = rev, new_request = (\<lambda>_. Inr ()),
     http_do = (\<lambda>_ _. Inr \<lparr>rs_StatusCode = 200, rs_Status = ''OK'', rs_Body = ''ova'', rs_err = None\<rparr>)\<rparr>"

definition demo_disk :: "nat option list \<Rightarrow> disk" where
  "demo_disk faults = \<lparr>dk_files = Map.empty, dk_locks = [], dk_requests = [], dk_faults = faults, dk_temps = [''7'']\<rparr>"

definition demo_url :: string where
  "demo_url = ''https://h/rhcos.ova?sig=1''"

lemma demo_ova_paths:
  "ova_path ''/c'' demo_url = ''/c/rhcos.ova''"
  "path_join ''/c'' ''ova-download-7'' = ''/c/ova-download-7''"
  by code_simp+

lemmas demo_disk_defs = Let_def demo_disk_def demo_fetch_def demo_ova_paths DownloadOVAToDir_def MkdirAll_def OpenCreate_def Flock_def ova_cached_def
  hashFile_def Open_def fetch_ova_def request_ova_def temp_path_def CreateTemp_def store_ova_def CopyBody_def CloseFile_def
  Rename_def Remove_def Unlock_def deferM_def faulty_def next_fault_def bindM_def wrapM_def tryM_def ret_def throw_def

lemma demo_temp: "ova_path ''/c'' demo_url \<notin> temp_paths ''/c'' (demo_disk faults)"
  by (simp add: temp_paths_def temp_path_def demo_ova_paths demo_disk_def)

lemma demo_download:
  "\<exists>d'. DownloadOVAToDir demo_fetch demo_url ''avo'' ''/c'' (demo_disk []) = (Inr ''/c/rhcos.ova'', d') \<and>
     dk_requests d' = [demo_url]"
  by (simp add: demo_disk_defs)

theorem download_all_or_nothing_witness:
  "\<exists>c. dk_files (snd (DownloadOVAToDir demo_fetch demo_url ''avo'' ''/c'' (demo_disk []))) ''/c/rhcos.ova'' = Some c
     \<and> ''avo'' = rev c"
proof -
  obtain d' where "DownloadOVAToDir demo_fetch demo_url ''avo'' ''/c'' (demo_disk []) = (Inr ''/c/rhcos.ova'', d')"
    using demo_download by blast
  note run = this
  have "hex_sha256 demo_fetch = rev" by (simp add: demo_fetch_def)
  with conjunct1 [OF download_all_or_nothing [OF run demo_temp]] obtain c
    where "dk_files d' ''/c/rhcos.ova'' = Some c" "''avo'' = rev c" by (auto simp: demo_ova_paths)
  with run show ?thesis by (simp only: snd_conv) blast
qed

theorem download_once_witness:
  "\<exists>d' d''. DownloadOVAToDir demo_fetch demo_url ''avo'' ''/c'' (d'\<lparr>dk_faults := []\<rparr>) = (Inr ''/c/rhcos.ova'', d'')
     \<and> dk_requests d'' = [demo_url]"
proof -
  obtain d' where "DownloadOVAToDir demo_fetch demo_url ''avo'' ''/c'' (demo_disk []) = (Inr ''/c/rhcos.ova'', d')"
    "dk_requests d' = [demo_url]" using demo_download by blast
  from download_once [OF this(1) demo_temp] this(2) show ?thesis by auto
qed

section \<open>Two downloads of one OVA\<close>

text \<open>
  The first process is killed after two bytes of its download while the second waits for the lock;
  then the second one downloads the file.
\<close>

definition demo_jobs :: "job list" where
  "demo_jobs = replicate 2 \<lparr>jb_ovaURL = demo_url, jb_sha256Expected = ''avo''\<rparr>"

definition shared_disk :: disk where
  "shared_disk = (demo_disk [])\<lparr>dk_temps := [''7'', ''8'']\<rparr>"

definition demo_schedule :: "choice list" where
  "demo_schedule = map GoOn [0, 1, 1, 0, 0, 1, 0, 0, 1, 0] @ [Kill 0 2] @ replicate 9 (GoOn 1)"

definition demo_farm :: farm where
  "demo_farm = farm_run demo_fetch ''/c'' demo_jobs demo_schedule (farm_start demo_jobs shared_disk)"

lemma demo_farm_end:
  "fm_stages demo_farm = [Killed, Returned (Inr ''/c/rhcos.ova'')]"
  "dk_files (fm_disk demo_farm) ''/c/rhcos.ova'' = Some ''ova''"
  "dk_files (fm_disk demo_farm) ''/c/ova-download-7'' = Some ''ov''"
  "dk_files (fm_disk demo_farm) ''/c/ova-download-8'' = None"
  "dk_locks (fm_disk demo_farm) = []"
  by code_simp+

lemma demo_farm_reached: "(farm_step demo_fetch ''/c'' demo_jobs)\<^sup>*\<^sup>* (farm_start demo_jobs shared_disk) demo_farm"
  unfolding demo_farm_def by (rule farm_run_reaches)

lemma demo_names: "names_ok ''/c'' demo_jobs shared_disk" "dk_locks shared_disk = []"
  by code_simp+

theorem concurrent_downloads_witness:
  "\<exists>jb \<in> set demo_jobs. has_hash demo_fetch ''/c'' jb (fm_disk demo_farm) ''/c/rhcos.ova''"
proof -
  have n: "1 < length demo_jobs" by (simp add: demo_jobs_def)
  have r: "fm_stages demo_farm ! 1 = Returned (Inr ''/c/rhcos.ova'')" by (simp add: demo_farm_end)
  from concurrent_downloads [OF demo_farm_reached demo_names] n r show ?thesis by blast
qed

theorem concurrent_downloads_end_witness:
  "\<exists>k \<le> 22. (farm_step demo_fetch ''/c'' demo_jobs ^^ k) (farm_start demo_jobs shared_disk) demo_farm"
proof -
  from rtranclp_imp_relpowp [OF demo_farm_reached] obtain k
    where k: "(farm_step demo_fetch ''/c'' demo_jobs ^^ k) (farm_start demo_jobs shared_disk) demo_farm" ..
  from concurrent_downloads_end [OF k demo_names(2)] k show ?thesis
    by (intro exI [of _ k]) (simp add: demo_jobs_def)
qed

text \<open>
  Two addresses with the same last segment share a cache entry: the file of the first caller is
  replaced after it was given the path, and without a hash the second caller gets the first file.
\<close>

definition two_versions :: fetch_api where
  "two_versions = demo_fetch\<lparr>http_do := (\<lambda>_ url. Inr \<lparr>rs_StatusCode = 200, rs_Status = ''OK'',
     rs_Body = (if url = ''https://h/4.18/rhcos.ova'' then ''old'' else ''new''), rs_err = None\<rparr>)\<rparr>"

definition version_jobs :: "string \<Rightarrow> job list" where
  "version_jobs h = [\<lparr>jb_ovaURL = ''https://h/4.18/rhcos.ova'', jb_sha256Expected = ''dlo''\<rparr>,
     \<lparr>jb_ovaURL = ''https://h/4.19/rhcos.ova'', jb_sha256Expected = h\<rparr>]"

definition versions_farm :: "string \<Rightarrow> farm" where
  "versions_farm h = farm_run two_versions ''/c'' (version_jobs h) (replicate 11 (GoOn 0) @ replicate 11 (GoOn 1))
     (farm_start (version_jobs h) shared_disk)"

lemma same_name_replaced:
  "fm_stages (versions_farm ''wen'') = [Returned (Inr ''/c/rhcos.ova''), Returned (Inr ''/c/rhcos.ova'')]"
  "dk_files (fm_disk (versions_farm ''wen'')) ''/c/rhcos.ova'' = Some ''new''"
  "fm_stages (versions_farm '''') = [Returned (Inr ''/c/rhcos.ova''), Returned (Inr ''/c/rhcos.ova'')]"
  "dk_files (fm_disk (versions_farm '''')) ''/c/rhcos.ova'' = Some ''old''"
  by code_simp+

section \<open>Imports\<close>

definition demo_host :: host_props where
  "demo_host = \<lparr>hp_ConnectionState = ''connected'', hp_InMaintenanceMode = False,
     hp_Datastore = [demo_ref ''ds1''], hp_Network = [demo_ref ''net'']\<rparr>"

definition demo_ova :: "unit ova_api" where
  "demo_ova =
     \<lparr>open_ova = (\<lambda>_. Inr [TarEntry ''a.ovf'' 1 (Inr ''<ovf/>''), TarEntry ''disk.vmdk'' 2 (Inr ''x'')]),
      find_cluster = (\<lambda>n w. (Inr n, w)), find_ds = (\<lambda>n w. (Inr (demo_ref n), w)),
      find_network = (\<lambda>n w. (Inr (demo_ref n), w)), find_vm_folder = (\<lambda>n w. (Inr n, w)),
      find_dc = (\<lambda>n w. (Inr n, w)), dc_vm_folder = (\<lambda>n w. (Inr n, w)), find_pool = (\<lambda>n w. (Inr n, w)),
      cluster_pool = (\<lambda>n w. (Inr n, w)), cluster_hosts = (\<lambda>_ w. (Inr [''h0'', ''h1''], w)),
      host_properties = (\<lambda>h w. (if h = ''h1'' then Inr demo_host else Inl ContextDone, w)),
      ovf_networks = (\<lambda>_. Inr None),
      create_import_spec = (\<lambda>_ _ _ _ w. (Inr \<lparr>ir_Error = [], ir_ImportSpec = ''spec'', ir_FileItem = []\<rparr>, w)),
      import_vapp = (\<lambda>_ _ _ _ w. (Inr ''lease'', w)),
      lease_wait = (\<lambda>_ _ w. (Inr [\<lparr>fi_Path = ''disk.vmdk'', fi_other = ''''\<rparr>], w)),
      lease_upload = (\<lambda>_ _ _ _ w. (Inr (), w)), lease_complete = (\<lambda>_ w. (Inr (), w)),
      lease_abort = (\<lambda>_ w. (Inr (), w)), find_vm = (\<lambda>n w. (Inr n, w)),
      vm_template = (\<lambda>_ w. (Inr (Some False), w)), vm_boot_options = (\<lambda>_ w. (Inr (), w)),
      vm_disable_secure_boot = (\<lambda>n w. (Inr n, w)), vm_destroy = (\<lambda>n w. (Inr n, w)),
      vm_wait = (\<lambda>_ w. (Inr (), w)), mark_as_template = (\<lambda>_ w. (Inr (), w)),
      json_query_disk = (\<lambda>_ _ _ _. Inl ContextDone)\<rparr>"

definition demo_import :: ImportOVAParams where
  "demo_import = \<lparr>io_OVAPath = ''/c/rhcos.ova'', io_TemplateName = ''t'', io_ComputeCluster = ''cl'',
     io_Datastore = ''ds1'', io_Network = ''net'', io_Folder = '''', io_ResourcePool = '''', io_DiskProvisioning = ''thin''\<rparr>"

lemma demo_stable: "stable_hosts demo_ova (\<lambda>h. if h = ''h1'' then Some demo_host else None)"
  by (simp add: stable_hosts_def demo_ova_def)

theorem available_host_witness:
  "fst (findAvailableHost demo_ova ''cl'' (demo_ref ''net'') (demo_ref ''ds1'') ()) = Inr ''h1''"
proof -
  let ?props = "\<lambda>h. if h = ''h1'' then Some demo_host else None"
  have hosts: "cluster_hosts demo_ova ''cl'' () = (Inr [''h0'', ''h1''], ())" by (simp add: demo_ova_def)
  obtain r w where f: "findAvailableHost demo_ova ''cl'' (demo_ref ''net'') (demo_ref ''ds1'') () = (r, w)"
    by (cases "findAvailableHost demo_ova ''cl'' (demo_ref ''net'') (demo_ref ''ds1'') ()") auto
  have q: "qualifies ?props (demo_ref ''ds1'') (demo_ref ''net'') ''h1''"
    by (simp add: qualifies_def host_usable_def demo_host_def)
  have q0: "\<not> qualifies ?props (demo_ref ''ds1'') (demo_ref ''net'') ''h0''"
    by (simp add: qualifies_def)
  from available_host [OF demo_stable hosts f] q q0 f show ?thesis
    by (cases r) (auto simp: Cons_eq_append_conv)
qed

text \<open>A reader over a list of headers, with a disk among them that the lease wants.\<close>

fun list_reader :: "tar_next list \<Rightarrow> tar_next \<times> tar_next list" where
  "list_reader [] = (EndOfArchive, [])"
| "list_reader (x # xs) = (x, xs)"

lemma list_reader_moves: "moves_on list_reader length"
  by (auto simp: moves_on_def elim: list_reader.elims)

theorem archive_loops_return_witness:
  "ovf_loop list_reader ''/c/rhcos.ova'' [NextEntry ''disk.vmdk'' 2 (Inr ''x''), NextEntry ''a.ovf'' 1 (Inr ''<ovf/>'')] =
     Some (Inr ''<ovf/>'')"
proof -
  let ?tr = "[NextEntry ''disk.vmdk'' 2 (Inr ''x''), NextEntry ''a.ovf'' 1 (Inr ''<ovf/>'')]"
  have "reads_archive list_reader ?tr [TarEntry ''disk.vmdk'' 2 (Inr ''x''), TarEntry ''a.ovf'' 1 (Inr ''<ovf/>'')]"
    by (rule reads_archive.at_entry, simp, rule reads_archive.at_entry, simp) (rule reads_archive.at_end, simp)
  with archive_loops_return [OF list_reader_moves, of ?tr "''/c/rhcos.ova''" demo_ova "''lease''" "[]"]
  have "ovf_loop list_reader ''/c/rhcos.ova'' ?tr = Some (first_ovf ''/c/rhcos.ova''
      [TarEntry ''disk.vmdk'' 2 (Inr ''x''), TarEntry ''a.ovf'' 1 (Inr ''<ovf/>'')])"
    by (elim exE conjE) simp
  moreover have "first_ovf ''/c/rhcos.ova'' [TarEntry ''disk.vmdk'' 2 (Inr ''x''), TarEntry ''a.ovf'' 1 (Inr ''<ovf/>'')] =
      Inr ''<ovf/>''" by code_simp
  ultimately show ?thesis by simp
qed

theorem import_closes_lease_witness:
  "\<exists>r s' evs. ImportOVA demo_ova (Some demo_session) demo_import \<lparr>im_world = (), im_events = []\<rparr> = (r, s')
     \<and> im_events s' = evs \<and> complete_import demo_ova ''/c/rhcos.ova'' evs \<and> lease_run Idle evs = Some (Closed ''lease'')"
proof -
  let ?s = "\<lparr>im_world = (), im_events = []\<rparr>"
  let ?evs = "[Acquired ''lease'', Waited ''lease'' True, UpdaterStarted ''lease'',
      Uploaded ''lease'' ''disk.vmdk'' True, Completed ''lease'' True, UpdaterDone ''lease'']"
  have run: "ImportOVA demo_ova (Some demo_session) demo_import ?s =
      (Inr ''t'', \<lparr>im_world = (), im_events = ?evs\<rparr>)" by code_simp
  from import_closes_lease [OF run] run show ?thesis by (auto simp: demo_import_def)
qed

text \<open>A lease that is never ready is neither completed nor aborted, and one whose abort fails stays open too.\<close>

lemma leaked_leases:
  "im_events (snd (ImportOVA (demo_ova\<lparr>lease_wait := \<lambda>_ _ w. (Inl ContextDone, w)\<rparr>) (Some demo_session) demo_import
     \<lparr>im_world = (), im_events = []\<rparr>)) = [Acquired ''lease'', Waited ''lease'' False]"
  "im_events (snd (ImportOVA (demo_ova\<lparr>lease_complete := \<lambda>_ w. (Inl ContextDone, w), lease_abort := \<lambda>_ w. (Inl ContextDone, w)\<rparr>)
     (Some demo_session) demo_import \<lparr>im_world = (), im_events = []\<rparr>)) =
     [Acquired ''lease'', Waited ''lease'' True, UpdaterStarted ''lease'', Uploaded ''lease'' ''disk.vmdk'' True,
      Completed ''lease'' False, UpdaterDone ''lease'', Aborted ''lease'' False]"
  by code_simp+

end
