(* ===== verification/SuiteTemplates.thy ===== *)
theory SuiteTemplates
  imports SessionCache OvaImport OvaCache LabConfigs FrameworkObjects
begin

text \<open>
  \<open>ensureTemplateInSecondVC\<close> of \<open>test/e2e/helpers_test.go\<close>: the one place that puts the parts of
  \<open>pkg/vsphere\<close> together.  It logs in to the second vCenter, makes the folder, looks for the template and,
  when there is none, takes the address of the image from the cluster, downloads it into the cache and
  imports it.

  The state of a test has the world of the cluster and the vCenter, the disk and the history of import
  leases.  What \<open>ImportOVA\<close> opens is what the disk has under that name; the tar reader is a parameter,
  and so is the architecture the program was built for.  A failed \<open>Expect\<close>, a \<open>Skip\<close> and a run-time error
  all end the test by a panic, and deferred calls run.  What is written for the test log is left out.
\<close>

section \<open>Tests\<close>

datatype stop =
    TestFailed string
  | TestSkipped string
  | TestPanicked string

record 'w suite =
  su_st :: "'w st"
  su_disk :: disk
  su_events :: "lease_event list"

record ('w, 'h) suite_api =
  sa_env :: "'w env"
  sa_vc :: "('w, 'h) vc_api"
  sa_ova :: "'w ova_api"
  sa_fetch :: fetch_api
  sa_untar :: "string \<Rightarrow> tar_item list"
  sa_GOARCH :: string

text \<open>\<open>Expect(err).NotTo(HaveOccurred(), msg)\<close> after a call, the next statement, and \<open>defer\<close>.\<close>

definition expectM :: "string \<Rightarrow> ('s \<Rightarrow> 'a res \<times> 's) \<Rightarrow> 's \<Rightarrow> (stop + 'a) \<times> 's" where
  "expectM msg m s = map_prod (map_sum (\<lambda>_. TestFailed msg) id) id (m s)"

definition thenT :: "('s \<Rightarrow> (stop + 'a) \<times> 's) \<Rightarrow> ('a \<Rightarrow> 's \<Rightarrow> (stop + 'b) \<times> 's) \<Rightarrow> 's \<Rightarrow> (stop + 'b) \<times> 's" where
  "thenT m f s = (case m s of (Inl e, s) \<Rightarrow> (Inl e, s) | (Inr a, s) \<Rightarrow> f a s)"

definition finallyT :: "('s \<Rightarrow> 's) \<Rightarrow> ('s \<Rightarrow> 'r \<times> 's) \<Rightarrow> 's \<Rightarrow> 'r \<times> 's" where
  "finallyT cleanup m s = (case m s of (r, s) \<Rightarrow> (r, cleanup s))"

definition endT :: "stop + 'a \<Rightarrow> 's \<Rightarrow> (stop + 'a) \<times> 's" where
  "endT r s = (r, s)"

text \<open>The parts of the program on the state of a test.\<close>

definition on_st :: "('w st \<Rightarrow> 'r \<times> 'w st) \<Rightarrow> 'w suite \<Rightarrow> 'r \<times> 'w suite" where
  "on_st m s = (case m (su_st s) of (r, t) \<Rightarrow> (r, s\<lparr>su_st := t\<rparr>))"

definition on_vc :: "('w \<Rightarrow> 'r \<times> 'w) \<Rightarrow> 'w suite \<Rightarrow> 'r \<times> 'w suite" where
  "on_vc m = on_st (\<lambda>t. case m (world t) of (r, w) \<Rightarrow> (r, t\<lparr>world := w\<rparr>))"

definition on_disk :: "(disk \<Rightarrow> 'r \<times> disk) \<Rightarrow> 'w suite \<Rightarrow> 'r \<times> 'w suite" where
  "on_disk m s = (case m (su_disk s) of (r, d) \<Rightarrow> (r, s\<lparr>su_disk := d\<rparr>))"

definition on_import :: "('w import_state \<Rightarrow> 'r \<times> 'w import_state) \<Rightarrow> 'w suite \<Rightarrow> 'r \<times> 'w suite" where
  "on_import m s =
     (case m \<lparr>im_world = world (su_st s), im_events = su_events s\<rparr> of
        (r, i) \<Rightarrow> (r, s\<lparr>su_st := (su_st s)\<lparr>world := im_world i\<rparr>, su_events := im_events i\<rparr>))"

definition with_disk :: "('w, 'h) suite_api \<Rightarrow> disk \<Rightarrow> 'w ova_api" where
  "with_disk api d = (sa_ova api)\<lparr>open_ova := \<lambda>path.
     case dk_files d path of None \<Rightarrow> Inl NotFoundError | Some content \<Rightarrow> Inr (sa_untar api content)\<rparr>"

section \<open>The template\<close>

definition MCONamespace :: string where
  "MCONamespace = ''openshift-machine-config-operator''"

definition CoreOSBootImagesCM :: string where
  "CoreOSBootImagesCM = ''coreos-bootimages''"

definition ova_cache_dir :: string where
  "ova_cache_dir = ''/tmp/ova-cache''"

definition template_name :: "LabConfig \<Rightarrow> FailureDomainConfig \<Rightarrow> string \<Rightarrow> string" where
  "template_name lab fd infraID =
     (if Template (Topology fd) = '''' then TemplateNameForFailureDomain infraID (Name fd)
      else Template (Topology fd))"

definition boot_arch :: "('w, 'h) suite_api \<Rightarrow> string" where
  "boot_arch api = (if sa_GOARCH api = ''amd64'' then ''x86_64'' else sa_GOARCH api)"

definition import_template ::
  "('w, 'h) suite_api \<Rightarrow> 'h Session \<Rightarrow> TopologyConfig \<Rightarrow> string \<Rightarrow> string \<Rightarrow> 'w suite \<Rightarrow> (stop + string) \<times> 'w suite" where
  "import_template api session topo infraID templateName =
     thenT (expectM ''get coreos-bootimages ConfigMap''
              (on_st (call (EGet ''configmaps'' MCONamespace CoreOSBootImagesCM)
                        (get_config_map (sa_env api) MCONamespace CoreOSBootImagesCM)))) (\<lambda>cm.
     thenT (expectM ''resolve RHCOS OVA''
              (liftR (ResolveRHCOSOVAFromConfigMap (sa_ova api) (Some cm) (boot_arch api)))) (\<lambda>ova.
     thenT (expectM ''download RHCOS OVA''
              (on_disk (DownloadOVAToDir (sa_fetch api) (ar_Location ova) (ar_Sha256 ova) ova_cache_dir))) (\<lambda>ovaPath.
       case Networks topo of
         [] \<Rightarrow> endT (Inl (TestPanicked ''index out of range''))
       | network # _ \<Rightarrow>
           thenT (expectM ''import OVA''
                    (\<lambda>s. on_import (ImportOVA (with_disk api (su_disk s)) (Some session)
                       \<lparr>io_OVAPath = ovaPath, io_TemplateName = templateName,
                        io_ComputeCluster = ComputeCluster topo, io_Datastore = Datastore topo,
                        io_Network = network, io_Folder = ''/'' @ Datacenter topo @ ''/vm/'' @ infraID,
                        io_ResourcePool = ResourcePool topo, io_DiskProvisioning = ''''\<rparr>) s))
             (\<lambda>_. endT (Inr templateName)))))"

definition template_in_session ::
  "('w, 'h) suite_api \<Rightarrow> 'h Session \<Rightarrow> TopologyConfig \<Rightarrow> string \<Rightarrow> string \<Rightarrow> 'w suite \<Rightarrow> (stop + string) \<times> 'w suite" where
  "template_in_session api session topo infraID templateName =
     thenT (expectM ''ensure VM folder'' (on_vc (EnsureVMFolder (sa_vc api) session infraID))) (\<lambda>_ s.
       case on_vc (FindTemplateByName (sa_ova api) (Some session) templateName) s of
         ((r, found), s) \<Rightarrow>
           if found \<and> is_ok r then (Inr templateName, s)
           else if \<not> is_ok r then (Inl (TestFailed ''check template''), s)
           else import_template api session topo infraID templateName s)"

definition ensureTemplateInSecondVC ::
  "('w, 'h) suite_api \<Rightarrow> LabConfig \<Rightarrow> string \<Rightarrow> 'w suite \<Rightarrow> (stop + string) \<times> 'w suite" where
  "ensureTemplateInSecondVC api lab infraID =
     (case FailureDomain lab of
        None \<Rightarrow> endT (Inl (TestPanicked ''nil pointer dereference''))
      | Some fd \<Rightarrow>
          (let topo = Topology fd; templateName = template_name lab fd infraID in
           thenT (expectM ''template name'' (liftR (ValidateTemplateName templateName))) (\<lambda>_.
           thenT (expectM ''get second vCenter password''
                    (on_st (PasswordValue (sa_env api) (SecondVCenter lab)))) (\<lambda>password.
           thenT (expectM ''connect to second vCenter'' (on_vc (NewSession (sa_vc api)
                    \<lparr>pr_Server = Server (SecondVCenter lab), pr_Datacenter = Datacenter topo,
                     pr_Username = Username (SecondVCenter lab), pr_Password = password, pr_Insecure = True\<rparr>)))
             (\<lambda>session. finallyT (\<lambda>s. snd (on_vc (\<lambda>w. ((), Close (sa_vc api) session w)) s))
                (template_in_session api session topo infraID templateName))))))"

section \<open>Which logins are open\<close>

text \<open>No call but those of \<open>pkg/vsphere/session.go\<close> opens or closes a login: the calls of the inventory, of the
  import and of the cluster keep the set \<open>live\<close>.\<close>

definition kept :: "('w \<Rightarrow> 'v) \<Rightarrow> 'w \<Rightarrow> 'w \<Rightarrow> bool" where
  "kept V w w' \<longleftrightarrow> V w' = V w"

interpretation kp: state_rel "kept V" for V
  by unfold_locales (simp_all add: kept_def)

definition inventory_keeps :: "'w ova_api \<Rightarrow> ('w \<Rightarrow> 'v) \<Rightarrow> bool" where
  "inventory_keeps vi V \<longleftrightarrow>
     (\<forall>x. within (kept V) (find_cluster vi x) \<and> within (kept V) (find_ds vi x) \<and>
        within (kept V) (find_network vi x) \<and> within (kept V) (find_vm_folder vi x) \<and>
        within (kept V) (find_dc vi x) \<and> within (kept V) (dc_vm_folder vi x) \<and>
        within (kept V) (find_pool vi x) \<and> within (kept V) (cluster_pool vi x) \<and>
        within (kept V) (cluster_hosts vi x) \<and> within (kept V) (host_properties vi x))"

definition import_keeps :: "'w ova_api \<Rightarrow> ('w \<Rightarrow> 'v) \<Rightarrow> bool" where
  "import_keeps vi V \<longleftrightarrow>
     (\<forall>a b c d. within (kept V) (create_import_spec vi a b c d)) \<and>
     (\<forall>a b c d. within (kept V) (import_vapp vi a b c d)) \<and>
     (\<forall>l fs. within (kept V) (lease_wait vi l fs)) \<and>
     (\<forall>l f n c. within (kept V) (lease_upload vi l f n c)) \<and>
     (\<forall>x. within (kept V) (lease_complete vi x) \<and> within (kept V) (lease_abort vi x) \<and>
        within (kept V) (find_vm vi x) \<and> within (kept V) (vm_template vi x) \<and>
        within (kept V) (vm_boot_options vi x) \<and> within (kept V) (vm_disable_secure_boot vi x) \<and>
        within (kept V) (vm_wait vi x) \<and> within (kept V) (mark_as_template vi x))"

definition suite_keeps :: "('w, 'h) suite_api \<Rightarrow> ('w \<Rightarrow> 'v) \<Rightarrow> bool" where
  "suite_keeps api V \<longleftrightarrow> inventory_keeps (sa_ova api) V \<and> import_keeps (sa_ova api) V \<and>
     (\<forall>x. within (kept V) (vm_folder (sa_vc api) x) \<and> within (kept V) (find_folder (sa_vc api) x)) \<and>
     (\<forall>x y. within (kept V) (create_folder (sa_vc api) x y)) \<and>
     (\<forall>x y. within (kept V) (get_config_map (sa_env api) x y)) \<and>
     (\<forall>x. within (kept V) (read_text (sa_env api) x))"

lemma find_datacenter_kept: "logins_ok api live \<Longrightarrow> within (kept live) (find_datacenter api c d)"
  unfolding within_def kept_def using logins_okD(4) by (metis prod.collapse)

lemmas kp_rules = kp.within_ret kp.within_throw kp.within_liftR kp.within_bind kp.within_wrap kp.within_try

lemma EnsureVMFolder_kept:
  assumes "logins_ok (sa_vc api) live" "suite_keeps api live"
  shows "within (kept live) (EnsureVMFolder (sa_vc api) s name)"
  using assms unfolding EnsureVMFolder_def create_vm_folder_def suite_keeps_def
  by (auto intro!: kp_rules find_datacenter_kept split: option.split sum.split)

lemma FindTemplateByName_kept:
  assumes "import_keeps vi V"
  shows "within (kept V) (FindTemplateByName vi s name)"
proof -
  have "V (snd (FindTemplateByName vi s name w)) = V w" for w
  proof -
    obtain r w1 where 1: "find_vm vi name w = (r, w1)" by force
    have k: "V w1 = V w" using assms 1 unfolding import_keeps_def within_def kept_def by (metis snd_conv)
    show ?thesis
    proof (cases r)
      case (Inr vm)
      obtain r2 w2 where 2: "vm_template vi vm w1 = (r2, w2)" by force
      have "V w2 = V w1" using assms 2 unfolding import_keeps_def within_def kept_def by (metis snd_conv)
      with 1 2 Inr k show ?thesis by (cases r2) (simp_all add: FindTemplateByName_def)
    qed (use 1 k in \<open>simp add: FindTemplateByName_def\<close>)
  qed
  then show ?thesis by (simp add: within_def kept_def)
qed

lemma first_usable_kept:
  assumes "inventory_keeps vi V"
  shows "within (kept V) (first_usable vi ds net hs)"
proof -
  have "V (snd (first_usable vi ds net hs w)) = V w" for w
  proof (induction hs arbitrary: w)
    case (Cons h hs)
    obtain r w1 where 1: "host_properties vi h w = (r, w1)" by force
    have "V w1 = V w" using assms 1 unfolding inventory_keeps_def within_def kept_def by (metis snd_conv)
    with 1 Cons show ?case by (cases r) simp_all
  qed simp
  then show ?thesis by (simp add: within_def kept_def)
qed

lemma findAvailableHost_kept: "inventory_keeps vi V \<Longrightarrow> within (kept V) (findAvailableHost vi cl net ds)"
  unfolding findAvailableHost_def
proof (intro kp.within_bind kp.within_wrap)
  assume ok: "inventory_keeps vi V"
  then show "within (kept V) (cluster_hosts vi cl)" by (simp add: inventory_keeps_def)
  fix hosts
  have "within (kept V) (\<lambda>w. case first_usable vi ds net hosts w of (x, w) \<Rightarrow> liftR (case x of Some h \<Rightarrow> Inr h
      | None \<Rightarrow> Inl (Errorf ''no available host in cluster %q with access to datastore and network'' [AStr cl])) w)"
    by (intro kp.within_seq first_usable_kept ok kp.within_liftR)
  also have "(\<lambda>w. case first_usable vi ds net hosts w of (x, w) \<Rightarrow> liftR (case x of Some h \<Rightarrow> Inr h
      | None \<Rightarrow> Inl (Errorf ''no available host in cluster %q with access to datastore and network'' [AStr cl])) w)
    = (\<lambda>w. case first_usable vi ds net hosts w of (Some h, w) \<Rightarrow> (Inr h, w) | (None, w) \<Rightarrow>
        (Inl (Errorf ''no available host in cluster %q with access to datastore and network'' [AStr cl]), w))"
    by (auto simp: fun_eq_iff liftR_def split: prod.split option.split)
  finally show "within (kept V) (if hosts = [] then throw (Errorf ''cluster %q has no hosts'' [AStr cl])
      else (\<lambda>w. case first_usable vi ds net hosts w of (Some h, w) \<Rightarrow> (Inr h, w) | (None, w) \<Rightarrow>
        (Inl (Errorf ''no available host in cluster %q with access to datastore and network'' [AStr cl]), w)))"
    by (simp add: kp.within_throw)
qed

lemma prepare_import_kept:
  assumes "inventory_keeps vi V" "import_keeps vi V"
  shows "within (kept V) (prepare_import vi s p)"
proof -
  have "within (kept V) (createImportSpec vi a b c d e f)" for a b c d e f
    using assms(2) by (auto simp: createImportSpec_def Let_def import_keeps_def intro!: kp_rules)
  with assms findAvailableHost_kept [OF assms(1)] show ?thesis
    unfolding prepare_import_def by (auto simp: inventory_keeps_def import_keeps_def intro!: kp_rules)
qed

text \<open>The same for the import, on its own state.\<close>

definition import_kept :: "('w \<Rightarrow> 'v) \<Rightarrow> 'w import_state \<Rightarrow> 'w import_state \<Rightarrow> bool" where
  "import_kept V s t \<longleftrightarrow> V (im_world t) = V (im_world s)"

interpretation ik: state_rel "import_kept V" for V
  by unfold_locales (simp_all add: import_kept_def)

lemma vc_kept:
  assumes "within (kept V) f"
  shows "within (import_kept V) (vc f)"
  using assms unfolding within_def kept_def import_kept_def vc_def
  by (auto split: prod.splits) (metis snd_conv)

lemma vc_event_kept: "within (kept V) f \<Longrightarrow> within (import_kept V) (vc_event evs f)"
  using vc_kept [of V f] unfolding within_def import_kept_def vc_event_def
  by (auto split: prod.splits) (metis snd_conv)

lemma upload_kept:
  assumes "import_keeps vi V"
  shows "within (import_kept V) (upload vi l items path)"
proof -
  have "within (import_kept V) (upload_items vi l m archive)" for m archive
    using assms
    by (induction vi l m archive rule: upload_items.induct)
      (auto simp: import_keeps_def intro!: ik.within_ret ik.within_throw ik.within_bind ik.within_wrap vc_event_kept
        split: option.split)
  then show ?thesis by (auto simp: upload_def ik.within_throw split: sum.split)
qed

lemma finish_import_kept:
  assumes "import_keeps vi V"
  shows "V (im_world (snd (finish_import vi p l ovf items s))) = V (im_world s)"
proof -
  let ?up = "wrapM ''uploading OVA files: %w'' [] (upload vi l items (io_OVAPath p))"
  let ?complete = "wrapM ''completing NFC lease: %w'' [] (vc_event (\<lambda>r. [Completed l (is_ok r)]) (lease_complete vi l))"
  let ?mark = "vc (bindM (wrapM ''finding imported VM %q: %w'' [AStr (io_TemplateName p)] (find_vm vi (io_TemplateName p))) (\<lambda>vm.
      bindM (tryM (disableSecureBootIfNeeded vi vm ovf)) (\<lambda>_.
      bindM (wrapM ''marking VM %q as template: %w'' [AStr (io_TemplateName p)] (mark_as_template vi vm)) (\<lambda>_. ret vm))))"
  have "within (import_kept V) ?up" by (intro ik.within_wrap upload_kept assms)
  moreover have "within (import_kept V) ?complete"
    using assms by (intro ik.within_wrap vc_event_kept) (simp add: import_keeps_def)
  moreover have "within (import_kept V) ?mark"
    using assms unfolding disableSecureBootIfNeeded_def import_keeps_def
    by (intro vc_kept) (auto intro!: kp_rules)
  ultimately have k: "V (im_world (snd (?up s))) = V (im_world s)" "V (im_world (snd (?complete s))) = V (im_world s)"
    "V (im_world (snd (?mark s))) = V (im_world s)" for s by (simp_all add: within_def import_kept_def)
  obtain r1 s1 where 1: "?up s = (r1, s1)" by force
  obtain r2 s2 where 2: "?complete s1 = (r2, s2)" by force
  obtain r3 s3 where 3: "?mark s2 = (r3, s3)" by force
  have "snd (finish_import vi p l ovf items s) \<in> {s1, s2, s3}"
    by (cases r1; cases r2) (simp_all add: finish_import_def 1 2 3)
  with k(1) [of s] k(2) [of s1] k(3) [of s2] show ?thesis by (auto simp: 1 2 3)
qed

lemma under_lease_kept:
  assumes "import_keeps vi V"
  shows "within (import_kept V) (\<lambda>s. case finish_import vi p l ovf items (event (UpdaterStarted l) s) of
    ((r, fin), s) \<Rightarrow> (let s = event (UpdaterDone l) s in
       if fin then (r, s) else (r, snd (vc_event (\<lambda>r. [Aborted l (is_ok r)]) (lease_abort vi l) s))))"
proof -
  let ?abort = "vc_event (\<lambda>r. [Aborted l (is_ok r)]) (lease_abort vi l)"
  have "within (import_kept V) ?abort" using assms by (intro vc_event_kept) (simp add: import_keeps_def)
  then have a: "V (im_world (snd (?abort t))) = V (im_world t)" for t
    by (simp add: within_def import_kept_def)
  show ?thesis
    unfolding within_def import_kept_def
  proof
    fix s
    obtain r fin t where f: "finish_import vi p l ovf items (event (UpdaterStarted l) s) = ((r, fin), t)"
      by (metis surj_pair)
    with finish_import_kept [OF assms, of p l ovf items "event (UpdaterStarted l) s"]
    have "V (im_world t) = V (im_world s)" by (simp add: event_def)
    with f a [of "event (UpdaterDone l) t"]
    show "V (im_world (snd (case finish_import vi p l ovf items (event (UpdaterStarted l) s) of
        ((r, fin), s) \<Rightarrow> (let s = event (UpdaterDone l) s in
          if fin then (r, s) else (r, snd (?abort s)))))) = V (im_world s)"
      by (simp add: Let_def event_def)
  qed
qed

lemma ImportOVA_kept:
  assumes "inventory_keeps vi V" "import_keeps vi V"
  shows "within (import_kept V) (ImportOVA vi session p)"
proof -
  have "within (import_kept V) (vc_event evs (prepare_import vi s p))" for s evs
    by (intro vc_event_kept prepare_import_kept assms)
  moreover have "within (import_kept V) (wrapM ''waiting for NFC lease: %w'' []
      (vc_event (\<lambda>r. [Waited lease (is_ok r)]) (lease_wait vi lease fs)))" for lease fs
    using assms(2) by (intro ik.within_wrap vc_event_kept) (simp add: import_keeps_def)
  ultimately show ?thesis
    unfolding ImportOVA_def using under_lease_kept [OF assms(2)]
    by (auto split: option.split intro!: ik.within_throw ik.within_bind)
qed


text \<open>And for a test.\<close>

definition suite_kept :: "('w \<Rightarrow> 'v) \<Rightarrow> 'w suite \<Rightarrow> 'w suite \<Rightarrow> bool" where
  "suite_kept V s t \<longleftrightarrow> V (world (su_st t)) = V (world (su_st s))"

interpretation sk: state_rel "suite_kept V" for V
  by unfold_locales (simp_all add: suite_kept_def)

context state_rel begin

lemma within_expectM: "within R m \<Longrightarrow> within R (expectM msg m)"
  by (simp add: within_def expectM_def)

lemma within_endT: "within R (endT r)"
  by (simp add: within_def endT_def refl)

lemma within_thenT:
  assumes "within R m" "\<And>a. within R (f a)"
  shows "within R (thenT m f)"
proof -
  have "R s (snd (thenT m f s))" for s
  proof -
    obtain r t where m: "m s = (r, t)" by force
    with assms(1) have "R s t" unfolding within_def by (metis snd_conv)
    with m assms(2) show ?thesis unfolding within_def by (cases r) (auto simp: thenT_def intro: trans)
  qed
  then show ?thesis by (simp add: within_def)
qed

end

lemma on_st_kept: "within (unchanged V) m \<Longrightarrow> within (suite_kept V) (on_st m)"
  unfolding within_def on_st_def suite_kept_def unchanged_def
  by (auto split: prod.splits) (metis snd_conv)

lemma on_vc_kept: "within (kept V) f \<Longrightarrow> within (suite_kept V) (on_vc f)"
  unfolding on_vc_def
  by (intro on_st_kept) (auto simp: within_def unchanged_def kept_def split: prod.splits; metis snd_conv)

lemma on_disk_kept: "within (suite_kept V) (on_disk g)"
  by (auto simp: within_def on_disk_def suite_kept_def split: prod.splits)

lemma on_import_kept: "within (import_kept V) h \<Longrightarrow> within (suite_kept V) (on_import h)"
  unfolding within_def on_import_def suite_kept_def import_kept_def
  by (auto split: prod.splits) (metis import_state.select_convs(1) snd_conv)

lemma import_template_kept:
  assumes "suite_keeps api V"
  shows "within (suite_kept V) (import_template api session topo infraID name)"
proof -
  have "within (suite_kept V) (\<lambda>s. on_import (ImportOVA (with_disk api (su_disk s)) session p) s)" for session :: "'b Session option" and p
  proof -
    have "within (import_kept V) (ImportOVA (with_disk api d) session p)" for d
      using assms by (intro ImportOVA_kept) (simp_all add: suite_keeps_def with_disk_def inventory_keeps_def import_keeps_def)
    from on_import_kept [OF this] show ?thesis by (simp add: within_def)
  qed
  moreover have "within (suite_kept V) (liftR r)" for r :: "artifact res" by (rule sk.within_liftR)
  moreover have "within (unchanged V) (call (EGet ''configmaps'' ns n) (get_config_map (sa_env api) ns n))" for ns n
    using assms by (intro within_unchanged_call) (simp add: suite_keeps_def within_def kept_def)
  ultimately show ?thesis
    unfolding import_template_def
    by (auto intro!: sk.within_thenT sk.within_expectM sk.within_endT on_st_kept on_disk_kept split: list.split)
qed

lemma template_in_session_kept:
  assumes "logins_ok (sa_vc api) live" "suite_keeps api live"
  shows "within (suite_kept live) (template_in_session api session topo infraID name)"
  unfolding template_in_session_def
proof (intro sk.within_thenT sk.within_expectM on_vc_kept EnsureVMFolder_kept assms)
  have "within (suite_kept live) (on_vc (FindTemplateByName (sa_ova api) (Some session) name))"
    using assms(2) by (intro on_vc_kept FindTemplateByName_kept) (simp add: suite_keeps_def)
  note found = this and imp = import_template_kept [OF assms(2), of session topo infraID name]
  show "within (suite_kept live) (\<lambda>s. case on_vc (FindTemplateByName (sa_ova api) (Some session) name) s of
      ((r, found), s) \<Rightarrow> if found \<and> is_ok r then (Inr name, s)
        else if \<not> is_ok r then (Inl (TestFailed ''check template''), s)
        else import_template api session topo infraID name s)"
    unfolding within_def
  proof
    fix s
    obtain r fnd t where f: "on_vc (FindTemplateByName (sa_ova api) (Some session) name) s = ((r, fnd), t)"
      by (metis surj_pair)
    have "suite_kept live s t" using found f unfolding within_def by (metis snd_conv)
    moreover have "suite_kept live t (snd (import_template api session topo infraID name t))"
      using imp by (simp add: within_def)
    ultimately show "suite_kept live s (snd (case on_vc (FindTemplateByName (sa_ova api) (Some session) name) s of
      ((r, found), s) \<Rightarrow> if found \<and> is_ok r then (Inr name, s)
        else if \<not> is_ok r then (Inl (TestFailed ''check template''), s)
        else import_template api session topo infraID name s))"
      using f sk.trans by auto
  qed
qed

section \<open>What the helper leaves behind\<close>

lemma thenT_cases:
  assumes "thenT m f s = (r, s')"
  obtains (stops) e where "m s = (Inl e, s')" "r = Inl e"
    | (goes_on) a t where "m s = (Inr a, t)" "f a t = (r, s')"
  using assms by (auto simp: thenT_def split: prod.splits sum.splits)

lemma expectM_cases:
  assumes "expectM msg m s = (r, s')"
  obtains (fails) e where "m s = (Inl e, s')" "r = Inl (TestFailed msg)"
    | (holds) a where "m s = (Inr a, s')" "r = Inr a"
  using assms by (cases "m s"; cases "fst (m s)") (auto simp: expectM_def)

text \<open>A call that ends the test when it fails, and what follows it.\<close>

lemma expect_cases:
  assumes "thenT (expectM msg m) f s = (r, s')"
  obtains (fails) e where "m s = (Inl e, s')" "r = Inl (TestFailed msg)"
    | (goes_on) a t where "m s = (Inr a, t)" "f a t = (r, s')"
  using assms
proof (cases rule: thenT_cases)
  case (stops e)
  from stops(1) show thesis by (cases rule: expectM_cases) (use stops(2) fails in auto)
next
  case (goes_on a t)
  from goes_on(1) show thesis by (cases rule: expectM_cases) (use goes_on(2) that(2) in auto)
qed

text \<open>The disk and the leases belong to the download and the import.\<close>

lemma on_st_rest: "on_st m s = (r, t) \<Longrightarrow> su_disk t = su_disk s \<and> su_events t = su_events s"
  by (auto simp: on_st_def split: prod.splits)

lemma on_vc_rest: "on_vc f s = (r, t) \<Longrightarrow> su_disk t = su_disk s \<and> su_events t = su_events s"
  unfolding on_vc_def by (rule on_st_rest)

text \<open>The image of the cluster: what the config map says, for the architecture of the program.\<close>

definition boot_image :: "('w, 'h) suite_api \<Rightarrow> artifact \<Rightarrow> bool" where
  "boot_image api ova \<longleftrightarrow>
     (\<exists>w cm. fst (get_config_map (sa_env api) MCONamespace CoreOSBootImagesCM w) = Inr cm \<and>
        ResolveRHCOSOVAFromConfigMap (sa_ova api) (Some cm) (boot_arch api) = Inr ova)"

definition image_path :: "artifact \<Rightarrow> string" where
  "image_path ova = ova_path ova_cache_dir (ar_Location ova)"

text \<open>An import from the verified file of such an image.\<close>

definition imported :: "('w, 'h) suite_api \<Rightarrow> disk \<Rightarrow> lease_event list \<Rightarrow> bool" where
  "imported api d evs \<longleftrightarrow>
     (\<exists>ova content. boot_image api ova \<and> dk_files d (image_path ova) = Some content \<and>
        ar_Sha256 ova \<in> {'''', hex_sha256 (sa_fetch api) content} \<and>
        complete_import (with_disk api d) (image_path ova) evs)"

text \<open>No lease, one lease that is closed, or one that is left open because waiting for it or aborting it failed.\<close>

definition settled :: "lease_event list \<Rightarrow> bool" where
  "settled evs \<longleftrightarrow> evs = [] \<or> (\<exists>l. lease_run Idle evs = Some (Closed l)) \<or>
     (\<exists>l. lease_run Idle evs = Some (Leaked l) \<and>
        (evs = [Acquired l, Waited l False] \<or> last evs = Aborted l False))"

lemma import_ends_settled: "import_ends vi path evs ok \<Longrightarrow> settled evs"
  unfolding import_ends_def settled_def by blast

lemma import_ends_ok: "import_ends vi path evs True \<Longrightarrow> complete_import vi path evs"
  by (auto simp: import_ends_def)

lemma complete_import_nonempty: "complete_import vi path evs \<Longrightarrow> evs \<noteq> []"
  by (auto simp: complete_import_def)


lemma import_template_spec:
  assumes run: "import_template api session topo infraID name s = (r, s')"
    and names: "\<And>ova. boot_image api ova \<Longrightarrow> image_path ova \<notin> temp_paths ova_cache_dir (su_disk s)"
  shows "\<exists>evs. su_events s' = su_events s @ evs \<and> settled evs \<and>
    (Networks topo \<noteq> [] \<longrightarrow> (\<forall>m. r \<noteq> Inl (TestPanicked m))) \<and>
    (\<forall>n. r = Inr n \<longrightarrow> n = name \<and> imported api (su_disk s') evs)"
  using run unfolding import_template_def
proof (cases rule: expect_cases)
  case (fails e)
  with on_st_rest [OF fails(1)] show ?thesis by (intro exI [of _ "[]"]) (simp add: settled_def)
next
  case (goes_on cm t)
  note cm = goes_on(1) and rest1 = on_st_rest [OF goes_on(1)]
  have get: "\<exists>w. fst (get_config_map (sa_env api) MCONamespace CoreOSBootImagesCM w) = Inr cm"
    using cm by (intro exI [of _ "world (su_st s)"]) (auto simp: on_st_def callE_def split: prod.splits)
  from goes_on(2) show ?thesis
  proof (cases rule: expect_cases)
    case (fails e)
    with rest1 show ?thesis by (intro exI [of _ "[]"]) (simp add: settled_def liftR_eq)
  next
    case (goes_on ova t2)
    then have t2: "t2 = t" and img: "boot_image api ova" using get by (auto simp: liftR_eq boot_image_def)
    from goes_on(2) show ?thesis
    proof (cases rule: expect_cases)
      case (fails e)
      with rest1 t2 show ?thesis
        by (intro exI [of _ "[]"]) (auto simp: settled_def on_disk_def split: prod.splits)
    next
      case (goes_on path t3)
      then have down: "DownloadOVAToDir (sa_fetch api) (ar_Location ova) (ar_Sha256 ova) ova_cache_dir (su_disk s) =
          (Inr path, su_disk t3)" and ev3: "su_events t3 = su_events s"
        using rest1 t2 by (auto simp: on_disk_def split: prod.splits)
      from download_spec [OF down] names [OF img] obtain content where c: "path = image_path ova"
        "dk_files (su_disk t3) path = Some content" "ar_Sha256 ova \<in> {'''', hex_sha256 (sa_fetch api) content}"
        by (auto simp: image_path_def)
      show ?thesis
      proof (cases "Networks topo")
        case Nil
        with goes_on(2) ev3 show ?thesis by (intro exI [of _ "[]"]) (auto simp: settled_def endT_def)
      next
        case (Cons network rest)
        let ?p = "\<lparr>io_OVAPath = path, io_TemplateName = name, io_ComputeCluster = ComputeCluster topo,
          io_Datastore = Datastore topo, io_Network = network, io_Folder = ''/'' @ Datacenter topo @ ''/vm/'' @ infraID,
          io_ResourcePool = ResourcePool topo, io_DiskProvisioning = ''''\<rparr>"
        let ?vi = "with_disk api (su_disk t3)"
        obtain q i where imp: "ImportOVA ?vi (Some session) ?p
            \<lparr>im_world = world (su_st t3), im_events = su_events t3\<rparr> = (q, i)" by force
        from ImportOVA_events [OF imp] obtain evs where e: "im_events i = su_events t3 @ evs" "settled evs"
          "is_ok q \<Longrightarrow> complete_import ?vi path evs" using import_ends_settled import_ends_ok by fastforce
        from goes_on(2) Cons imp have "su_events s' = im_events i" "su_disk s' = su_disk t3"
          "r = (case q of Inl _ \<Rightarrow> Inl (TestFailed ''import OVA'') | Inr _ \<Rightarrow> Inr name)"
          by (auto simp: on_import_def expectM_def thenT_def endT_def split: prod.splits sum.splits)
        with e ev3 c img show ?thesis
          by (intro exI [of _ evs]) (auto simp: imported_def split: sum.splits)
      qed
    qed
  qed
qed

definition was_found :: "('w, 'h) suite_api \<Rightarrow> string \<Rightarrow> bool" where
  "was_found api name \<longleftrightarrow> (\<exists>w vm w'. find_vm (sa_ova api) name w = (Inr vm, w') \<and>
     fst (vm_template (sa_ova api) vm w') = Inr (Some True))"

lemma found_template:
  assumes "fst (FindTemplateByName (sa_ova api) (Some session) name w) = (r, True)" "is_ok r"
  shows "was_found api name"
  using assms unfolding was_found_def
  by (auto simp: FindTemplateByName_def split: prod.splits sum.splits if_splits) (metis fst_conv)

lemma template_in_session_spec:
  assumes run: "template_in_session api session topo infraID name s = (r, s')"
    and names: "\<And>ova. boot_image api ova \<Longrightarrow> image_path ova \<notin> temp_paths ova_cache_dir (su_disk s)"
  shows "\<exists>evs. su_events s' = su_events s @ evs \<and> settled evs \<and>
    (Networks topo \<noteq> [] \<longrightarrow> (\<forall>m. r \<noteq> Inl (TestPanicked m))) \<and>
    (\<forall>n. r = Inr n \<longrightarrow> n = name \<and>
       (if evs = [] then su_disk s' = su_disk s \<and> was_found api name else imported api (su_disk s') evs))"
  using run unfolding template_in_session_def
proof (cases rule: expect_cases)
  case (fails e)
  with on_vc_rest [OF fails(1)] show ?thesis by (intro exI [of _ "[]"]) (simp add: settled_def)
next
  case (goes_on u t)
  note rest1 = on_vc_rest [OF goes_on(1)]
  obtain q fnd t2 where f: "on_vc (FindTemplateByName (sa_ova api) (Some session) name) t = ((q, fnd), t2)"
    by (metis surj_pair)
  note rest2 = on_vc_rest [OF f]
  show ?thesis
  proof (cases "is_ok q \<and> \<not> fnd")
    case True
    with goes_on(2) f have "import_template api session topo infraID name t2 = (r, s')" by simp
    from import_template_spec [OF this] names rest1 rest2 obtain evs where
      e: "su_events s' = su_events s @ evs" "settled evs" "Networks topo \<noteq> [] \<longrightarrow> (\<forall>m. r \<noteq> Inl (TestPanicked m))"
      "\<forall>n. r = Inr n \<longrightarrow> n = name \<and> imported api (su_disk s') evs" by auto
    moreover have "\<not> imported api (su_disk s') []" by (auto simp: imported_def dest: complete_import_nonempty)
    ultimately show ?thesis by (intro exI [of _ evs]) auto
  next
    case False
    with goes_on(2) f have "s' = t2" "r = (if is_ok q then Inr name else Inl (TestFailed ''check template''))"
      by (auto split: if_splits)
    moreover have "was_found api name" if "is_ok q"
    proof (rule found_template)
      show "fst (FindTemplateByName (sa_ova api) (Some session) name (world (su_st t))) = (q, True)"
        using f False that by (auto simp: on_vc_def on_st_def split: prod.splits)
    qed (rule that)
    ultimately show ?thesis using rest1 rest2 by (intro exI [of _ "[]"]) (auto simp: settled_def)
  qed
qed

lemma ensure_runs:
  assumes run: "ensureTemplateInSecondVC api lab infraID s = (r, s')" and fd: "FailureDomain lab = Some fd"
  obtains (stops) "su_disk s' = su_disk s" "su_events s' = su_events s"
      "r \<in> {Inl (TestFailed ''template name''), Inl (TestFailed ''get second vCenter password''),
        Inl (TestFailed ''connect to second vCenter'')}"
    | (session) session t t' where "length (template_name lab fd infraID) \<le> 80"
      "su_disk t = su_disk s" "su_events t = su_events s"
      "template_in_session api session (Topology fd) infraID (template_name lab fd infraID) t = (r, t')"
      "su_disk s' = su_disk t'" "su_events s' = su_events t'"
  using run unfolding ensureTemplateInSecondVC_def fd option.case Let_def
proof (cases rule: expect_cases)
  case (fails e)
  then show ?thesis using stops by (simp add: liftR_eq)
next
  case (goes_on u t1)
  then have t1: "t1 = s" and len: "length (template_name lab fd infraID) \<le> 80"
    by (auto simp: liftR_eq ValidateTemplateName_def maxTemplateNameLen_def split: if_splits)
  from goes_on(2) show ?thesis
  proof (cases rule: expect_cases)
    case (fails e)
    with on_st_rest [OF fails(1)] t1 show ?thesis using stops by simp
  next
    case (goes_on pw t2)
    note rest2 = on_st_rest [OF goes_on(1)]
    from goes_on(2) show ?thesis
    proof (cases rule: expect_cases)
      case (fails e)
      with on_vc_rest [OF fails(1)] rest2 t1 show ?thesis using stops by simp
    next
      case (goes_on session t3)
      note rest3 = on_vc_rest [OF goes_on(1)]
      obtain q t4 where in_s: "template_in_session api session (Topology fd) infraID (template_name lab fd infraID) t3 = (q, t4)"
        by force
      with goes_on(2) have "q = r" and s': "s' = snd (on_vc (\<lambda>w. ((), Close (sa_vc api) session w)) t4)"
        by (auto simp: finallyT_def)
      moreover have "su_disk s' = su_disk t4 \<and> su_events s' = su_events t4"
        unfolding s' by (rule on_vc_rest) (simp add: prod_eq_iff)
      ultimately show ?thesis using that(2) [OF len _ _ in_s [unfolded \<open>q = r\<close>]] rest2 rest3 t1 by simp
    qed
  qed
qed

lemma PasswordValue_kept: "suite_keeps api V \<Longrightarrow> within (unchanged V) (PasswordValue (sa_env api) v)"
proof -
  assume "suite_keeps api V"
  then have "V (snd (read_text (sa_env api) x w)) = V w" for x w by (simp add: suite_keeps_def within_def kept_def)
  then show ?thesis
    unfolding PasswordValue_def
    by (auto intro!: un.within_ret un.within_bind un.within_wrap within_unchanged_call)
qed

lemma ensure_logins:
  assumes run: "ensureTemplateInSecondVC api lab infraID s = (r, s')"
    and ok: "logins_ok (sa_vc api) live" "suite_keeps api live"
  shows "live (world (su_st s)) \<subseteq> live (world (su_st s')) \<and>
    (reliable (sa_vc api) \<longrightarrow> live (world (su_st s')) = live (world (su_st s)))"
proof (cases "FailureDomain lab")
  case None
  with run show ?thesis by (auto simp: ensureTemplateInSecondVC_def endT_def)
next
  case (Some fd)
  from run show ?thesis
    unfolding ensureTemplateInSecondVC_def Some option.case Let_def
  proof (cases rule: expect_cases)
    case (fails e)
    then show ?thesis by (auto simp: liftR_eq)
  next
    case (goes_on u t1)
    then have t1: "t1 = s" by (simp add: liftR_eq)
    from goes_on(2) show ?thesis
    proof (cases rule: expect_cases)
      case (fails e)
      with on_st_kept [OF PasswordValue_kept [OF ok(2)], of "SecondVCenter lab"] t1 show ?thesis
        unfolding within_def suite_kept_def by (metis order_refl snd_conv)
    next
      case (goes_on pw t2)
      with on_st_kept [OF PasswordValue_kept [OF ok(2)], of "SecondVCenter lab"] t1
      have l2: "live (world (su_st t2)) = live (world (su_st s))"
        unfolding within_def suite_kept_def by (metis snd_conv)
      from goes_on(2) show ?thesis
      proof (cases rule: expect_cases)
        case (fails e)
        then obtain p w where "NewSession (sa_vc api) p (world (su_st t2)) = (Inl e, w)" "world (su_st s') = w"
          by (auto simp: on_vc_def on_st_def split: prod.splits)
        with NewSession_err [OF ok(1) this(1)] l2 show ?thesis by simp
      next
        case (goes_on session t3)
        then obtain w where new: "NewSession (sa_vc api) \<lparr>pr_Server = Server (SecondVCenter lab),
            pr_Datacenter = Datacenter (Topology fd), pr_Username = Username (SecondVCenter lab),
            pr_Password = pw, pr_Insecure = True\<rparr> (world (su_st t2)) = (Inr session, w)" "world (su_st t3) = w"
          by (auto simp: on_vc_def on_st_def split: prod.splits)
        from NewSession_ok [OF ok(1) new(1)] obtain c where c: "sn_Client session = Some c"
          "c \<notin> live (world (su_st t2))" "live w = insert c (live (world (su_st t2)))" by blast
        obtain q t4 where in_s: "template_in_session api session (Topology fd) infraID (template_name lab fd infraID) t3 = (q, t4)"
          by force
        with template_in_session_kept [OF ok, of session "Topology fd" infraID "template_name lab fd infraID"]
        have l4: "live (world (su_st t4)) = live (world (su_st t3))"
          unfolding within_def suite_kept_def by (metis snd_conv)
        from goes_on(2) in_s have "world (su_st s') = Close (sa_vc api) session (world (su_st t4))"
          by (auto simp: finallyT_def on_vc_def on_st_def)
        with Close_logs_out [OF ok(1) c(1), of "world (su_st t4)"] l4 l2 new(2) c show ?thesis by auto
      qed
    qed
  qed
qed


end
