(* ===== verification/SuiteSpecs.thy ===== *)
theory SuiteSpecs
  imports LabSpec MachineSets SuiteTemplates GoFormat
begin

text \<open>
  The specs that the end-to-end tests send to the API server, from \<open>test/e2e/helpers_test.go\<close>.  The negative tests
  change the Infrastructure of the cluster in a way the server has to refuse; the lemmas say what
  the change breaks.  \<open>CloneInfrastructureSpec\<close> and \<open>CloneVCenter\<close> are deep copies, so the original is not touched.
\<close>

section \<open>The specs\<close>

text \<open>Clone the spec, expect its platform to be there, and change it.\<close>

definition edit_platform ::
  "(vsphere_platform \<Rightarrow> stop + vsphere_platform) \<Rightarrow> infrastructure \<Rightarrow> stop + infra_spec" where
  "edit_platform f infra =
     (let spec = CloneInfrastructureSpec (infra_spec infra) in
      case is_vsphere spec of
        None \<Rightarrow> Inl (TestFailed ''Expected VSphere not to be nil'')
      | Some p \<Rightarrow> map_sum id (\<lambda>p. spec\<lparr>is_vsphere := Some p\<rparr>) (f p))"

definition specWithoutFailureDomain :: "infrastructure \<Rightarrow> string \<Rightarrow> string \<Rightarrow> stop + infra_spec" where
  "specWithoutFailureDomain infra region zone =
     edit_platform (\<lambda>p. Inr (p\<lparr>vs_failureDomains :=
       RemoveFailureDomainByRegionZone (vs_failureDomains p) region zone\<rparr>)) infra"

definition specWithoutVCenter :: "infrastructure \<Rightarrow> string \<Rightarrow> stop + infra_spec" where
  "specWithoutVCenter infra server =
     edit_platform (\<lambda>p. Inr (p\<lparr>vs_vcenters := RemoveVCenterByServer (vs_vcenters p) server\<rparr>)) infra"

definition duplicateFirstVCenterSpec :: "infrastructure \<Rightarrow> stop + infra_spec" where
  "duplicateFirstVCenterSpec =
     edit_platform (\<lambda>p. case vs_vcenters p of
         [] \<Rightarrow> Inl (TestFailed ''Expected VCenters not to be empty'')
       | v # _ \<Rightarrow> Inr (p\<lparr>vs_vcenters := vs_vcenters p @ [v\<lparr>vc_datacenters := [''dup-dc'']\<rparr>]\<rparr>))"

definition swapSecondVCenterServer :: "string \<Rightarrow> infrastructure \<Rightarrow> stop + infra_spec" where
  "swapSecondVCenterServer newServer =
     edit_platform (\<lambda>p. case vs_vcenters p of
         v # w # rest \<Rightarrow> Inr (p\<lparr>vs_vcenters := v # w\<lparr>vc_server := newServer\<rparr> # rest\<rparr>)
       | _ \<Rightarrow> Inl (TestFailed ''Expected at least 2 VCenters''))"

definition addAndRemoveVCenterSamePatch :: "infrastructure \<Rightarrow> stop + infra_spec" where
  "addAndRemoveVCenterSamePatch =
     edit_platform (\<lambda>p. case vs_vcenters p of
         v # _ # _ \<Rightarrow> Inr (p\<lparr>vs_vcenters :=
           [v, v\<lparr>vc_server := ''new-vcenter.example.com'', vc_datacenters := [''new-dc'']\<rparr>]\<rparr>)
       | _ \<Rightarrow> Inl (TestFailed ''Expected at least 2 VCenters''))"

definition emptyVCentersSpec :: "infrastructure \<Rightarrow> stop + infra_spec" where
  "emptyVCentersSpec = edit_platform (\<lambda>p. Inr (p\<lparr>vs_vcenters := []\<rparr>))"

definition addSecondVCenterSpec :: "infrastructure \<Rightarrow> stop + infra_spec" where
  "addSecondVCenterSpec =
     edit_platform (\<lambda>p. case vs_vcenters p of
         [] \<Rightarrow> Inl (TestFailed ''Expected VCenters not to be empty'')
       | v # _ \<Rightarrow> Inr (p\<lparr>vs_vcenters := vs_vcenters p @
           [v\<lparr>vc_server := ''vcenter2.example.com'', vc_datacenters := [''DC2'']\<rparr>]\<rparr>))"

definition extra_vcenter :: "vcenter_spec \<Rightarrow> nat \<Rightarrow> vcenter_spec" where
  "extra_vcenter v i = v\<lparr>vc_server := ''vcenter-extra-'' @ digits i @ ''.example.com''\<rparr>"

text \<open>The loop \<open>for i := 0; len(vcenters) < 4; i++\<close>.\<close>

function add_extras :: "vcenter_spec \<Rightarrow> nat \<Rightarrow> vcenter_spec list \<Rightarrow> vcenter_spec list" where
  "add_extras v i vcenters =
     (if length vcenters < 4 then add_extras v (i + 1) (vcenters @ [extra_vcenter v i]) else vcenters)"
  by pat_completeness auto
termination by (relation "measure (\<lambda>(v, i, vcenters). 4 - length vcenters)") auto

declare add_extras.simps [simp del]

definition tooManyVCentersSpec :: "infrastructure \<Rightarrow> stop + infra_spec" where
  "tooManyVCentersSpec =
     edit_platform (\<lambda>p. case vs_vcenters p of
         [] \<Rightarrow> Inl (TestPanicked ''index out of range'')
       | v # _ \<Rightarrow> Inr (p\<lparr>vs_vcenters := add_extras v 0 (vs_vcenters p)\<rparr>))"

definition fdReferencingRemovedVCenterSpec :: "infrastructure \<Rightarrow> stop + infra_spec" where
  "fdReferencingRemovedVCenterSpec =
     edit_platform (\<lambda>p.
       if vs_vcenters p = [] then Inl (TestFailed ''Expected VCenters not to be empty'')
       else if list_ex (\<lambda>fd. fd_server fd = vc_server (last (vs_vcenters p))) (vs_failureDomains p)
       then Inr (p\<lparr>vs_vcenters := butlast (vs_vcenters p)\<rparr>)
       else Inl (TestSkipped ''no failure domain references the vCenter targeted for removal''))"

section \<open>Failure domains in use\<close>

definition machineLabeledFailureDomain :: "machine \<Rightarrow> string \<times> string \<times> bool" where
  "machineLabeledFailureDomain m =
     (let region = gm_get (m_labels m) MachineRegionLabel; zone = gm_get (m_labels m) MachineZoneLabel
      in (region, zone, region \<noteq> '''' \<and> zone \<noteq> ''''))"

fun findMachineBackedFailureDomain :: "machine list \<Rightarrow> infrastructure \<Rightarrow> (string \<times> string) option" where
  "findMachineBackedFailureDomain [] infra = None"
| "findMachineBackedFailureDomain (m # ms) infra =
     (case machineLabeledFailureDomain m of
        (r, z, ok) \<Rightarrow>
          if ok \<and> FindFailureDomainByRegionZone (GetFailureDomains (Some infra)) r z \<noteq> None then Some (r, z)
          else findMachineBackedFailureDomain ms infra)"

text \<open>A later failure domain of the same name replaces an earlier one in the map.\<close>

definition fd_by_name :: "failure_domain list \<Rightarrow> failure_domain gomap" where
  "fd_by_name fds = fold (\<lambda>fd. gm_put (fd_name fd) fd) fds []"

fun first_named :: "failure_domain gomap \<Rightarrow> string list \<Rightarrow> (string \<times> string) option" where
  "first_named m [] = None"
| "first_named m (name # names) =
     (case gm_lookup m name of Some fd \<Rightarrow> Some (fd_region fd, fd_zone fd) | None \<Rightarrow> first_named m names)"

fun findCPMSBackedFailureDomain :: "cpms list \<Rightarrow> infrastructure \<Rightarrow> (string \<times> string) option" where
  "findCPMSBackedFailureDomain [] infra = None"
| "findCPMSBackedFailureDomain (c # cs) infra =
     (case first_named (fd_by_name (GetFailureDomains (Some infra))) (CPMSVSphereFailureDomainNames c) of
        Some rz \<Rightarrow> Some rz
      | None \<Rightarrow> findCPMSBackedFailureDomain cs infra)"

section \<open>The rules\<close>

text \<open>The rules for the vCenters of an Infrastructure that the tests are about: four about one spec, three of which
  together say that it is well formed, and one about a change.\<close>

datatype rule = UniqueServers | AtLeastOne | AtMostThree | ReferencesResolve | AddsOrRemoves

definition servers_of :: "infra_spec \<Rightarrow> string list" where
  "servers_of spec = VCenterServers (spec_vcenters spec)"

text \<open>The servers that failure domains refer to.\<close>

definition referenced :: "infra_spec \<Rightarrow> string list" where
  "referenced spec = (case is_vsphere spec of None \<Rightarrow> [] | Some p \<Rightarrow> map fd_server (vs_failureDomains p))"

fun keeps_rule :: "infra_spec \<Rightarrow> infra_spec \<Rightarrow> rule \<Rightarrow> bool" where
  "keeps_rule old new UniqueServers = distinct (servers_of new)"
| "keeps_rule old new AtLeastOne = (servers_of new \<noteq> [])"
| "keeps_rule old new AtMostThree = (length (servers_of new) \<le> 3)"
| "keeps_rule old new ReferencesResolve = (set (referenced new) \<subseteq> set (servers_of new))"
| "keeps_rule old new AddsOrRemoves =
     (set (servers_of old) \<subseteq> set (servers_of new) \<or> set (servers_of new) \<subseteq> set (servers_of old))"

definition broken :: "infra_spec \<Rightarrow> infra_spec \<Rightarrow> rule list" where
  "broken old new = filter (\<lambda>r. \<not> keeps_rule old new r)
     [UniqueServers, AtLeastOne, AtMostThree, ReferencesResolve, AddsOrRemoves]"

lemma spec_wf_rules: "spec_wf spec \<longleftrightarrow>
    distinct (servers_of spec) \<and> length (servers_of spec) \<le> 3 \<and> set (referenced spec) \<subseteq> set (servers_of spec)"
  by (auto simp: servers_of_def referenced_def spec_wf_def platform_wf_def spec_vcenters_def VCenterServers_def
      list_all_iff split: option.splits)

lemma edit_platform_cases:
  assumes "edit_platform f infra = Inr spec"
  obtains p q where "is_vsphere (infra_spec infra) = Some p" "f p = Inr q"
    "spec = (infra_spec infra)\<lparr>is_vsphere := Some q\<rparr>"
proof (cases "is_vsphere (infra_spec infra)")
  case (Some p)
  with assms show thesis
    by (cases "f p") (auto simp: edit_platform_def CloneInfrastructureSpec_def intro: that)
qed (use assms in \<open>simp add: edit_platform_def CloneInfrastructureSpec_def\<close>)

lemma platform_sel:
  assumes "is_vsphere spec = Some p"
  shows "servers_of spec = map vc_server (vs_vcenters p)" "referenced spec = map fd_server (vs_failureDomains p)"
  using assms by (simp_all add: servers_of_def referenced_def spec_vcenters_def VCenterServers_def)

text \<open>An edit that leaves the failure domains alone breaks what its list of servers breaks.\<close>

definition broken_by :: "string list \<Rightarrow> string list \<Rightarrow> string list \<Rightarrow> rule list" where
  "broken_by old refs new =
     (if distinct new then [] else [UniqueServers]) @ (if new \<noteq> [] then [] else [AtLeastOne]) @
     (if length new \<le> 3 then [] else [AtMostThree]) @ (if set refs \<subseteq> set new then [] else [ReferencesResolve]) @
     (if set old \<subseteq> set new \<or> set new \<subseteq> set old then [] else [AddsOrRemoves])"

lemma broken_edit:
  assumes "is_vsphere (infra_spec infra) = Some p" "vs_failureDomains q = vs_failureDomains p"
  shows "broken (infra_spec infra) ((infra_spec infra)\<lparr>is_vsphere := Some q\<rparr>) =
    broken_by (servers_of (infra_spec infra)) (referenced (infra_spec infra)) (map vc_server (vs_vcenters q))"
proof -
  have "is_vsphere ((infra_spec infra)\<lparr>is_vsphere := Some q\<rparr>) = Some q" by simp
  from platform_sel [OF this] platform_sel [OF assms(1)] assms(2) show ?thesis
    by (simp add: broken_def broken_by_def)
qed

lemma broken_by_more:
  assumes "old \<noteq> []" "set refs \<subseteq> set old"
  shows "broken_by old refs (old @ xs) =
    (if distinct (old @ xs) then [] else [UniqueServers]) @ (if length (old @ xs) \<le> 3 then [] else [AtMostThree])"
proof -
  have "set refs \<subseteq> set (old @ xs)" "set old \<subseteq> set (old @ xs)" "old @ xs \<noteq> []" using assms by auto
  then show ?thesis by (simp only: broken_by_def if_True append_Nil append_Nil2 simp_thms not_False_eq_True if_False)
qed

lemma broken_by_swap:
  assumes "distinct (a # b # ss)" "length (a # b # ss) \<le> 3" "set refs \<subseteq> set (a # b # ss)" "n \<notin> set (a # b # ss)"
    and "ts = ss \<or> ts = []"
  shows "broken_by (a # b # ss) refs (a # n # ts) =
    (if set refs \<subseteq> set (a # ts) then [] else [ReferencesResolve]) @ [AddsOrRemoves]"
proof -
  have "distinct (a # n # ts)" "length (a # n # ts) \<le> 3" using assms by auto
  moreover have "set refs \<subseteq> set (a # n # ts) \<longleftrightarrow> set refs \<subseteq> set (a # ts)" using assms(3,4) by auto
  moreover have "\<not> set (a # b # ss) \<subseteq> set (a # n # ts)" "\<not> set (a # n # ts) \<subseteq> set (a # b # ss)" using assms by auto
  ultimately show ?thesis unfolding broken_by_def by simp
qed

lemma only_first: "a \<notin> set ss \<Longrightarrow> R \<subseteq> set (a # ss) \<Longrightarrow> R \<subseteq> {a} \<longleftrightarrow> set ss \<inter> R = {}"
  by auto

definition extra_server :: "nat \<Rightarrow> string" where
  "extra_server i = ''vcenter-extra-'' @ digits i @ ''.example.com''"

lemma extra_server_inj: "extra_server i = extra_server j \<longleftrightarrow> i = j"
proof
  assume "extra_server i = extra_server j"
  then have "digits i = digits j" by (simp add: extra_server_def)
  then show "i = j" by (metis digits_roundtrip)
qed simp

lemma add_extras_servers:
  "4 - length vcenters = n \<Longrightarrow>
     map vc_server (add_extras v i vcenters) = map vc_server vcenters @ map extra_server [i..<i + n]"
proof (induction n arbitrary: i vcenters)
  case (Suc n)
  then have "4 - length (vcenters @ [extra_vcenter v i]) = n" "length vcenters < 4" by simp_all
  moreover have "[i..<i + Suc n] = i # [Suc i..<Suc i + n]" by (simp add: upt_rec [of i] del: upt_Suc)
  ultimately show ?case using Suc.IH [of "vcenters @ [extra_vcenter v i]" "Suc i"]
    by (subst add_extras.simps) (simp add: extra_vcenter_def extra_server_def)
qed (simp add: add_extras.simps)

text \<open>What each spec of the tests does to a well-formed one.\<close>

lemma duplicate_breaks:
  assumes "duplicateFirstVCenterSpec infra = Inr spec" "spec_wf (infra_spec infra)"
  shows "broken (infra_spec infra) spec =
    UniqueServers # (if length (servers_of (infra_spec infra)) < 3 then [] else [AtMostThree])"
  using assms(1) unfolding duplicateFirstVCenterSpec_def
proof (cases rule: edit_platform_cases)
  case (1 p q)
  with assms(2) broken_edit [OF 1(1), of q] platform_sel [OF 1(1)] show ?thesis
    by (cases "vs_vcenters p") (auto simp: spec_wf_rules broken_by_def)
qed

lemma too_many_breaks:
  assumes "tooManyVCentersSpec infra = Inr spec" "spec_wf (infra_spec infra)"
  shows "broken (infra_spec infra) spec =
    (if list_ex (\<lambda>i. extra_server i \<in> set (servers_of (infra_spec infra)))
       [0..<4 - length (servers_of (infra_spec infra))] then [UniqueServers] else []) @ [AtMostThree]"
  using assms(1) unfolding tooManyVCentersSpec_def
proof (cases rule: edit_platform_cases)
  case (1 p q)
  show ?thesis
  proof (cases "vs_vcenters p")
    case (Cons v vs)
    let ?S = "servers_of (infra_spec infra)"
    from Cons 1(2) have q: "q = p\<lparr>vs_vcenters := add_extras v 0 (vs_vcenters p)\<rparr>" by simp
    have len: "length (vs_vcenters p) = length ?S" by (simp add: platform_sel [OF 1(1)])
    have new: "map vc_server (vs_vcenters q) = ?S @ map extra_server [0..<4 - length ?S]"
      using add_extras_servers [of "vs_vcenters p" "4 - length ?S" v 0] by (simp add: q platform_sel [OF 1(1)])
    have "distinct (map extra_server [0..<4 - length ?S])" by (simp add: distinct_map inj_on_def extra_server_inj)
    with assms(2) have "distinct (?S @ map extra_server [0..<4 - length ?S]) \<longleftrightarrow>
        \<not> list_ex (\<lambda>i. extra_server i \<in> set ?S) [0..<4 - length ?S]"
      by (auto simp: spec_wf_rules list_ex_iff)
    moreover have "?S \<noteq> []" "length ?S \<le> 3" using assms(2) Cons by (simp_all add: spec_wf_rules platform_sel [OF 1(1)])
    ultimately show ?thesis using broken_edit [OF 1(1), of q] 1(3) assms(2) q
      unfolding new broken_by_def by (auto simp: spec_wf_rules)
  qed (use 1(2) in simp)
qed

lemma dangling_breaks:
  assumes "fdReferencingRemovedVCenterSpec infra = Inr spec" "spec_wf (infra_spec infra)"
  shows "broken (infra_spec infra) spec =
    (if length (servers_of (infra_spec infra)) = 1 then [AtLeastOne] else []) @ [ReferencesResolve]"
  using assms(1) unfolding fdReferencingRemovedVCenterSpec_def
proof (cases rule: edit_platform_cases)
  case (1 p q)
  then have ne: "vs_vcenters p \<noteq> []" and q: "q = p\<lparr>vs_vcenters := butlast (vs_vcenters p)\<rparr>"
    and fd: "vc_server (last (vs_vcenters p)) \<in> set (referenced (infra_spec infra))"
    by (auto simp: list_ex_iff platform_sel image_iff eq_commute split: if_split_asm)
  from ne obtain vs v where vs: "vs_vcenters p = vs @ [v]" by (metis append_butlast_last_id)
  with assms(2) platform_sel [OF 1(1)] have "distinct (map vc_server vs)" "vc_server v \<notin> vc_server ` set vs" "length vs \<le> 2"
    by (auto simp: spec_wf_rules)
  with broken_edit [OF 1(1), of q] 1(3) q vs fd platform_sel [OF 1(1)] show ?thesis
    by (auto simp: broken_by_def)
qed

lemma swap_breaks:
  assumes "swapSecondVCenterServer new infra = Inr spec" "spec_wf (infra_spec infra)"
    "new \<notin> set (servers_of (infra_spec infra))"
  shows "broken (infra_spec infra) spec =
    (if servers_of (infra_spec infra) ! 1 \<in> set (referenced (infra_spec infra)) then [ReferencesResolve] else []) @
    [AddsOrRemoves]"
  using assms(1) unfolding swapSecondVCenterServer_def
proof (cases rule: edit_platform_cases)
  case (1 p q)
  from 1(2) obtain a b vs where p: "vs_vcenters p = a # b # vs" by (cases "vs_vcenters p" rule: remdups_adj.cases) auto
  let ?S = "vc_server a # vc_server b # map vc_server vs" and ?R = "referenced (infra_spec infra)"
  have S: "servers_of (infra_spec infra) = ?S" using platform_sel(1) [OF 1(1)] p by simp
  have wf: "distinct ?S" "length ?S \<le> 3" "set ?R \<subseteq> set ?S" "new \<notin> set ?S" using assms(2,3) S by (simp_all add: spec_wf_rules)
  have "broken (infra_spec infra) spec = broken_by ?S ?R (vc_server a # new # map vc_server vs)"
    using broken_edit [OF 1(1), of q] 1(2,3) p S by auto
  moreover have "set ?R \<subseteq> set (vc_server a # map vc_server vs) \<longleftrightarrow> ?S ! 1 \<notin> set ?R" using wf(1,3) by auto
  ultimately show ?thesis using broken_by_swap [OF wf disjI1 [OF refl]] S by simp
qed

lemma add_remove_breaks:
  assumes "addAndRemoveVCenterSamePatch infra = Inr spec" "spec_wf (infra_spec infra)"
    "''new-vcenter.example.com'' \<notin> set (servers_of (infra_spec infra))"
  shows "broken (infra_spec infra) spec =
    (if set (tl (servers_of (infra_spec infra))) \<inter> set (referenced (infra_spec infra)) \<noteq> {} then [ReferencesResolve] else []) @
    [AddsOrRemoves]"
  using assms(1) unfolding addAndRemoveVCenterSamePatch_def
proof (cases rule: edit_platform_cases)
  case (1 p q)
  from 1(2) obtain a b vs where p: "vs_vcenters p = a # b # vs" by (cases "vs_vcenters p" rule: remdups_adj.cases) auto
  let ?S = "vc_server a # vc_server b # map vc_server vs" and ?R = "referenced (infra_spec infra)"
  have S: "servers_of (infra_spec infra) = ?S" using platform_sel(1) [OF 1(1)] p by simp
  have wf: "distinct ?S" "length ?S \<le> 3" "set ?R \<subseteq> set ?S" "''new-vcenter.example.com'' \<notin> set ?S"
    using assms(2,3) S by (simp_all add: spec_wf_rules)
  have "broken (infra_spec infra) spec = broken_by ?S ?R [vc_server a, ''new-vcenter.example.com'']"
    using broken_edit [OF 1(1), of q] 1(2,3) p S by auto
  moreover have "set ?R \<subseteq> set [vc_server a] \<longleftrightarrow> set (tl ?S) \<inter> set ?R = {}"
    using only_first [of "vc_server a" "tl ?S" "set ?R"] wf(1,3) by simp
  ultimately show ?thesis using broken_by_swap [OF wf disjI2 [OF refl]] S by simp
qed

lemma empty_breaks:
  assumes "emptyVCentersSpec infra = Inr spec"
  shows "broken (infra_spec infra) spec =
    AtLeastOne # (if referenced (infra_spec infra) = [] then [] else [ReferencesResolve])"
  using assms unfolding emptyVCentersSpec_def
proof (cases rule: edit_platform_cases)
  case (1 p q)
  with broken_edit [OF 1(1), of q] show ?thesis by (auto simp: broken_by_def)
qed

lemma add_second_breaks:
  assumes "addSecondVCenterSpec infra = Inr spec" "spec_wf (infra_spec infra)"
  shows "broken (infra_spec infra) spec =
    (if ''vcenter2.example.com'' \<in> set (servers_of (infra_spec infra)) then [UniqueServers] else []) @
    (if length (servers_of (infra_spec infra)) < 3 then [] else [AtMostThree])"
  using assms(1) unfolding addSecondVCenterSpec_def
proof (cases rule: edit_platform_cases)
  case (1 p q)
  then have "servers_of (infra_spec infra) \<noteq> []" "map vc_server (vs_vcenters q) = servers_of (infra_spec infra) @ [''vcenter2.example.com'']"
    using platform_sel [OF 1(1)] by (cases "vs_vcenters p"; auto)+
  with assms(2) broken_edit [OF 1(1), of q] 1(2,3) show ?thesis
    by (cases "vs_vcenters p") (auto simp: spec_wf_rules broken_by_more)
qed


section \<open>The removal tests remove what is in use\<close>


lemma machine_backed:
  assumes "findMachineBackedFailureDomain ms infra = Some (r, z)"
  shows "(\<exists>m \<in> set ms. machineLabeledFailureDomain m = (r, z, True)) \<and>
    FindFailureDomainByRegionZone (GetFailureDomains (Some infra)) r z \<noteq> None"
  using assms by (induction ms) (auto split: if_splits prod.splits)

lemma fd_by_name_in:
  assumes "gm_lookup (fd_by_name fds) name = Some fd"
  shows "fd \<in> set fds \<and> fd_name fd = name"
proof -
  have "gm_lookup (fold (\<lambda>fd. gm_put (fd_name fd) fd) fds m) name = Some fd \<Longrightarrow>
      fd \<in> set fds \<and> fd_name fd = name \<or> gm_lookup m name = Some fd" for m
  proof (induction fds arbitrary: m)
    case (Cons f fds)
    from Cons.prems have "gm_lookup (fold (\<lambda>fd. gm_put (fd_name fd) fd) fds (gm_put (fd_name f) f m)) name = Some fd"
      by simp
    from Cons.IH [OF this] show ?case by (auto simp: gm_lookup_put split: if_splits)
  qed simp
  from this [of "[]"] assms show ?thesis by (simp add: fd_by_name_def)
qed

lemma cpms_backed:
  assumes "findCPMSBackedFailureDomain cs infra = Some (r, z)"
  shows "\<exists>c \<in> set cs. \<exists>fd \<in> set (GetFailureDomains (Some infra)).
    fd_name fd \<in> set (CPMSVSphereFailureDomainNames c) \<and> fd_region fd = r \<and> fd_zone fd = z"
proof -
  have "first_named (fd_by_name fds) names = Some (r, z) \<Longrightarrow>
      \<exists>fd \<in> set fds. fd_name fd \<in> set names \<and> fd_region fd = r \<and> fd_zone fd = z" for fds names
    by (induction names) (auto split: option.splits dest!: fd_by_name_in)
  with assms show ?thesis by (induction cs) (fastforce split: option.splits)+
qed

text \<open>So the spec the tests send lacks a failure domain that the cluster has and a machine, or the control plane
  machine set, uses.\<close>

lemma removal_of_used:
  assumes "findMachineBackedFailureDomain ms infra = Some (r, z) \<or> findCPMSBackedFailureDomain cs infra = Some (r, z)"
    and "specWithoutFailureDomain infra r z = Inr spec"
  shows "FindFailureDomainByRegionZone (GetFailureDomains (Some infra)) r z \<noteq> None \<and>
    FindFailureDomainByRegionZone (GetFailureDomains (Some (infra\<lparr>infra_spec := spec\<rparr>))) r z = None"
proof
  show "FindFailureDomainByRegionZone (GetFailureDomains (Some infra)) r z \<noteq> None"
    using assms(1)
  proof
    assume "findCPMSBackedFailureDomain cs infra = Some (r, z)"
    from cpms_backed [OF this] show ?thesis
      unfolding FindFailureDomainByRegionZone_def find_first_None_iff by blast
  qed (use machine_backed in blast)
  show "FindFailureDomainByRegionZone (GetFailureDomains (Some (infra\<lparr>infra_spec := spec\<rparr>))) r z = None"
    using assms(2) unfolding specWithoutFailureDomain_def
    by (cases rule: edit_platform_cases) (clarsimp simp: GetFailureDomains_def fds.search_remove)
qed

end
