(* ===== verification/DemoSuite.thy ===== *)
theory DemoSuite
  imports DemoVSphere SuiteSpecs
begin

text \<open>
  The helpers of the end-to-end tests.  The one for the template runs on the small vCenter of \<open>DemoVSphere\<close>: here its inventory
  also has the virtual machines, under their names, and the cluster answers with one config map.
\<close>

definition suite_env :: "vw env" where
  "suite_env = \<lparr>
     get_infra = (\<lambda>n w. (Inr demo_infra, w)),
     update_infra = (\<lambda>i w. (Inr i, w)),
     patch_infra = (\<lambda>n pt dry w. (Inr demo_infra, w)),
     get_cluster_operator = (\<lambda>n w. (Inl NotFoundError, w)),
     get_feature_gate = (\<lambda>n w. (Inr [], w)),
     get_config_map = (\<lambda>ns n w. (Inr \<lparr>cm_namespace = ns, cm_name = n, cm_data = Some [(''stream'', ''{}'')],
        cm_binaryData = [], cm_annotations = [], cm_resourceVersion = ''1'', cm_other = ''''\<rparr>, w)),
     update_config_map = (\<lambda>cm w. (Inr cm, w)),
     get_secret = (\<lambda>ns n w. (Inl NotFoundError, w)),
     update_secret = (\<lambda>sec w. (Inr sec, w)),
     get_csi_driver = (\<lambda>n w. (Inl NotFoundError, w)),
     list_pods = (\<lambda>ns l w. (Inr [], w)),
     list_machines = (\<lambda>l w. (Inr [], w)),
     list_nodes = (\<lambda>w. (Inr [], w)),
     stat_path = (\<lambda>p w. (False, w)),
     mkdir_all = (\<lambda>d w. (Inr (), w)),
     write_state = (\<lambda>p d w. (Inr (), w)),
     read_state = (\<lambda>p w. (Inl NotFoundError, w)),
     read_text = (\<lambda>p w. (Inr ''file'', w)),
     json_marshal_spec = (\<lambda>sp. Inr (SpecPatch sp)),
     json_marshal_state = (\<lambda>st. Inr (StateDoc st)),
     json_unmarshal_state = (\<lambda>d. Inl ContextDone),
     yaml_unmarshal_lab = (\<lambda>t. Inr demo_cfg),
     yaml_unmarshal_cloud = (\<lambda>t. Inl ContextDone),
     yaml_marshal_cloud = (\<lambda>c. Inl ContextDone),
     yaml_unmarshal_creds = (\<lambda>t. Inr []),
     yaml_marshal_creds = (\<lambda>cs. Inr ''''),
     poll = (\<lambda>i t. poll_upto 3),
     clock = (\<lambda>w. (0, w))\<rparr>"

definition suite_image :: artifact where
  "suite_image = \<lparr>ar_Location = demo_url, ar_Sha256 = ''avo''\<rparr>"

definition suite_ova :: "vw ova_api" where
  "suite_ova =
     \<lparr>open_ova = (\<lambda>_. Inl NotFoundError),
      find_cluster = (\<lambda>n w. (Inr n, w)), find_ds = (\<lambda>n w. (Inr (demo_ref n), w)),
      find_network = (\<lambda>n w. (Inr (demo_ref n), w)), find_vm_folder = (\<lambda>n w. (Inr n, w)),
      find_dc = (\<lambda>n w. (Inr n, w)), dc_vm_folder = (\<lambda>n w. (Inr n, w)), find_pool = (\<lambda>n w. (Inr n, w)),
      cluster_pool = (\<lambda>n w. (Inr n, w)), cluster_hosts = (\<lambda>_ w. (Inr [''h1''], w)),
      host_properties = (\<lambda>h w. (Inr \<lparr>hp_ConnectionState = ''connected'', hp_InMaintenanceMode = False,
        hp_Datastore = [demo_ref ''/dc2/datastore/d2''], hp_Network = [demo_ref ''net2'']\<rparr>, w)),
      ovf_networks = (\<lambda>_. Inr None),
      create_import_spec = (\<lambda>_ _ _ spec w.
        (Inr \<lparr>ir_Error = [], ir_ImportSpec = ip_EntityName spec, ir_FileItem = []\<rparr>, w)),
      import_vapp = (\<lambda>_ spec _ _ w. (Inr ''lease'', w\<lparr>vw_folders := insert spec (vw_folders w)\<rparr>)),
      lease_wait = (\<lambda>_ _ w. (Inr [\<lparr>fi_Path = ''disk.vmdk'', fi_other = ''''\<rparr>], w)),
      lease_upload = (\<lambda>_ _ _ _ w. (Inr (), w)), lease_complete = (\<lambda>_ w. (Inr (), w)),
      lease_abort = (\<lambda>_ w. (Inr (), w)),
      find_vm = (\<lambda>n w. (if n \<in> vw_folders w then Inr n else Inl NotFoundError, w)),
      vm_template = (\<lambda>_ w. (Inr (Some True), w)), vm_boot_options = (\<lambda>_ w. (Inr (), w)),
      vm_disable_secure_boot = (\<lambda>n w. (Inr n, w)), vm_destroy = (\<lambda>n w. (Inr n, w)),
      vm_wait = (\<lambda>_ w. (Inr (), w)), mark_as_template = (\<lambda>_ w. (Inr (), w)),
      json_query_disk = (\<lambda>_ arch _ _. Inr (if arch = ''x86_64'' then Inr suite_image else Inl NotFoundError))\<rparr>"

definition demo_suite_api :: "(vw, nat) suite_api" where
  "demo_suite_api = \<lparr>sa_env = suite_env,
     sa_vc = demo_vc_api\<lparr>find_datacenter := \<lambda>c d w. (Inr d, w)\<rparr>,
     sa_ova = suite_ova, sa_fetch = demo_fetch,
     sa_untar = (\<lambda>content. if content = ''ova''
       then [TarEntry ''a.ovf'' 1 (Inr ''<ovf/>''), TarEntry ''disk.vmdk'' 2 (Inr ''x'')] else []),
     sa_GOARCH = ''amd64''\<rparr>"

definition suite_start :: "vw suite" where
  "suite_start = \<lparr>su_st = \<lparr>world = demo_world, trace = []\<rparr>, su_disk = demo_disk [], su_events = []\<rparr>"

definition suite_end :: "(stop + string) \<times> vw suite" where
  "suite_end = ensureTemplateInSecondVC demo_suite_api demo_cfg ''inf'' suite_start"

lemma suite_end:
  "fst suite_end = Inr ''inf-rhcos-fd2''"
  "su_events (snd suite_end) = [Acquired ''lease'', Waited ''lease'' True, UpdaterStarted ''lease'', Uploaded ''lease'' ''disk.vmdk'' True,
     Completed ''lease'' True, UpdaterDone ''lease'']"
  by code_simp+

text \<open>The second time the template is found.\<close>

lemma suite_again:
  "fst (ensureTemplateInSecondVC demo_suite_api demo_cfg ''inf'' (snd suite_end)) = Inr ''inf-rhcos-fd2''"
  "su_events (snd (ensureTemplateInSecondVC demo_suite_api demo_cfg ''inf'' (snd suite_end))) = su_events (snd suite_end)"
  by code_simp+

lemma suite_logins: "logins_ok (sa_vc demo_suite_api) vw_live" "reliable (sa_vc demo_suite_api)"
  "suite_keeps demo_suite_api vw_live"
  by (auto simp: demo_suite_api_def logins_ok_def reliable_def demo_vc_api_def suite_keeps_def inventory_keeps_def
      import_keeps_def suite_env_def suite_ova_def within_def kept_def)

lemma suite_boot_image: "boot_image demo_suite_api ova \<longleftrightarrow> ova = suite_image"
proof -
  have "ResolveRHCOSOVAFromConfigMap suite_ova (Some cm) ''x86_64'' = Inr ova \<Longrightarrow> ova = suite_image" for cm
    by (auto simp: ResolveRHCOSOVAFromConfigMap_def suite_ova_def split: option.splits if_splits)
  moreover have "ResolveRHCOSOVAFromConfigMap suite_ova (Some \<lparr>cm_namespace = ns, cm_name = n,
      cm_data = Some [(''stream'', ''{}'')], cm_binaryData = [], cm_annotations = [], cm_resourceVersion = ''1'',
      cm_other = ''''\<rparr>) ''x86_64'' = Inr suite_image" for ns n
    by (simp add: ResolveRHCOSOVAFromConfigMap_def suite_ova_def suite_image_def demo_url_def)
  ultimately show ?thesis by (auto simp: boot_image_def demo_suite_api_def suite_env_def boot_arch_def)
qed


section \<open>The specs of the tests\<close>

text \<open>The demo cluster after the second vCenter was added.\<close>

definition demo_two :: infrastructure where
  "demo_two = demo_infra\<lparr>infra_spec := demo_spec\<rparr>"


end
