(* ===== verification/Day2Cli.thy ===== *)
theory Day2Cli
  imports LabRoundTrip
begin

text \<open>
  \<open>cmd/day2-vcenter/main.go\<close> and \<open>pkg/framework/client.go\<close>: the command line of the program, from
  the arguments to the exit status, around \<open>Apply\<close>, \<open>Restore\<close> and \<open>Verify\<close>.

  Go's \<open>flag\<close> package is written out for the string and boolean flags the program has; a parse error
  ends the program with status 2 and a request for help with status 0, as \<open>flag.ExitOnError\<close> says.
  What the client libraries do with a configuration is a parameter.  The deadlines are part of the
  context the calls run under; what is printed is left out.
\<close>

section \<open>Clients\<close>

record rest_config =
  rc_Host :: string
  rc_QPS :: int
  rc_Burst :: int

record client_env =
  kubeconfig_var :: string
  home_dir :: "string option"
  path_exists :: "string \<Rightarrow> bool"
  build_config :: "string \<Rightarrow> rest_config res"
  in_cluster_config :: "rest_config res"
  new_client :: "string \<Rightarrow> rest_config \<Rightarrow> string res"

record Clients =
  cl_Kube :: string
  cl_Config :: string
  cl_Machine :: string
  cl_Operator :: string
  cl_Dynamic :: string
  cl_Discovery :: string
  cl_Rest :: rest_config

definition loadRestConfig :: "client_env \<Rightarrow> rest_config res" where
  "loadRestConfig ce =
     (if kubeconfig_var ce \<noteq> '''' then build_config ce (kubeconfig_var ce)
      else case home_dir ce of
        None \<Rightarrow> in_cluster_config ce
      | Some home \<Rightarrow>
          (let defaultPath = path_join home ''.kube/config'' in
           if path_exists ce defaultPath then build_config ce defaultPath else in_cluster_config ce))"

definition bindR :: "'a res \<Rightarrow> ('a \<Rightarrow> 'b res) \<Rightarrow> 'b res" where
  "bindR r f = (case r of Inl e \<Rightarrow> Inl e | Inr a \<Rightarrow> f a)"

definition wrapR :: "string \<Rightarrow> 'a res \<Rightarrow> 'a res" where
  "wrapR fmt r = (case r of Inl e \<Rightarrow> Inl (Wrapf fmt [] e) | Inr a \<Rightarrow> Inr a)"

definition NewClients :: "client_env \<Rightarrow> Clients res" where
  "NewClients ce =
     bindR (loadRestConfig ce) (\<lambda>cfg.
     let cfg = cfg\<lparr>rc_QPS := 50, rc_Burst := 100\<rparr> in
     bindR (wrapR ''kubernetes client: %w'' (new_client ce ''kubernetes'' cfg)) (\<lambda>kube.
     bindR (wrapR ''config client: %w'' (new_client ce ''config'' cfg)) (\<lambda>config.
     bindR (wrapR ''machine client: %w'' (new_client ce ''machine'' cfg)) (\<lambda>machine.
     bindR (wrapR ''operator client: %w'' (new_client ce ''operator'' cfg)) (\<lambda>operator.
     bindR (wrapR ''dynamic client: %w'' (new_client ce ''dynamic'' cfg)) (\<lambda>dyn.
     bindR (wrapR ''discovery client: %w'' (new_client ce ''discovery'' cfg)) (\<lambda>disc.
       Inr \<lparr>cl_Kube = kube, cl_Config = config, cl_Machine = machine, cl_Operator = operator,
            cl_Dynamic = dyn, cl_Discovery = disc, cl_Rest = cfg\<rparr>)))))))"

section \<open>Flags\<close>

datatype flag_error = BadFlag | HelpWanted

text \<open>A flag set: the names of the string flags and of the boolean flags.\<close>

record flag_set =
  fs_strings :: "string list"
  fs_bools :: "string list"

definition ParseBool :: "string \<Rightarrow> bool option" where
  "ParseBool s =
     (if s \<in> set [''1'', ''t'', ''T'', ''TRUE'', ''true'', ''True''] then Some True
      else if s \<in> set [''0'', ''f'', ''F'', ''FALSE'', ''false'', ''False''] then Some False
      else None)"

text \<open>What is left of an argument after its dashes, or \<open>None\<close> where the flags end.\<close>

definition flag_name :: "string \<Rightarrow> string option" where
  "flag_name arg =
     (if length arg < 2 \<or> hd arg \<noteq> CHR ''-'' then None
      else if arg = ''--'' then None
      else if arg ! 1 = CHR ''-'' then Some (drop 2 arg) else Some (drop 1 arg))"

definition split_value :: "string \<Rightarrow> string \<times> string option" where
  "split_value name =
     (case Index (tl name) ''='' of
        None \<Rightarrow> (name, None)
      | Some i \<Rightarrow> (take (i + 1) name, Some (drop (i + 2) name)))"

fun parse_flags :: "flag_set \<Rightarrow> string list \<Rightarrow> string gomap \<Rightarrow> flag_error + string gomap" where
  "parse_flags fs [] vals = Inr vals"
| "parse_flags fs (arg # args) vals =
     (case flag_name arg of
        None \<Rightarrow> Inr vals
      | Some text \<Rightarrow>
          if text = '''' \<or> hd text = CHR ''-'' \<or> hd text = CHR ''='' then Inl BadFlag
          else
            (case split_value text of
               (name, val) \<Rightarrow>
                 if name \<in> set (fs_bools fs)
                 then (case ParseBool (case val of None \<Rightarrow> ''true'' | Some v \<Rightarrow> v) of
                         None \<Rightarrow> Inl BadFlag
                       | Some b \<Rightarrow> parse_flags fs args (gm_put name (if b then ''true'' else ''false'') vals))
                 else if name \<in> set (fs_strings fs)
                 then (case val of
                         Some v \<Rightarrow> parse_flags fs args (gm_put name v vals)
                       | None \<Rightarrow>
                           (case args of
                              [] \<Rightarrow> Inl BadFlag
                            | v # args' \<Rightarrow> parse_flags fs args' (gm_put name v vals)))
                 else if name = ''help'' \<or> name = ''h'' then Inl HelpWanted
                 else Inl BadFlag))"

definition flag_exit :: "flag_error \<Rightarrow> int" where
  "flag_exit e = (case e of BadFlag \<Rightarrow> 2 | HelpWanted \<Rightarrow> 0)"

section \<open>The commands\<close>

definition applyTimeout :: int where
  "applyTimeout = 45 * Minute"

definition restoreTimeout :: int where
  "restoreTimeout = 45 * Minute"

definition verifyTimeout :: int where
  "verifyTimeout = 10 * Minute"

definition apply_flags :: flag_set where
  "apply_flags = \<lparr>fs_strings = [''config''], fs_bools = [''dry-run'']\<rparr>"

definition restore_flags :: flag_set where
  "restore_flags = \<lparr>fs_strings = [''config'', ''state-dir''], fs_bools = []\<rparr>"

definition verify_flags :: flag_set where
  "verify_flags = \<lparr>fs_strings = [''config''], fs_bools = []\<rparr>"

definition config_flag :: "string gomap \<Rightarrow> string" where
  "config_flag vals = (case gm_lookup vals ''config'' of None \<Rightarrow> DefaultConfigPath | Some p \<Rightarrow> p)"

text \<open>Loading the configuration and making the clients, then one step with its error.\<close>

definition with_config ::
  "'w env \<Rightarrow> client_env \<Rightarrow> string gomap \<Rightarrow> (LabConfig \<Rightarrow> ('w, 'a) comp) \<Rightarrow> 'w st \<Rightarrow> int \<times> 'w st" where
  "with_config env ce vals step s =
     (case Load env (config_flag vals) s of
        (Inl _, s) \<Rightarrow> (1, s)
      | (Inr cfg, s) \<Rightarrow>
          (case NewClients ce of
             Inl _ \<Rightarrow> (1, s)
           | Inr _ \<Rightarrow> (case step cfg s of (Inl _, s) \<Rightarrow> (1, s) | (Inr _, s) \<Rightarrow> (0, s))))"

definition dry_run_flag :: "string gomap \<Rightarrow> bool" where
  "dry_run_flag vals \<longleftrightarrow> gm_get vals ''dry-run'' = ''true''"

definition restore_dir :: "string gomap \<Rightarrow> LabConfig \<Rightarrow> string" where
  "restore_dir vals cfg =
     (let stateDir = gm_get vals ''state-dir'' in if stateDir \<noteq> '''' then stateDir else StateDir cfg)"

definition runApply :: "'w env \<Rightarrow> client_env \<Rightarrow> string list \<Rightarrow> 'w st \<Rightarrow> int \<times> 'w st" where
  "runApply env ce args s =
     (case parse_flags apply_flags args [] of
        Inl e \<Rightarrow> (flag_exit e, s)
      | Inr vals \<Rightarrow> with_config env ce vals (\<lambda>cfg. Apply env (Some cfg) (dry_run_flag vals)) s)"

definition runRestore :: "'w env \<Rightarrow> client_env \<Rightarrow> string list \<Rightarrow> 'w st \<Rightarrow> int \<times> 'w st" where
  "runRestore env ce args s =
     (case parse_flags restore_flags args [] of
        Inl e \<Rightarrow> (flag_exit e, s)
      | Inr vals \<Rightarrow> with_config env ce vals (\<lambda>cfg. Restore env (restore_dir vals cfg)) s)"

definition runVerify :: "'w env \<Rightarrow> client_env \<Rightarrow> string list \<Rightarrow> 'w st \<Rightarrow> int \<times> 'w st" where
  "runVerify env ce args s =
     (case parse_flags verify_flags args [] of
        Inl e \<Rightarrow> (flag_exit e, s)
      | Inr vals \<Rightarrow> with_config env ce vals (\<lambda>cfg. Verify env cfg) s)"

text \<open>\<open>args\<close> are the arguments after the program's name.\<close>

definition run :: "'w env \<Rightarrow> client_env \<Rightarrow> string list \<Rightarrow> 'w st \<Rightarrow> int \<times> 'w st" where
  "run env ce args s =
     (case args of
        [] \<Rightarrow> (2, s)
      | cmd # rest \<Rightarrow>
          if cmd = ''apply'' then runApply env ce rest s
          else if cmd = ''restore'' then runRestore env ce rest s
          else if cmd = ''verify'' then runVerify env ce rest s
          else if cmd \<in> set [''help'', ''-h'', ''--help''] then (0, s)
          else (2, s))"

section \<open>What a command line may change\<close>

definition may_change :: "string list \<Rightarrow> bool" where
  "may_change args \<longleftrightarrow>
     (case args of
        [] \<Rightarrow> False
      | cmd # rest \<Rightarrow>
          cmd = ''restore'' \<or>
          cmd = ''apply'' \<and> (case parse_flags apply_flags rest [] of
                               Inl _ \<Rightarrow> False
                             | Inr vals \<Rightarrow> \<not> dry_run_flag vals))"

lemma with_config_within:
  assumes step: "\<And>cfg. within (emitted read_only) (step cfg)"
  shows "within (emitted read_only) (with_config env ce vals step)"
  unfolding within_def
proof
  fix s
  obtain r1 s1 where 1: "Load env (config_flag vals) s = (r1, s1)" by force
  have e1: "emitted read_only s s1" using Load_reads 1 unfolding within_def by (metis snd_conv)
  show "emitted read_only s (snd (with_config env ce vals step s))"
  proof (cases "is_ok r1 \<and> is_ok (NewClients ce)")
    case False
    with 1 e1 show ?thesis by (cases r1; cases "NewClients ce") (auto simp: with_config_def)
  next
    case True
    then obtain cfg cl where r1: "r1 = Inr cfg" "NewClients ce = Inr cl" by (cases r1; cases "NewClients ce") auto
    obtain r2 s2 where 2: "step cfg s1 = (r2, s2)" by force
    have "emitted read_only s1 s2" using step 2 unfolding within_def by (metis snd_conv)
    with e1 have "emitted read_only s s2" by (rule em.trans)
    with 1 2 r1 show ?thesis by (cases r2) (simp_all add: with_config_def)
  qed
qed

lemma runVerify_reads: "emitted read_only s (snd (runVerify env ce args s))"
proof -
  have "emitted read_only s (snd (with_config env ce vals (\<lambda>cfg. Verify env cfg) s))" for vals
    using with_config_within [where step = "\<lambda>cfg. Verify env cfg", OF Verify_reads] unfolding within_def by blast
  then show ?thesis by (simp add: runVerify_def em.refl split: sum.split)
qed

lemma runApply_dry_reads:
  assumes "case parse_flags apply_flags args [] of Inl _ \<Rightarrow> True | Inr vals \<Rightarrow> dry_run_flag vals"
  shows "emitted read_only s (snd (runApply env ce args s))"
proof -
  have "emitted read_only s (snd (with_config env ce vals (\<lambda>cfg. Apply env (Some cfg) True) s))" for vals
    using with_config_within [where step = "\<lambda>cfg. Apply env (Some cfg) True", OF Apply_dry_reads]
    unfolding within_def by blast
  with assms show ?thesis by (auto simp: runApply_def em.refl split: sum.splits)
qed

text \<open>C4: the only command lines that can change anything are those of \<open>restore\<close>, and those of \<open>apply\<close>
  whose flags parse and do not ask for a dry run: all others make read-only calls at most, and
  without a known command no call at all.\<close>
theorem command_line_changes:
  "(may_change args \<or> emitted read_only s (snd (run env ce args s)))
   \<and> (args \<noteq> [] \<and> hd args \<in> {''apply'', ''restore'', ''verify''} \<or> snd (run env ce args s) = s)"
proof (cases args)
  case Nil
  then show ?thesis by (simp add: run_def em.refl)
next
  case (Cons cmd rest)
  then show ?thesis
    using runVerify_reads [of s env ce rest] runApply_dry_reads [of rest s env ce]
    by (auto simp: run_def may_change_def em.refl split: sum.splits)
qed

section \<open>Exit status\<close>

text \<open>The step a command line asks for, once its flags are parsed.\<close>

definition command_done :: "'w env \<Rightarrow> string \<Rightarrow> string gomap \<Rightarrow> LabConfig \<Rightarrow> 'w st \<Rightarrow> 'w st \<Rightarrow> bool" where
  "command_done env cmd vals cfg s s' \<longleftrightarrow>
     (if cmd = ''apply'' then \<exists>res. Apply env (Some cfg) (dry_run_flag vals) s = (Inr res, s')
      else if cmd = ''restore'' then Restore env (restore_dir vals cfg) s = (Inr (), s')
      else Verify env cfg s = (Inr (), s'))"

definition command_flags :: "string \<Rightarrow> flag_set" where
  "command_flags cmd =
     (if cmd = ''apply'' then apply_flags else if cmd = ''restore'' then restore_flags else verify_flags)"

lemma with_config_zero:
  assumes "with_config env ce vals step s = (0, s')"
  shows "\<exists>cfg s1 a. Load env (config_flag vals) s = (Inr cfg, s1) \<and> is_ok (NewClients ce) \<and> step cfg s1 = (Inr a, s')"
proof -
  obtain r1 s1 where 1: "Load env (config_flag vals) s = (r1, s1)" by force
  with assms obtain cfg cl where r1: "r1 = Inr cfg" "NewClients ce = Inr cl"
    by (cases r1; cases "NewClients ce") (auto simp: with_config_def)
  obtain r2 s2 where 2: "step cfg s1 = (r2, s2)" by force
  with assms 1 r1 obtain a where "r2 = Inr a" "s2 = s'" by (cases r2) (auto simp: with_config_def)
  with 1 2 r1 show ?thesis by auto
qed

lemma with_config_truth:
  assumes run: "with_config env ce vals step s = (code, s')"
    and good: "\<And>cfg s1 a. step cfg s1 = (Inr a, s') \<Longrightarrow> command_done env cmd vals cfg s1 s'"
  shows "code \<in> {0, 1} \<and> (code \<noteq> 0 \<or> (\<exists>cfg s1. Load env (config_flag vals) s = (Inr cfg, s1) \<and> config_wf cfg
    \<and> is_ok (NewClients ce) \<and> command_done env cmd vals cfg s1 s'))"
proof
  show "code \<in> {0, 1}" using run by (auto simp: with_config_def split: prod.splits sum.splits)
  show "code \<noteq> 0 \<or> (\<exists>cfg s1. Load env (config_flag vals) s = (Inr cfg, s1) \<and> config_wf cfg
    \<and> is_ok (NewClients ce) \<and> command_done env cmd vals cfg s1 s')"
  proof (cases "code = 0")
    case True
    with with_config_zero run obtain cfg s1 a where
      "Load env (config_flag vals) s = (Inr cfg, s1)" "is_ok (NewClients ce)" "step cfg s1 = (Inr a, s')" by metis
    with good Load_wf show ?thesis by blast
  qed simp
qed

text \<open>C23: the exit status is 0, 1 or 2, and it tells the truth: a known command that ends with 0 was
  asked for help, or its configuration was loaded and valid, the clients were made, and \<open>Apply\<close>,
  \<open>Restore\<close> or \<open>Verify\<close> succeeded with the directory and the dry-run option of the flags.\<close>
theorem exit_status_truthful:
  assumes "run env ce (cmd # rest) s = (code, s')" "cmd \<in> {''apply'', ''restore'', ''verify''}"
  shows "code \<in> {0, 1, 2} \<and>
    (code \<noteq> 0 \<or> parse_flags (command_flags cmd) rest [] = Inl HelpWanted
     \<or> (\<exists>vals cfg s1. parse_flags (command_flags cmd) rest [] = Inr vals
          \<and> Load env (config_flag vals) s = (Inr cfg, s1) \<and> config_wf cfg \<and> is_ok (NewClients ce)
          \<and> command_done env cmd vals cfg s1 s'))"
proof (cases "parse_flags (command_flags cmd) rest []")
  case (Inl e)
  with assms have "code = flag_exit e"
    by (auto simp: run_def command_flags_def runApply_def runRestore_def runVerify_def)
  with Inl show ?thesis by (cases e) (simp_all add: flag_exit_def)
next
  case (Inr vals)
  let ?goal = "code \<in> {0, 1} \<and> (code \<noteq> 0 \<or> (\<exists>cfg s1. Load env (config_flag vals) s = (Inr cfg, s1) \<and> config_wf cfg
    \<and> is_ok (NewClients ce) \<and> command_done env cmd vals cfg s1 s'))"
  have ?goal
  proof (cases "cmd = ''apply''")
    case True
    with assms(1) Inr have "with_config env ce vals (\<lambda>cfg. Apply env (Some cfg) (dry_run_flag vals)) s = (code, s')"
      by (simp add: run_def command_flags_def runApply_def)
    then show ?thesis by (rule with_config_truth) (auto simp: command_done_def True)
  next
    case not_apply: False
    show ?thesis
    proof (cases "cmd = ''restore''")
      case True
      with assms(1) Inr have "with_config env ce vals (\<lambda>cfg. Restore env (restore_dir vals cfg)) s = (code, s')"
        by (simp add: run_def command_flags_def runRestore_def)
      then show ?thesis by (rule with_config_truth) (simp add: command_done_def True)
    next
      case False
      with not_apply assms Inr have "with_config env ce vals (\<lambda>cfg. Verify env cfg) s = (code, s')"
        by (simp add: run_def command_flags_def runVerify_def)
      then show ?thesis by (rule with_config_truth) (use False not_apply in \<open>simp add: command_done_def\<close>)
    qed
  qed
  with Inr show ?thesis by auto
qed

section \<open>A session at the command line\<close>

text \<open>The configuration file is the same whenever it is read.\<close>

definition stable_file :: "'w env \<Rightarrow> string \<Rightarrow> LabConfig \<Rightarrow> bool" where
  "stable_file env path file \<longleftrightarrow>
     (\<forall>w data. fst (read_text env path w) = Inr data \<longrightarrow> yaml_unmarshal_lab env data = Inr file)"

definition file_dir :: "LabConfig \<Rightarrow> string" where
  "file_dir file = (if StateDir file = [] then DefaultStateDir else StateDir file)"

lemma quiet_load:
  assumes r: "store_reads env cl"
  shows "within (unchanged cl) (Load env path)"
proof -
  have "within (unchanged cl) (\<lambda>s. case LabConfig_Validate env cfg s of
            ((Some err, _), s') \<Rightarrow> (Inl err, s')
          | ((None, cfg), s') \<Rightarrow>
              (Inr (if StateDir cfg = [] then cfg\<lparr>StateDir := DefaultStateDir\<rparr> else cfg), s'))"
    for cfg
    using quiet_validate [OF r, of cfg]
    unfolding within_def by (auto split: prod.splits option.splits) (metis snd_conv)+
  with r show ?thesis
    by (auto simp: Load_def store_reads_def
        intro!: un.within_bind un.within_wrap un.within_liftR quiet_call)
qed

lemma Load_dir:
  assumes "stable_file env path file" "Load env path s = (Inr cfg, s')"
  shows "StateDir cfg = file_dir file"
proof -
  from assms(2) obtain data s1 cfg0 where d: "call (EReadFile path) (read_text env path) s = (Inr data, s1)"
    and c: "yaml_unmarshal_lab env data = Inr cfg0"
    and v: "(case LabConfig_Validate env cfg0 s1 of
       ((Some err, _), s') \<Rightarrow> (Inl err, s')
     | ((None, cfg), s') \<Rightarrow> (Inr (if StateDir cfg = [] then cfg\<lparr>StateDir := DefaultStateDir\<rparr> else cfg), s')) = (Inr cfg, s')"
    by (auto simp: Load_def comp_Inr)
  have "fst (read_text env path (world s)) = Inr data" using d by (auto simp: callE_def split: prod.splits)
  with assms(1) c have f: "cfg0 = file" by (auto simp: stable_file_def)
  obtain e cfg1 s2 where vv: "LabConfig_Validate env cfg0 s1 = ((e, cfg1), s2)" by (metis surj_pair)
  with v have e: "e = None" and "StateDir cfg = (if StateDir cfg1 = [] then DefaultStateDir else StateDir cfg1)"
    by (cases e; auto)+
  moreover have "StateDir cfg1 = StateDir file" using vv e f by (auto simp: LabConfig_Validate_ok)
  ultimately show ?thesis by (simp add: file_dir_def)
qed

text \<open>C2: \<open>day2-vcenter restore\<close> undoes \<open>day2-vcenter apply\<close>: whatever the exit status of an apply that
  is not a dry run, a restore with the same configuration file that ends with status 0 has given
  back the Infrastructure spec, every config map and every secret as they were before the apply,
  provided there was no backup file before and no file write failed.\<close>
theorem command_line_restores:
  assumes ok: "store_ok env cl" and codec: "state_codec_ok env"
    and flags: "parse_flags apply_flags args [] = Inr vals" "\<not> dry_run_flag vals"
      "parse_flags restore_flags args' [] = Inr vals'" "gm_get vals' ''state-dir'' = ''''"
      "config_flag vals' = config_flag vals"
    and fl: "stable_file env (config_flag vals) file"
    and none: "c_disk (cl (world s)) (statePath (file_dir file)) = None"
    and ap: "run env ce (''apply'' # args) s = (code, s1)" and nf: "list_all (\<lambda>e. \<not> failed_write e) (trace s1)"
    and undo: "run env ce' (''restore'' # args') s1 = (0, s2)"
  shows "c_spec (cl (world s2)) = c_spec (cl (world s)) \<and>
    c_config (cl (world s2)) = c_config (cl (world s)) \<and>
    c_secret (cl (world s2)) = c_secret (cl (world s))"
proof -
  let ?p = "statePath (file_dir file)"
  have rd: "store_reads env cl" using ok by (simp add: store_ok_def)
  have load: "cl (world t') = cl (world t)" if "Load env path t = (r, t')" for path t r t'
    using quiet_eq [OF quiet_load [OF rd] that] by simp
  have bu: "backed_up env ?p (cl (world s)) (cl (world s1))"
  proof (cases "Load env (config_flag vals) s")
    case (Pair r1 t)
    have a: "(code, s1) = with_config env ce vals (\<lambda>cfg. Apply env (Some cfg) False) s"
      using ap flags(1,2) by (simp add: run_def runApply_def)
    show ?thesis
    proof (cases "is_ok r1 \<and> is_ok (NewClients ce)")
      case False
      with a Pair have "s1 = t" by (cases r1; cases "NewClients ce") (auto simp: with_config_def)
      with load [OF Pair] none show ?thesis by (simp add: nothing_backed_up)
    next
      case True
      then obtain cfg k where r1: "r1 = Inr cfg" "NewClients ce = Inr k" by (cases r1; cases "NewClients ce") auto
      obtain r2 t2 where 2: "Apply env (Some cfg) False t = (r2, t2)" by force
      with a Pair r1 have t2: "t2 = s1" by (cases r2) (auto simp: with_config_def)
      have dir: "StateDir cfg = file_dir file" using Load_dir [OF fl] Pair r1 by blast
      show ?thesis using Apply_backed_up [OF ok _ 2 [unfolded t2] nf] none load [OF Pair] dir by simp
    qed
  qed
  have "with_config env ce' vals' (\<lambda>cfg. Restore env (restore_dir vals' cfg)) s1 = (0, s2)"
    using undo flags(3) by (simp add: run_def runRestore_def)
  from with_config_zero [OF this] obtain cfg t where l: "Load env (config_flag vals') s1 = (Inr cfg, t)"
    and r: "Restore env (restore_dir vals' cfg) t = (Inr (), s2)" by auto
  have "restore_dir vals' cfg = file_dir file"
    using Load_dir [OF fl] l flags(4,5) by (simp add: restore_dir_def)
  with r have "Restore env (file_dir file) t = (Inr (), s2)" by simp
  from Restore_gives_back [OF ok codec _ this] bu load [OF l] show ?thesis by simp
qed


section \<open>The flags are typed\<close>

definition fs_wf :: "flag_set \<Rightarrow> bool" where
  "fs_wf fs \<longleftrightarrow> list_all (\<lambda>name. name \<noteq> '''' \<and> hd name \<noteq> CHR ''-'' \<and> CHR ''='' \<notin> set name)
     (fs_strings fs @ fs_bools fs)"

definition flag_typed :: "flag_set \<Rightarrow> string \<times> string \<Rightarrow> bool" where
  "flag_typed fs nv \<longleftrightarrow>
     (if fst nv \<in> set (fs_bools fs) then snd nv \<in> {''true'', ''false''} else fst nv \<in> set (fs_strings fs))"

definition flags_typed :: "flag_set \<Rightarrow> string gomap \<Rightarrow> bool" where
  "flags_typed fs vals \<longleftrightarrow> gm_ok vals \<and> (\<forall>nv \<in> set vals. flag_typed fs nv)"

text \<open>The arguments that set the flags of a parse, each once.\<close>

definition render_flags :: "string gomap \<Rightarrow> string list" where
  "render_flags vals = map (\<lambda>(name, val). ''--'' @ name @ ''='' @ val) vals"

lemma program_flags_wf: "fs_wf apply_flags" "fs_wf restore_flags" "fs_wf verify_flags"
  by code_simp+

lemma flags_typed_put:
  assumes "flags_typed fs vals" "flag_typed fs (name, v)"
  shows "flags_typed fs (gm_put name v vals)"
proof -
  have "nv \<in> set vals \<or> nv = (name, v)" if "nv \<in> set (gm_put name v vals)" for nv
    using that by (induction vals) (auto split: if_splits)
  with assms show ?thesis unfolding flags_typed_def by auto
qed

lemma parse_flags_typed: "parse_flags fs args vals = Inr vals' \<Longrightarrow> flags_typed fs vals \<Longrightarrow> flags_typed fs vals'"
proof (induction fs args vals rule: parse_flags.induct)
  case (2 fs arg args vals)
  note put = flags_typed_put [OF "2.prems"(2)]
  show ?case
  proof (cases "flag_name arg")
    case None
    with "2.prems" show ?thesis by simp
  next
    case (Some x)
    then obtain body where Some: "flag_name arg = Some body" by blast
    obtain name val where sv: "split_value body = (name, val)" by force
    have ok: "\<not> (body = '''' \<or> hd body = CHR ''-'' \<or> hd body = CHR ''='')"
      using "2.prems"(1) Some by (auto split: if_splits)
    note IH = "2.IH" [OF Some ok sv [symmetric]]
    show ?thesis
    proof (cases "name \<in> set (fs_bools fs)")
      case True
      with "2.prems"(1) Some ok sv obtain b where b: "ParseBool (case val of None \<Rightarrow> ''true'' | Some v \<Rightarrow> v) = Some b"
        and r: "parse_flags fs args (gm_put name (if b then ''true'' else ''false'') vals) = Inr vals'"
        by (cases "ParseBool (case val of None \<Rightarrow> ''true'' | Some v \<Rightarrow> v)") auto
      from True have "flags_typed fs (gm_put name (if b then ''true'' else ''false'') vals)"
        by (intro put) (simp add: flag_typed_def)
      from IH(1) [OF True b r this] show ?thesis .
    next
      case False
      have name: "name \<in> set (fs_strings fs)" using "2.prems"(1) Some ok sv False by (auto split: if_splits)
      have typed: "flags_typed fs (gm_put name v vals)" for v
        using False name by (intro put) (simp add: flag_typed_def)
      show ?thesis
      proof (cases val)
        case None
        with "2.prems"(1) Some ok sv False name obtain v args' where a: "args = v # args'"
          and r: "parse_flags fs args' (gm_put name v vals) = Inr vals'" by (auto split: list.splits)
        from IH(2) [OF False name None a r typed] show ?thesis .
      next
        case v: (Some v)
        with "2.prems"(1) Some ok sv False name
        have r: "parse_flags fs args (gm_put name v vals) = Inr vals'" by simp
        from IH(3) [OF False name v r typed] show ?thesis .
      qed
    qed
  qed
qed simp

lemma flag_name_render: "flag_name (CHR ''-'' # CHR ''-'' # s) = (if s = [] then None else Some s)"
  by (simp add: flag_name_def)

lemma split_value_render:
  assumes "name \<noteq> []" "CHR ''='' \<notin> set name"
  shows "split_value (name @ ''='' @ v) = (name, Some v)"
  using assms Index_char_append [of "CHR ''=''" "tl name" v] by (cases name) (auto simp: split_value_def)

lemma parse_flags_value:
  assumes "flag_name arg = Some body" "body \<noteq> ''''" "hd body \<noteq> CHR ''-''" "hd body \<noteq> CHR ''=''"
    "split_value body = (name, Some v)" "flag_typed fs (name, v)"
  shows "parse_flags fs (arg # args) vals = parse_flags fs args (gm_put name v vals)"
proof (cases "name \<in> set (fs_bools fs)")
  case True
  then consider "v = ''true''" | "v = ''false''" using assms(6) by (auto simp: flag_typed_def)
  then obtain b where b: "ParseBool v = Some b" "v = (if b then ''true'' else ''false'')"
  proof cases
    case 1
    have "ParseBool ''true'' = Some True" by code_simp
    with 1 show ?thesis by (intro that [of True]) simp_all
  next
    case 2
    have "ParseBool ''false'' = Some False" by code_simp
    with 2 show ?thesis by (intro that [of False]) simp_all
  qed
  have "parse_flags fs (arg # args) vals = parse_flags fs args (gm_put name (if b then ''true'' else ''false'') vals)"
    using True assms(1-5) b(1) by simp
  with b(2) show ?thesis by simp
next
  case False
  with assms show ?thesis by (simp add: flag_typed_def)
qed

lemma parse_render:
  assumes "fs_wf fs" "flags_typed fs (acc @ vals)"
  shows "parse_flags fs (render_flags vals) acc = Inr (acc @ vals)"
  using assms(2)
proof (induction vals arbitrary: acc)
  case (Cons nv vals)
  obtain name v where nv: "nv = (name, v)" by (cases nv)
  have t: "flag_typed fs (name, v)" and fresh: "name \<notin> fst ` set acc"
    using Cons.prems nv by (auto simp: flags_typed_def gm_ok_def)
  have "name \<in> set (fs_strings fs @ fs_bools fs)" using t by (auto simp: flag_typed_def split: if_splits)
  then have n: "name \<noteq> ''''" "hd name \<noteq> CHR ''-''" "hd name \<noteq> CHR ''=''" "CHR ''='' \<notin> set name"
    using assms(1) hd_in_set [of name] unfolding fs_wf_def list_all_iff by (metis, metis, metis, metis)
  have "parse_flags fs (render_flags vals) (acc @ [(name, v)]) = Inr ((acc @ [(name, v)]) @ vals)"
    using Cons.prems nv by (intro Cons.IH) simp
  then have rec: "parse_flags fs (render_flags vals) (gm_put name v acc) = Inr (acc @ nv # vals)"
    using gm_put_fresh [OF fresh] nv by simp
  have "render_flags (nv # vals) = (''--'' @ name @ ''='' @ v) # render_flags vals"
    by (simp add: render_flags_def nv)
  also have "parse_flags fs \<dots> acc = parse_flags fs (render_flags vals) (gm_put name v acc)"
    by (rule parse_flags_value [OF _ _ _ _ split_value_render [OF n(1,4)] t])
      (use n in \<open>simp_all add: flag_name_render\<close>)
  finally show ?case using rec by simp
qed (simp add: render_flags_def)

text \<open>A command line that is accepted has well-typed flags.  However the arguments were written, each flag is
  set at most once, and only a flag that the usage text of the command names: a path with
  \<open>-config\<close>, with \<open>apply\<close> the boolean \<open>-dry-run\<close>, whose value is then \<open>true\<close> or \<open>false\<close> and nothing else,
  and with \<open>restore\<close> the directory \<open>-state-dir\<close>; and the flags written out again, one argument each,
  parse to the same values.\<close>
theorem parsed_flags_typed:
  assumes "parse_flags (command_flags cmd) args [] = Inr vals"
  shows "gm_ok vals
    \<and> (\<forall>(name, v) \<in> set vals. name = ''config''
        \<or> cmd = ''apply'' \<and> name = ''dry-run'' \<and> (v = ''true'' \<or> v = ''false'')
        \<or> cmd = ''restore'' \<and> name = ''state-dir'')
    \<and> parse_flags (command_flags cmd) (render_flags vals) [] = Inr vals"
proof -
  have t: "flags_typed (command_flags cmd) vals"
    by (rule parse_flags_typed [OF assms]) (simp add: flags_typed_def)
  have "fs_wf (command_flags cmd)" by (simp add: command_flags_def program_flags_wf)
  with parse_render [of "command_flags cmd" "[]" vals] t
  have "parse_flags (command_flags cmd) (render_flags vals) [] = Inr vals" by simp
  with t show ?thesis
    by (auto simp: flags_typed_def flag_typed_def command_flags_def apply_flags_def restore_flags_def
        verify_flags_def split: if_splits)
qed

end
