(* ===== verification/DemoCli.thy ===== *)
theory DemoCli
  imports DemoCluster Day2Cli
begin

text \<open>
  The properties of the command line, at the cluster of \<open>DemoCluster\<close>: an apply and a restore from
  the command line, on a machine with a \<open>KUBECONFIG\<close>.
\<close>

definition demo_clients :: client_env where
  "demo_clients =
     \<lparr>kubeconfig_var = ''/k'', home_dir = None, path_exists = (\<lambda>_. False),
      build_config = (\<lambda>p. Inr \<lparr>rc_Host = p, rc_QPS = 0, rc_Burst = 0\<rparr>),
      in_cluster_config = Inl (ForeignError ''not in cluster''), new_client = (\<lambda>kind cfg. Inr kind)\<rparr>"

lemma demo_new_clients: "is_ok (NewClients demo_clients)"
  by (simp add: NewClients_def loadRestConfig_def demo_clients_def bindR_def wrapR_def Let_def)

lemma demo_flags:
  "parse_flags apply_flags [] [] = Inr []" "parse_flags restore_flags [] [] = Inr []"
  "parse_flags apply_flags [''-config'', ''c'', ''-dry-run''] [] = Inr [(''config'', ''c''), (''dry-run'', ''true'')]"
  by code_simp+

lemma demo_load: "Load mem path s = (Inr demo_cfg, s\<lparr>trace := trace s @ [EReadFile path]\<rparr>)"
  by (simp add: Load_def comp_defs mem_load mem_validate) (simp add: demo_cfg_def)

definition cli_start :: "cluster st" where
  "cli_start = mem_st\<lparr>trace := [EReadFile DefaultConfigPath]\<rparr>"

lemma demo_cli_apply:
  "case Apply mem (Some demo_cfg) False cli_start of (r, s) \<Rightarrow> is_ok r \<and> list_all (\<lambda>e. \<not> failed_write e) (trace s) \<and>
     is_ok (fst (Restore mem (StateDir demo_cfg) (s\<lparr>trace := trace s @ [EReadFile DefaultConfigPath]\<rparr>)))"
  by (simp add: cli_start_def demo_run apply_defs restore_defs)

definition cli_applied :: "cluster st" where
  "cli_applied = snd (run mem demo_clients [''apply''] mem_st)"

lemma demo_run_apply: "run mem demo_clients [''apply''] mem_st = (0, cli_applied)"
  and demo_run_trace: "list_all (\<lambda>e. \<not> failed_write e) (trace cli_applied)"
  and demo_run_restore: "fst (run mem demo_clients [''restore''] cli_applied) = 0"
proof -
  obtain r s where a: "Apply mem (Some demo_cfg) False cli_start = (r, s)" by force
  with demo_cli_apply obtain x where r: "r = Inr x" and nf: "list_all (\<lambda>e. \<not> failed_write e) (trace s)"
    and re: "is_ok (fst (Restore mem (StateDir demo_cfg) (s\<lparr>trace := trace s @ [EReadFile DefaultConfigPath]\<rparr>)))"
    by (cases r) simp_all
  obtain k where k: "NewClients demo_clients = Inr k" using demo_new_clients by (cases "NewClients demo_clients") auto
  have st: "mem_st\<lparr>trace := trace mem_st @ [EReadFile DefaultConfigPath]\<rparr> = cli_start"
    by (simp add: cli_start_def mem_st_def)
  have "run mem demo_clients [''apply''] mem_st = (0, s)"
    using a r k st
    by (simp add: run_def runApply_def demo_flags with_config_def demo_load config_flag_def dry_run_flag_def gm_get_def)
  moreover from this have s: "cli_applied = s" by (simp add: cli_applied_def)
  ultimately show "run mem demo_clients [''apply''] mem_st = (0, cli_applied)" by simp
  from nf s show "list_all (\<lambda>e. \<not> failed_write e) (trace cli_applied)" by simp
  from re s obtain s2 where "Restore mem (StateDir demo_cfg)
      (cli_applied\<lparr>trace := trace cli_applied @ [EReadFile DefaultConfigPath]\<rparr>) = (Inr (), s2)"
    by (cases "Restore mem (StateDir demo_cfg) (cli_applied\<lparr>trace := trace cli_applied @ [EReadFile DefaultConfigPath]\<rparr>)";
      cases "fst (Restore mem (StateDir demo_cfg) (cli_applied\<lparr>trace := trace cli_applied @ [EReadFile DefaultConfigPath]\<rparr>))")
      auto
  with k show "fst (run mem demo_clients [''restore''] cli_applied) = 0"
    by (simp add: run_def runRestore_def demo_flags with_config_def demo_load config_flag_def restore_dir_def gm_get_def)
qed

theorem command_line_restores_witness:
  "c_secret (world (snd (run mem demo_clients [''restore''] cli_applied))) = c_secret mem_start"
proof -
  have conf: "stable_file mem (config_flag []) demo_cfg" by (simp add: stable_file_def mem_load)
  have none: "c_disk (id (world mem_st)) (statePath (file_dir demo_cfg)) = None"
    by (simp add: mem_start_sel)
  have nodry: "\<not> dry_run_flag []" "gm_get [] ''state-dir'' = ''''" by (simp_all add: dry_run_flag_def gm_get_def)
  have "run mem demo_clients [''restore''] cli_applied =
      (0, snd (run mem demo_clients [''restore''] cli_applied))"
    using demo_run_restore by (simp add: prod_eq_iff)
  from command_line_restores [OF mem_store_ok mem_codec_ok demo_flags(1) nodry(1) demo_flags(2) nodry(2) refl
      conf none demo_run_apply demo_run_trace this]
  show ?thesis by (simp add: mem_start_sel)
qed

theorem exit_status_truthful_witness:
  "\<exists>cfg s1 res. Load mem DefaultConfigPath mem_st = (Inr cfg, s1) \<and> Apply mem (Some cfg) False s1 = (Inr res, cli_applied)"
proof -
  have "''apply'' \<in> {''apply'', ''restore'', ''verify''}" by simp
  from exit_status_truthful [OF demo_run_apply this] show ?thesis
    by (auto simp: command_flags_def demo_flags command_done_def config_flag_def dry_run_flag_def gm_get_def)
qed


theorem parsed_flags_typed_witness:
  "parse_flags (command_flags ''apply'') [''--dry-run=true'', ''--config=x.yaml''] [] =
     Inr [(''dry-run'', ''true''), (''config'', ''x.yaml'')]"
proof -
  have p: "parse_flags (command_flags ''apply'') [''-dry-run=T'', ''--config'', ''x.yaml'', ''rest''] [] =
      Inr [(''dry-run'', ''true''), (''config'', ''x.yaml'')]" by code_simp
  from parsed_flags_typed [OF p] show ?thesis by (simp add: render_flags_def)
qed

end
