(* ===== verification/Topology.thy ===== *)
theory Topology
  imports Readiness
begin

text \<open>
  The CSI topology part of \<open>pkg/framework/storage.go\<close>: the topology keys the driver registers on
  the nodes, the nodes and the persistent volumes of a failure domain, and the topology categories
  of the driver's configuration.

  The API server is a parameter, one function for each kind of object; the wait for a node polls
  with its own poller, whose state is the two variables its condition closes over and the world.
\<close>

record csi_driver =
  dr_name :: string
  dr_topologyKeys :: "string list"

record csi_node =
  cn_name :: string
  cn_drivers :: "csi_driver list"

record CSITopologyKeys =
  Region :: string
  Zone :: string

record match_expr =
  me_key :: string
  me_operator :: string
  me_values :: "string list"

text \<open>\<open>pv_affinity\<close> is the list of the node selector terms of \<open>nodeAffinity.required\<close>, if there is one.\<close>

record persistent_volume =
  pv_name :: string
  pv_phase :: string
  pv_affinity :: "match_expr list list option"

section \<open>Topology keys\<close>

definition CSITopologyKeyPrefix :: string where
  [go_defs]: "CSITopologyKeyPrefix = ''topology.csi.vmware.com/''"

definition add_key :: "string \<Rightarrow> CSITopologyKeys \<Rightarrow> CSITopologyKeys" where
  "add_key key keys =
     (if \<not> HasPrefix key CSITopologyKeyPrefix then keys
      else let suffix = TrimPrefix key CSITopologyKeyPrefix in
           if Contains suffix ''region'' then keys\<lparr>Region := key\<rparr>
           else if Contains suffix ''zone'' then keys\<lparr>Zone := key\<rparr>
           else keys)"

definition driver_keys :: "csi_driver \<Rightarrow> CSITopologyKeys" where
  "driver_keys driver = fold add_key (dr_topologyKeys driver) \<lparr>Region = '''', Zone = ''''\<rparr>"

definition usable_driver :: "csi_driver \<Rightarrow> bool" where
  "usable_driver driver \<longleftrightarrow> dr_name driver = ClusterCSIDriverName \<and>
     Region (driver_keys driver) \<noteq> '''' \<and> Zone (driver_keys driver) \<noteq> ''''"

definition DiscoverCSITopologyKeys :: "('w \<Rightarrow> csi_node list res \<times> 'w) \<Rightarrow> 'w \<Rightarrow> CSITopologyKeys res \<times> 'w" where
  "DiscoverCSITopologyKeys get_csi_nodes =
     bindM (wrapM ''list CSINodes: %w'' [] get_csi_nodes) (\<lambda>csiNodes.
       case find_first usable_driver (concat (map cn_drivers csiNodes)) of
         Some driver \<Rightarrow> ret (driver_keys driver)
       | None \<Rightarrow> throw (Errorf ''no CSINode has vSphere CSI topology keys with prefix %s'' [AStr CSITopologyKeyPrefix]))"

text \<open>The map \<open>seen\<close> and the slice \<open>keys\<close> have the same elements.\<close>

definition see_key :: "string \<Rightarrow> string list \<Rightarrow> string list" where
  "see_key key keys =
     (if \<not> HasPrefix key CSITopologyKeyPrefix \<or> key \<in> set keys then keys else keys @ [key])"

definition see_driver :: "csi_driver \<Rightarrow> string list \<Rightarrow> string list" where
  "see_driver driver keys =
     (if dr_name driver \<noteq> ClusterCSIDriverName then keys else fold see_key (dr_topologyKeys driver) keys)"

definition GetCSINodeTopologyKeys :: "('w \<Rightarrow> csi_node list res \<times> 'w) \<Rightarrow> 'w \<Rightarrow> string list res \<times> 'w" where
  "GetCSINodeTopologyKeys get_csi_nodes =
     bindM (wrapM ''list CSINodes: %w'' [] get_csi_nodes) (\<lambda>csiNodes.
       ret (fold (\<lambda>csiNode. fold see_driver (cn_drivers csiNode)) csiNodes []))"

section \<open>Nodes of a failure domain\<close>

definition node_in_topology :: "CSITopologyKeys \<Rightarrow> string \<Rightarrow> string \<Rightarrow> node \<Rightarrow> bool" where
  "node_in_topology keys region zone n \<longleftrightarrow>
     n_deletionTimestamp n = None \<and>
     gm_get (n_labels n) (Region keys) = region \<and> gm_get (n_labels n) (Zone keys) = zone \<and>
     list_ex (\<lambda>c. cond_type c = ''Ready'' \<and> cond_status c = ''True'') (n_conditions n)"

definition FindReadyNodeInTopology ::
  "('w \<Rightarrow> node list res \<times> 'w) \<Rightarrow> CSITopologyKeys \<Rightarrow> string \<Rightarrow> string \<Rightarrow> 'w \<Rightarrow> string option res \<times> 'w" where
  "FindReadyNodeInTopology get_nodes keys region zone =
     bindM (wrapM ''list nodes: %w'' [] get_nodes) (\<lambda>nodes.
       ret (map_option n_name (find_first (node_in_topology keys region zone) nodes)))"

type_synonym 'w node_vars = "(goerror option \<times> string) \<times> 'w"

definition node_cond ::
  "('w \<Rightarrow> node list res \<times> 'w) \<Rightarrow> CSITopologyKeys \<Rightarrow> string \<Rightarrow> string \<Rightarrow> 'w node_vars condition_fn" where
  "node_cond get_nodes keys region zone = (\<lambda>((lastErr, nodeName), w).
     case FindReadyNodeInTopology get_nodes keys region zone w of
       (Inl err, w) \<Rightarrow> (Inr False, ((Some err, nodeName), w))
     | (Inr None, w) \<Rightarrow>
         (Inr False, ((Some (Errorf ''no Ready node found for region=%s zone=%s'' [AStr region, AStr zone]), nodeName), w))
     | (Inr (Some name), w) \<Rightarrow> (Inr True, ((None, name), w)))"

definition WaitForReadyNodeInTopology ::
  "'w node_vars poller \<Rightarrow> ('w \<Rightarrow> node list res \<times> 'w) \<Rightarrow> CSITopologyKeys \<Rightarrow> string \<Rightarrow> string \<Rightarrow> int \<Rightarrow>
   'w \<Rightarrow> string res \<times> 'w" where
  "WaitForReadyNodeInTopology poller get_nodes keys region zone timeout w =
     (case poller DefaultPolling timeout (node_cond get_nodes keys region zone) ((None, ''''), w) of
        (None, (_, nodeName), w) \<Rightarrow> (Inr nodeName, w)
      | (Some pollErr, (Some lastErr, _), w) \<Rightarrow> (Inl (Wrapf ''%w: %v'' [AErr lastErr] pollErr), w)
      | (Some pollErr, (None, _), w) \<Rightarrow> (Inl pollErr, w))"

section \<open>Volumes of a failure domain\<close>

definition in_value :: "match_expr \<Rightarrow> string option" where
  "in_value expr = (if me_operator expr = ''In'' then (case me_values expr of [] \<Rightarrow> None | v # _ \<Rightarrow> Some v) else None)"

definition add_expr :: "CSITopologyKeys \<Rightarrow> match_expr \<Rightarrow> string \<times> string \<Rightarrow> string \<times> string" where
  "add_expr keys expr = (\<lambda>(region, zone).
     if me_key expr = Region keys
     then (case in_value expr of None \<Rightarrow> region | Some v \<Rightarrow> v, zone)
     else if me_key expr = Zone keys
     then (region, case in_value expr of None \<Rightarrow> zone | Some v \<Rightarrow> v)
     else (region, zone))"

definition PVTopologyLabels :: "persistent_volume \<Rightarrow> CSITopologyKeys \<Rightarrow> string \<times> string \<times> bool" where
  "PVTopologyLabels pv keys =
     (case pv_affinity pv of
        None \<Rightarrow> ('''', '''', False)
      | Some terms \<Rightarrow>
          (case fold (fold (add_expr keys)) terms ('''', '''') of
             (region, zone) \<Rightarrow> (region, zone, region \<noteq> '''' \<and> zone \<noteq> '''')))"

definition PVBelongsToFailureDomain :: "persistent_volume \<Rightarrow> CSITopologyKeys \<Rightarrow> string \<Rightarrow> string \<Rightarrow> bool" where
  "PVBelongsToFailureDomain pv keys region zone \<longleftrightarrow>
     (case PVTopologyLabels pv keys of (pvRegion, pvZone, ok) \<Rightarrow> ok \<and> pvRegion = region \<and> pvZone = zone)"

definition ListPVsInFailureDomain ::
  "('w \<Rightarrow> persistent_volume list res \<times> 'w) \<Rightarrow> CSITopologyKeys \<Rightarrow> string \<Rightarrow> string \<Rightarrow> 'w \<Rightarrow>
   persistent_volume list res \<times> 'w" where
  "ListPVsInFailureDomain get_pvs keys region zone =
     bindM (wrapM ''list persistent volumes: %w'' [] get_pvs) (\<lambda>pvs.
       ret (filter (\<lambda>pv. PVBelongsToFailureDomain pv keys region zone) pvs))"

section \<open>The topology categories of a configuration\<close>

text \<open>
  The pattern \<open>(?m)^\s*topology-categories\s*=\s*(.+?)\s*$\<close>, written out.  A match starts at the
  first line start from which it can: white space, also across lines, then the key, white space, an
  equals sign and white space again.  If anything else follows, the submatch is the rest of that
  line without its trailing white space; if nothing but white space follows to the end of the text,
  it is the last of it that is not a line break, since \<open>.\<close> needs one character.
\<close>

definition re_space :: "char \<Rightarrow> bool" where
  "re_space c \<longleftrightarrow> c \<in> {CHR 0x09, CHR 0x0A, CHR 0x0C, CHR 0x0D, CHR '' ''}"

definition rstrip :: "string \<Rightarrow> string" where
  "rstrip s = rev (dropWhile re_space (rev s))"

definition topology_key :: string where
  "topology_key = ''topology-categories''"

definition key_value :: "string \<Rightarrow> string option" where
  "key_value s =
     (let s' = dropWhile re_space s in
      if s' \<noteq> '''' then Some (rstrip (takeWhile (\<lambda>c. c \<noteq> CHR 0x0A) s'))
      else case filter (\<lambda>c. c \<noteq> CHR 0x0A) s of [] \<Rightarrow> None | blanks \<Rightarrow> Some [last blanks])"

definition key_at :: "string \<Rightarrow> string option" where
  "key_at s =
     (let s1 = dropWhile re_space s in
      if HasPrefix s1 topology_key
      then (case dropWhile re_space (TrimPrefix s1 topology_key) of
              c # s2 \<Rightarrow> if c = CHR ''='' then key_value s2 else None
            | [] \<Rightarrow> None)
      else None)"

function find_key :: "string \<Rightarrow> string option" where
  "find_key s =
     (case key_at s of
        Some v \<Rightarrow> Some v
      | None \<Rightarrow>
          (case dropWhile (\<lambda>c. c \<noteq> CHR 0x0A) s of
             [] \<Rightarrow> None
           | _ # rest \<Rightarrow> find_key rest))"
  by pat_completeness auto
termination
proof (relation "measure length")
  fix s :: string and v va rest
  assume "dropWhile (\<lambda>c. c \<noteq> CHR 0x0A) s = v # rest"
  then have "length (v # rest) \<le> length s" by (metis length_dropWhile_le)
  then show "(rest, s) \<in> measure length" by simp
qed simp

declare find_key.simps [simp del]

definition CSIConfigTopologyCategories :: "string \<Rightarrow> string list option" where
  "CSIConfigTopologyCategories config =
     map_option (\<lambda>m. filter (\<lambda>c. c \<noteq> '''') (map TrimSpace (Split (TrimChar m CHR 0x22) CHR '','')))
       (find_key config)"

section \<open>Discovered keys\<close>

definition is_region_key :: "string \<Rightarrow> bool" where
  "is_region_key key \<longleftrightarrow> HasPrefix key CSITopologyKeyPrefix \<and>
     Contains (TrimPrefix key CSITopologyKeyPrefix) ''region''"

definition is_zone_key :: "string \<Rightarrow> bool" where
  "is_zone_key key \<longleftrightarrow> HasPrefix key CSITopologyKeyPrefix \<and>
     \<not> Contains (TrimPrefix key CSITopologyKeyPrefix) ''region'' \<and>
     Contains (TrimPrefix key CSITopologyKeyPrefix) ''zone''"

lemma add_key_eq:
  "add_key key keys =
     (if is_region_key key then keys\<lparr>Region := key\<rparr>
      else if is_zone_key key then keys\<lparr>Zone := key\<rparr> else keys)"
  by (simp add: add_key_def is_region_key_def is_zone_key_def Let_def)

lemma fold_add_key:
  "Region (fold add_key ks keys) = last (Region keys # filter is_region_key ks) \<and>
   Zone (fold add_key ks keys) = last (Zone keys # filter is_zone_key ks)"
proof (induction ks arbitrary: keys)
  case (Cons k ks)
  have "\<not> (is_region_key k \<and> is_zone_key k)" by (simp add: is_region_key_def is_zone_key_def)
  then show ?case using Cons [of "add_key k keys"] by (auto simp: add_key_eq)
qed simp

lemma last_filter: "x = last (y # filter P xs) \<Longrightarrow> x = y \<or> x \<in> set xs \<and> P x"
  using last_in_set [of "filter P xs"] by (auto split: if_splits)

lemma driver_keys_found:
  "usable_driver d \<Longrightarrow> dr_name d = ClusterCSIDriverName \<and>
     Region (driver_keys d) \<in> set (dr_topologyKeys d) \<and> is_region_key (Region (driver_keys d)) \<and>
     Zone (driver_keys d) \<in> set (dr_topologyKeys d) \<and> is_zone_key (Zone (driver_keys d))"
proof -
  assume u: "usable_driver d"
  let ?ks = "dr_topologyKeys d"
  have "Region (driver_keys d) = last ([] # filter is_region_key ?ks)"
    "Zone (driver_keys d) = last ([] # filter is_zone_key ?ks)"
    using fold_add_key [of ?ks "\<lparr>Region = [], Zone = []\<rparr>"] unfolding driver_keys_def by simp_all
  from this [THEN last_filter] u show ?thesis unfolding usable_driver_def by blast
qed

lemma driver_keys_missing:
  assumes "dr_name d = ClusterCSIDriverName" "k \<in> set (dr_topologyKeys d)" "is_region_key k"
    "k' \<in> set (dr_topologyKeys d)" "is_zone_key k'"
  shows "usable_driver d"
proof -
  have ne: "is_region_key x \<Longrightarrow> x \<noteq> ''''" "is_zone_key x \<Longrightarrow> x \<noteq> ''''" for x
    by (auto simp: is_region_key_def is_zone_key_def CSITopologyKeyPrefix_def HasPrefix_iff)
  have "filter is_region_key (dr_topologyKeys d) \<noteq> []" "filter is_zone_key (dr_topologyKeys d) \<noteq> []"
    using assms by (auto simp: filter_empty_conv)
  then have "is_region_key (Region (driver_keys d))" "is_zone_key (Zone (driver_keys d))"
    using fold_add_key [of "dr_topologyKeys d" "\<lparr>Region = [], Zone = []\<rparr>"]
      last_in_set [of "filter is_region_key (dr_topologyKeys d)"] last_in_set [of "filter is_zone_key (dr_topologyKeys d)"]
    by (auto simp: driver_keys_def)
  with assms(1) ne show ?thesis by (simp add: usable_driver_def)
qed

text \<open>The topology keys of a cluster are found exactly when some node's vSphere driver has registered
  both a region key and a zone key; the two that are returned are registered by one and the same
  driver, are of the right kind, and so are different.\<close>
theorem discovered_keys:
  assumes "get_csi_nodes w = (Inr nodes, w1)" "DiscoverCSITopologyKeys get_csi_nodes w = (r, w')"
  shows "case r of
      Inr keys \<Rightarrow> \<exists>n \<in> set nodes. \<exists>d \<in> set (cn_drivers n). dr_name d = ClusterCSIDriverName
        \<and> {Region keys, Zone keys} \<subseteq> set (dr_topologyKeys d)
        \<and> is_region_key (Region keys) \<and> is_zone_key (Zone keys) \<and> Region keys \<noteq> Zone keys
    | Inl _ \<Rightarrow> \<not> (\<exists>n \<in> set nodes. \<exists>d \<in> set (cn_drivers n). \<exists>k k'. dr_name d = ClusterCSIDriverName
        \<and> {k, k'} \<subseteq> set (dr_topologyKeys d) \<and> is_region_key k \<and> is_zone_key k')"
proof -
  let ?f = "find_first usable_driver (concat (map cn_drivers nodes))"
  have r: "r = (case ?f of Some d \<Rightarrow> Inr (driver_keys d)
      | None \<Rightarrow> Inl (Errorf ''no CSINode has vSphere CSI topology keys with prefix %s'' [AStr CSITopologyKeyPrefix]))"
    using assms by (auto simp: DiscoverCSITopologyKeys_def bindM_def wrapM_def ret_def throw_def split: option.splits)
  show ?thesis
  proof (cases ?f)
    case None
    then have "\<forall>n \<in> set nodes. \<forall>d \<in> set (cn_drivers n). \<not> usable_driver d"
      by (auto simp: find_first_None_iff)
    with r None driver_keys_missing show ?thesis by fastforce
  next
    case (Some d)
    then obtain n where "n \<in> set nodes" "d \<in> set (cn_drivers n)" "usable_driver d"
      using find_first_SomeD [of usable_driver "concat (map cn_drivers nodes)" d] by auto
    moreover have "is_region_key k \<and> is_zone_key k' \<Longrightarrow> k \<noteq> k'" for k k'
      by (auto simp: is_region_key_def is_zone_key_def)
    ultimately show ?thesis using r Some driver_keys_found [of d] by auto
  qed
qed

section \<open>Nodes\<close>

text \<open>The node that \<open>WaitForReadyNodeInTopology\<close> returns was, in the last listing it made, a node
  that is not being deleted, has the labels of the region and the zone, and is Ready.\<close>
theorem ready_node_found:
  assumes "poller_ok poller" "WaitForReadyNodeInTopology poller get_nodes keys region zone timeout w = (Inr name, w')"
  shows "\<exists>v nodes n. get_nodes v = (Inr nodes, w') \<and> n \<in> set nodes \<and> n_name n = name
     \<and> n_deletionTimestamp n = None \<and> gm_get (n_labels n) (Region keys) = region
     \<and> gm_get (n_labels n) (Zone keys) = zone
     \<and> (\<exists>c \<in> set (n_conditions n). cond_type c = ''Ready'' \<and> cond_status c = ''True'')"
proof -
  let ?c = "node_cond get_nodes keys region zone"
  obtain k where "poller DefaultPolling timeout ?c ((None, []), w) = poll_upto k ?c ((None, []), w)"
    using assms(1) unfolding poller_ok_def by blast
  with assms(2) obtain le where "poll_upto k ?c ((None, []), w) = (None, (le, name), w')"
    by (auto simp: WaitForReadyNodeInTopology_def split: prod.splits option.splits)
  from poll_upto_success [OF this] obtain le0 nm v where c: "?c ((le0, nm), v) = (Inr True, (le, name), w')"
    by auto
  then have "FindReadyNodeInTopology get_nodes keys region zone v = (Inr (Some name), w')"
    by (auto simp: node_cond_def split: prod.splits sum.splits option.splits)
  then obtain nodes where "get_nodes v = (Inr nodes, w')"
    "map_option n_name (find_first (node_in_topology keys region zone) nodes) = Some name"
    unfolding FindReadyNodeInTopology_def bindM_Inr wrapM_Inr ret_Inr by (auto dest: sym [of "Some name"])
  moreover from this(2) obtain n where "find_first (node_in_topology keys region zone) nodes = Some n" "n_name n = name"
    by auto
  ultimately
  show ?thesis
    using find_first_SomeD [of "node_in_topology keys region zone" nodes n]
    by (auto simp: node_in_topology_def list_ex_iff)
qed

section \<open>Volumes\<close>

text \<open>The reference: the value of the last \<open>In\<close> expression for a key, empty if there is none.\<close>

definition affinity_value :: "string \<Rightarrow> persistent_volume \<Rightarrow> string" where
  "affinity_value key pv =
     last ('''' # List.map_filter in_value
       (filter (\<lambda>e. me_key e = key) (concat (case pv_affinity pv of None \<Rightarrow> [] | Some terms \<Rightarrow> terms))))"

lemma fold_concat: "fold (fold f) xss a = fold f (concat xss) a"
  by (induction xss arbitrary: a) auto

lemma fold_add_expr:
  assumes "Region keys \<noteq> Zone keys"
  shows "fold (add_expr keys) es (r, z) =
    (last (r # List.map_filter in_value (filter (\<lambda>e. me_key e = Region keys) es)),
     last (z # List.map_filter in_value (filter (\<lambda>e. me_key e = Zone keys) es)))"
  using assms
  by (induction es arbitrary: r z) (auto simp: add_expr_def List.map_filter_simps split: option.splits)

text \<open>\<open>PVBelongsToFailureDomain\<close> agrees with the reference: with two different keys, a volume
  belongs to a failure domain exactly if the last \<open>In\<close> values its node affinity has for the region
  key and for the zone key are that region and that zone and neither is empty; and the listing
  returns exactly those volumes, in order.\<close>
theorem volumes_of_failure_domain:
  assumes "Region keys \<noteq> Zone keys" "get_pvs w = (Inr pvs, w1)"
  shows "PVBelongsToFailureDomain pv keys region zone
       = (affinity_value (Region keys) pv = region \<and> affinity_value (Zone keys) pv = zone \<and> region \<noteq> '''' \<and> zone \<noteq> '''')
     \<and> ListPVsInFailureDomain get_pvs keys region zone w = (Inr (filter (\<lambda>pv. affinity_value (Region keys) pv = region
         \<and> affinity_value (Zone keys) pv = zone \<and> region \<noteq> '''' \<and> zone \<noteq> '''') pvs), w1)"
proof -
  have b: "PVBelongsToFailureDomain pv keys region zone
       = (affinity_value (Region keys) pv = region \<and> affinity_value (Zone keys) pv = zone \<and> region \<noteq> '''' \<and> zone \<noteq> '''')" for pv
    by (auto simp: PVBelongsToFailureDomain_def PVTopologyLabels_def affinity_value_def fold_concat
        fold_add_expr [OF assms(1)] List.map_filter_simps split: option.splits)
  with assms(2) show ?thesis by (simp add: ListPVsInFailureDomain_def bindM_def wrapM_def ret_def)
qed

section \<open>Reading back the categories\<close>

lemma re_space_plain: "plain_char c \<Longrightarrow> \<not> re_space c"
  by (auto simp: re_space_def plain_char_def ws_seqs_def)

lemma TrimSpace_plain: "plain s \<Longrightarrow> TrimSpace s = s"
proof -
  assume p: "plain s"
  show ?thesis
  proof (cases "s = []")
    case False
    have "ws_prefix (map rev ws_seqs) (rev s) = None"
    proof (rule ccontr)
      assume "ws_prefix (map rev ws_seqs) (rev s) \<noteq> None"
      then obtain w where "ws_prefix (map rev ws_seqs) (rev s) = Some w" by blast
      from ws_prefix_Some [OF this] obtain v t where v: "v \<in> set ws_seqs" "v \<noteq> []" "rev s = rev v @ t" by auto
      then have "s = rev t @ v" by (metis rev_append rev_rev_ident)
      with p v(1,2) show False by (cases v) (force simp: plain_def plain_char_def)+
    qed
    with False p show ?thesis by (intro TrimSpace_plain_edges) (cases s; simp)+
  qed simp
qed

lemma TrimChar_maybe_quoted:
  "CHR 0x22 \<notin> set v \<Longrightarrow> q \<in> {[], [CHR 0x22]} \<Longrightarrow> v \<noteq> [] \<Longrightarrow> TrimChar (q @ v @ q) CHR 0x22 = v"
proof -
  assume v: "CHR 0x22 \<notin> set v" "v \<noteq> []" and q: "q \<in> {[], [CHR 0x22]}"
  have 1: "dropWhile (\<lambda>x. x = CHR 0x22) (q @ v @ q) = v @ q"
    using v q by (cases v) auto
  have "dropWhile (\<lambda>x. x = CHR 0x22) (rev (v @ q)) = rev v"
    using v q by (cases "rev v") (auto simp: rev_eq_Cons_iff)
  with 1 show ?thesis by (simp add: TrimChar_def)
qed

definition category_ok :: "string \<Rightarrow> bool" where
  "category_ok c \<longleftrightarrow> c \<noteq> '''' \<and> plain c \<and> CHR '','' \<notin> set c \<and> CHR 0x22 \<notin> set c"

text \<open>A value without white space is read to the end of its line.\<close>

lemma key_value_line:
  assumes v: "v \<noteq> []" "\<forall>c \<in> set v. \<not> re_space c"
  shows "key_value (CHR '' '' # v @ CHR 0x0A # post) = Some v"
proof -
  from v obtain a v' where av: "v = a # v'" by (cases v) auto
  have "dropWhile re_space (CHR '' '' # v @ CHR 0x0A # post) = v @ CHR 0x0A # post"
    using v av by (simp add: re_space_def)
  moreover have "takeWhile (\<lambda>c. c \<noteq> CHR 0x0A) (v @ CHR 0x0A # post) = v"
    using v by (induction v) (auto simp: re_space_def)
  moreover have "rstrip v = v"
    using v by (cases v rule: rev_cases) (simp_all add: rstrip_def)
  ultimately show ?thesis using av by (simp add: key_value_def Let_def)
qed

lemma key_at_line:
  assumes "v \<noteq> []" "\<forall>c \<in> set v. \<not> re_space c"
  shows "key_at (topology_key @ '' = '' @ v @ CHR 0x0A # post) = Some v"
  using key_value_line [OF assms, of post]
  by (simp add: key_at_def topology_key_def re_space_def HasPrefix_iff TrimPrefix_def Let_def)

text \<open>From an earlier line start a match reaches the key line only across blank lines.\<close>

lemma key_at_before:
  assumes p: "p \<noteq> [] \<Longrightarrow> last p = CHR 0x0A" and no: "\<not> Contains p topology_key"
  shows "key_at (p @ rest) \<in> {None, key_at rest}"
proof (cases "\<forall>c \<in> set p. re_space c")
  case True
  then have "dropWhile re_space (p @ rest) = dropWhile re_space rest" by (induction p) auto
  then show ?thesis by (simp add: key_at_def)
next
  case False
  then obtain q where q: "dropWhile re_space p = q" "q \<noteq> []" by (auto simp: dropWhile_eq_Nil_conv)
  have suffix: "p = takeWhile re_space p @ q" using q(1) takeWhile_dropWhile_id [of re_space p] by simp
  have d: "dropWhile re_space (p @ rest) = q @ rest" using False q(1) by (auto simp: dropWhile_append1)
  have "\<not> HasPrefix (q @ rest) topology_key"
  proof
    assume "HasPrefix (q @ rest) topology_key"
    then obtain t where t: "q @ rest = topology_key @ t" by (auto simp: HasPrefix_iff)
    then consider us where "q = topology_key @ us" | us where "topology_key = q @ us"
      by (auto simp: append_eq_append_conv2 dest: sym)
    then show False
    proof cases
      case (1 us)
      with suffix have "Contains p topology_key" unfolding Contains_iff by metis
      with no show False by contradiction
    next
      case (2 us)
      have "last q = CHR 0x0A" using p q(2) suffix by (metis append_is_Nil_conv last_appendR)
      with q(2) have "CHR 0x0A \<in> set q" by (metis last_in_set)
      with 2 have "CHR 0x0A \<in> set topology_key" by (metis Un_iff set_append)
      then show False by (simp add: topology_key_def)
    qed
  qed
  with d show ?thesis by (simp add: key_at_def Let_def)
qed

lemma find_key_skip:
  assumes "p = [] \<or> last p = CHR 0x0A" "\<not> Contains p topology_key" "key_at rest = Some v"
  shows "find_key (p @ rest) = Some v"
  using assms
proof (induction p rule: length_induct)
  case (1 p)
  show ?case
  proof (cases "p = []")
    case True
    with 1 show ?thesis by (simp add: find_key.simps [of rest])
  next
    case False
    show ?thesis
    proof (cases "key_at (p @ rest)")
      case None
      obtain a b where ab: "p = a @ CHR 0x0A # b" "CHR 0x0A \<notin> set a"
        using False 1(2) split_list_first [of "CHR 0x0A" p] by (metis last_in_set)
      have "dropWhile (\<lambda>c. c \<noteq> CHR 0x0A) (p @ rest) = CHR 0x0A # b @ rest"
        using ab(2) unfolding ab(1) by (induction a) auto
      with None have "find_key (p @ rest) = find_key (b @ rest)" by (simp add: find_key.simps [of "p @ rest"])
      also have "\<dots> = Some v"
      proof -
        have "b = [] \<or> last b = CHR 0x0A" using ab 1(2) by (cases "b = []") auto
        moreover have "\<not> Contains b topology_key"
          using ab(1) 1(3) unfolding Contains_iff by (metis append.assoc append_Cons)
        moreover have "length b < length p" using ab(1) by simp
        ultimately show ?thesis using 1(1,4) by blast
      qed
      finally show ?thesis .
    next
      case (Some u)
      with key_at_before [of p rest] 1(2-4) False have "u = v" by auto
      with Some show ?thesis by (simp add: find_key.simps [of "p @ rest"])
    qed
  qed
qed

text \<open>C38: the categories that the driver operator writes into its configuration are read back, with
  or without quotes around them, wherever the line stands, as long as nothing before it mentions the
  key.\<close>
theorem categories_roundtrip:
  assumes "cats \<noteq> []" "\<forall>c \<in> set cats. category_ok c" "q \<in> {[], [CHR 0x22]}"
    and "pre = [] \<or> last pre = CHR 0x0A" "\<not> Contains pre topology_key"
  shows "CSIConfigTopologyCategories
       (pre @ topology_key @ '' = '' @ (q @ Join cats '','' @ q) @ CHR 0x0A # post) = Some cats"
proof -
  let ?j = "Join cats '',''"
  have chars: "plain ?j \<and> CHR 0x22 \<notin> set ?j \<and> ?j \<noteq> []"
    using assms(1,2)
  proof (induction cats rule: induct_list012)
    case (3 a b cs)
    have "plain '',''" by (simp add: plain_char_def ws_seqs_def)
    with 3 show ?case by (simp add: category_ok_def)
  qed (simp_all add: category_ok_def)
  have "\<forall>c \<in> set (q @ ?j @ q). \<not> re_space c"
    using chars assms(3) re_space_plain by (auto simp: plain_def re_space_def)
  then have "key_at (topology_key @ '' = '' @ (q @ ?j @ q) @ CHR 0x0A # post) = Some (q @ ?j @ q)"
    using key_at_line [of "q @ ?j @ q" post] chars by simp
  from find_key_skip [OF assms(4,5) this]
  have "find_key (pre @ topology_key @ '' = '' @ (q @ ?j @ q) @ CHR 0x0A # post) = Some (q @ ?j @ q)" .
  moreover have "TrimChar (q @ ?j @ q) CHR 0x22 = ?j" using TrimChar_maybe_quoted chars assms(3) by blast
  moreover have "Split ?j CHR '','' = cats"
    using Split_Join [of cats "CHR '',''"] assms(1,2) by (simp add: category_ok_def)
  moreover have "filter (\<lambda>c. c \<noteq> '''') (map TrimSpace cats) = cats"
    using assms(2) by (induction cats) (simp_all add: category_ok_def TrimSpace_plain)
  ultimately show ?thesis by (simp only: CSIConfigTopologyCategories_def option.map)
qed

end
