(* ===== verification/Storage.thy ===== *)
theory Storage
  imports Topology
begin

text \<open>
  The rest of \<open>pkg/framework/storage.go\<close>: test namespaces, storage classes, claims, volumes and pods,
  and the configuration of the CSI driver.

  The API server is the record \<open>storage_api\<close> of parameters over a world \<open>'w\<close>; the polls have pollers
  of their own, whose state is the world and the variable the condition sets, if any.  Progress
  output is left out, and with it the clock that only throttles it.  A quantity is its parsed text;
  \<open>resource.MustParse\<close> panics on a text it cannot parse, which is the error \<open>ForeignError ''panic''\<close>.
\<close>

record selector_term =
  tm_expressions :: "(string \<times> string list) list"

record storage_class =
  sc_name :: string
  sc_annotations :: "string gomap"
  sc_provisioner :: string
  sc_parameters :: "string gomap"
  sc_reclaimPolicy :: "string option"
  sc_bindingMode :: "string option"
  sc_topologies :: "selector_term list"
  sc_mountOptions :: "string list"
  sc_allowExpansion :: "bool option"

record claim =
  pvc_namespace :: string
  pvc_name :: string
  pvc_accessModes :: "string list"
  pvc_storage :: string
  pvc_storageClass :: "string option"
  pvc_phase :: string
  pvc_volumeName :: string

record pod_spec =
  po_namespace :: string
  po_name :: string
  po_nodeSelector :: "string gomap"
  po_runAsNonRoot :: bool
  po_runAsUser :: int
  po_seccomp :: string
  po_container :: string
  po_image :: string
  po_command :: "string list"
  po_allowEscalation :: bool
  po_dropCapabilities :: "string list"
  po_mounts :: "(string \<times> string) list"
  po_volumes :: "(string \<times> string) list"

record container =
  ct_name :: string
  ct_args :: "string list"

text \<open>The driver configuration: the driver type, the vSphere part if there is one (its categories and
  its other fields), and everything else of the object.\<close>

record csi_driver_object =
  cd_driverType :: string
  cd_vsphere :: "(string list \<times> string) option"
  cd_other :: string

record 'w storage_api =
  create_namespace :: "string \<Rightarrow> string gomap \<Rightarrow> 'w \<Rightarrow> string res \<times> 'w"
  get_namespace :: "string \<Rightarrow> 'w \<Rightarrow> string gomap res \<times> 'w"
  delete_namespace :: "string \<Rightarrow> 'w \<Rightarrow> unit res \<times> 'w"
  get_class :: "string \<Rightarrow> 'w \<Rightarrow> storage_class res \<times> 'w"
  list_classes :: "'w \<Rightarrow> storage_class list res \<times> 'w"
  create_class :: "storage_class \<Rightarrow> 'w \<Rightarrow> storage_class res \<times> 'w"
  delete_class :: "string \<Rightarrow> 'w \<Rightarrow> unit res \<times> 'w"
  parse_quantity :: "string \<Rightarrow> string option"
  create_claim :: "claim \<Rightarrow> 'w \<Rightarrow> claim res \<times> 'w"
  get_claim :: "string \<Rightarrow> string \<Rightarrow> 'w \<Rightarrow> claim res \<times> 'w"
  delete_claim :: "string \<Rightarrow> string \<Rightarrow> 'w \<Rightarrow> unit res \<times> 'w"
  get_volume :: "string \<Rightarrow> 'w \<Rightarrow> persistent_volume res \<times> 'w"
  delete_volume :: "string \<Rightarrow> 'w \<Rightarrow> unit res \<times> 'w"
  create_pod :: "pod_spec \<Rightarrow> 'w \<Rightarrow> pod res \<times> 'w"
  get_pod :: "string \<Rightarrow> string \<Rightarrow> 'w \<Rightarrow> pod res \<times> 'w"
  delete_pod :: "string \<Rightarrow> string \<Rightarrow> 'w \<Rightarrow> unit res \<times> 'w"
  get_secret_data :: "string \<Rightarrow> string \<Rightarrow> 'w \<Rightarrow> string gomap res \<times> 'w"
  get_config_data :: "string \<Rightarrow> string \<Rightarrow> 'w \<Rightarrow> string gomap res \<times> 'w"
  get_deployment :: "string \<Rightarrow> string \<Rightarrow> 'w \<Rightarrow> container list res \<times> 'w"
  get_driver_object :: "string \<Rightarrow> 'w \<Rightarrow> csi_driver_object res \<times> 'w"
  update_driver_object :: "string \<Rightarrow> csi_driver_object \<Rightarrow> 'w \<Rightarrow> csi_driver_object res \<times> 'w"

section \<open>Deleting what may be gone already\<close>

definition ignore_absent :: "('w \<Rightarrow> unit res \<times> 'w) \<Rightarrow> 'w \<Rightarrow> unit res \<times> 'w" where
  "ignore_absent delete w =
     (case delete w of
        (Inl err, w) \<Rightarrow> (if IsNotFound err then Inr () else Inl err, w)
      | (Inr _, w) \<Rightarrow> (Inr (), w))"

definition DeleteStorageClass :: "'w storage_api \<Rightarrow> string \<Rightarrow> 'w \<Rightarrow> unit res \<times> 'w" where
  "DeleteStorageClass api name = ignore_absent (delete_class api name)"

definition DeletePVC :: "'w storage_api \<Rightarrow> string \<Rightarrow> string \<Rightarrow> 'w \<Rightarrow> unit res \<times> 'w" where
  "DeletePVC api namespace name = ignore_absent (delete_claim api namespace name)"

definition DeletePV :: "'w storage_api \<Rightarrow> string \<Rightarrow> 'w \<Rightarrow> unit res \<times> 'w" where
  "DeletePV api name = ignore_absent (delete_volume api name)"

definition DeletePod :: "'w storage_api \<Rightarrow> string \<Rightarrow> string \<Rightarrow> 'w \<Rightarrow> unit res \<times> 'w" where
  "DeletePod api namespace name = ignore_absent (delete_pod api namespace name)"

section \<open>Waiting until something is gone or as wanted\<close>

definition gone_cond :: "('w \<Rightarrow> 'a res \<times> 'w) \<Rightarrow> 'w condition_fn" where
  "gone_cond get w =
     (case get w of
        (Inl err, w) \<Rightarrow> (Inr (IsNotFound err), w)
      | (Inr _, w) \<Rightarrow> (Inr False, w))"

definition as_cond :: "('w \<Rightarrow> 'a res \<times> 'w) \<Rightarrow> ('a \<Rightarrow> bool) \<Rightarrow> 'w condition_fn" where
  "as_cond get P w =
     (case get w of
        (Inl _, w) \<Rightarrow> (Inr False, w)
      | (Inr x, w) \<Rightarrow> (Inr (P x), w))"

definition poll_result :: "goerror option \<times> 'w \<Rightarrow> unit res \<times> 'w" where
  "poll_result = (\<lambda>(pollErr, w). (case pollErr of None \<Rightarrow> Inr () | Some e \<Rightarrow> Inl e, w))"

definition WaitForPVDeleted :: "'w poller \<Rightarrow> 'w storage_api \<Rightarrow> string \<Rightarrow> int \<Rightarrow> 'w \<Rightarrow> unit res \<times> 'w" where
  "WaitForPVDeleted poller api name timeout w =
     poll_result (poller DefaultPolling timeout (gone_cond (get_volume api name)) w)"

definition WaitForPodRunning :: "'w poller \<Rightarrow> 'w storage_api \<Rightarrow> string \<Rightarrow> string \<Rightarrow> int \<Rightarrow> 'w \<Rightarrow> unit res \<times> 'w" where
  "WaitForPodRunning poller api namespace name timeout w =
     poll_result (poller DefaultPolling timeout
       (as_cond (get_pod api namespace name) (\<lambda>pod. pod_phase pod = ''Running'')) w)"

section \<open>Namespaces\<close>

definition CreateTestNamespace :: "'w poller \<Rightarrow> 'w storage_api \<Rightarrow> string \<Rightarrow> 'w \<Rightarrow> string res \<times> 'w" where
  "CreateTestNamespace poller api prefix =
     bindM (wrapM ''create test namespace: %w'' []
              (create_namespace api (prefix @ ''-'') [(''e2e-test'', ''csi-storage'')])) (\<lambda>created.
     bindM (wrapM ''namespace %s not annotated with SCC uid-range: %w'' [AStr created]
              (\<lambda>w. poll_result (poller Second DefaultTimeout
                 (as_cond (get_namespace api created)
                    (\<lambda>annotations. gm_lookup annotations ''openshift.io/sa.scc.uid-range'' \<noteq> None)) w))) (\<lambda>_.
       ret created))"

definition DeleteNamespace :: "'w poller \<Rightarrow> 'w storage_api \<Rightarrow> string \<Rightarrow> int \<Rightarrow> 'w \<Rightarrow> unit res \<times> 'w" where
  "DeleteNamespace poller api name timeout w =
     (case delete_namespace api name w of
        (Inl err, w) \<Rightarrow>
          (if IsNotFound err then (Inr (), w)
           else (Inl (Wrapf ''delete namespace %s: %w'' [AStr name] err), w))
      | (Inr _, w) \<Rightarrow> poll_result (poller DefaultPolling timeout (gone_cond (get_namespace api name)) w))"

section \<open>Storage classes\<close>

definition GetStorageClass :: "'w storage_api \<Rightarrow> string \<Rightarrow> 'w \<Rightarrow> storage_class res \<times> 'w" where
  "GetStorageClass api name = get_class api name"

definition is_default_class :: "storage_class \<Rightarrow> bool" where
  "is_default_class sc \<longleftrightarrow> gm_get (sc_annotations sc) ''storageclass.kubernetes.io/is-default-class'' = ''true''"

definition GetDefaultStorageClass :: "'w storage_api \<Rightarrow> 'w \<Rightarrow> storage_class res \<times> 'w" where
  "GetDefaultStorageClass api =
     bindM (wrapM ''list storage classes: %w'' [] (list_classes api)) (\<lambda>scs.
       case find_first is_default_class scs of
         Some sc \<Rightarrow> ret sc
       | None \<Rightarrow> throw (Errorf ''no default StorageClass found'' []))"

definition CloneStorageClassWithTopology ::
  "'w storage_api \<Rightarrow> storage_class \<Rightarrow> string \<Rightarrow> selector_term list \<Rightarrow> 'w \<Rightarrow> storage_class res \<times> 'w" where
  "CloneStorageClassWithTopology api source name topologyTerms =
     create_class api
       \<lparr>sc_name = name, sc_annotations = [], sc_provisioner = sc_provisioner source,
        sc_parameters = sc_parameters source, sc_reclaimPolicy = sc_reclaimPolicy source,
        sc_bindingMode = sc_bindingMode source, sc_topologies = topologyTerms,
        sc_mountOptions = sc_mountOptions source, sc_allowExpansion = sc_allowExpansion source\<rparr>"

definition StorageClassIsWaitForFirstConsumer :: "storage_class \<Rightarrow> bool" where
  "StorageClassIsWaitForFirstConsumer sc \<longleftrightarrow> sc_bindingMode sc = Some ''WaitForFirstConsumer''"

section \<open>Claims, volumes and pods\<close>

definition CreatePVC ::
  "'w storage_api \<Rightarrow> string \<Rightarrow> string \<Rightarrow> string \<Rightarrow> string \<Rightarrow> 'w \<Rightarrow> claim res \<times> 'w" where
  "CreatePVC api namespace name sz storageClassName =
     (case parse_quantity api sz of
        None \<Rightarrow> throw (ForeignError ''panic'')
      | Some quantity \<Rightarrow>
          create_claim api
            \<lparr>pvc_namespace = namespace, pvc_name = name, pvc_accessModes = [''ReadWriteOnce''],
             pvc_storage = quantity,
             pvc_storageClass = (if storageClassName \<noteq> '''' then Some storageClassName else None),
             pvc_phase = '''', pvc_volumeName = ''''\<rparr>)"

definition bound_cond :: "'w storage_api \<Rightarrow> string \<Rightarrow> string \<Rightarrow> (claim option \<times> 'w) condition_fn" where
  "bound_cond api namespace name = (\<lambda>(result, w).
     case get_claim api namespace name w of
       (Inl _, w) \<Rightarrow> (Inr False, (result, w))
     | (Inr pvc, w) \<Rightarrow> if pvc_phase pvc = ''Bound'' then (Inr True, (Some pvc, w)) else (Inr False, (result, w)))"

definition WaitForPVCBound ::
  "(claim option \<times> 'w) poller \<Rightarrow> 'w storage_api \<Rightarrow> string \<Rightarrow> string \<Rightarrow> int \<Rightarrow> 'w \<Rightarrow> claim option res \<times> 'w" where
  "WaitForPVCBound poller api namespace name timeout w =
     (case poller DefaultPolling timeout (bound_cond api namespace name) (None, w) of
        (Some err, _, w) \<Rightarrow>
          (Inl (Wrapf ''PVC %s/%s not bound after %v: %w'' [AStr namespace, AStr name, AInt timeout] err), w)
      | (None, result, w) \<Rightarrow> (Inr result, w))"

definition GetPV :: "'w storage_api \<Rightarrow> string \<Rightarrow> 'w \<Rightarrow> persistent_volume res \<times> 'w" where
  "GetPV api name = get_volume api name"

definition BusyboxImage :: string where
  [go_defs]: "BusyboxImage = ''registry.k8s.io/e2e-test-images/busybox:1.36.1-1''"

definition CreateBusyboxPodWithNodeSelector ::
  "'w storage_api \<Rightarrow> string \<Rightarrow> string \<Rightarrow> string \<Rightarrow> string gomap \<Rightarrow> 'w \<Rightarrow> pod res \<times> 'w" where
  "CreateBusyboxPodWithNodeSelector api namespace name pvcName nodeSelector =
     create_pod api
       \<lparr>po_namespace = namespace, po_name = name, po_nodeSelector = nodeSelector,
        po_runAsNonRoot = True, po_runAsUser = 1000, po_seccomp = ''RuntimeDefault'',
        po_container = ''busybox'', po_image = BusyboxImage, po_command = [''sleep'', ''infinity''],
        po_allowEscalation = False, po_dropCapabilities = [''ALL''],
        po_mounts = [(''data'', ''/data'')], po_volumes = [(''data'', pvcName)]\<rparr>"

definition CreateBusyboxPod :: "'w storage_api \<Rightarrow> string \<Rightarrow> string \<Rightarrow> string \<Rightarrow> 'w \<Rightarrow> pod res \<times> 'w" where
  "CreateBusyboxPod api namespace name pvcName =
     CreateBusyboxPodWithNodeSelector api namespace name pvcName []"

section \<open>The configuration of the driver\<close>

definition CSIDriverConfigSecretName :: string where
  [go_defs]: "CSIDriverConfigSecretName = ''vsphere-csi-config-secret''"

definition CSIControllerDeployment :: string where
  [go_defs]: "CSIControllerDeployment = ''vmware-vsphere-csi-driver-controller''"

definition CSIProvisionerContainer :: string where
  [go_defs]: "CSIProvisionerContainer = ''csi-provisioner''"

definition FeatureStatesConfigMap :: string where
  [go_defs]: "FeatureStatesConfigMap = ''internal-feature-states.csi.vsphere.vmware.com''"

definition GetCSIDriverConfig :: "'w storage_api \<Rightarrow> 'w \<Rightarrow> string res \<times> 'w" where
  "GetCSIDriverConfig api =
     bindM (tryM (get_secret_data api CSIDriverNamespace CSIDriverConfigSecretName)) (\<lambda>secret.
       case secret of
         Inl err \<Rightarrow> throw (Errorf ''CSI driver config Secret %s/%s not found: %v''
                       [AStr CSIDriverNamespace, AStr CSIDriverConfigSecretName, AErr err])
       | Inr data \<Rightarrow>
           (case gm_lookup data CloudConfigDataKey of
              Some (c # text) \<Rightarrow> ret (c # text)
            | _ \<Rightarrow> throw (Errorf ''CSI driver config Secret %s/%s has no %q key''
                      [AStr CSIDriverNamespace, AStr CSIDriverConfigSecretName, AStr CloudConfigDataKey])))"

definition CSIConfigHasVCenter :: "string \<Rightarrow> string \<Rightarrow> bool" where
  "CSIConfigHasVCenter config vcenterHost = Contains config vcenterHost"

definition GetCSIProvisionerArgs :: "'w storage_api \<Rightarrow> 'w \<Rightarrow> string list res \<times> 'w" where
  "GetCSIProvisionerArgs api =
     bindM (wrapM ''get deployment %s/%s: %w'' [AStr CSIDriverNamespace, AStr CSIControllerDeployment]
              (get_deployment api CSIDriverNamespace CSIControllerDeployment)) (\<lambda>containers.
       case find_first (\<lambda>c. ct_name c = CSIProvisionerContainer) containers of
         Some c \<Rightarrow> ret (ct_args c)
       | None \<Rightarrow> throw (Errorf ''container %q not found in deployment %s/%s''
                    [AStr CSIProvisionerContainer, AStr CSIDriverNamespace, AStr CSIControllerDeployment]))"

definition GetFeatureConfigMapData :: "'w storage_api \<Rightarrow> 'w \<Rightarrow> string gomap res \<times> 'w" where
  "GetFeatureConfigMapData api =
     wrapM ''get configmap %s/%s: %w'' [AStr CSIDriverNamespace, AStr FeatureStatesConfigMap]
       (get_config_data api CSIDriverNamespace FeatureStatesConfigMap)"

definition set_categories :: "string list \<Rightarrow> csi_driver_object \<Rightarrow> csi_driver_object" where
  "set_categories categories ccd =
     (let rest = (case cd_vsphere ccd of None \<Rightarrow> '''' | Some (_, other) \<Rightarrow> other) in
      ccd\<lparr>cd_driverType := ''vSphere'', cd_vsphere := Some (categories, rest)\<rparr>)"

definition SetClusterCSIDriverTopologyCategories :: "'w storage_api \<Rightarrow> string list \<Rightarrow> 'w \<Rightarrow> unit res \<times> 'w" where
  "SetClusterCSIDriverTopologyCategories api categories =
     bindM (wrapM ''get clustercsidriver %q: %w'' [AStr ClusterCSIDriverName]
              (get_driver_object api ClusterCSIDriverName)) (\<lambda>ccd.
     bindM (wrapM ''update clustercsidriver %q: %w'' [AStr ClusterCSIDriverName]
              (update_driver_object api ClusterCSIDriverName (set_categories categories ccd))) (\<lambda>_.
       ret ()))"

section \<open>What the waits have seen\<close>

lemma gone_cond_True: "gone_cond get w = (Inr True, w') \<longleftrightarrow> (\<exists>err. get w = (Inl err, w') \<and> IsNotFound err)"
  by (auto simp: gone_cond_def split: prod.splits sum.splits)

lemma as_cond_True: "as_cond get P w = (Inr True, w') \<longleftrightarrow> (\<exists>x. get w = (Inr x, w') \<and> P x)"
  by (auto simp: as_cond_def split: prod.splits sum.splits)

lemma bound_cond_True:
  assumes "bound_cond api ns name (r0, w) = (Inr True, (res, w1))"
  shows "\<exists>pvc. res = Some pvc \<and> get_claim api ns name w = (Inr pvc, w1) \<and> pvc_phase pvc = ''Bound''"
proof -
  obtain r w2 where g: "get_claim api ns name w = (r, w2)" by force
  with assms show ?thesis by (cases r) (auto simp: bound_cond_def split: if_splits)
qed

lemma poll_result_ok:
  assumes "poller_ok p" "poll_result (p i t c w) = (Inr u, w')"
  obtains v where "c v = (Inr True, w')"
proof -
  obtain n where "p i t c w = poll_upto n c w" using assms(1) unfolding poller_ok_def by blast
  with assms(2) have "poll_upto n c w = (None, w')"
    by (auto simp: poll_result_def split: prod.splits option.splits)
  from poll_upto_success [OF this] that show thesis by blast
qed

text \<open>When \<open>DeleteNamespace\<close> or \<open>WaitForPVDeleted\<close> reports success, the last call it made was
  answered with \<open>NotFound\<close>: the namespace or volume was really gone.\<close>
theorem gone_when_deleted:
  assumes "poller_ok poller"
    and "DeleteNamespace poller api ns timeout w = (Inr (), w1)" "WaitForPVDeleted poller api pv timeout v = (Inr (), v1)"
  shows "(\<exists>w0 err. IsNotFound err \<and> (delete_namespace api ns w0 = (Inl err, w1) \<or> get_namespace api ns w0 = (Inl err, w1)))
     \<and> (\<exists>v0 err. IsNotFound err \<and> get_volume api pv v0 = (Inl err, v1))"
proof
  show "\<exists>w0 err. IsNotFound err \<and> (delete_namespace api ns w0 = (Inl err, w1) \<or> get_namespace api ns w0 = (Inl err, w1))"
  proof (cases "delete_namespace api ns w")
    case (Pair r w2)
    show ?thesis
    proof (cases r)
      case (Inl err)
      with Pair assms(2) show ?thesis by (auto simp: DeleteNamespace_def split: if_splits)
    next
      case (Inr u)
      with Pair assms(2) have "poll_result (poller DefaultPolling timeout (gone_cond (get_namespace api ns)) w2) = (Inr (), w1)"
        by (simp add: DeleteNamespace_def)
      then obtain v where "gone_cond (get_namespace api ns) v = (Inr True, w1)" by (rule poll_result_ok [OF assms(1)])
      then show ?thesis unfolding gone_cond_True by blast
    qed
  qed
  from assms(3) obtain v where "gone_cond (get_volume api pv) v = (Inr True, v1)"
    unfolding WaitForPVDeleted_def by (rule poll_result_ok [OF assms(1)])
  then show "\<exists>v0 err. IsNotFound err \<and> get_volume api pv v0 = (Inl err, v1)" unfolding gone_cond_True by blast
qed

text \<open>\<open>WaitForPVCBound\<close> never succeeds without a claim: the claim it returns is what the API server
  answered last, and its phase is \<open>Bound\<close>; \<open>WaitForPodRunning\<close> succeeds only on a pod that is Running,
  and a test namespace is returned only once it has its annotation.\<close>
theorem waits_return_what_they_saw:
  assumes "poller_ok cp" "WaitForPVCBound cp api ns name timeout w = (Inr res, w1)"
    and "poller_ok poller" "WaitForPodRunning poller api ns pod timeout v = (Inr (), v1)"
    and "CreateTestNamespace poller api prefix u = (Inr created, u1)"
  shows "(\<exists>w0 pvc. res = Some pvc \<and> get_claim api ns name w0 = (Inr pvc, w1) \<and> pvc_phase pvc = ''Bound'')
     \<and> (\<exists>v0 p. get_pod api ns pod v0 = (Inr p, v1) \<and> pod_phase p = ''Running'')
     \<and> (\<exists>u0 ann. get_namespace api created u0 = (Inr ann, u1) \<and> gm_lookup ann ''openshift.io/sa.scc.uid-range'' \<noteq> None)"
proof (intro conjI)
  obtain n where "cp DefaultPolling timeout (bound_cond api ns name) (None, w) = poll_upto n (bound_cond api ns name) (None, w)"
    using assms(1) unfolding poller_ok_def by blast
  with assms(2) have "poll_upto n (bound_cond api ns name) (None, w) = (None, res, w1)"
    by (auto simp: WaitForPVCBound_def split: prod.splits option.splits)
  from poll_upto_success [OF this] show "\<exists>w0 pvc. res = Some pvc \<and> get_claim api ns name w0 = (Inr pvc, w1) \<and> pvc_phase pvc = ''Bound''"
    using bound_cond_True by fastforce
  from assms(4) obtain t where "as_cond (get_pod api ns pod) (\<lambda>pod. pod_phase pod = ''Running'') t = (Inr True, v1)"
    unfolding WaitForPodRunning_def by (rule poll_result_ok [OF assms(3)])
  then show "\<exists>v0 p. get_pod api ns pod v0 = (Inr p, v1) \<and> pod_phase p = ''Running''" unfolding as_cond_True by blast
  from assms(5) obtain u2 where "poll_result (poller Second DefaultTimeout (as_cond (get_namespace api created)
      (\<lambda>annotations. gm_lookup annotations ''openshift.io/sa.scc.uid-range'' \<noteq> None)) u2) = (Inr (), u1)"
    unfolding CreateTestNamespace_def bindM_Inr wrapM_Inr ret_Inr by auto
  then obtain t where "as_cond (get_namespace api created)
      (\<lambda>annotations. gm_lookup annotations ''openshift.io/sa.scc.uid-range'' \<noteq> None) t = (Inr True, u1)"
    by (rule poll_result_ok [OF assms(3)])
  then show "\<exists>u0 ann. get_namespace api created u0 = (Inr ann, u1) \<and> gm_lookup ann ''openshift.io/sa.scc.uid-range'' \<noteq> None"
    unfolding as_cond_True by blast
qed

section \<open>Setting the categories\<close>

text \<open>\<open>obj\<close> is the driver object of a world: reading gives it, an update that succeeds replaces it.\<close>

definition driver_store :: "'w storage_api \<Rightarrow> ('w \<Rightarrow> csi_driver_object) \<Rightarrow> bool" where
  "driver_store api obj \<longleftrightarrow>
     (\<forall>w r w'. get_driver_object api ClusterCSIDriverName w = (r, w') \<longrightarrow>
        obj w' = obj w \<and> (\<forall>x. r = Inr x \<longrightarrow> x = obj w)) \<and>
     (\<forall>x w r w'. update_driver_object api ClusterCSIDriverName x w = (r, w') \<longrightarrow>
        obj w' = (if is_ok r then x else obj w))"

lemma SetCategories_effect:
  assumes "driver_store api obj" "SetClusterCSIDriverTopologyCategories api cats w = (r, w')"
  shows "obj w' = (if is_ok r then set_categories cats (obj w) else obj w)"
proof -
  obtain r1 w1 where g: "get_driver_object api ClusterCSIDriverName w = (r1, w1)" by force
  then have 1: "obj w1 = obj w" "\<And>x. r1 = Inr x \<Longrightarrow> x = obj w"
    using assms(1) unfolding driver_store_def by metis+
  show ?thesis
  proof (cases r1)
    case (Inl e)
    with g 1 assms(2) show ?thesis by (auto simp: SetClusterCSIDriverTopologyCategories_def bindM_def wrapM_def)
  next
    case (Inr ccd)
    obtain r2 w2 where u: "update_driver_object api ClusterCSIDriverName (set_categories cats ccd) w1 = (r2, w2)" by force
    then have "obj w2 = (if is_ok r2 then set_categories cats ccd else obj w1)"
      using assms(1) unfolding driver_store_def by metis
    moreover have "w' = w2" "is_ok r = is_ok r2"
      using g u Inr assms(2)
      by (cases r2; auto simp: SetClusterCSIDriverTopologyCategories_def bindM_def wrapM_def ret_def)+
    ultimately show ?thesis using 1 Inr by simp
  qed
qed

text \<open>Setting the topology categories changes the driver type and the categories and nothing else
  of the driver object, and not even that when it fails; setting the old categories again gives back
  the object as it was, when it was a vSphere driver with a vSphere section.\<close>
theorem driver_categories_set:
  assumes "driver_store api obj" "SetClusterCSIDriverTopologyCategories api cats w = (Inr (), w1)"
    and "SetClusterCSIDriverTopologyCategories api cats' w1 = (r, w2)"
  shows "cd_driverType (obj w1) = ''vSphere'' \<and> map_option fst (cd_vsphere (obj w1)) = Some cats
     \<and> cd_other (obj w1) = cd_other (obj w)
     \<and> (is_ok r \<or> obj w2 = obj w1)
     \<and> (case cd_vsphere (obj w) of
          Some (old, rest) \<Rightarrow> map_option snd (cd_vsphere (obj w1)) = Some rest
            \<and> obj w2 \<in> {obj w1, obj w\<lparr>cd_driverType := ''vSphere'', cd_vsphere := Some (cats', rest)\<rparr>}
        | None \<Rightarrow> map_option snd (cd_vsphere (obj w1)) = Some '''')"
  using SetCategories_effect [OF assms(1,2)] SetCategories_effect [OF assms(1,3)]
  by (auto simp: set_categories_def Let_def split: option.splits)

end
