(* ===== verification/NodeJoin.thy ===== *)
theory NodeJoin
  imports MachineTiming
begin

text \<open>
  \<open>pkg/framework/steady_perf.go\<close> and \<open>node.go\<close>: the worker machine sets, the times at which nodes
  join, and the release of DHCP leases before machines are deleted.

  The clients are parameters; \<open>WatchNodeJoin\<close> polls with its own poller, whose state is its two
  variables and the world.  A time is in nanoseconds and 0 is the zero time.  The goroutines of
  \<open>ReleaseDHCPLeases\<close> each run one command and add to one counter under a mutex; they share nothing
  else, so the outcome is a function of the outcome of each command.
\<close>

definition MachineRoleLabel :: string where
  [go_defs]: "MachineRoleLabel = ''machine.openshift.io/cluster-api-machine-role''"

record NodeJoinTiming =
  nj_NodeCreated :: int
  nj_NodeReady :: int

record SteadyMachineTiming = MachineTimingRecord +
  sm_NodeCreated :: int
  sm_NodeReady :: int

section \<open>Listings\<close>

definition ListWorkerMachineSets :: "('w \<Rightarrow> machine_set list res \<times> 'w) \<Rightarrow> 'w \<Rightarrow> machine_set list res \<times> 'w" where
  "ListWorkerMachineSets get_sets =
     bindM (wrapM ''list machinesets: %w'' [] get_sets) (\<lambda>sets.
       ret (sort_key ms_name (filter (\<lambda>s. gm_get (ms_templateLabels s) MachineRoleLabel = ''worker'') sets)))"

definition ListPodNames :: "(string \<Rightarrow> 'w \<Rightarrow> pod list res \<times> 'w) \<Rightarrow> string \<Rightarrow> string \<Rightarrow> 'w \<Rightarrow> string list res \<times> 'w" where
  "ListPodNames get_pods namespace namePrefix =
     bindM (wrapM ''list pods in %s: %w'' [AStr namespace] (get_pods namespace)) (\<lambda>pods.
       ret (filter (\<lambda>name. length namePrefix \<le> length name \<and> take (length namePrefix) name = namePrefix)
              (map pod_name pods)))"

definition PodLogsSince :: "(string \<Rightarrow> string \<Rightarrow> int \<Rightarrow> 'w \<Rightarrow> string res \<times> 'w) \<Rightarrow> string \<Rightarrow> string \<Rightarrow> int \<Rightarrow> 'w \<Rightarrow> string res \<times> 'w" where
  "PodLogsSince get_logs namespace pod since = get_logs namespace pod since"

section \<open>Nodes that join\<close>

definition note_ready :: "condition \<Rightarrow> NodeJoinTiming \<Rightarrow> NodeJoinTiming" where
  "note_ready c t =
     (if cond_type c = ''Ready'' \<and> cond_status c = ''True'' \<and> IsZero (nj_NodeReady t)
      then t\<lparr>nj_NodeReady := cond_transition c\<rparr> else t)"

definition note_node :: "string list \<Rightarrow> node \<Rightarrow> NodeJoinTiming gomap \<Rightarrow> NodeJoinTiming gomap" where
  "note_node want n joined =
     (if n_name n \<notin> set want then joined
      else let t = (case gm_lookup joined (n_name n) of
                      Some t \<Rightarrow> t
                    | None \<Rightarrow> \<lparr>nj_NodeCreated = n_creationTimestamp n, nj_NodeReady = 0\<rparr>)
           in gm_put (n_name n) (fold note_ready (n_conditions n) t) joined)"

definition all_joined :: "string list \<Rightarrow> NodeJoinTiming gomap \<Rightarrow> bool" where
  "all_joined want joined \<longleftrightarrow>
     list_all (\<lambda>(_, t). \<not> IsZero (nj_NodeReady t)) joined \<and> length joined = length (remdups want)"

type_synonym 'w join_vars = "(NodeJoinTiming gomap \<times> goerror option) \<times> 'w"

definition join_cond :: "('w \<Rightarrow> node list res \<times> 'w) \<Rightarrow> string list \<Rightarrow> 'w join_vars condition_fn" where
  "join_cond get_nodes want = (\<lambda>((joined, lastErr), w).
     case get_nodes w of
       (Inl err, w) \<Rightarrow> (Inr False, ((joined, Some err), w))
     | (Inr nodes, w) \<Rightarrow>
         (let joined = fold (note_node want) nodes joined
          in (Inr (all_joined want joined), ((joined, None), w))))"

definition WatchNodeJoin ::
  "'w join_vars poller \<Rightarrow> ('w \<Rightarrow> node list res \<times> 'w) \<Rightarrow> string list \<Rightarrow> int \<Rightarrow> 'w \<Rightarrow>
   (NodeJoinTiming gomap \<times> goerror option) \<times> 'w" where
  "WatchNodeJoin poller get_nodes names timeout w =
     (case poller (2 * Second) timeout (join_cond get_nodes names) (([], None), w) of
        (pollErr, (joined, lastErr), w) \<Rightarrow>
          ((joined,
            (case (pollErr, lastErr) of
               (Some e, Some le) \<Rightarrow> Some (Wrapf ''%w: last error: %v'' [AErr le] e)
             | _ \<Rightarrow> pollErr)), w))"

section \<open>Releasing DHCP leases\<close>

text \<open>
  What running the command on a node came to: whether its context had ended, the error of the
  command, and what it wrote to its standard error.
\<close>

record command_result =
  cr_ctxDone :: bool
  cr_err :: "goerror option"
  cr_stderr :: string

definition release_cmd :: "string \<Rightarrow> string list" where
  "release_cmd nodeName =
     [''oc'', ''debug'', ''node/'' @ nodeName, ''--'', ''chroot'', ''/host'', ''nmcli'',
      ''connection'', ''down'', ''ovs-if-br-ex'']"

definition releaseDHCPOnNode :: "(string list \<Rightarrow> command_result) \<Rightarrow> string \<Rightarrow> unit res" where
  "releaseDHCPOnNode exec nodeName =
     (let r = exec (release_cmd nodeName) in
      if cr_ctxDone r then Inr ()
      else (case cr_err r of
              None \<Rightarrow> Inr ()
            | Some err \<Rightarrow>
                if Contains (cr_stderr r) ''i/o timeout'' then Inr ()
                else Inl (Errorf ''%v: %s'' [AErr err, AStr (cr_stderr r)])))"

definition lease_nodes :: "machine list \<Rightarrow> string list" where
  "lease_nodes machines =
     List.map_filter (\<lambda>m. if m_deletionTimestamp m = None then m_nodeRef m else None) machines"

definition ReleaseDHCPLeases ::
  "(string \<Rightarrow> 'w \<Rightarrow> machine list res \<times> 'w) \<Rightarrow> (string list \<Rightarrow> command_result) \<Rightarrow> string \<Rightarrow> 'w \<Rightarrow> unit res \<times> 'w" where
  "ReleaseDHCPLeases get_machines exec msName =
     bindM (wrapM ''list machines for DHCP release: %w'' []
              (get_machines (''machine.openshift.io/cluster-api-machineset='' @ msName))) (\<lambda>machines.
       let nodes = lease_nodes machines;
           released = length (filter (\<lambda>n. is_ok (releaseDHCPOnNode exec n)) nodes)
       in if nodes = [] then ret ()
          else if released = 0
          then throw (Errorf ''DHCP release failed on all %d nodes'' [AInt (int (length nodes))])
          else ret ())"

section \<open>What a watch has recorded\<close>

text \<open>A node some listing showed, and a record made of what such nodes showed.\<close>

definition listed :: "('w \<Rightarrow> node list res \<times> 'w) \<Rightarrow> node \<Rightarrow> bool" where
  "listed get_nodes n \<longleftrightarrow> (\<exists>w nodes w'. get_nodes w = (Inr nodes, w') \<and> n \<in> set nodes)"

definition ready_at :: "node \<Rightarrow> int \<Rightarrow> bool" where
  "ready_at n t \<longleftrightarrow> (\<exists>c \<in> set (n_conditions n).
     cond_type c = ''Ready'' \<and> cond_status c = ''True'' \<and> cond_transition c = t)"

definition timing_seen :: "('w \<Rightarrow> node list res \<times> 'w) \<Rightarrow> string \<Rightarrow> NodeJoinTiming \<Rightarrow> bool" where
  "timing_seen get_nodes name t \<longleftrightarrow>
     (\<exists>n. listed get_nodes n \<and> n_name n = name \<and> n_creationTimestamp n = nj_NodeCreated t) \<and>
     (nj_NodeReady t = 0 \<or> (\<exists>n. listed get_nodes n \<and> n_name n = name \<and> ready_at n (nj_NodeReady t)))"

definition joined_ok :: "('w \<Rightarrow> node list res \<times> 'w) \<Rightarrow> string list \<Rightarrow> NodeJoinTiming gomap \<Rightarrow> bool" where
  "joined_ok get_nodes want joined \<longleftrightarrow>
     gm_ok joined \<and> (\<forall>(name, t) \<in> set joined. name \<in> set want \<and> timing_seen get_nodes name t)"

lemma note_ready_fold:
  "nj_NodeCreated (fold note_ready cs t) = nj_NodeCreated t \<and>
   (nj_NodeReady (fold note_ready cs t) = nj_NodeReady t \<or>
    (\<exists>c \<in> set cs. cond_type c = ''Ready'' \<and> cond_status c = ''True'' \<and>
       cond_transition c = nj_NodeReady (fold note_ready cs t)))"
proof (induction cs arbitrary: t)
  case (Cons c cs)
  show ?case using Cons [of "note_ready c t"] by (auto simp: note_ready_def split: if_splits)
qed simp

lemma gm_put_elems: "x \<in> set (gm_put k v m) \<Longrightarrow> x \<in> set m \<or> x = (k, v)"
  by (induction m) (auto split: if_splits)

lemma joined_ok_put:
  "joined_ok g want joined \<Longrightarrow> name \<in> set want \<Longrightarrow> timing_seen g name t \<Longrightarrow>
     joined_ok g want (gm_put name t joined)"
  unfolding joined_ok_def
proof (intro conjI ballI)
  assume ok: "gm_ok joined \<and> (\<forall>(name, t)\<in>set joined. name \<in> set want \<and> timing_seen g name t)"
    and new: "name \<in> set want" "timing_seen g name t"
  then show "gm_ok (gm_put name t joined)" by simp
  fix x assume x: "x \<in> set (gm_put name t joined)"
  then have "x \<in> set joined \<or> x = (name, t)" by (rule gm_put_elems)
  with ok new show "case x of (name, t) \<Rightarrow> name \<in> set want \<and> timing_seen g name t" by auto
qed

lemma note_node_ok:
  assumes ok: "joined_ok g want joined" and n: "listed g n"
  shows "joined_ok g want (note_node want n joined)"
proof (cases "n_name n \<in> set want")
  case False
  with ok show ?thesis by (simp add: note_node_def)
next
  case True
  define t where "t = (case gm_lookup joined (n_name n) of Some t \<Rightarrow> t
      | None \<Rightarrow> \<lparr>nj_NodeCreated = n_creationTimestamp n, nj_NodeReady = 0\<rparr>)"
  have "timing_seen g (n_name n) t"
  proof (cases "gm_lookup joined (n_name n)")
    case None
    with n show ?thesis by (auto simp: t_def timing_seen_def)
  next
    case (Some t')
    with ok show ?thesis by (auto simp: t_def joined_ok_def dest!: map_of_SomeD)
  qed
  with n note_ready_fold [of "n_conditions n" t] have "timing_seen g (n_name n) (fold note_ready (n_conditions n) t)"
    unfolding timing_seen_def ready_at_def by metis
  with joined_ok_put [OF ok True] True show ?thesis by (simp add: note_node_def t_def Let_def)
qed

lemma note_nodes_ok:
  "joined_ok g want joined \<Longrightarrow> \<forall>n \<in> set nodes. listed g n \<Longrightarrow> joined_ok g want (fold (note_node want) nodes joined)"
  by (induction nodes arbitrary: joined) (simp_all add: note_node_ok)

lemma join_cond_ok:
  assumes "joined_ok g want (fst (fst v))"
  shows "joined_ok g want (fst (fst (snd (join_cond g want v))))"
proof -
  obtain joined le w where v: "v = ((joined, le), w)" by (metis surj_pair)
  obtain r w' where g: "g w = (r, w')" by force
  show ?thesis
  proof (cases r)
    case (Inl e)
    with assms v g show ?thesis by (simp add: join_cond_def)
  next
    case (Inr nodes)
    with g have "\<forall>n \<in> set nodes. listed g n" unfolding listed_def by blast
    with assms v g Inr show ?thesis by (simp add: join_cond_def Let_def note_nodes_ok)
  qed
qed

lemma all_joined_complete:
  assumes "joined_ok g want joined" "all_joined want joined"
  shows "fst ` set joined = set want"
proof (rule card_subset_eq)
  show "fst ` set joined \<subseteq> set want" using assms(1) by (auto simp: joined_ok_def)
  have "card (fst ` set joined) = length joined"
    using assms(1) distinct_card [of "map fst joined"] by (simp add: joined_ok_def gm_ok_def)
  then show "card (fst ` set joined) = card (set want)"
    using assms(2) by (simp add: all_joined_def length_remdups_card_conv)
qed simp

lemma join_cond_True: "join_cond g want v = (Inr True, v') \<Longrightarrow> all_joined want (fst (fst v'))"
  by (auto simp: join_cond_def Let_def split: prod.splits sum.splits)

text \<open>C37: whatever \<open>WatchNodeJoin\<close> returns, also with an error, its map has only nodes it was asked for,
  and every time in it was shown by some listing: the creation time of a node of that name, and,
  unless it is zero, the time such a node became Ready.  Without an error the map has every name
  asked for, each with a time at which the node became Ready.\<close>
theorem node_join_watch:
  assumes "poller_ok poller" "WatchNodeJoin poller get_nodes names timeout w = ((joined, err), w')"
  shows "gm_ok joined \<and> (\<forall>(name, t) \<in> set joined. name \<in> set names \<and> timing_seen get_nodes name t)
     \<and> (case err of
          None \<Rightarrow> fst ` set joined = set names \<and> (\<forall>(name, t) \<in> set joined. nj_NodeReady t \<noteq> 0)
        | Some e \<Rightarrow> True)"
proof -
  let ?c = "join_cond get_nodes names"
  obtain n where "poller (2 * Second) timeout ?c (([], None), w) = poll_upto n ?c (([], None), w)"
    using assms(1) unfolding poller_ok_def by blast
  with assms(2) obtain pollErr le where p: "poll_upto n ?c (([], None), w) = (pollErr, (joined, le), w')"
    and err: "err = None \<longleftrightarrow> pollErr = None"
    by (auto simp: WatchNodeJoin_def split: prod.splits option.splits)
  have "joined_ok get_nodes names (fst (fst (([], None :: goerror option), w))) \<longrightarrow>
      joined_ok get_nodes names (fst (fst (snd (poll_upto n ?c (([], None), w)))))"
    by (rule poll_upto_within [where R = "\<lambda>v v'. joined_ok get_nodes names (fst (fst v)) \<longrightarrow>
        joined_ok get_nodes names (fst (fst v'))"]) (use join_cond_ok in blast)+
  with p have ok: "joined_ok get_nodes names joined" by (simp add: joined_ok_def)
  have "fst ` set joined = set names \<and> (\<forall>(name, t) \<in> set joined. nj_NodeReady t \<noteq> 0)" if "err = None"
  proof -
    from that p err obtain v where "?c v = (Inr True, ((joined, le), w'))" using poll_upto_success by metis
    from join_cond_True [OF this] have "all_joined names joined" by simp
    moreover from this have "\<forall>(name, t) \<in> set joined. nj_NodeReady t \<noteq> 0"
      by (auto simp: all_joined_def IsZero_def list_all_iff)
    ultimately show ?thesis using all_joined_complete [OF ok] by simp
  qed
  with ok show ?thesis by (cases err) (simp_all add: joined_ok_def)
qed

section \<open>Leases\<close>

text \<open>Releasing DHCP leases is best effort: it fails only when the machines cannot be listed or when
  there are nodes to release and the command failed on all of them, that is, ended in time with an
  error that is not the node going offline.\<close>
theorem dhcp_release_fails_iff:
  "is_ok (fst (ReleaseDHCPLeases get_machines exec ms w)) =
    (case fst (get_machines (''machine.openshift.io/cluster-api-machineset='' @ ms) w) of
       Inl _ \<Rightarrow> False
     | Inr machines \<Rightarrow> lease_nodes machines = [] \<or>
         (\<exists>n \<in> set (lease_nodes machines). let res = exec (release_cmd n) in
            cr_ctxDone res \<or> cr_err res = None \<or> Contains (cr_stderr res) ''i/o timeout''))"
proof -
  obtain r w1 where g: "get_machines (''machine.openshift.io/cluster-api-machineset='' @ ms) w = (r, w1)" by force
  have one: "is_ok (releaseDHCPOnNode exec n) = (let res = exec (release_cmd n) in
      cr_ctxDone res \<or> cr_err res = None \<or> Contains (cr_stderr res) ''i/o timeout'')" for n
    by (simp add: releaseDHCPOnNode_def Let_def split: option.splits)
  show ?thesis
  proof (cases r)
    case (Inl e)
    with g show ?thesis by (simp add: ReleaseDHCPLeases_def bindM_def wrapM_def)
  next
    case (Inr machines)
    with g show ?thesis
      by (auto simp: ReleaseDHCPLeases_def bindM_def wrapM_def Let_def ret_def throw_def filter_empty_conv one)
  qed
qed

end
