(* ===== verification/DemoStorage.thy ===== *)
theory DemoStorage
  imports Storage NodeJoin
begin

text \<open>
  A small cluster for the properties of the storage and node helpers: one CSI node, one ready node,
  one volume, and an API server that answers at once.
\<close>

abbreviation demo_region_key :: string where
  "demo_region_key \<equiv> ''topology.csi.vmware.com/openshift-region''"

abbreviation demo_zone_key :: string where
  "demo_zone_key \<equiv> ''topology.csi.vmware.com/openshift-zone''"

definition demo_keys :: CSITopologyKeys where
  "demo_keys = \<lparr>Region = demo_region_key, Zone = demo_zone_key\<rparr>"

definition demo_csi_nodes :: "unit \<Rightarrow> csi_node list res \<times> unit" where
  "demo_csi_nodes w = (Inr [\<lparr>cn_name = ''n1'', cn_drivers =
     [\<lparr>dr_name = ''csi.vsphere.vmware.com'', dr_topologyKeys = [demo_zone_key, demo_region_key]\<rparr>]\<rparr>], w)"

definition demo_node :: node where
  "demo_node = \<lparr>n_name = ''n1'', n_labels = [(demo_region_key, ''r1''), (demo_zone_key, ''z1'')],
     n_deletionTimestamp = None, n_creationTimestamp = 5,
     n_conditions = [\<lparr>cond_type = ''Ready'', cond_status = ''True'', cond_message = '''', cond_transition = 9\<rparr>]\<rparr>"

definition demo_nodes :: "unit \<Rightarrow> node list res \<times> unit" where
  "demo_nodes w = (Inr [demo_node], w)"

definition demo_pv :: persistent_volume where
  "demo_pv = \<lparr>pv_name = ''pv1'', pv_phase = ''Bound'', pv_affinity = Some
     [[\<lparr>me_key = demo_zone_key, me_operator = ''In'', me_values = [''z1'']\<rparr>,
       \<lparr>me_key = demo_region_key, me_operator = ''In'', me_values = [''r1'']\<rparr>]]\<rparr>"

lemma upto_poller: "poller_ok (\<lambda>i t. poll_upto 1)"
  by (rule poller_patient_ok [OF poll_upto_patient])

section \<open>Topology\<close>

lemma demo_discover: "DiscoverCSITopologyKeys demo_csi_nodes () = (Inr demo_keys, ())"
  by code_simp

theorem discovered_keys_witness:
  "is_region_key demo_region_key \<and> is_zone_key demo_zone_key"
proof -
  have "demo_csi_nodes () = (Inr [\<lparr>cn_name = ''n1'', cn_drivers =
     [\<lparr>dr_name = ''csi.vsphere.vmware.com'', dr_topologyKeys = [demo_zone_key, demo_region_key]\<rparr>]\<rparr>], ())"
    by (simp add: demo_csi_nodes_def)
  from discovered_keys [OF this demo_discover] show ?thesis by (auto simp: demo_keys_def)
qed

lemma demo_in_topology: "node_in_topology demo_keys ''r1'' ''z1'' demo_node"
  by (simp add: node_in_topology_def demo_node_def demo_keys_def gm_get_def)

theorem ready_node_found_witness:
  "WaitForReadyNodeInTopology (\<lambda>i t. poll_upto 1) demo_nodes demo_keys ''r1'' ''z1'' 60 () = (Inr ''n1'', ())
   \<and> gm_get (n_labels demo_node) demo_region_key = ''r1''"
proof -
  have run: "WaitForReadyNodeInTopology (\<lambda>i t. poll_upto 1) demo_nodes demo_keys ''r1'' ''z1'' 60 () = (Inr ''n1'', ())"
    using demo_in_topology
    by (simp add: WaitForReadyNodeInTopology_def node_cond_def FindReadyNodeInTopology_def demo_nodes_def
        bindM_def wrapM_def ret_def) (simp add: demo_node_def)
  from ready_node_found [OF upto_poller run] run show ?thesis by (auto simp: demo_nodes_def demo_keys_def)
qed

theorem volumes_of_failure_domain_witness:
  "PVBelongsToFailureDomain demo_pv demo_keys ''r1'' ''z1'' \<and> \<not> PVBelongsToFailureDomain demo_pv demo_keys ''r1'' ''z2''"
proof -
  have ne: "Region demo_keys \<noteq> Zone demo_keys" by (simp add: demo_keys_def)
  have pvs: "(\<lambda>w. (Inr [demo_pv], w)) () = (Inr [demo_pv], ())" by simp
  have "affinity_value (Region demo_keys) demo_pv = ''r1''" "affinity_value (Zone demo_keys) demo_pv = ''z1''"
    by (simp_all add: affinity_value_def demo_pv_def demo_keys_def List.map_filter_simps in_value_def)
  with volumes_of_failure_domain [OF ne, of "\<lambda>w. (Inr [demo_pv], w)" "()" "[demo_pv]" "()" demo_pv]
  show ?thesis by simp
qed

theorem categories_roundtrip_witness:
  "CSIConfigTopologyCategories
     (''[Labels]'' @ [CHR 0x0A] @ topology_key @ '' = '' @ ''openshift-region,openshift-zone'' @ [CHR 0x0A]) =
   Some [''openshift-region'', ''openshift-zone'']"
proof -
  let ?cats = "[''openshift-region'', ''openshift-zone'']" and ?pre = "''[Labels]'' @ [CHR 0x0A]"
  have c: "\<forall>c \<in> set ?cats. category_ok c" by code_simp
  have p: "\<not> Contains ?pre topology_key" by code_simp
  have "?cats \<noteq> []" "[] \<in> {[], [CHR 0x22]}" "?pre = [] \<or> last ?pre = CHR 0x0A" by simp_all
  from categories_roundtrip [OF this(1) c this(2,3) p, of "[]"] show ?thesis by simp
qed

section \<open>Storage\<close>

definition demo_storage :: "csi_driver_object storage_api" where
  "demo_storage =
     \<lparr>create_namespace = (\<lambda>p l w. (Inr (p @ ''x''), w)),
      get_namespace = (\<lambda>n w. (if n = ''gone'' then Inl (StatusError ''NotFound'')
         else Inr [(''openshift.io/sa.scc.uid-range'', ''1'')], w)),
      delete_namespace = (\<lambda>n w. (Inr (), w)),
      get_class = (\<lambda>n w. (Inl ContextDone, w)), list_classes = (\<lambda>w. (Inr [], w)),
      create_class = (\<lambda>c w. (Inr c, w)), delete_class = (\<lambda>n w. (Inr (), w)),
      parse_quantity = Some, create_claim = (\<lambda>c w. (Inr c, w)),
      get_claim = (\<lambda>ns n w. (Inr \<lparr>pvc_namespace = ns, pvc_name = n, pvc_accessModes = [], pvc_storage = ''1Gi'',
         pvc_storageClass = None, pvc_phase = ''Bound'', pvc_volumeName = ''pv1''\<rparr>, w)),
      delete_claim = (\<lambda>ns n w. (Inr (), w)),
      get_volume = (\<lambda>n w. (Inl (StatusError ''NotFound''), w)), delete_volume = (\<lambda>n w. (Inr (), w)),
      create_pod = (\<lambda>p w. (Inl ContextDone, w)),
      get_pod = (\<lambda>ns n w. (Inr \<lparr>pod_name = n, pod_phase = ''Running'', pod_restarts = []\<rparr>, w)),
      delete_pod = (\<lambda>ns n w. (Inr (), w)),
      get_secret_data = (\<lambda>ns n w. (Inr [], w)), get_config_data = (\<lambda>ns n w. (Inr [], w)),
      get_deployment = (\<lambda>ns n w. (Inr [], w)),
      get_driver_object = (\<lambda>n w. (Inr w, w)), update_driver_object = (\<lambda>n x w. (Inr x, x))\<rparr>"

definition demo_driver :: csi_driver_object where
  "demo_driver = \<lparr>cd_driverType = ''vSphere'', cd_vsphere = Some ([''a''], ''snapshots''), cd_other = ''log''\<rparr>"

theorem gone_when_deleted_witness:
  "\<exists>v0 err. IsNotFound err \<and> get_volume demo_storage ''pv1'' v0 = (Inl err, demo_driver)"
proof -
  have d: "DeleteNamespace (\<lambda>i t. poll_upto 1) demo_storage ''gone'' 60 demo_driver = (Inr (), demo_driver)"
    and v: "WaitForPVDeleted (\<lambda>i t. poll_upto 1) demo_storage ''pv1'' 60 demo_driver = (Inr (), demo_driver)"
    by (simp_all add: DeleteNamespace_def WaitForPVDeleted_def demo_storage_def gone_cond_def poll_result_def)
  from gone_when_deleted [OF upto_poller d v] show ?thesis by blast
qed

theorem waits_return_what_they_saw_witness:
  "\<exists>pvc. get_claim demo_storage ''ns'' ''c'' demo_driver = (Inr pvc, demo_driver) \<and> pvc_phase pvc = ''Bound''"
proof -
  let ?pvc = "\<lparr>pvc_namespace = ''ns'', pvc_name = ''c'', pvc_accessModes = [], pvc_storage = ''1Gi'',
         pvc_storageClass = None, pvc_phase = ''Bound'', pvc_volumeName = ''pv1''\<rparr>"
  have b: "WaitForPVCBound (\<lambda>i t. poll_upto 1) demo_storage ''ns'' ''c'' 60 demo_driver = (Inr (Some ?pvc), demo_driver)"
    and p: "WaitForPodRunning (\<lambda>i t. poll_upto 1) demo_storage ''ns'' ''p'' 60 demo_driver = (Inr (), demo_driver)"
    and n: "CreateTestNamespace (\<lambda>i t. poll_upto 1) demo_storage ''e2e'' demo_driver = (Inr ''e2e-x'', demo_driver)"
    by (simp_all add: WaitForPVCBound_def WaitForPodRunning_def CreateTestNamespace_def demo_storage_def
        bound_cond_def as_cond_def poll_result_def bindM_def wrapM_def ret_def)
  from waits_return_what_they_saw [OF upto_poller b upto_poller p n] show ?thesis
    by (auto simp: demo_storage_def)
qed

lemma demo_driver_store: "driver_store demo_storage (\<lambda>w. w)"
  by (auto simp: driver_store_def demo_storage_def)

theorem driver_categories_set_witness:
  "\<exists>w1. SetClusterCSIDriverTopologyCategories demo_storage [''b''] demo_driver = (Inr (), w1)
     \<and> map_option fst (cd_vsphere w1) = Some [''b''] \<and> cd_other w1 = ''log''"
proof -
  have s: "SetClusterCSIDriverTopologyCategories demo_storage [''b''] demo_driver =
      (Inr (), set_categories [''b''] demo_driver)"
    by (simp add: SetClusterCSIDriverTopologyCategories_def demo_storage_def bindM_def wrapM_def ret_def)
  obtain r w2 where "SetClusterCSIDriverTopologyCategories demo_storage [''a''] (set_categories [''b''] demo_driver) = (r, w2)"
    by force
  from driver_categories_set [OF demo_driver_store s this] s show ?thesis by (auto simp: demo_driver_def)
qed

section \<open>Nodes\<close>

theorem node_join_watch_witness:
  "\<exists>joined. WatchNodeJoin (\<lambda>i t. poll_upto 1) demo_nodes [''n1''] 60 () = ((joined, None), ())
     \<and> fst ` set joined = {''n1''}"
proof -
  have run: "WatchNodeJoin (\<lambda>i t. poll_upto 1) demo_nodes [''n1''] 60 () =
      (([(''n1'', \<lparr>nj_NodeCreated = 5, nj_NodeReady = 9\<rparr>)], None), ())"
    by (simp add: WatchNodeJoin_def join_cond_def demo_nodes_def note_node_def note_ready_def demo_node_def
        all_joined_def IsZero_def Let_def)
  from node_join_watch [OF upto_poller run] run show ?thesis by auto
qed

end
