(* ===== verification/Spec2Isabelle.thy ===== *)
theory Spec2Isabelle
  imports DemoReports DemoSuite DemoCli DemoStorage
begin

text \<open>
  A verification of the program of the repository: the command \<open>day2-vcenter\<close>, which adds a second
  vCenter to a running OpenShift cluster, checks the result and takes it back, the packages it is
  made of, and the two reporting commands of the test suite.

  \<^bold>\<open>The program.\<close>  \<open>cmd/day2-vcenter/main.go\<close> parses its flags, loads a lab configuration
  (\<open>pkg/labconfig\<close>), makes the API clients (\<open>pkg/framework/client.go\<close>) and calls \<open>Apply\<close>,
  \<open>Restore\<close> or \<open>Verify\<close> of \<open>pkg/lab\<close>.  \<open>Apply\<close> checks its guards, saves the objects it is about
  to change in a backup file unless there is one, merges the credentials of the new vCenter into
  the cloud provider configuration and the secrets, patches the Infrastructure and waits for the
  cluster; \<open>Restore\<close> writes the backup back.  These rest on \<open>pkg/framework\<close> (objects of the
  cluster, feature gates, readiness waits, machine sets, storage, metrics) and \<open>pkg/vsphere\<close>
  (types and cloud configuration, sessions, tags, images).  \<open>cmd/aggregate-junit\<close> and
  \<open>cmd/perf-compare\<close> read result files and print tables.

  \<^bold>\<open>How it is modelled.\<close>  Go structs are records, error values are \<open>goerror\<close>, a Go function that may
  fail returns \<open>goerror + 'a\<close>; maps are association lists without duplicate keys (\<open>gomap\<close>);
  strings are lists of bytes; the replica counts are 32-bit words; durations are nanoseconds;
  \<open>float64\<close> operations are exact operations followed by a rounding to 53 bits (\<open>Float64\<close>).  The
  world outside (API server, vCenter, file system, YAML, JSON, XML and tar codecs, the clock, the
  polling helper) is a record of functions on a state of an arbitrary type; a computation takes
  the state and returns a result and the new state.  The download has a disk for its state, and what the server
  answers depends on the address and on the requests before.  What a theorem needs of these functions is a
  named hypothesis (\<open>store_ok\<close>, \<open>serves\<close>, \<open>healthy_operators\<close>, \<open>poller_ok\<close>, \<open>clock_ok\<close>, \<open>logins_ok\<close>, \<open>tags_ok\<close>,
  \<open>inventory_ok\<close>, \<open>stable_hosts\<close>, \<open>driver_store\<close>, \<open>state_codec_ok\<close>, \<open>cloud_codec_ok\<close>, \<open>names_ok\<close>, \<open>moves_on\<close>, \<open>suite_keeps\<close>),
  and a \<open>Demo\<close> theory instantiates it.

  \<^bold>\<open>The theories.\<close>
    \<^item> \<open>Prelude\<close>, \<open>GoStrings\<close>, \<open>Float64\<close>, \<open>GoFormat\<close>: errors, maps (the locale \<open>go_map\<close>), searches (the
      locale \<open>keyed_list\<close>), the functions of package strings, floating-point numbers, formatting.
    \<^item> \<open>ClusterTypes\<close>, \<open>World\<close>, \<open>Polling\<close>: the API objects; computations with a trace of the calls they
      make, and relations every step keeps (the locale \<open>state_rel\<close>); polling, and the contract of a
      readiness wait (the locale \<open>readiness\<close>).
    \<^item> \<open>FrameworkObjects\<close>, \<open>Readiness\<close>: \<open>infrastructure.go\<close>, \<open>featuregate.go\<close>, \<open>configmap.go\<close>,
      \<open>secrets.go\<close>, \<open>pods.go\<close>; the waits of \<open>conditions.go\<close>, \<open>machine.go\<close> and \<open>storage.go\<close>.
    \<^item> \<open>MachineSets\<close>, \<open>MachineOps\<close>, \<open>MachineTiming\<close>, \<open>NodeJoin\<close>: \<open>machine.go\<close>, \<open>steady_perf.go\<close>,
      \<open>node.go\<close>.
    \<^item> \<open>Topology\<close>, \<open>Storage\<close>: \<open>storage.go\<close>.  \<open>Metrics\<close>: \<open>metrics.go\<close>.
    \<^item> \<open>LabConfigs\<close>: \<open>pkg/labconfig\<close>.  \<open>VSphereConfig\<close>: \<open>types.go\<close>, \<open>cloud_config.go\<close>.
    \<^item> \<open>Sessions\<close>, \<open>SessionCache\<close>: \<open>session.go\<close> and the specification of its cache.  \<open>Tags\<close>: \<open>tags.go\<close>,
      \<open>spbm.go\<close>.  \<open>OvaCache\<close>, \<open>OvaImport\<close>: \<open>image.go\<close>; \<open>OvaConcurrent\<close> interleaves its downloads, one
      system call at a time, and \<open>ArchiveLoops\<close> has its loops without a condition as they stand.
    \<^item> \<open>Credentials\<close>, \<open>LabState\<close>, \<open>LabApply\<close>: \<open>pkg/lab\<close>; the three ways credentials are stored share the
      locale \<open>credential_store\<close>.
    \<^item> \<open>LabSafety\<close>, \<open>LabSpec\<close>, \<open>LabStore\<close>, \<open>LabRoundTrip\<close>, \<open>LabCommit\<close>, \<open>Lifecycle\<close>: properties of \<open>Apply\<close>,
      \<open>Restore\<close> and \<open>Verify\<close>: over the trace of calls for every environment, over the built spec, and
      over an abstract store of objects (the record \<open>cluster\<close>); \<open>Lifecycle\<close> puts \<open>Apply\<close>, the operators
      and \<open>Verify\<close> together.
    \<^item> \<open>Day2Cli\<close>: \<open>client.go\<close>, \<open>cmd/day2-vcenter\<close> and the flags it parses.
    \<^item> \<open>JUnitGrid\<close>, \<open>GridReport\<close>, \<open>HtmlPage\<close>: \<open>cmd/aggregate-junit\<close>, its Markdown table and its HTML page.
      \<open>PerfCompare\<close>, \<open>PerfReport\<close>: \<open>cmd/perf-compare\<close>.
    \<^item> \<open>SuiteTemplates\<close>, \<open>SuiteSpecs\<close>: \<open>test/e2e/helpers_test.go\<close>: the helper that puts sessions, download and
      import together, and the specs that the negative tests send to the API server.
    \<^item> \<open>DemoCluster\<close>, \<open>DemoMachines\<close>, \<open>DemoStorage\<close>, \<open>DemoVSphere\<close>, \<open>DemoCli\<close>, \<open>DemoReports\<close>, \<open>DemoSuite\<close>:
      concrete worlds in which the hypotheses hold, and the properties applied there.

  \<^bold>\<open>What is shown.\<close>  The life of the cluster: a dry run only reads, nothing is changed before a backup
  exists, an \<open>Apply\<close> that fails half way can be undone, and on the command line \<open>restore\<close> undoes
  \<open>apply\<close> whatever its exit status was; what a successful \<open>Apply\<close> leaves behind, and a list of all the calls it
  ever makes; that the new spec stays well formed and what of it is new; what the final wait and \<open>Verify\<close> have seen; that
  \<open>Verify\<close> succeeds after \<open>Apply\<close> once the operators have copied the configuration, and not before.
  Merging: exactly one entry changes in each of the three credential formats, and in the configuration without a
  secret reference the user and password of its global section too.  Waits: they return
  only what a listing showed, and return when the cluster gets ready within the attempts of the
  poller.  Sessions: the cache refines a map, the cached logins are those that are open, and a
  login is lost when a later step of the connection fails.  Images: a download is all or nothing
  under every fault of the file system, downloads that run at the same time exclude each other and
  come to an end even if some are killed, and the loops over an archive return.  An import closes its
  lease, except that it leaves it open when waiting for it or aborting it fails.  Put together by the helper of the tests
  they import only a file with the hash that the cluster names, and leave no login open as long as the vCenter fails no
  lookup of the datacenter, no REST login and no logout.  Each spec of the validation tests breaks the
  rule it is named after, and the list of all rules it breaks is known.  Reports: a cell is the worst result of its test, the
  Markdown table says what the grid says, and no name can put markup into the HTML page.  The command
  line: accepted flags are well typed, and the exit status is truthful.  Round trips: metrics text,
  topology categories, tags, paths, flags.  Bounds: percentiles and shown durations in floating-point
  arithmetic.

  \<^bold>\<open>Bounds.\<close>  A poller is any function that behaves as finitely many attempts of its condition
  (\<open>poller_ok\<close>); how many is not bounded, and a liveness property says how many suffice.  Faults of
  the file system in \<open>OvaCache\<close> are a list of positions at which an operation fails, arbitrary in
  the properties.  A download makes at most eleven steps (\<open>steps_left\<close>); the number of jobs is
  arbitrary.  The loops over an archive are \<open>partial_function (option)\<close>, and are shown to return for
  every reader that moves on.  String scanners terminate by the length of what is left.
  Floating-point numbers have no bound on the exponent.

  \<^bold>\<open>Not modelled.\<close>  The test cases under \<open>test/e2e\<close> (they drive these packages against a live
  cluster) and most of their helpers, the constants only they use, the scripts and manifests, the usage text, progress output
  and logging.  A context's deadline is an error of the call that meets it.  The API machinery, the
  govmomi client and the codecs are parameters, since their code is not in the repository.

  \<^bold>\<open>Next.\<close>  The waits and the measurements of the end-to-end tests, other writers of the cluster during \<open>Apply\<close>, the retry of conflicting updates as a step
  relation, and the typing of labels and names by their grammars.
\<close>

end
